(* ===== verification/Prelude.thy ===== *)
theory Prelude
  imports Main "HOL-Library.Word" "HOL-Library.Sublist"
begin

text \<open>
  What every component shares: the computations of the model (a state passed along, a result
  that is a value, an error, or the crash of the process at an external call), the calculus
  used to prove properties of them, and the few string and integer operations of Rust's
  standard library that the source uses.
\<close>

named_theorems comp_simps \<open>equations that run a computation\<close>
named_theorems leaves_intros \<open>an operation does not touch a part of the state\<close>
named_theorems keeps_intros \<open>an operation preserves a state property\<close>

section \<open>Computations\<close>

text \<open>
  A Rust function returning \<open>Result\<close> and working on shared state is a function from the
  state before to an outcome and the state after. \<open>Crash\<close> is the process dying at an external
  call: nothing of the source can observe or handle it, so no combinator catches it, and the
  state that remains is what a restart finds.
\<close>

datatype ('e, 'a) outcome = Done 'a | Fail 'e | Crash

type_synonym ('s, 'e, 'a) comp = "'s \<Rightarrow> ('e, 'a) outcome \<times> 's"

definition ret :: "'a \<Rightarrow> ('s, 'e, 'a) comp" where
  "ret a s = (Done a, s)"

definition throw :: "'e \<Rightarrow> ('s, 'e, 'a) comp" where
  "throw e s = (Fail e, s)"

text \<open>Sequencing, with the early return of the \<open>?\<close> operator.\<close>

definition bindc :: "('s, 'e, 'a) comp \<Rightarrow> ('a \<Rightarrow> ('s, 'e, 'b) comp) \<Rightarrow> ('s, 'e, 'b) comp" where
  "bindc m k s = (case m s of (r, s') \<Rightarrow>
     (case r of Done a \<Rightarrow> k a s' | Fail e \<Rightarrow> (Fail e, s') | Crash \<Rightarrow> (Crash, s')))"

text \<open>A call whose error is inspected instead of being returned.\<close>

definition attempt :: "('s, 'e, 'a) comp \<Rightarrow> ('s, 'f, 'e + 'a) comp" where
  "attempt m s = (case m s of (r, s') \<Rightarrow>
     (case r of Done a \<Rightarrow> (Done (Inr a), s') | Fail e \<Rightarrow> (Done (Inl e), s') | Crash \<Rightarrow> (Crash, s')))"

definition map_err :: "('e \<Rightarrow> 'f) \<Rightarrow> ('s, 'e, 'a) comp \<Rightarrow> ('s, 'f, 'a) comp" where
  "map_err f m s = (case m s of (r, s') \<Rightarrow>
     (case r of Done a \<Rightarrow> (Done a, s') | Fail e \<Rightarrow> (Fail (f e), s') | Crash \<Rightarrow> (Crash, s')))"

text \<open>\<open>inspect_err\<close>: run a clean-up on the error path and return the same error.\<close>

definition on_error :: "('s, 'e, 'a) comp \<Rightarrow> ('e \<Rightarrow> ('s, 'f, 'b) comp) \<Rightarrow> ('s, 'e, 'a) comp" where
  "on_error m h s = (case m s of (r, s') \<Rightarrow>
     (case r of Done a \<Rightarrow> (Done a, s')
      | Fail e \<Rightarrow> (case h e s' of (r', s'') \<Rightarrow> (if r' = Crash then (Crash, s'') else (Fail e, s'')))
      | Crash \<Rightarrow> (Crash, s')))"

text \<open>A result that is dropped: \<open>.ok()\<close> and \<open>let _ =\<close>.\<close>

definition ignore :: "('s, 'e, 'a) comp \<Rightarrow> ('s, 'f, unit) comp" where
  "ignore m s = (case m s of (r, s') \<Rightarrow> (if r = Crash then (Crash, s') else (Done (), s')))"

definition gets :: "('s \<Rightarrow> 'a) \<Rightarrow> ('s, 'e, 'a) comp" where
  "gets f s = (Done (f s), s)"

definition modify :: "('s \<Rightarrow> 's) \<Rightarrow> ('s, 'e, unit) comp" where
  "modify f s = (Done (), f s)"

definition from_sum :: "'e + 'a \<Rightarrow> ('s, 'e, 'a) comp" where
  "from_sum r = (case r of Inl e \<Rightarrow> throw e | Inr a \<Rightarrow> ret a)"

definition ok_or :: "'e \<Rightarrow> 'a option \<Rightarrow> ('s, 'e, 'a) comp" where
  "ok_or e r = (case r of None \<Rightarrow> throw e | Some a \<Rightarrow> ret a)"

definition guardc :: "bool \<Rightarrow> 'e \<Rightarrow> ('s, 'e, unit) comp" where
  "guardc b e = (if b then ret () else throw e)"

definition whenc :: "bool \<Rightarrow> ('s, 'e, unit) comp \<Rightarrow> ('s, 'e, unit) comp" where
  "whenc b m = (if b then m else ret ())"

primrec forc :: "'a list \<Rightarrow> ('a \<Rightarrow> ('s, 'e, unit) comp) \<Rightarrow> ('s, 'e, unit) comp" where
  "forc [] f = ret ()"
| "forc (x # xs) f = bindc (f x) (\<lambda>_. forc xs f)"

primrec mapc :: "('a \<Rightarrow> ('s, 'e, 'b) comp) \<Rightarrow> 'a list \<Rightarrow> ('s, 'e, 'b list) comp" where
  "mapc f [] = ret []"
| "mapc f (x # xs) = bindc (f x) (\<lambda>y. bindc (mapc f xs) (\<lambda>ys. ret (y # ys)))"

primrec foldc :: "('b \<Rightarrow> 'a \<Rightarrow> ('s, 'e, 'b) comp) \<Rightarrow> 'b \<Rightarrow> 'a list \<Rightarrow> ('s, 'e, 'b) comp" where
  "foldc f acc [] = ret acc"
| "foldc f acc (x # xs) = bindc (f acc x) (\<lambda>acc'. foldc f acc' xs)"

lemmas comp_defs = ret_def throw_def bindc_def attempt_def map_err_def on_error_def ignore_def
  gets_def modify_def from_sum_def ok_or_def guardc_def whenc_def

declare ret_def [comp_simps] throw_def [comp_simps] gets_def [comp_simps] modify_def [comp_simps]

lemma bindc_Done [comp_simps]: "m s = (Done a, s') \<Longrightarrow> bindc m k s = k a s'"
  by (simp add: bindc_def)

lemma bindc_Fail [comp_simps]: "m s = (Fail e, s') \<Longrightarrow> bindc m k s = (Fail e, s')"
  by (simp add: bindc_def)

lemma bindc_Crash [comp_simps]: "m s = (Crash, s') \<Longrightarrow> bindc m k s = (Crash, s')"
  by (simp add: bindc_def)

lemma bindc_DoneE:
  assumes "bindc m k s = (Done b, s')"
  obtains a s1 where "m s = (Done a, s1)" and "k a s1 = (Done b, s')"
  using assms by (auto simp: bindc_def split: prod.splits outcome.splits)

lemma bindc_ret [simp]: "bindc (ret a) k = k a"
  by (simp add: fun_eq_iff bindc_def ret_def)

lemma bindc_throw [simp]: "bindc (throw e) k = throw e"
  by (simp add: fun_eq_iff bindc_def throw_def)

lemma bindc_gets [simp]: "bindc (gets f) k s = k (f s) s"
  by (simp add: bindc_def gets_def)

lemma bindc_modify [simp]: "bindc (modify f) k s = k () (f s)"
  by (simp add: bindc_def modify_def)

lemma bindc_assoc: "bindc (bindc m k) h = bindc m (\<lambda>a. bindc (k a) h)"
  by (auto simp: fun_eq_iff bindc_def split: prod.splits outcome.splits)

lemma map_err_Done: "map_err f m s = (Done a, s') \<longleftrightarrow> m s = (Done a, s')"
  by (auto simp: map_err_def split: prod.splits outcome.splits)

lemma attempt_Inr: "attempt m s = (Done (Inr a), s') \<longleftrightarrow> m s = (Done a, s')"
  by (auto simp: attempt_def split: prod.splits outcome.splits)

section \<open>Preserved properties\<close>

text \<open>
  \<open>keeps I m\<close>: whatever the outcome of \<open>m\<close> (a value, an error, a crash in the middle), a
  state property that held before holds after. Because a crash may be injected at every
  external call, this is a statement about every intermediate state the outside can see.
\<close>

definition keeps :: "('s \<Rightarrow> bool) \<Rightarrow> ('s, 'e, 'a) comp \<Rightarrow> bool" where
  "keeps I m \<longleftrightarrow> (\<forall>s. I s \<longrightarrow> I (snd (m s)))"

lemma keepsI: "(\<And>s. I s \<Longrightarrow> I (snd (m s))) \<Longrightarrow> keeps I m"
  by (simp add: keeps_def)

lemma keepsD: "keeps I m \<Longrightarrow> I s \<Longrightarrow> I (snd (m s))"
  by (simp add: keeps_def)

lemma keeps_run: "keeps I m \<Longrightarrow> m s = (r, s') \<Longrightarrow> I s \<Longrightarrow> I s'"
  by (metis keepsD snd_conv)

lemma keeps_ret [keeps_intros]: "keeps I (ret a)"
  by (simp add: keeps_def ret_def)

lemma keeps_throw [keeps_intros]: "keeps I (throw e)"
  by (simp add: keeps_def throw_def)

lemma keeps_gets [keeps_intros]: "keeps I (gets f)"
  by (simp add: keeps_def gets_def)

lemma keeps_from_sum [keeps_intros]: "keeps I (from_sum r)"
  by (cases r) (simp_all add: from_sum_def keeps_intros)

lemma keeps_ok_or [keeps_intros]: "keeps I (ok_or e r)"
  by (cases r) (simp_all add: ok_or_def keeps_intros)

lemma keeps_guardc [keeps_intros]: "keeps I (guardc b e)"
  by (simp add: guardc_def keeps_intros)

lemma keeps_whenc [keeps_intros]: "(b \<Longrightarrow> keeps I m) \<Longrightarrow> keeps I (whenc b m)"
  by (simp add: whenc_def keeps_intros)

lemma keeps_bindc [keeps_intros]:
  assumes "keeps I m" and "\<And>a. keeps I (k a)"
  shows "keeps I (bindc m k)"
  using assms by (auto simp: keeps_def bindc_def split: prod.splits outcome.splits)

lemma keeps_attempt [keeps_intros]: "keeps I m \<Longrightarrow> keeps I (attempt m)"
  by (auto simp: keeps_def attempt_def split: prod.splits outcome.splits)

lemma keeps_map_err [keeps_intros]: "keeps I m \<Longrightarrow> keeps I (map_err f m)"
  by (auto simp: keeps_def map_err_def split: prod.splits outcome.splits)

lemma keeps_ignore [keeps_intros]: "keeps I m \<Longrightarrow> keeps I (ignore m)"
  by (auto simp: keeps_def ignore_def split: prod.splits outcome.splits)

lemma keeps_on_error [keeps_intros]:
  assumes "keeps I m" and "\<And>e. keeps I (h e)"
  shows "keeps I (on_error m h)"
proof (rule keepsI)
  fix s assume "I s"
  obtain r s' where m: "m s = (r, s')" by fastforce
  then have "I s'" using assms(1) \<open>I s\<close> by (auto dest: keeps_run)
  then have "I (snd (h e s'))" for e using assms(2) by (simp add: keepsD)
  then show "I (snd (on_error m h s))"
    using m \<open>I s'\<close> by (cases r) (simp_all add: on_error_def split: prod.splits, metis snd_conv)
qed

lemma keeps_if [keeps_intros]:
  "(b \<Longrightarrow> keeps I m) \<Longrightarrow> (\<not> b \<Longrightarrow> keeps I n) \<Longrightarrow> keeps I (if b then m else n)"
  by simp

lemma keeps_case_option [keeps_intros]:
  "keeps I m \<Longrightarrow> (\<And>a. keeps I (n a)) \<Longrightarrow> keeps I (case x of None \<Rightarrow> m | Some a \<Rightarrow> n a)"
  by (cases x) auto

lemma keeps_case_sum [keeps_intros]:
  "(\<And>a. keeps I (m a)) \<Longrightarrow> (\<And>b. keeps I (n b)) \<Longrightarrow> keeps I (case x of Inl a \<Rightarrow> m a | Inr b \<Rightarrow> n b)"
  by (cases x) auto

lemma keeps_case_prod [keeps_intros]:
  "(\<And>a b. keeps I (m a b)) \<Longrightarrow> keeps I (case x of (a, b) \<Rightarrow> m a b)"
  by (cases x) auto

lemma keeps_forc [keeps_intros]: "(\<And>x. keeps I (f x)) \<Longrightarrow> keeps I (forc xs f)"
  by (induction xs) (simp_all add: keeps_intros)

lemma keeps_mapc [keeps_intros]: "(\<And>x. keeps I (f x)) \<Longrightarrow> keeps I (mapc f xs)"
  by (induction xs) (simp_all add: keeps_intros)

lemma keeps_foldc [keeps_intros]: "(\<And>acc x. keeps I (f acc x)) \<Longrightarrow> keeps I (foldc f acc xs)"
  by (induction xs arbitrary: acc) (simp_all add: keeps_intros)

lemma keeps_conj: "keeps I m \<Longrightarrow> keeps J m \<Longrightarrow> keeps (\<lambda>s. I s \<and> J s) m"
  by (simp add: keeps_def)

section \<open>Weakest preconditions\<close>

text \<open>
  \<open>wpc m Q s\<close>: running \<open>m\<close> from \<open>s\<close> ends in an outcome and a state that satisfy \<open>Q\<close>. The
  equations push \<open>Q\<close> backwards through the combinators, so the simplifier computes the
  verification condition of a handler.
\<close>

definition wpc :: "('s, 'e, 'a) comp \<Rightarrow> (('e, 'a) outcome \<Rightarrow> 's \<Rightarrow> bool) \<Rightarrow> 's \<Rightarrow> bool" where
  "wpc m Q s = (case m s of (r, s') \<Rightarrow> Q r s')"

lemma wpc_run: "m s = (r, s') \<Longrightarrow> wpc m Q s \<longleftrightarrow> Q r s'"
  by (simp add: wpc_def)

lemma wpcD: "wpc m Q s \<Longrightarrow> m s = (r, s') \<Longrightarrow> Q r s'"
  by (simp add: wpc_def)

lemma wpc_iff: "wpc m Q s \<longleftrightarrow> Q (fst (m s)) (snd (m s))"
  by (simp add: wpc_def split: prod.splits)

lemma wpc_mono: "wpc m Q s \<Longrightarrow> (\<And>r s'. Q r s' \<Longrightarrow> R r s') \<Longrightarrow> wpc m R s"
  by (simp add: wpc_def split: prod.splits)

lemma wpc_ret [simp]: "wpc (ret a) Q s \<longleftrightarrow> Q (Done a) s"
  by (simp add: wpc_def ret_def)

lemma wpc_throw [simp]: "wpc (throw e) Q s \<longleftrightarrow> Q (Fail e) s"
  by (simp add: wpc_def throw_def)

lemma wpc_gets [simp]: "wpc (gets f) Q s \<longleftrightarrow> Q (Done (f s)) s"
  by (simp add: wpc_def gets_def)

lemma wpc_modify [simp]: "wpc (modify f) Q s \<longleftrightarrow> Q (Done ()) (f s)"
  by (simp add: wpc_def modify_def)

lemma wpc_guardc [simp]: "wpc (guardc b e) Q s \<longleftrightarrow> (if b then Q (Done ()) s else Q (Fail e) s)"
  by (simp add: guardc_def)

lemma wpc_whenc [simp]: "wpc (whenc b m) Q s \<longleftrightarrow> (if b then wpc m Q s else Q (Done ()) s)"
  by (simp add: whenc_def)

lemma wpc_ok_or [simp]:
  "wpc (ok_or e r) Q s \<longleftrightarrow> (case r of None \<Rightarrow> Q (Fail e) s | Some a \<Rightarrow> Q (Done a) s)"
  by (simp add: ok_or_def split: option.splits)

lemma wpc_from_sum [simp]:
  "wpc (from_sum r) Q s \<longleftrightarrow> (case r of Inl e \<Rightarrow> Q (Fail e) s | Inr a \<Rightarrow> Q (Done a) s)"
  by (simp add: from_sum_def split: sum.splits)

lemma wpc_bindc [simp]:
  "wpc (bindc m k) Q s \<longleftrightarrow>
     wpc m (\<lambda>r s'. case r of Done a \<Rightarrow> wpc (k a) Q s' | Fail e \<Rightarrow> Q (Fail e) s'
                    | Crash \<Rightarrow> Q Crash s') s"
  by (simp add: wpc_def bindc_def split: prod.splits outcome.splits)

lemma wpc_attempt [simp]:
  "wpc (attempt m) Q s \<longleftrightarrow>
     wpc m (\<lambda>r s'. case r of Done a \<Rightarrow> Q (Done (Inr a)) s' | Fail e \<Rightarrow> Q (Done (Inl e)) s'
                    | Crash \<Rightarrow> Q Crash s') s"
  by (simp add: wpc_def attempt_def split: prod.splits outcome.splits)

lemma wpc_map_err [simp]:
  "wpc (map_err f m) Q s \<longleftrightarrow>
     wpc m (\<lambda>r s'. case r of Done a \<Rightarrow> Q (Done a) s' | Fail e \<Rightarrow> Q (Fail (f e)) s'
                    | Crash \<Rightarrow> Q Crash s') s"
  by (simp add: wpc_def map_err_def split: prod.splits outcome.splits)

lemma wpc_ignore [simp]:
  "wpc (ignore m) Q s \<longleftrightarrow>
     wpc m (\<lambda>r s'. if r = Crash then Q Crash s' else Q (Done ()) s') s"
  by (simp add: wpc_def ignore_def split: prod.splits outcome.splits)

lemma wpc_on_error [simp]:
  "wpc (on_error m h) Q s \<longleftrightarrow>
     wpc m (\<lambda>r s'. case r of Done a \<Rightarrow> Q (Done a) s'
                    | Fail e \<Rightarrow> wpc (h e) (\<lambda>r' s''. if r' = Crash then Q Crash s'' else Q (Fail e) s'') s'
                    | Crash \<Rightarrow> Q Crash s') s"
  by (simp add: wpc_def on_error_def split: prod.splits outcome.splits)

lemma keeps_iff_wpc: "keeps I m \<longleftrightarrow> (\<forall>s. I s \<longrightarrow> wpc m (\<lambda>_. I) s)"
  by (simp add: keeps_def wpc_iff)

lemma wpc_keeps: "keeps I m \<Longrightarrow> I s \<Longrightarrow> wpc m (\<lambda>_. I) s"
  by (simp add: keeps_iff_wpc)

section \<open>Frames\<close>

text \<open>\<open>leaves f m\<close>: \<open>m\<close> does not touch the part \<open>f\<close> of the state, whatever its outcome.\<close>

definition leaves :: "('s \<Rightarrow> 'f) \<Rightarrow> ('s, 'e, 'a) comp \<Rightarrow> bool" where
  "leaves f m \<longleftrightarrow> (\<forall>s. f (snd (m s)) = f s)"

lemma leaves_run: "leaves f m \<Longrightarrow> m s = (r, s') \<Longrightarrow> f s' = f s"
  by (metis leaves_def snd_conv)

lemma leaves_iff_keeps: "leaves f m \<longleftrightarrow> (\<forall>v. keeps (\<lambda>s. f s = v) m)"
  by (auto simp: leaves_def keeps_def)

lemma leavesI: "(\<And>v. keeps (\<lambda>s. f s = v) m) \<Longrightarrow> leaves f m"
  by (simp add: leaves_iff_keeps)

lemma leavesD: "leaves f m \<Longrightarrow> m s = (r, s') \<Longrightarrow> f s' = f s"
  by (metis leaves_def snd_conv)

lemma keeps_leaves: "leaves f m \<Longrightarrow> keeps (\<lambda>s. J (f s)) m"
  by (simp add: leaves_def keeps_def)

lemma keeps_leaves2: "leaves f m \<Longrightarrow> leaves g m \<Longrightarrow> keeps (\<lambda>s. J (f s) (g s)) m"
  by (simp add: leaves_def keeps_def)

lemma leaves_ret [leaves_intros]: "leaves f (ret a)"
  and leaves_throw [leaves_intros]: "leaves f (throw e)"
  and leaves_gets [leaves_intros]: "leaves f (gets g)"
  and leaves_from_sum [leaves_intros]: "leaves f (from_sum r)"
  and leaves_ok_or [leaves_intros]: "leaves f (ok_or e' x)"
  and leaves_guardc [leaves_intros]: "leaves f (guardc b e'')"
  by (simp_all add: leaves_iff_keeps keeps_intros)

lemma leaves_modify [leaves_intros]: "(\<And>s. f (h s) = f s) \<Longrightarrow> leaves f (modify h)"
  by (simp add: leaves_def modify_def)

lemma leaves_whenc [leaves_intros]: "leaves f m \<Longrightarrow> leaves f (whenc b m)"
  by (simp add: leaves_iff_keeps keeps_intros)

lemma leaves_attempt [leaves_intros]: "leaves f m \<Longrightarrow> leaves f (attempt m)"
  and leaves_map_err [leaves_intros]: "leaves f m \<Longrightarrow> leaves f (map_err h m)"
  and leaves_ignore [leaves_intros]: "leaves f m \<Longrightarrow> leaves f (ignore m)"
  by (simp_all add: leaves_iff_keeps keeps_intros)

lemma leaves_bindc [leaves_intros]:
  "leaves f m \<Longrightarrow> (\<And>a. leaves f (k a)) \<Longrightarrow> leaves f (bindc m k)"
  by (simp add: leaves_iff_keeps keeps_intros)

lemma leaves_on_error [leaves_intros]:
  "leaves f m \<Longrightarrow> (\<And>e. leaves f (h e)) \<Longrightarrow> leaves f (on_error m h)"
  by (simp add: leaves_iff_keeps keeps_intros)

lemma leaves_if [leaves_intros]:
  "(b \<Longrightarrow> leaves f m) \<Longrightarrow> (\<not> b \<Longrightarrow> leaves f n) \<Longrightarrow> leaves f (if b then m else n)"
  by simp

lemma leaves_case_option [leaves_intros]:
  "leaves f m \<Longrightarrow> (\<And>a. leaves f (n a)) \<Longrightarrow> leaves f (case x of None \<Rightarrow> m | Some a \<Rightarrow> n a)"
  by (cases x) auto

lemma leaves_case_sum [leaves_intros]:
  "(\<And>a. leaves f (m a)) \<Longrightarrow> (\<And>b. leaves f (n b)) \<Longrightarrow> leaves f (case x of Inl a \<Rightarrow> m a | Inr b \<Rightarrow> n b)"
  by (cases x) auto

lemma leaves_case_prod [leaves_intros]:
  "(\<And>a b. leaves f (m a b)) \<Longrightarrow> leaves f (case x of (a, b) \<Rightarrow> m a b)"
  by (cases x) auto

lemma leaves_forc [leaves_intros]: "(\<And>x. leaves f (g x)) \<Longrightarrow> leaves f (forc xs g)"
  and leaves_mapc [leaves_intros]: "(\<And>x. leaves f (g' x)) \<Longrightarrow> leaves f (mapc g' xs)"
  and leaves_foldc [leaves_intros]: "(\<And>acc x. leaves f (g'' acc x)) \<Longrightarrow> leaves f (foldc g'' acc' xs)"
  by (simp_all add: leaves_iff_keeps keeps_intros)

section \<open>Triples\<close>

text \<open>
  \<open>triple P m Q E\<close>: from a state satisfying \<open>P\<close>, \<open>m\<close> ends with a value and a state related by
  \<open>Q\<close>, or with an error or a crash in a state satisfying \<open>E\<close>.
\<close>

definition triple ::
  "('s \<Rightarrow> bool) \<Rightarrow> ('s, 'e, 'a) comp \<Rightarrow> ('a \<Rightarrow> 's \<Rightarrow> bool) \<Rightarrow> ('s \<Rightarrow> bool) \<Rightarrow> bool" where
  "triple P m Q E \<longleftrightarrow>
     (\<forall>s. P s \<longrightarrow> (case m s of (r, s') \<Rightarrow> (case r of Done a \<Rightarrow> Q a s' | Fail e \<Rightarrow> E s' | Crash \<Rightarrow> E s')))"

lemma tripleI:
  assumes "\<And>s a s'. P s \<Longrightarrow> m s = (Done a, s') \<Longrightarrow> Q a s'"
    and "\<And>s e s'. P s \<Longrightarrow> m s = (Fail e, s') \<Longrightarrow> E s'"
    and "\<And>s s'. P s \<Longrightarrow> m s = (Crash, s') \<Longrightarrow> E s'"
  shows "triple P m Q E"
  using assms by (auto simp: triple_def split: prod.splits outcome.splits)

lemma triple_Done: "triple P m Q E \<Longrightarrow> P s \<Longrightarrow> m s = (Done a, s') \<Longrightarrow> Q a s'"
  by (fastforce simp: triple_def)

lemma triple_Fail: "triple P m Q E \<Longrightarrow> P s \<Longrightarrow> m s = (Fail e, s') \<Longrightarrow> E s'"
  by (fastforce simp: triple_def)

lemma triple_Crash: "triple P m Q E \<Longrightarrow> P s \<Longrightarrow> m s = (Crash, s') \<Longrightarrow> E s'"
  by (fastforce simp: triple_def)

lemma triple_conseq:
  assumes "triple P' m Q' E'" and "\<And>s. P s \<Longrightarrow> P' s" and "\<And>a s. Q' a s \<Longrightarrow> Q a s" and "\<And>s. E' s \<Longrightarrow> E s"
  shows "triple P m Q E"
  by (rule tripleI) (use assms triple_Done triple_Fail triple_Crash in metis)+

lemma triple_pre: "triple P' m Q E \<Longrightarrow> (\<And>s. P s \<Longrightarrow> P' s) \<Longrightarrow> triple P m Q E"
  by (rule triple_conseq)

lemma triple_post: "triple P m Q' E \<Longrightarrow> (\<And>a s. Q' a s \<Longrightarrow> Q a s) \<Longrightarrow> triple P m Q E"
  by (rule triple_conseq)

lemma triple_assume: "(A \<Longrightarrow> triple P m Q E) \<Longrightarrow> triple (\<lambda>s. P s \<and> A) m Q E"
  by (cases A) (auto simp: triple_def)

lemma triple_bindc:
  assumes "triple P m Q E" and "\<And>a. triple (Q a) (k a) R E"
  shows "triple P (bindc m k) R E"
proof -
  have "case bindc m k s of (r, s') \<Rightarrow> (case r of Done a \<Rightarrow> R a s' | Fail e \<Rightarrow> E s' | Crash \<Rightarrow> E s')"
    if "P s" for s
  proof (cases "m s")
    case (Pair r s')
    show ?thesis
    proof (cases r)
      case (Done a)
      then have "Q a s'" using assms(1) \<open>P s\<close> Pair by (auto intro: triple_Done)
      then show ?thesis using assms(2) [of a] Pair Done by (simp add: triple_def bindc_def)
    next
      case (Fail e)
      then show ?thesis using triple_Fail [OF assms(1) \<open>P s\<close>] Pair by (simp add: bindc_def)
    next
      case Crash
      then show ?thesis using triple_Crash [OF assms(1) \<open>P s\<close>] Pair by (simp add: bindc_def)
    qed
  qed
  then show ?thesis by (simp add: triple_def)
qed

lemma triple_ret: "(\<And>s. P s \<Longrightarrow> Q a s) \<Longrightarrow> triple P (ret a) Q E"
  by (simp add: triple_def ret_def)

lemma triple_throw: "(\<And>s. P s \<Longrightarrow> E s) \<Longrightarrow> triple P (throw e) Q E"
  by (simp add: triple_def throw_def)

lemma triple_gets: "(\<And>s. P s \<Longrightarrow> Q (f s) s) \<Longrightarrow> triple P (gets f) Q E"
  by (simp add: triple_def gets_def)

lemma triple_modify: "(\<And>s. P s \<Longrightarrow> Q () (f s)) \<Longrightarrow> triple P (modify f) Q E"
  by (simp add: triple_def modify_def)

lemma triple_ok_or:
  "(\<And>a s. x = Some a \<Longrightarrow> P s \<Longrightarrow> Q a s) \<Longrightarrow> (\<And>s. x = None \<Longrightarrow> P s \<Longrightarrow> E s) \<Longrightarrow> triple P (ok_or e x) Q E"
  by (cases x) (simp_all add: ok_or_def triple_ret triple_throw)

lemma triple_from_sum:
  "(\<And>a s. r = Inr a \<Longrightarrow> P s \<Longrightarrow> Q a s) \<Longrightarrow> (\<And>s. P s \<Longrightarrow> E s) \<Longrightarrow> triple P (from_sum r) Q E"
  by (cases r) (simp_all add: from_sum_def triple_ret triple_throw)

lemma triple_guardc:
  "(\<And>s. b \<Longrightarrow> P s \<Longrightarrow> Q () s) \<Longrightarrow> (\<And>s. \<not> b \<Longrightarrow> P s \<Longrightarrow> E s) \<Longrightarrow> triple P (guardc b e) Q E"
  by (simp add: guardc_def triple_ret triple_throw)

lemma triple_if:
  "(b \<Longrightarrow> triple P m Q E) \<Longrightarrow> (\<not> b \<Longrightarrow> triple P n Q E) \<Longrightarrow> triple P (if b then m else n) Q E"
  by simp

lemma triple_case_option:
  "(x = None \<Longrightarrow> triple P m Q E) \<Longrightarrow> (\<And>a. x = Some a \<Longrightarrow> triple P (n a) Q E)
    \<Longrightarrow> triple P (case x of None \<Rightarrow> m | Some a \<Rightarrow> n a) Q E"
  by (cases x) auto

lemma triple_map_err: "triple P m Q E \<Longrightarrow> triple P (map_err f m) Q E"
  by (auto simp: triple_def map_err_def split: prod.splits outcome.splits)

lemma triple_ignore:
  "triple P m (\<lambda>_. R ()) (\<lambda>s. R () s \<and> E s) \<Longrightarrow> triple P (ignore m) R E"
  unfolding triple_def ignore_def
  by (auto split: prod.splits outcome.splits) (metis outcome.exhaust)

lemma triple_attempt:
  "triple P m (\<lambda>a. R (Inr a)) (\<lambda>s. (\<forall>e. R (Inl e) s) \<and> E s) \<Longrightarrow> triple P (attempt m) R E"
  unfolding triple_def attempt_def by (auto split: prod.splits outcome.splits)

lemma triple_on_error:
  assumes "triple P m Q E'" and "\<And>e. triple E' (h e) (\<lambda>_. E) E" and "\<And>s. E' s \<Longrightarrow> E s"
  shows "triple P (on_error m h) Q E"
proof (rule tripleI)
  fix s a s' assume "P s" and "on_error m h s = (Done a, s')"
  then show "Q a s'" using triple_Done [OF assms(1)]
    by (auto simp: on_error_def split: prod.splits outcome.splits if_splits)
next
  fix s e s' assume P: "P s" and run: "on_error m h s = (Fail e, s')"
  then obtain s1 r where m: "m s = (Fail e, s1)" and h: "h e s1 = (r, s')"
    by (auto simp: on_error_def split: prod.splits outcome.splits if_splits)
  have "E' s1" using triple_Fail [OF assms(1) P m] .
  then show "E s'" using assms(2) h by (cases r) (auto dest: triple_Done triple_Fail triple_Crash)
next
  fix s s' assume P: "P s" and run: "on_error m h s = (Crash, s')"
  then consider "m s = (Crash, s')" | e s1 where "m s = (Fail e, s1)" "h e s1 = (Crash, s')"
    by (auto simp: on_error_def split: prod.splits outcome.splits if_splits)
  then show "E s'"
  proof cases
    case 1
    then show ?thesis using triple_Crash [OF assms(1) P] assms(3) by blast
  next
    case 2
    then show ?thesis using triple_Fail [OF assms(1) P] triple_Crash [OF assms(2)] by blast
  qed
qed

lemma keeps_iff_triple: "keeps I m \<longleftrightarrow> triple I m (\<lambda>_. I) I"
proof -
  have "(case m s of (r, s') \<Rightarrow> (case r of Done a \<Rightarrow> I s' | Fail e \<Rightarrow> I s' | Crash \<Rightarrow> I s')) \<longleftrightarrow> I (snd (m s))" for s
    by (cases "m s"; cases "fst (m s)") simp_all
  then show ?thesis by (simp add: keeps_def triple_def)
qed

lemma triple_final: "triple P m (\<lambda>_. I) I \<Longrightarrow> P s \<Longrightarrow> I (snd (m s))"
  by (cases "m s"; cases "fst (m s)") (fastforce simp: triple_def)+

lemma triple_keeps: "keeps P m \<Longrightarrow> (\<And>s. P s \<Longrightarrow> E s) \<Longrightarrow> triple P m (\<lambda>_. P) E"
  by (auto simp: keeps_iff_triple intro: triple_conseq)

lemma triple_forc:
  "(\<And>x. x \<in> set xs \<Longrightarrow> triple P (f x) (\<lambda>_. P) E) \<Longrightarrow> triple P (forc xs f) (\<lambda>_. P) E"
  by (induction xs) (auto intro: triple_ret triple_bindc)

section \<open>Lists\<close>

lemma find_SomeD: "find P xs = Some x \<Longrightarrow> x \<in> set xs \<and> P x"
  by (metis find_Some_iff nth_mem)

lemma find_Some_ex: "x \<in> set xs \<Longrightarrow> P x \<Longrightarrow> \<exists>y. find P xs = Some y"
  by (metis find_None_iff not_None_eq)

lemma find_append: "find P (xs @ ys) = (case find P xs of Some x \<Rightarrow> Some x | None \<Rightarrow> find P ys)"
  by (induction xs) auto

lemma find_filter: "(\<And>x. P x \<Longrightarrow> Q x) \<Longrightarrow> find P (filter Q xs) = find P xs"
  by (induction xs) auto

end
