(* ===== verification/Rust_Std.thy ===== *)
theory Rust_Std
  imports Prelude
begin

text \<open>
  The parts of Rust's standard library the source relies on: text and integer conversions.
  A \<open>String\<close> is its UTF-8 bytes, one \<open>char\<close> each, so \<open>length\<close> is \<open>str::len\<close>. A predicate the
  source applies to every \<open>char\<close> of a text with \<open>is_ascii_*\<close> is false on each byte of a
  non-ASCII character, so testing the bytes gives the same answer.
\<close>

section \<open>ASCII classes\<close>

abbreviation code :: "char \<Rightarrow> nat" where
  "code c \<equiv> of_char c"

definition is_ascii_lowercase :: "char \<Rightarrow> bool" where
  "is_ascii_lowercase c \<longleftrightarrow> 97 \<le> code c \<and> code c \<le> 122"

definition is_ascii_uppercase :: "char \<Rightarrow> bool" where
  "is_ascii_uppercase c \<longleftrightarrow> 65 \<le> code c \<and> code c \<le> 90"

definition is_ascii_alphabetic :: "char \<Rightarrow> bool" where
  "is_ascii_alphabetic c \<longleftrightarrow> is_ascii_lowercase c \<or> is_ascii_uppercase c"

definition is_ascii_digit :: "char \<Rightarrow> bool" where
  "is_ascii_digit c \<longleftrightarrow> 48 \<le> code c \<and> code c \<le> 57"

definition is_ascii_alphanumeric :: "char \<Rightarrow> bool" where
  "is_ascii_alphanumeric c \<longleftrightarrow> is_ascii_alphabetic c \<or> is_ascii_digit c"

definition ascii_upper :: string where
  "ascii_upper = ''ABCDEFGHIJKLMNOPQRSTUVWXYZ''"

definition ascii_lower :: string where
  "ascii_lower = ''abcdefghijklmnopqrstuvwxyz''"

definition to_ascii_lower :: "char \<Rightarrow> char" where
  "to_ascii_lower c = (case map_of (zip ascii_upper ascii_lower) c of Some d \<Rightarrow> d | None \<Rightarrow> c)"

definition to_lowercase :: "string \<Rightarrow> string" where
  "to_lowercase s = map to_ascii_lower s"

definition eq_ignore_ascii_case :: "string \<Rightarrow> string \<Rightarrow> bool" where
  "eq_ignore_ascii_case a b \<longleftrightarrow> to_lowercase a = to_lowercase b"

lemma ascii_upper_uppercase: "c \<in> set ascii_upper \<Longrightarrow> is_ascii_uppercase c"
proof -
  have "list_all is_ascii_uppercase ascii_upper"
    by (simp add: ascii_upper_def is_ascii_uppercase_def)
  then show "c \<in> set ascii_upper \<Longrightarrow> is_ascii_uppercase c" by (simp add: list_all_iff)
qed

lemma ascii_lower_not_uppercase: "c \<in> set ascii_lower \<Longrightarrow> \<not> is_ascii_uppercase c"
proof -
  have "list_all (\<lambda>c. \<not> is_ascii_uppercase c) ascii_lower"
    by (simp add: ascii_lower_def is_ascii_uppercase_def)
  then show "c \<in> set ascii_lower \<Longrightarrow> \<not> is_ascii_uppercase c" by (simp add: list_all_iff)
qed

lemma to_ascii_lower_id: "\<not> is_ascii_uppercase c \<Longrightarrow> to_ascii_lower c = c"
  by (auto simp: to_ascii_lower_def split: option.split
      dest!: map_of_SomeD set_zip_leftD ascii_upper_uppercase)

lemma to_ascii_lower_idem [simp]: "to_ascii_lower (to_ascii_lower c) = to_ascii_lower c"
proof (cases "map_of (zip ascii_upper ascii_lower) c")
  case (Some d)
  then have "d \<in> set ascii_lower" by (auto dest!: map_of_SomeD set_zip_rightD)
  then show ?thesis
    using Some by (simp add: to_ascii_lower_id ascii_lower_not_uppercase to_ascii_lower_def [of c])
qed (simp add: to_ascii_lower_def)

lemma to_lowercase_idem [simp]: "to_lowercase (to_lowercase s) = to_lowercase s"
  by (simp add: to_lowercase_def)

lemma length_to_lowercase [simp]: "length (to_lowercase s) = length s"
  by (simp add: to_lowercase_def)

lemma to_lowercase_append [simp]: "to_lowercase (a @ b) = to_lowercase a @ to_lowercase b"
  by (simp add: to_lowercase_def)

lemma to_lowercase_id: "(\<forall>c\<in>set s. \<not> is_ascii_uppercase c) \<Longrightarrow> to_lowercase s = s"
  by (induction s) (simp_all add: to_lowercase_def to_ascii_lower_id)

section \<open>Prefixes, suffixes and splitting\<close>

definition starts_with :: "string \<Rightarrow> string \<Rightarrow> bool" where
  "starts_with p s \<longleftrightarrow> take (length p) s = p"

definition ends_with :: "string \<Rightarrow> string \<Rightarrow> bool" where
  "ends_with p s \<longleftrightarrow> length p \<le> length s \<and> drop (length s - length p) s = p"

definition strip_prefix :: "string \<Rightarrow> string \<Rightarrow> string option" where
  "strip_prefix p s = (if starts_with p s then Some (drop (length p) s) else None)"

definition strip_suffix :: "string \<Rightarrow> string \<Rightarrow> string option" where
  "strip_suffix p s = (if ends_with p s then Some (take (length s - length p) s) else None)"

fun split_once :: "char \<Rightarrow> string \<Rightarrow> (string \<times> string) option" where
  "split_once d [] = None"
| "split_once d (c # s) =
     (if c = d then Some ([], s) else map_option (\<lambda>(a, b). (c # a, b)) (split_once d s))"

fun split_on :: "char \<Rightarrow> string \<Rightarrow> string list" where
  "split_on d [] = [[]]"
| "split_on d (c # s) =
     (if c = d then [] # split_on d s
      else (case split_on d s of [] \<Rightarrow> [[c]] | x # xs \<Rightarrow> (c # x) # xs))"

fun find_map :: "('a \<Rightarrow> 'b option) \<Rightarrow> 'a list \<Rightarrow> 'b option" where
  "find_map f [] = None"
| "find_map f (x # xs) = (case f x of Some y \<Rightarrow> Some y | None \<Rightarrow> find_map f xs)"

lemma starts_with_append [simp]: "starts_with p (p @ s)"
  by (simp add: starts_with_def)

lemma starts_with_iff: "starts_with p s \<longleftrightarrow> (\<exists>t. s = p @ t)"
  by (metis append_take_drop_id starts_with_append starts_with_def)

lemma strip_prefix_append [simp]: "strip_prefix p (p @ s) = Some s"
  by (simp add: strip_prefix_def)

lemma strip_prefix_Some: "strip_prefix p s = Some t \<longleftrightarrow> s = p @ t"
  by (auto simp: strip_prefix_def starts_with_iff split: if_splits)

lemma ends_with_iff: "ends_with p s \<longleftrightarrow> (\<exists>t. s = t @ p)"
proof
  assume "ends_with p s"
  then have "s = take (length s - length p) s @ p"
    unfolding ends_with_def by (metis append_take_drop_id)
  then show "\<exists>t. s = t @ p" ..
qed (auto simp: ends_with_def)

lemma strip_suffix_Some: "strip_suffix p s = Some t \<longleftrightarrow> s = t @ p"
  by (auto simp: strip_suffix_def ends_with_iff split: if_splits)

lemma split_once_Some:
  "split_once d s = Some (a, b) \<longleftrightarrow> s = a @ d # b \<and> d \<notin> set a"
proof (induction s arbitrary: a)
  case (Cons c s)
  show ?case
  proof (cases "c = d")
    case False
    then show ?thesis by (cases a) (auto simp: Cons.IH)
  qed (cases a; auto)
qed simp

lemma split_once_None: "split_once d s = None \<longleftrightarrow> d \<notin> set s"
  by (induction s) auto

lemma split_once_append: "d \<notin> set a \<Longrightarrow> split_once d (a @ d # b) = Some (a, b)"
  by (simp add: split_once_Some)

lemma split_on_ne [simp]: "split_on d s \<noteq> []"
  by (induction s) (auto split: list.splits)

lemma find_map_Some: "find_map f xs = Some y \<Longrightarrow> \<exists>x\<in>set xs. f x = Some y"
  by (induction xs) (auto split: option.splits)

section \<open>Trimming\<close>

text \<open>
  The UTF-8 encodings of the characters with the Unicode property \<open>White_Space\<close>, which
  \<open>str::trim\<close> removes at both ends.
\<close>

definition white_space :: "string list" where
  "white_space = [
      [CHR 0x09], [CHR 0x0A], [CHR 0x0B], [CHR 0x0C],
      [CHR 0x0D], [CHR 0x20], [CHR 0xC2, CHR 0x85], [CHR 0xC2, CHR 0xA0],
      [CHR 0xE1, CHR 0x9A, CHR 0x80], [CHR 0xE2, CHR 0x80, CHR 0x80], [CHR 0xE2, CHR 0x80, CHR 0x81], [CHR 0xE2, CHR 0x80, CHR 0x82],
      [CHR 0xE2, CHR 0x80, CHR 0x83], [CHR 0xE2, CHR 0x80, CHR 0x84], [CHR 0xE2, CHR 0x80, CHR 0x85], [CHR 0xE2, CHR 0x80, CHR 0x86],
      [CHR 0xE2, CHR 0x80, CHR 0x87], [CHR 0xE2, CHR 0x80, CHR 0x88], [CHR 0xE2, CHR 0x80, CHR 0x89], [CHR 0xE2, CHR 0x80, CHR 0x8A],
      [CHR 0xE2, CHR 0x80, CHR 0xA8], [CHR 0xE2, CHR 0x80, CHR 0xA9], [CHR 0xE2, CHR 0x80, CHR 0xAF], [CHR 0xE2, CHR 0x81, CHR 0x9F],
      [CHR 0xE3, CHR 0x80, CHR 0x80]]"

lemma white_space_ne: "w \<in> set white_space \<Longrightarrow> w \<noteq> []"
  by (auto simp: white_space_def)

function trim_start :: "string \<Rightarrow> string" where
  "trim_start s = (case find (\<lambda>w. starts_with w s) white_space of
       None \<Rightarrow> s | Some w \<Rightarrow> if s = [] then [] else trim_start (drop (length w) s))"
  by pat_completeness auto
termination
proof (relation "measure length")
  fix s w
  assume "find (\<lambda>w. starts_with w s) white_space = Some w" and "s \<noteq> []"
  then have "w \<in> set white_space" by (metis find_Some_iff nth_mem)
  then have "w \<noteq> []" by (rule white_space_ne)
  with \<open>s \<noteq> []\<close> show "(drop (length w) s, s) \<in> measure length" by simp
qed simp

declare trim_start.simps [simp del]

function trim_end :: "string \<Rightarrow> string" where
  "trim_end s = (case find (\<lambda>w. ends_with w s) white_space of
       None \<Rightarrow> s | Some w \<Rightarrow> if s = [] then [] else trim_end (take (length s - length w) s))"
  by pat_completeness auto
termination
proof (relation "measure length")
  fix s w
  assume "find (\<lambda>w. ends_with w s) white_space = Some w" and "s \<noteq> []"
  then have "w \<in> set white_space" by (metis find_Some_iff nth_mem)
  then have "w \<noteq> []" by (rule white_space_ne)
  with \<open>s \<noteq> []\<close> show "(take (length s - length w) s, s) \<in> measure length" by simp
qed simp

declare trim_end.simps [simp del]

definition trim :: "string \<Rightarrow> string" where
  "trim s = trim_end (trim_start s)"

section \<open>UTF-8\<close>

text \<open>The well-formed UTF-8 byte sequences, the invariant of \<open>String\<close> that \<open>from_utf8\<close> checks.\<close>

definition cont :: "nat \<Rightarrow> nat \<Rightarrow> char \<Rightarrow> bool" where
  "cont lo hi c \<longleftrightarrow> lo \<le> (of_char c :: nat) \<and> of_char c \<le> hi"

text \<open>The ranges of the bytes that must follow a lead byte, and how many of them do.\<close>

definition tail_ranges :: "char \<Rightarrow> (nat \<times> nat) list" where
  "tail_ranges a =
     (if cont 0xC2 0xDF a then [(0x80, 0xBF)]
      else if cont 0xE0 0xEF a then
        [(if cont 0xE0 0xE0 a then 0xA0 else 0x80, if cont 0xED 0xED a then 0x9F else 0xBF), (0x80, 0xBF)]
      else if cont 0xF0 0xF4 a then
        [(if cont 0xF0 0xF0 a then 0x90 else 0x80, if cont 0xF4 0xF4 a then 0x8F else 0xBF), (0x80, 0xBF), (0x80, 0xBF)]
      else [])"

fun matched :: "(nat \<times> nat) list \<Rightarrow> string \<Rightarrow> nat" where
  "matched ((lo, hi) # rs) (c # cs) = (if cont lo hi c then Suc (matched rs cs) else 0)"
| "matched _ _ = 0"

function valid_utf8 :: "string \<Rightarrow> bool" where
  "valid_utf8 [] = True"
| "valid_utf8 (a # rest) =
     (if cont 0 0x7F a then valid_utf8 rest
      else let n = length (tail_ranges a) in n \<noteq> 0 \<and> matched (tail_ranges a) rest = n \<and> valid_utf8 (drop n rest))"
  by pat_completeness auto
termination by (relation "measure length") auto

text \<open>\<open>String::from_utf8_lossy\<close>: each maximal part that cannot be completed becomes U+FFFD.\<close>

function utf8_lossy :: "string \<Rightarrow> string" where
  "utf8_lossy [] = []"
| "utf8_lossy (a # rest) =
     (if cont 0 0x7F a then a # utf8_lossy rest
      else let n = matched (tail_ranges a) rest in
        (if tail_ranges a \<noteq> [] \<and> n = length (tail_ranges a) then a # take n rest
         else [CHR 0xEF, CHR 0xBF, CHR 0xBD]) @ utf8_lossy (drop n rest))"
  by pat_completeness auto
termination by (relation "measure length") auto

lemma utf8_lossy_valid: "valid_utf8 s \<Longrightarrow> utf8_lossy s = s"
  by (induction s rule: valid_utf8.induct) (auto simp: Let_def split: if_splits)

lemma ascii_valid: "list_all (cont 0 0x7F) s \<Longrightarrow> valid_utf8 s"
  by (induction s) simp_all

declare valid_utf8.simps(2) [simp del] utf8_lossy.simps(2) [simp del]

section \<open>Decimal display\<close>

fun show_nat :: "nat \<Rightarrow> string" where
  "show_nat n = (if n < 10 then [''0123456789'' ! n]
                 else show_nat (n div 10) @ [''0123456789'' ! (n mod 10)])"

declare show_nat.simps [simp del]

definition show_int :: "int \<Rightarrow> string" where
  "show_int i = (if i < 0 then CHR ''-'' # show_nat (nat (- i)) else show_nat (nat i))"

section \<open>Machine integers\<close>

type_synonym u8 = "8 word"
type_synonym u16 = "16 word"
type_synonym u64 = "64 word"

definition i64_max :: int where
  "i64_max = 2 ^ 63 - 1"

text \<open>Two's complement wrap-around of an \<open>i64\<close> operation.\<close>

definition wrap_i64 :: "int \<Rightarrow> int" where
  "wrap_i64 i = signed_take_bit 63 i"

text \<open>\<open>i64::try_from(n).unwrap_or(i64::MAX)\<close> and \<open>u64::try_from(i).unwrap_or(0)\<close>.\<close>

definition i64_from_u64 :: "u64 \<Rightarrow> int" where
  "i64_from_u64 n = (if uint n \<le> i64_max then uint n else i64_max)"

definition u64_from_i64 :: "int \<Rightarrow> u64" where
  "u64_from_i64 i = (if i < 0 then 0 else of_int i)"

text \<open>\<open>u64::saturating_add\<close> and \<open>u64::saturating_sub\<close>.\<close>

definition sat_add_u64 :: "u64 \<Rightarrow> u64 \<Rightarrow> u64" where
  "sat_add_u64 a b = (if unat a + unat b < 2 ^ 64 then a + b else - 1)"

definition sat_sub_u64 :: "u64 \<Rightarrow> u64 \<Rightarrow> u64" where
  "sat_sub_u64 a b = (if b \<le> a then a - b else 0)"

lemma wrap_i64_id: "- (2 ^ 63) \<le> i \<Longrightarrow> i < 2 ^ 63 \<Longrightarrow> wrap_i64 i = i"
  by (simp add: wrap_i64_def signed_take_bit_int_eq_self)

lemma unat_sat_add_u64: "unat (sat_add_u64 a b) = min (unat a + unat b) (2 ^ 64 - 1)"
proof (cases "unat a + unat b < 2 ^ 64")
  case True
  then show ?thesis by (simp add: sat_add_u64_def unat_word_ariths)
next
  case False
  moreover have "unat (- 1 :: u64) = 2 ^ 64 - 1"
    by (simp add: unsigned_minus_1_eq_mask mask_eq_exp_minus_1)
  ultimately show ?thesis by (simp add: sat_add_u64_def)
qed

lemma sat_add_u64_code [code]: "sat_add_u64 a b = (if uint a + uint b < 2 ^ 64 then a + b else - 1)"
proof -
  have "unat a + unat b < 2 ^ 64 \<longleftrightarrow> int (unat a + unat b) < int (2 ^ 64)" by (rule of_nat_less_iff [symmetric])
  also have "\<dots> \<longleftrightarrow> uint a + uint b < 2 ^ 64" by simp
  finally show ?thesis by (simp only: sat_add_u64_def)
qed

lemma sat_add_u64_mono: "a \<le> sat_add_u64 a b"
proof -
  have "unat a \<le> min (unat a + unat b) (2 ^ 64 - 1)"
    using unsigned_less [of a, where 'a = nat] by simp
  then show ?thesis by (simp only: word_le_nat_alt unat_sat_add_u64)
qed

lemma u64_i64_roundtrip: "uint n \<le> i64_max \<Longrightarrow> u64_from_i64 (i64_from_u64 n) = n"
  by (simp add: u64_from_i64_def i64_from_u64_def)

lemma i64_from_u64_nonneg: "0 \<le> i64_from_u64 n"
  by (simp add: i64_from_u64_def i64_max_def)

end
