(* ===== verification/Models.thy ===== *)
theory Models
  imports Rust_Std
begin

text \<open>
  The crate \<open>berth-models\<close>: the data types shared by the hub and the agent, and the validation
  of user input. Timestamps are epoch seconds.
\<close>

section \<open>Data\<close>

datatype model_error =
    ModelInvalidName string
  | ModelInvalidRepoUrl string
  | ModelInvalidRunConfig string
  | ModelInvalidBuildConfig string
  | ModelInvalidEnvVar string

datatype permission_level = Read | Write

definition satisfies :: "permission_level \<Rightarrow> permission_level \<Rightarrow> bool" where
  "satisfies self required =
     (case (self, required) of (Write, _) \<Rightarrow> True | (Read, Read) \<Rightarrow> True | _ \<Rightarrow> False)"

record app_permission =
  perm_username :: string
  perm_level :: permission_level

datatype env_var_value = Plain string | Secret string

definition env_var_value_as_str :: "env_var_value \<Rightarrow> string" where
  "env_var_value_as_str v = (case v of Plain s \<Rightarrow> s | Secret s \<Rightarrow> s)"

record env_var =
  ev_key :: string
  ev_value :: env_var_value

datatype env_var_input_value = InPlain string | InSecret "string option"

record env_var_input =
  evi_key :: string
  evi_value :: env_var_input_value

datatype run_image = Node24 | Python314

definition image_tag :: "run_image \<Rightarrow> string" where
  "image_tag i = (case i of Node24 \<Rightarrow> ''docker.io/library/node:24''
                    | Python314 \<Rightarrow> ''docker.io/library/python:3.14'')"

record build_config =
  bc_image :: run_image
  bc_command :: string
  bc_output_dir :: string

record run_config =
  rc_image :: run_image
  rc_install_command :: "string option"
  rc_start_command :: string
  rc_container_port :: u16

datatype git_deploy_mode =
    StaticMode "string option"
  | BuildMode build_config
  | RunMode run_config

record git_source =
  gs_repo_url :: string
  gs_branch :: string
  gs_mode :: git_deploy_mode

datatype app_source = Upload | Git git_source

record app =
  app_id :: string
  app_name :: string
  app_created_at :: int
  app_updated_at :: int
  app_host_id :: int
  app_source :: app_source
  app_env_vars :: "env_var list"
  app_permissions :: "app_permission list"

text \<open>\<open>App::has_permission\<close> and \<open>App::run_config\<close>.\<close>

definition has_permission :: "app \<Rightarrow> string \<Rightarrow> permission_level \<Rightarrow> bool" where
  "has_permission a username required =
     list_ex (\<lambda>g. perm_username g = username \<and> satisfies (perm_level g) required) (app_permissions a)"

definition source_run_config :: "app_source \<Rightarrow> run_config option" where
  "source_run_config src = (case src of
       Git gs \<Rightarrow> (case gs_mode gs of RunMode run \<Rightarrow> Some run | StaticMode _ \<Rightarrow> None | BuildMode _ \<Rightarrow> None)
     | Upload \<Rightarrow> None)"

definition app_run_config :: "app \<Rightarrow> run_config option" where
  "app_run_config a = source_run_config (app_source a)"

datatype deployment_status = Pending | Ready | Failed string

record git_deployment_info =
  gdi_commit_sha :: string
  gdi_branch :: string

record build_info =
  bi_image :: run_image
  bi_command :: string

record deployment =
  dep_id :: string
  dep_app :: string
  dep_created_at :: int
  dep_original_filename :: "string option"
  dep_upload_size_bytes :: u64
  dep_git :: "git_deployment_info option"
  dep_build_info :: "build_info option"
  dep_container_name :: "string option"
  dep_status :: deployment_status

section \<open>Validation\<close>

definition validate_repo_url :: "string \<Rightarrow> model_error + unit" where
  "validate_repo_url repo_url =
     (if list_ex (\<lambda>p. starts_with p repo_url) [''https://'', ''http://'', ''ssh://'', ''git://'']
      then Inr () else Inl (ModelInvalidRepoUrl repo_url))"

definition validate_run_config :: "run_config \<Rightarrow> model_error + unit" where
  "validate_run_config run =
     (if rc_container_port run = 0
        then Inl (ModelInvalidRunConfig ''container port must be 1-65535'')
      else if trim (rc_start_command run) = []
        then Inl (ModelInvalidRunConfig ''start command is required in run mode'')
      else Inr ())"

definition valid_env_var_key :: "string \<Rightarrow> bool" where
  "valid_env_var_key key \<longleftrightarrow>
     key \<noteq> []
     \<and> (case key of [] \<Rightarrow> False | c # _ \<Rightarrow> is_ascii_alphabetic c \<or> c = CHR ''_'')
     \<and> list_all (\<lambda>c. is_ascii_alphanumeric c \<or> c = CHR ''_'') key"

text \<open>The loop of \<open>validate_env_var_inputs\<close>, with the keys already seen.\<close>

fun validate_env_vars_loop :: "string set \<Rightarrow> env_var_input list \<Rightarrow> model_error + unit" where
  "validate_env_vars_loop seen [] = Inr ()"
| "validate_env_vars_loop seen (v # vs) =
     (if \<not> valid_env_var_key (evi_key v) then Inl (ModelInvalidEnvVar (evi_key v))
      else if evi_key v \<in> seen then Inl (ModelInvalidEnvVar (evi_key v))
      else validate_env_vars_loop (insert (evi_key v) seen) vs)"

definition validate_env_var_inputs :: "env_var_input list \<Rightarrow> model_error + unit" where
  "validate_env_var_inputs env_vars = validate_env_vars_loop {} env_vars"

definition validate_build_config :: "build_config \<Rightarrow> model_error + unit" where
  "validate_build_config build =
     (if trim (bc_command build) = []
        then Inl (ModelInvalidBuildConfig ''build command is required'')
      else if trim (bc_output_dir build) = []
        then Inl (ModelInvalidBuildConfig ''output dir is required'')
      else Inr ())"

definition slug_char :: "char \<Rightarrow> bool" where
  "slug_char c \<longleftrightarrow> is_ascii_lowercase c \<or> is_ascii_digit c \<or> c = CHR ''-''"

definition validate_slug :: "string \<Rightarrow> model_error + unit" where
  "validate_slug name =
     (if name \<noteq> [] \<and> length name \<le> 63
         \<and> \<not> starts_with ''-'' name \<and> \<not> ends_with ''-'' name
         \<and> list_all slug_char name
      then Inr () else Inl (ModelInvalidName name))"

section \<open>What validation guarantees\<close>

lemma satisfies_iff: "satisfies l r \<longleftrightarrow> l = Write \<or> r = Read"
  by (cases l; cases r) (simp_all add: satisfies_def)

lemma has_permission_iff:
  "has_permission a u r \<longleftrightarrow>
     (\<exists>g\<in>set (app_permissions a). perm_username g = u \<and> (perm_level g = Write \<or> r = Read))"
  by (auto simp: has_permission_def list_ex_iff satisfies_iff)

lemma has_permission_mono: "has_permission a u Write \<Longrightarrow> has_permission a u r"
  by (auto simp: has_permission_iff)

lemma validate_env_vars_loop_ok:
  "validate_env_vars_loop seen vs = Inr () \<longleftrightarrow>
     (\<forall>v\<in>set vs. valid_env_var_key (evi_key v)) \<and> distinct (map evi_key vs)
     \<and> set (map evi_key vs) \<inter> seen = {}"
  by (induction seen vs rule: validate_env_vars_loop.induct) auto

lemma validate_env_var_inputs_ok:
  "validate_env_var_inputs vs = Inr () \<longleftrightarrow>
     (\<forall>v\<in>set vs. valid_env_var_key (evi_key v)) \<and> distinct (map evi_key vs)"
  by (simp add: validate_env_var_inputs_def validate_env_vars_loop_ok)

lemma slug_char_not_upper: "slug_char c \<Longrightarrow> \<not> is_ascii_uppercase c"
  by (auto simp: slug_char_def is_ascii_uppercase_def is_ascii_lowercase_def is_ascii_digit_def)

lemma slug_char_not_special:
  "\<not> slug_char (CHR ''.'')" "\<not> slug_char (CHR ''/'')" "\<not> slug_char (CHR '':'')"
  by (simp_all add: slug_char_def is_ascii_lowercase_def is_ascii_digit_def)

lemma validate_slug_ok:
  "validate_slug name = Inr () \<longleftrightarrow>
     name \<noteq> [] \<and> length name \<le> 63 \<and> hd name \<noteq> CHR ''-'' \<and> last name \<noteq> CHR ''-''
     \<and> (\<forall>c\<in>set name. slug_char c)"
proof -
  have "name \<noteq> [] \<Longrightarrow> starts_with ''-'' name \<longleftrightarrow> hd name = CHR ''-''"
    by (cases name) (auto simp: starts_with_iff)
  moreover have "name \<noteq> [] \<Longrightarrow> ends_with ''-'' name \<longleftrightarrow> last name = CHR ''-''"
    by (cases name rule: rev_cases) (auto simp: ends_with_iff)
  ultimately show ?thesis by (auto simp: validate_slug_def list_all_iff)
qed

lemma slug_lowercase: "validate_slug name = Inr () \<Longrightarrow> to_lowercase name = name"
  by (simp add: validate_slug_ok to_lowercase_id slug_char_not_upper)

lemma slug_no_dot: "validate_slug name = Inr () \<Longrightarrow> CHR ''.'' \<notin> set name"
  by (auto simp: validate_slug_ok slug_char_not_special)

lemma slug_no_slash: "validate_slug name = Inr () \<Longrightarrow> CHR ''/'' \<notin> set name"
  by (auto simp: validate_slug_ok slug_char_not_special)

lemma slug_no_colon: "validate_slug name = Inr () \<Longrightarrow> CHR '':'' \<notin> set name"
  by (auto simp: validate_slug_ok slug_char_not_special)

end
