(* ===== verification/Filesystem.thy ===== *)
theory Filesystem
  imports Rust_Std
begin

text \<open>
  The part of \<open>std::fs\<close> the hub and the agent use, on a tree of files and directories, and the
  outside world's say in it: every call may fail for a reason of the operating system's, and
  the process may die at any call. Both are decided by a script of faults carried in the state,
  so that a statement over all states is a statement over all such behaviours. An exhausted
  script lets every later call go through.
\<close>

section \<open>Paths and nodes\<close>

type_synonym path = "string list"

datatype node = File string | Dir

text \<open>The entries of the tree, in the order a directory listing would meet them.\<close>

type_synonym filesystem = "(path \<times> node) list"

datatype io_kind =
    NotFound | AlreadyExists | NotADirectory | IsADirectory | DirectoryNotEmpty | InvalidInput | OtherIo

datatype io_error = IoError (io_kind: io_kind) (io_text: string)

datatype fault = Proceed | FailWith string | CrashNow

record machine =
  fs :: filesystem
  faults :: "fault list"

definition is_dir :: "filesystem \<Rightarrow> path \<Rightarrow> bool" where
  "is_dir t p \<longleftrightarrow> map_of t p = Some Dir"

definition path_exists :: "filesystem \<Rightarrow> path \<Rightarrow> bool" where
  "path_exists t p \<longleftrightarrow> map_of t p \<noteq> None"

definition parent :: "path \<Rightarrow> path" where
  "parent p = butlast p"

text \<open>The entries strictly below a path.\<close>

definition below :: "path \<Rightarrow> path \<Rightarrow> bool" where
  "below p q \<longleftrightarrow> p \<noteq> q \<and> prefix p q"

definition children :: "filesystem \<Rightarrow> path \<Rightarrow> string list" where
  "children t p = remdups (map last (filter (\<lambda>q. q \<noteq> [] \<and> butlast q = p) (map fst t)))"

definition fs_put :: "path \<Rightarrow> node \<Rightarrow> filesystem \<Rightarrow> filesystem" where
  "fs_put p n t = (p, n) # filter (\<lambda>(q, _). q \<noteq> p) t"

definition fs_prune :: "path \<Rightarrow> filesystem \<Rightarrow> filesystem" where
  "fs_prune p t = filter (\<lambda>(q, _). \<not> prefix p q) t"

definition fs_move :: "path \<Rightarrow> path \<Rightarrow> filesystem \<Rightarrow> filesystem" where
  "fs_move src dst t =
     map (\<lambda>(q, n). (if prefix src q then dst @ drop (length src) q else q, n))
         (filter (\<lambda>(q, _). q \<noteq> dst) t)"

section \<open>Calls\<close>

text \<open>An external call: the next fault of the script decides whether it is made at all.\<close>

definition ext_call ::
  "(string \<Rightarrow> 'e) \<Rightarrow> ('z machine_scheme, 'e, 'a) comp \<Rightarrow> ('z machine_scheme, 'e, 'a) comp" where
  "ext_call mk body s =
     (case faults s of
        [] \<Rightarrow> body s
      | f # rest \<Rightarrow>
         (let s' = s\<lparr>faults := rest\<rparr> in
          case f of Proceed \<Rightarrow> body s' | FailWith m \<Rightarrow> (Fail (mk m), s') | CrashNow \<Rightarrow> (Crash, s')))"

text \<open>How many calls a script lets fail.\<close>

primrec failures :: "fault list \<Rightarrow> nat" where
  "failures [] = 0"
| "failures (f # fl) = (case f of FailWith _ \<Rightarrow> Suc (failures fl) | _ \<Rightarrow> failures fl)"

abbreviation io_call :: "('z machine_scheme, io_error, 'a) comp \<Rightarrow> ('z machine_scheme, io_error, 'a) comp" where
  "io_call body \<equiv> ext_call (IoError OtherIo) body"

definition io_err :: "io_kind \<Rightarrow> io_error" where
  "io_err k = IoError k (case k of
       NotFound \<Rightarrow> ''No such file or directory''
     | AlreadyExists \<Rightarrow> ''File exists''
     | NotADirectory \<Rightarrow> ''Not a directory''
     | IsADirectory \<Rightarrow> ''Is a directory''
     | DirectoryNotEmpty \<Rightarrow> ''Directory not empty''
     | InvalidInput \<Rightarrow> ''Invalid argument''
     | OtherIo \<Rightarrow> ''other error'')"

definition set_fs :: "(filesystem \<Rightarrow> filesystem) \<Rightarrow> ('z machine_scheme, 'e, unit) comp" where
  "set_fs f = modify (\<lambda>s. s\<lparr>fs := f (fs s)\<rparr>)"

definition parent_check :: "filesystem \<Rightarrow> path \<Rightarrow> io_error option" where
  "parent_check t p =
     (case map_of t (parent p) of
        Some Dir \<Rightarrow> None
      | Some (File _) \<Rightarrow> Some (io_err NotADirectory)
      | None \<Rightarrow> Some (io_err NotFound))"

definition create_dir :: "path \<Rightarrow> ('z machine_scheme, io_error, unit) comp" where
  "create_dir p = io_call (\<lambda>s.
     if path_exists (fs s) p then (Fail (io_err AlreadyExists), s)
     else case parent_check (fs s) p of
       Some e \<Rightarrow> (Fail e, s)
     | None \<Rightarrow> set_fs (fs_put p Dir) s)"

text \<open>
  \<open>create_dir_all\<close> makes every missing directory on the way, from the root down; \<open>prefixes p\<close>
  lists them in that order.
\<close>

fun make_dirs :: "path list \<Rightarrow> filesystem \<Rightarrow> io_error + filesystem" where
  "make_dirs [] t = Inr t"
| "make_dirs (p # ps) t =
     (case map_of t p of
        Some Dir \<Rightarrow> make_dirs ps t
      | Some (File _) \<Rightarrow> Inl (io_err (if ps = [] then AlreadyExists else NotADirectory))
      | None \<Rightarrow> make_dirs ps (fs_put p Dir t))"

definition create_dir_all :: "path \<Rightarrow> ('z machine_scheme, io_error, unit) comp" where
  "create_dir_all p = io_call (\<lambda>s.
     case make_dirs (prefixes p) (fs s) of
       Inl e \<Rightarrow> (Fail e, s)
     | Inr t \<Rightarrow> set_fs (\<lambda>_. t) s)"

definition remove_dir_all :: "path \<Rightarrow> ('z machine_scheme, io_error, unit) comp" where
  "remove_dir_all p = io_call (\<lambda>s.
     case map_of (fs s) p of
       None \<Rightarrow> (Fail (io_err NotFound), s)
     | Some (File _) \<Rightarrow> (Fail (io_err NotADirectory), s)
     | Some Dir \<Rightarrow> set_fs (fs_prune p) s)"

definition remove_file :: "path \<Rightarrow> ('z machine_scheme, io_error, unit) comp" where
  "remove_file p = io_call (\<lambda>s.
     case map_of (fs s) p of
       None \<Rightarrow> (Fail (io_err NotFound), s)
     | Some Dir \<Rightarrow> (Fail (io_err IsADirectory), s)
     | Some (File _) \<Rightarrow> set_fs (fs_prune p) s)"

text \<open>
  \<open>rename(2)\<close>: atomic, replaces an existing file by a file and an existing empty directory by a
  directory, refuses to move a directory below itself.
\<close>

definition rename_check :: "path \<Rightarrow> path \<Rightarrow> filesystem \<Rightarrow> io_error option" where
  "rename_check src dst t =
     (case map_of t src of
        None \<Rightarrow> Some (io_err NotFound)
      | Some n \<Rightarrow>
         (case parent_check t dst of
            Some e \<Rightarrow> Some e
          | None \<Rightarrow>
             if below src dst then Some (io_err InvalidInput)
             else case map_of t dst of
               None \<Rightarrow> None
             | Some Dir \<Rightarrow>
                 if n \<noteq> Dir then Some (io_err IsADirectory)
                 else if list_ex (\<lambda>q. below dst q) (map fst t) then Some (io_err DirectoryNotEmpty)
                 else None
             | Some (File _) \<Rightarrow> if n = Dir then Some (io_err NotADirectory) else None))"

definition rename :: "path \<Rightarrow> path \<Rightarrow> ('z machine_scheme, io_error, unit) comp" where
  "rename src dst = io_call (\<lambda>s.
     if src = dst \<and> path_exists (fs s) src then (Done (), s)
     else case rename_check src dst (fs s) of
       Some e \<Rightarrow> (Fail e, s)
     | None \<Rightarrow> set_fs (fs_move src dst) s)"

definition read_dir :: "path \<Rightarrow> ('z machine_scheme, io_error, string list) comp" where
  "read_dir p = io_call (\<lambda>s.
     case map_of (fs s) p of
       None \<Rightarrow> (Fail (io_err NotFound), s)
     | Some (File _) \<Rightarrow> (Fail (io_err NotADirectory), s)
     | Some Dir \<Rightarrow> (Done (children (fs s) p), s))"

definition read_file :: "path \<Rightarrow> ('z machine_scheme, io_error, string) comp" where
  "read_file p = io_call (\<lambda>s.
     case map_of (fs s) p of
       None \<Rightarrow> (Fail (io_err NotFound), s)
     | Some Dir \<Rightarrow> (Fail (io_err IsADirectory), s)
     | Some (File c) \<Rightarrow> (Done c, s))"

text \<open>\<open>fs::read_to_string\<close> also refuses what is not UTF-8.\<close>

definition read_to_string :: "path \<Rightarrow> ('z machine_scheme, io_error, string) comp" where
  "read_to_string p =
     bindc (read_file p) (\<lambda>contents.
     if valid_utf8 contents then ret contents else throw (IoError OtherIo ''stream did not contain valid UTF-8''))"

text \<open>\<open>File::create\<close> and \<open>fs::write\<close>: make the file or replace its content.\<close>

definition write_file :: "path \<Rightarrow> string \<Rightarrow> ('z machine_scheme, io_error, unit) comp" where
  "write_file p c = io_call (\<lambda>s.
     case map_of (fs s) p of
       Some Dir \<Rightarrow> (Fail (io_err IsADirectory), s)
     | Some (File _) \<Rightarrow> set_fs (fs_put p (File c)) s
     | None \<Rightarrow> (case parent_check (fs s) p of
         Some e \<Rightarrow> (Fail e, s)
       | None \<Rightarrow> set_fs (fs_put p (File c)) s))"

section \<open>Lookup after each change\<close>

lemma below_irrefl [simp]: "\<not> below p p"
  by (simp add: below_def)

lemma map_of_fs_put: "map_of (fs_put p n t) q = (if q = p then Some n else map_of t q)"
  unfolding fs_put_def by (induction t) auto

lemma map_of_fs_prune: "map_of (fs_prune p t) q = (if prefix p q then None else map_of t q)"
  unfolding fs_prune_def by (induction t) auto

lemma prefix_append_drop: "prefix p q \<Longrightarrow> p @ drop (length p) q = q"
  by (auto simp: prefix_def)

lemma map_of_fs_move:
  assumes free: "\<forall>q\<in>set (map fst t). \<not> below dst q" and out: "\<not> prefix src dst"
  shows "map_of (fs_move src dst t) q =
    (if prefix dst q then map_of t (src @ drop (length dst) q)
     else if prefix src q then None else map_of t q)"
  using free
proof (induction t)
  case Nil
  then show ?case by (simp add: fs_move_def)
next
  case (Cons e t)
  obtain p n where e: "e = (p, n)" by fastforce
  have IH: "map_of (fs_move src dst t) q =
    (if prefix dst q then map_of t (src @ drop (length dst) q)
     else if prefix src q then None else map_of t q)"
    using Cons by simp
  have nb: "\<not> below dst p" using Cons.prems e by simp
  show ?case
  proof (cases "p = dst")
    case True
    then have "fs_move src dst (e # t) = fs_move src dst t" using e by (simp add: fs_move_def)
    moreover have "src @ drop (length dst) q \<noteq> dst" using out by (metis prefixI)
    ultimately show ?thesis using True e IH by auto
  next
    case False
    have mv: "fs_move src dst (e # t) =
      (if prefix src p then dst @ drop (length src) p else p, n) # fs_move src dst t"
      using False e by (simp add: fs_move_def)
    show ?thesis
    proof (cases "prefix src p")
      case True
      then obtain r where r: "p = src @ r" by (auto simp: prefix_def)
      show ?thesis
      proof (cases "prefix dst q")
        case True
        then obtain u where u: "q = dst @ u" by (auto simp: prefix_def)
        have "map_of (fs_move src dst (e # t)) q
            = (if r = u then Some n else map_of (fs_move src dst t) q)"
          unfolding mv by (simp add: r u)
        then show ?thesis using IH by (simp add: e r u)
      next
        case False
        then have "q \<noteq> dst @ drop (length src) p" by (metis prefixI)
        moreover have "\<not> prefix src q \<Longrightarrow> p \<noteq> q" using \<open>prefix src p\<close> by blast
        ultimately show ?thesis using mv IH e False \<open>prefix src p\<close> by simp
      qed
    next
      case nsrc: False
      have "prefix dst q \<Longrightarrow> q \<noteq> p" using nb \<open>p \<noteq> dst\<close> by (auto simp: below_def)
      moreover have "src @ drop (length dst) q \<noteq> p" using nsrc by (metis prefixI)
      moreover have "prefix src q \<Longrightarrow> q \<noteq> p" using nsrc by auto
      moreover have "map_of (fs_move src dst (e # t)) q
          = (if q = p then Some n else map_of (fs_move src dst t) q)"
        unfolding mv using nsrc by simp
      ultimately show ?thesis using IH nsrc by (simp add: e)
    qed
  qed
qed

lemma map_of_None_keys: "map_of t p = None \<Longrightarrow> p \<notin> set (map fst t)"
  by (simp add: map_of_eq_None_iff)

lemma set_children: "set (children t p) = {c. path_exists t (p @ [c])}"
proof -
  have "set (children t p) = last ` {q \<in> set (map fst t). q \<noteq> [] \<and> butlast q = p}"
    by (simp only: children_def set_remdups set_map set_filter)
  also have "{q \<in> set (map fst t). q \<noteq> [] \<and> butlast q = p} = {q \<in> set (map fst t). \<exists>c. q = p @ [c]}"
    by (metis append_butlast_last_id butlast_snoc snoc_eq_iff_butlast)
  also have "last ` \<dots> = {c. p @ [c] \<in> set (map fst t)}" by force
  finally show ?thesis by (auto simp: path_exists_def map_of_eq_None_iff)
qed

section \<open>Well-formed trees\<close>

text \<open>Every entry has its parent directory.\<close>

definition fs_wf :: "filesystem \<Rightarrow> bool" where
  "fs_wf t \<longleftrightarrow> (\<forall>q\<in>set (map fst t). q \<noteq> [] \<longrightarrow> is_dir t (butlast q))"

lemma fs_wf_iff: "fs_wf t \<longleftrightarrow> (\<forall>q. map_of t q \<noteq> None \<longrightarrow> q \<noteq> [] \<longrightarrow> is_dir t (butlast q))"
  unfolding fs_wf_def by (metis map_of_eq_None_iff set_map)

lemma is_dir_put: "is_dir (fs_put p n t) q \<longleftrightarrow> (if q = p then n = Dir else is_dir t q)"
  by (simp add: is_dir_def map_of_fs_put)

lemma butlast_not_prefix: "q \<noteq> [] \<Longrightarrow> prefix p (butlast q) \<Longrightarrow> prefix p q"
  by (metis append_butlast_last_id prefix_snoc)

lemma wf_ancestors:
  assumes wf: "fs_wf t" and p: "strict_prefix p q" and q: "map_of t q \<noteq> None"
  shows "is_dir t p"
  using p q
proof (induction q rule: rev_induct)
  case Nil
  then show ?case by simp
next
  case (snoc x q)
  have d: "is_dir t q" using wf snoc.prems(2) by (auto simp: fs_wf_iff dest: spec [of _ "q @ [x]"])
  show ?case
  proof (cases "p = q")
    case True
    then show ?thesis using d by simp
  next
    case False
    then have "strict_prefix p q" using snoc.prems(1) by (auto simp: strict_prefix_def)
    then show ?thesis using snoc.IH d by (simp add: is_dir_def)
  qed
qed

lemma wf_nothing_below:
  assumes "fs_wf t" and "\<not> is_dir t p"
  shows "q \<in> set (map fst t) \<Longrightarrow> \<not> below p q"
proof
  assume q: "q \<in> set (map fst t)" and "below p q"
  then have "strict_prefix p q" by (simp add: below_def strict_prefix_def)
  moreover have "map_of t q \<noteq> None" using q map_of_eq_None_iff [of t q] by (simp del: map_of_eq_None_iff add: set_map)
  ultimately show False using wf_ancestors assms by blast
qed

lemma wf_put:
  assumes "fs_wf t" and "is_dir t (butlast p)" and "n = Dir \<or> \<not> is_dir t p" and "p \<noteq> []"
  shows "fs_wf (fs_put p n t)"
  unfolding fs_wf_iff
proof (intro allI impI)
  fix q assume q: "map_of (fs_put p n t) q \<noteq> None" "q \<noteq> []"
  have "butlast p \<noteq> p" using assms(4) by (metis append_butlast_last_id not_Cons_self2 append_self_conv)
  show "is_dir (fs_put p n t) (butlast q)"
  proof (cases "q = p")
    case True
    then show ?thesis using assms(2) \<open>butlast p \<noteq> p\<close> by (simp add: is_dir_put)
  next
    case False
    then have "is_dir t (butlast q)" using q assms(1) by (simp add: fs_wf_iff map_of_fs_put)
    then show ?thesis using assms(3) by (auto simp: is_dir_put)
  qed
qed

lemma wf_prune:
  assumes "fs_wf t"
  shows "fs_wf (fs_prune p t)"
  unfolding fs_wf_iff
proof (intro allI impI)
  fix q assume q: "map_of (fs_prune p t) q \<noteq> None" "q \<noteq> []"
  then have "\<not> prefix p q" and "is_dir t (butlast q)"
    using assms by (auto simp: fs_wf_iff map_of_fs_prune split: if_splits)
  then show "is_dir (fs_prune p t) (butlast q)"
    using butlast_not_prefix q(2) by (auto simp: is_dir_def map_of_fs_prune)
qed

lemma rename_checkD:
  assumes "rename_check src dst t = None"
  shows "map_of t src \<noteq> None" and "is_dir t (butlast dst)" and "\<not> below src dst"
    and "is_dir t dst \<Longrightarrow> is_dir t src"
    and "is_dir t dst \<Longrightarrow> q \<in> set (map fst t) \<Longrightarrow> \<not> below dst q"
  using assms
  by (auto simp: rename_check_def parent_check_def parent_def is_dir_def list_ex_iff
           split: option.splits node.splits if_splits)

lemma move_conditions:
  assumes "fs_wf t" and "rename_check src dst t = None" and "src \<noteq> dst"
  shows "\<forall>q\<in>set (map fst t). \<not> below dst q" and "\<not> prefix src dst"
proof -
  show "\<forall>q\<in>set (map fst t). \<not> below dst q"
    using rename_checkD(5) [OF assms(2)] wf_nothing_below [OF assms(1)] by blast
  show "\<not> prefix src dst" using rename_checkD(3) [OF assms(2)] assms(3) by (simp add: below_def)
qed

lemma is_dir_move:
  assumes "fs_wf t" and "rename_check src dst t = None" and "src \<noteq> dst" and "\<not> prefix src q" and "is_dir t q"
  shows "is_dir (fs_move src dst t) q"
proof (cases "prefix dst q")
  case True
  have "q \<in> set (map fst t)" using assms(5) map_of_eq_None_iff [of t q] by (auto simp: is_dir_def)
  then have "q = dst" using move_conditions(1) [OF assms(1-3)] True by (auto simp: below_def)
  then show ?thesis
    using assms(5) rename_checkD(4) [OF assms(2)] map_of_fs_move [OF move_conditions [OF assms(1-3)]]
    by (simp add: is_dir_def)
next
  case False
  then show ?thesis using assms(4,5) map_of_fs_move [OF move_conditions [OF assms(1-3)]]
    by (simp add: is_dir_def)
qed

lemma is_dir_moved:
  assumes "fs_wf t" and "rename_check src dst t = None" and "src \<noteq> dst"
  shows "is_dir (fs_move src dst t) (dst @ r) \<longleftrightarrow> is_dir t (src @ r)"
  using map_of_fs_move [OF move_conditions [OF assms]] by (simp add: is_dir_def)

lemma wf_move:
  assumes wf: "fs_wf t" and ok: "rename_check src dst t = None" and ne: "src \<noteq> dst" and dst: "dst \<noteq> []"
  shows "fs_wf (fs_move src dst t)"
  unfolding fs_wf_iff
proof (intro allI impI)
  note look = map_of_fs_move [OF move_conditions [OF wf ok ne]]
  fix q assume q: "map_of (fs_move src dst t) q \<noteq> None" "q \<noteq> []"
  show "is_dir (fs_move src dst t) (butlast q)"
  proof (cases "prefix dst q")
    case True
    then obtain u where u: "q = dst @ u" by (auto simp: prefix_def)
    show ?thesis
    proof (cases u rule: rev_cases)
      case Nil
      have "\<not> prefix src (butlast dst)"
        using move_conditions(2) [OF wf ok ne] butlast_not_prefix dst by blast
      then show ?thesis using is_dir_move [OF wf ok ne] rename_checkD(2) [OF ok] u Nil by simp
    next
      case (snoc v c)
      have "map_of t (src @ v @ [c]) \<noteq> None" using q(1) u snoc look by simp
      then have "is_dir t (src @ v)" using wf by (auto simp: fs_wf_iff butlast_append dest: spec [of _ "src @ v @ [c]"])
      then show ?thesis using is_dir_moved [OF wf ok ne] u snoc by (simp add: butlast_append)
    qed
  next
    case False
    then have "\<not> prefix src q" and "map_of t q \<noteq> None" using q(1) look by (auto split: if_splits)
    then have "is_dir t (butlast q)" and "\<not> prefix src (butlast q)"
      using wf q(2) butlast_not_prefix by (auto simp: fs_wf_iff)
    then show ?thesis using is_dir_move [OF wf ok ne] by blast
  qed
qed

lemma make_dirs_step:
  assumes "fs_wf t" and "make_dirs ps t = Inr t'"
    and "\<forall>p\<in>set ps. p = [] \<or> is_dir t (butlast p) \<or> butlast p \<in> set ps"
    and "sorted_wrt (\<lambda>a b. \<not> prefix b a) ps" and "is_dir t []"
  shows "fs_wf t' \<and> (\<forall>q. is_dir t q \<longrightarrow> is_dir t' q) \<and> (\<forall>p\<in>set ps. is_dir t' p)"
  using assms
proof (induction ps t rule: make_dirs.induct)
  case (1 t)
  then show ?case by simp
next
  case (2 p ps t)
  have up: "p = [] \<or> is_dir t (butlast p)"
  proof -
    have "butlast p \<notin> set ps" if "p \<noteq> []"
      using 2(6) prefixeq_butlast [of p] by (auto simp: prefixeq_butlast)
    moreover have "butlast p \<noteq> p" if "p \<noteq> []"
      using that by (metis append_butlast_last_id append_self_conv not_Cons_self2)
    ultimately show ?thesis using 2(5) by auto
  qed
  consider (dir) "map_of t p = Some Dir" | (new) "map_of t p = None"
    using 2(4) by (auto split: option.splits node.splits)
  then show ?case
  proof cases
    case dir
    have "\<forall>q\<in>set ps. q = [] \<or> is_dir t (butlast q) \<or> butlast q \<in> set ps"
      using 2(5) dir by (auto simp: is_dir_def)
    then show ?thesis using 2(2) [OF dir] 2(3-7) dir by (auto simp: is_dir_def)
  next
    case new
    let ?t = "fs_put p Dir t"
    have p: "p \<noteq> []" using new 2(7) by (auto simp: is_dir_def)
    have "fs_wf ?t" using up p wf_put [of t p Dir] 2(3) by auto
    moreover have "\<forall>q\<in>set ps. q = [] \<or> is_dir ?t (butlast q) \<or> butlast q \<in> set ps"
      using 2(5) by (auto simp: is_dir_put)
    ultimately show ?thesis using 2(1) [OF new] 2(4,6,7) new by (auto simp: is_dir_put)
  qed
qed

section \<open>What the calls preserve\<close>

text \<open>\<open>fs_only m\<close>: of the whole state, \<open>m\<close> changes the tree and the fault script only.\<close>

definition fs_only :: "('z machine_scheme, 'e, 'a) comp \<Rightarrow> bool" where
  "fs_only m \<longleftrightarrow> (\<forall>s. \<exists>t f. snd (m s) = s\<lparr>fs := t, faults := f\<rparr>)"

lemma fs_only_leaves: "fs_only m \<Longrightarrow> (\<And>s t f. g (s\<lparr>fs := t, faults := f\<rparr>) = g s) \<Longrightarrow> leaves g m"
  unfolding fs_only_def leaves_def by metis

lemma fs_only_ext_call:
  assumes "\<And>s. \<exists>t. snd (body s) = s\<lparr>fs := t\<rparr>"
  shows "fs_only (ext_call mk body)"
  unfolding fs_only_def
proof
  fix s
  show "\<exists>t f. snd (ext_call mk body s) = s\<lparr>fs := t, faults := f\<rparr>"
  proof (cases "faults s")
    case Nil
    then obtain t where "snd (ext_call mk body s) = s\<lparr>fs := t\<rparr>" using assms [of s] by (auto simp: ext_call_def)
    then have "snd (ext_call mk body s) = s\<lparr>fs := t, faults := faults s\<rparr>" by simp
    then show ?thesis by blast
  next
    case (Cons c cs)
    have "snd (ext_call mk body s) = snd (body (s\<lparr>faults := cs\<rparr>)) \<or> snd (ext_call mk body s) = s\<lparr>faults := cs\<rparr>"
      using Cons by (cases c) (simp_all add: ext_call_def Let_def)
    moreover have "s\<lparr>faults := cs, fs := t\<rparr> = s\<lparr>fs := t, faults := cs\<rparr>" for t by (cases s) simp
    then obtain t where "snd (body (s\<lparr>faults := cs\<rparr>)) = s\<lparr>fs := t, faults := cs\<rparr>"
      using assms [of "s\<lparr>faults := cs\<rparr>"] by metis
    moreover have "s\<lparr>faults := cs\<rparr> = s\<lparr>fs := fs s, faults := cs\<rparr>" by simp
    ultimately show ?thesis by metis
  qed
qed

lemma fs_keep: "\<exists>t. s = s\<lparr>fs := t\<rparr>"
  by (rule exI [of _ "fs s"]) simp

lemma set_fs_run: "set_fs f s = (Done (), s\<lparr>fs := f (fs s)\<rparr>)"
  by (simp add: set_fs_def modify_def)

lemmas fs_op_defs = create_dir_def create_dir_all_def remove_dir_all_def remove_file_def rename_def
  read_dir_def read_file_def write_file_def

lemma fs_only_ops:
  "fs_only (create_dir p)" "fs_only (create_dir_all p)" "fs_only (remove_dir_all p)"
  "fs_only (remove_file p)" "fs_only (rename p q)" "fs_only (read_dir p)" "fs_only (read_file p)"
  "fs_only (write_file p c)"
  unfolding fs_op_defs
  by (rule fs_only_ext_call; auto simp: set_fs_run intro: fs_keep split: option.splits node.splits sum.splits)+

lemma keeps_ext_call:
  assumes "\<And>s f. I s \<Longrightarrow> I (s\<lparr>faults := f\<rparr>)" and "keeps I body"
  shows "keeps I (ext_call mk body)"
proof (rule keepsI)
  fix s assume "I s"
  show "I (snd (ext_call mk body s))"
  proof (cases "faults s")
    case Nil
    then show ?thesis using assms(2) \<open>I s\<close> by (simp add: ext_call_def keepsD)
  next
    case (Cons c cs)
    then show ?thesis using keepsD [OF assms(2) assms(1) [OF \<open>I s\<close>, of cs]] assms(1) [OF \<open>I s\<close>, of cs]
      by (cases c) (simp_all add: ext_call_def Let_def)
  qed
qed

lemma triple_ext_call:
  assumes "\<And>s f. P s \<Longrightarrow> P (s\<lparr>faults := f\<rparr>)" and "triple P body Q E" and "\<And>s. P s \<Longrightarrow> E s"
  shows "triple P (ext_call mk body) Q E"
proof -
  have "case ext_call mk body s of (r, s') \<Rightarrow> (case r of Done a \<Rightarrow> Q a s' | Fail e \<Rightarrow> E s' | Crash \<Rightarrow> E s')"
    if "P s" for s
  proof (cases "faults s")
    case Nil
    then show ?thesis using assms(2) that by (simp add: ext_call_def triple_def)
  next
    case (Cons c cs)
    then show ?thesis
      using assms(2) assms(1) [OF that, of cs] assms(3) [OF assms(1) [OF that, of cs]]
      by (cases c) (simp_all add: ext_call_def Let_def triple_def)
  qed
  then show ?thesis by (simp add: triple_def)
qed

text \<open>What a call does to the number of failures still to come.\<close>

lemma ext_call_budget:
  assumes "ext_call mk body s = (r, s')"
  obtains (made) f where "body (s\<lparr>faults := f\<rparr>) = (r, s')" and "failures f = failures (faults s)"
  | (refused) f m where "r = Fail (mk m)" and "s' = s\<lparr>faults := f\<rparr>" and "failures (faults s) = Suc (failures f)"
  | (crashed) f where "r = Crash" and "s' = s\<lparr>faults := f\<rparr>" and "failures (faults s) = failures f"
proof (cases "faults s")
  case Nil
  then have "s\<lparr>faults := faults s\<rparr> = s" and "body s = (r, s')" using assms by (simp_all add: ext_call_def)
  then have "body (s\<lparr>faults := faults s\<rparr>) = (r, s')" by simp
  then show ?thesis by (rule made) simp
next
  case (Cons c fl)
  then show ?thesis using assms made [of fl] refused [of _ fl] crashed [of fl]
    by (cases c) (auto simp: ext_call_def Let_def)
qed

text \<open>A well-formed tree in which a set of directories exists.\<close>

definition dirs_in :: "path set \<Rightarrow> filesystem \<Rightarrow> bool" where
  "dirs_in D t \<longleftrightarrow> fs_wf t \<and> is_dir t [] \<and> (\<forall>q\<in>D. is_dir t q)"

lemma dirs_inD: "dirs_in D t \<Longrightarrow> q \<in> D \<Longrightarrow> is_dir t q"
  by (simp add: dirs_in_def)

lemma dirs_in_mono: "dirs_in D t \<Longrightarrow> D' \<subseteq> D \<Longrightarrow> dirs_in D' t"
  by (auto simp: dirs_in_def)

lemma dirs_in_insert: "dirs_in (insert q D) t \<longleftrightarrow> is_dir t q \<and> dirs_in D t"
  by (auto simp: dirs_in_def)

text \<open>The effect of each call on such a tree; \<open>D\<close> are the directories that must stay.\<close>

lemma triple_create_dir:
  assumes "p \<noteq> []"
  shows "triple (\<lambda>s. dirs_in D (fs s)) (create_dir p) (\<lambda>_ s. dirs_in (insert p D) (fs s)) (\<lambda>s. dirs_in D (fs s))"
proof -
  have "dirs_in (insert p D) (fs_put p Dir t)" if "dirs_in D t" "parent_check t p = None" for t
    using that assms wf_put [of t p Dir]
    by (auto simp: dirs_in_def is_dir_put parent_check_def parent_def map_of_fs_put is_dir_def split: option.splits node.splits)
  then show ?thesis
    unfolding create_dir_def
    by (intro triple_ext_call tripleI) (auto simp: set_fs_run split: if_splits option.splits)
qed

lemma keeps_create_dir: "p \<noteq> [] \<Longrightarrow> keeps (\<lambda>s. dirs_in D (fs s)) (create_dir p)"
  unfolding keeps_iff_triple
  by (rule triple_post [OF triple_create_dir]) (auto intro: dirs_in_mono)

lemma prefixes_sorted: "sorted_wrt (\<lambda>a b. \<not> prefix b a) (prefixes p)"
proof (induction p)
  case Nil
  then show ?case by simp
next
  case (Cons x p)
  have "sorted_wrt (\<lambda>a b. \<not> prefix b a) (map ((#) x) (prefixes p))"
    using Cons by (simp add: sorted_wrt_map)
  then show ?case by auto
qed

lemma triple_create_dir_all:
  "triple (\<lambda>s. dirs_in D (fs s)) (create_dir_all p) (\<lambda>_ s. dirs_in (insert p D) (fs s)) (\<lambda>s. dirs_in D (fs s))"
proof -
  have "dirs_in (insert p D) t'" if "dirs_in D t" "make_dirs (prefixes p) t = Inr t'" for t t'
  proof -
    have "q = [] \<or> is_dir t (butlast q) \<or> butlast q \<in> set (prefixes p)" if "q \<in> set (prefixes p)" for q
      using that by (metis in_set_prefixes prefixeq_butlast prefix_order.trans)
    moreover have "p \<in> set (prefixes p)" by (simp add: in_set_prefixes)
    ultimately show ?thesis
      using make_dirs_step [OF _ that(2)] prefixes_sorted that(1) by (auto simp: dirs_in_def)
  qed
  then show ?thesis
    unfolding create_dir_all_def
    by (intro triple_ext_call tripleI) (auto simp: set_fs_run split: sum.splits)
qed

lemma dirs_in_prune:
  assumes "dirs_in D t" and "\<forall>q\<in>D. \<not> prefix p q" and "p \<noteq> []"
  shows "dirs_in D (fs_prune p t)"
  using assms wf_prune by (auto simp: dirs_in_def is_dir_def map_of_fs_prune)

lemma keeps_remove_dir_all:
  assumes "\<forall>q\<in>D. \<not> prefix p q" and "p \<noteq> []"
  shows "keeps (\<lambda>s. dirs_in D (fs s)) (remove_dir_all p)"
  unfolding remove_dir_all_def
  by (intro keeps_ext_call keepsI)
     (use dirs_in_prune [OF _ assms] in \<open>auto simp: set_fs_run split: option.splits node.splits\<close>)

lemma keeps_remove_file:
  assumes "\<forall>q\<in>D. \<not> prefix p q" and "p \<noteq> []"
  shows "keeps (\<lambda>s. dirs_in D (fs s)) (remove_file p)"
  unfolding remove_file_def
  by (intro keeps_ext_call keepsI)
     (use dirs_in_prune [OF _ assms] in \<open>auto simp: set_fs_run split: option.splits node.splits\<close>)

lemma keeps_write_file:
  assumes "p \<noteq> []"
  shows "keeps (\<lambda>s. dirs_in D (fs s)) (write_file p c)"
proof -
  have "dirs_in D (fs_put p (File c) t)"
    if "dirs_in D t" "\<not> is_dir t p" "is_dir t (butlast p)" for t
    using that assms wf_put [of t p "File c"] by (auto simp: dirs_in_def is_dir_put)
  moreover have "is_dir t (butlast p)" if "dirs_in D t" "map_of t p \<noteq> None" for t
    using that assms by (simp add: dirs_in_def fs_wf_iff)
  ultimately show ?thesis
    unfolding write_file_def
    by (intro keeps_ext_call keepsI)
       (auto simp: set_fs_run is_dir_def parent_check_def parent_def split: option.splits node.splits)
qed

lemma keeps_read_dir: "keeps (\<lambda>s. dirs_in D (fs s)) (read_dir p)"
  and keeps_read_file: "keeps (\<lambda>s. dirs_in D (fs s)) (read_file p)"
  unfolding read_dir_def read_file_def
  by (intro keeps_ext_call keepsI; auto split: option.splits node.splits)+

lemma triple_rename:
  assumes "\<forall>q\<in>D. \<not> prefix src q" and "src \<noteq> dst" and "src \<noteq> []" and "dst \<noteq> []"
  shows "triple (\<lambda>s. dirs_in (D \<union> (@) src ` R) (fs s)) (rename src dst)
    (\<lambda>_ s. dirs_in (D \<union> (@) dst ` R) (fs s)) (\<lambda>s. dirs_in (D \<union> (@) src ` R) (fs s))"
proof -
  have "dirs_in (D \<union> (@) dst ` R) (fs_move src dst t)"
    if t: "dirs_in (D \<union> (@) src ` R) t" and ok: "rename_check src dst t = None" for t
  proof -
    have wf: "fs_wf t" and "is_dir t []" using t by (auto simp: dirs_in_def)
    then show ?thesis
      using t assms wf_move [OF wf ok assms(2,4)] is_dir_move [OF wf ok assms(2)]
        is_dir_moved [OF wf ok assms(2)]
      by (auto simp: dirs_in_def)
  qed
  then show ?thesis
    unfolding rename_def using assms(2)
    by (intro triple_ext_call tripleI) (auto simp: set_fs_run split: if_splits option.splits)
qed

lemma keeps_rename:
  assumes "\<forall>q\<in>D. \<not> prefix src q" and "src \<noteq> dst" and "src \<noteq> []" and "dst \<noteq> []"
  shows "keeps (\<lambda>s. dirs_in D (fs s)) (rename src dst)"
  using triple_rename [OF assms, of "{}"] by (simp add: keeps_iff_triple)

end
