(* ===== verification/Errors.thy ===== *)
theory Errors
  imports Models Filesystem
begin

text \<open>
  \<open>berth-hub/src/error.rs\<close>: the hub's error type, its conversion to an HTTP response, and the
  question which details of an error a client ever sees. An error of a third-party library
  (database, zip, JSON, multipart, timestamps) is its display text.
\<close>

section \<open>The error type\<close>

datatype (plugins only: code) app_error =
    AppNotFound string
  | DeploymentNotFound string
  | AppAlreadyExists string
  | DeleteActiveDeployment
  | InvalidName string
  | InvalidRepoUrl string
  | NotGitSourced string
  | DeploymentInProgress string
  | InvalidPublishDir string
  | InvalidRunConfig string
  | InvalidBuildConfig string
  | InvalidEnvVar string
  | InvalidUsername string
  | InvalidRole string
  | InvalidPassword string
  | UserNotFound string
  | UserAlreadyExists string
  | InvalidTokenExpiry int
  | TokenNotFound
  | HostNotFound
  | HostAlreadyExists string
  | InvalidHostIp string
  | InvalidCredentials
  | TooManyLoginAttempts int
  | PasswordHash string
  | Unauthenticated
  | Forbidden string
  | Db string
  | GitError string
  | ContainerStartFailed string
  | ContainerUnavailable string
  | CommandFailed string
  | NoContainer string
  | AgentUnavailable
  | AgentTimeout
  | AgentError string
  | AgentOperationFailed string
  | TooLarge
  | MissingUploadFile
  | Zip string
  | Multipart string
  | Io io_error
  | Json string
  | TimestampError string
  | CorruptData string

text \<open>\<open>impl From<ModelError> for AppError\<close>.\<close>

primrec from_model_error :: "model_error \<Rightarrow> app_error" where
  "from_model_error (ModelInvalidName name) = InvalidName name"
| "from_model_error (ModelInvalidRepoUrl url) = InvalidRepoUrl url"
| "from_model_error (ModelInvalidRunConfig reason) = InvalidRunConfig reason"
| "from_model_error (ModelInvalidBuildConfig reason) = InvalidBuildConfig reason"
| "from_model_error (ModelInvalidEnvVar key) = InvalidEnvVar key"

definition lift_model :: "model_error + 'a \<Rightarrow> ('s, app_error, 'a) comp" where
  "lift_model r = (case r of Inl e \<Rightarrow> throw (from_model_error e) | Inr a \<Rightarrow> ret a)"

text \<open>The \<open>#[error(...)]\<close> attributes: the text of \<open>to_string\<close>.\<close>

primrec display :: "app_error \<Rightarrow> string" where
  "display (AppNotFound s) = ''app not found: '' @ s"
| "display (DeploymentNotFound s) = ''deployment not found: '' @ s"
| "display (AppAlreadyExists s) = ''app already exists: '' @ s"
| "display DeleteActiveDeployment = ''cannot delete the active deployment''"
| "display (InvalidName s) = ''invalid name: '' @ s"
| "display (InvalidRepoUrl s) = ''invalid repo url: '' @ s"
| "display (NotGitSourced s) = ''app '' @ s @ '' is not git-sourced''"
| "display (DeploymentInProgress s) = ''app '' @ s @ '' already has a deployment in progress''"
| "display (InvalidPublishDir s) = ''invalid publish dir: '' @ s"
| "display (InvalidRunConfig s) = ''invalid run config: '' @ s"
| "display (InvalidBuildConfig s) = ''invalid build config: '' @ s"
| "display (InvalidEnvVar s) = ''invalid env var key: '' @ s"
| "display (InvalidUsername s) = ''invalid username: '' @ s"
| "display (InvalidRole s) = ''invalid role: '' @ s"
| "display (InvalidPassword s) = s"
| "display (UserNotFound s) = ''user not found: '' @ s"
| "display (UserAlreadyExists s) = ''user already exists: '' @ s"
| "display (InvalidTokenExpiry n) =
     ''invalid token expiry: must be in the future and within the configured maximum''"
| "display TokenNotFound = ''token not found''"
| "display HostNotFound = ''host not found''"
| "display (HostAlreadyExists s) = ''host already exists: '' @ s"
| "display (InvalidHostIp s) = ''invalid host ip: '' @ s"
| "display InvalidCredentials = ''invalid credentials''"
| "display (TooManyLoginAttempts n) =
     ''too many failed login attempts - try again in '' @ show_int n @ '' minute(s)''"
| "display (PasswordHash s) = ''password hashing failed: '' @ s"
| "display Unauthenticated = ''not authenticated''"
| "display (Forbidden s) = s"
| "display (Db s) = ''database error: '' @ s"
| "display (GitError s) = ''git fetch failed: '' @ s"
| "display (ContainerStartFailed s) = ''container failed to start: '' @ s"
| "display (ContainerUnavailable s) = ''container backend unavailable: '' @ s"
| "display (CommandFailed s) = s"
| "display (NoContainer s) = ''deployment '' @ s @ '' has no container''"
| "display AgentUnavailable = ''no agent is currently connected''"
| "display AgentTimeout = ''agent did not respond in time''"
| "display (AgentError s) = ''agent error: '' @ s"
| "display (AgentOperationFailed s) = ''agent operation failed: '' @ s"
| "display TooLarge = ''upload too large''"
| "display MissingUploadFile = ''missing '' @ [CHR 0x27] @ ''file'' @ [CHR 0x27] @ '' field in upload''"
| "display (Zip s) = ''zip error: '' @ s"
| "display (Multipart s) = s"
| "display (Io e) = io_text e"
| "display (Json s) = s"
| "display (TimestampError s) = s"
| "display (CorruptData s) = ''corrupt database row: '' @ s"

section \<open>The HTTP response\<close>

primrec error_status :: "app_error \<Rightarrow> nat" where
  "error_status (AppNotFound u) = 404"
| "error_status (DeploymentNotFound u) = 404"
| "error_status (UserNotFound u) = 404"
| "error_status TokenNotFound = 404"
| "error_status HostNotFound = 404"
| "error_status (AppAlreadyExists u) = 409"
| "error_status DeleteActiveDeployment = 409"
| "error_status (DeploymentInProgress u) = 409"
| "error_status (UserAlreadyExists u) = 409"
| "error_status (HostAlreadyExists u) = 409"
| "error_status (InvalidName u) = 400"
| "error_status (InvalidHostIp u) = 400"
| "error_status (InvalidRepoUrl u) = 400"
| "error_status (NotGitSourced u) = 400"
| "error_status (InvalidPublishDir u) = 400"
| "error_status (InvalidRunConfig u) = 400"
| "error_status (InvalidBuildConfig u) = 400"
| "error_status (InvalidEnvVar u) = 400"
| "error_status (InvalidUsername u) = 400"
| "error_status (InvalidRole u) = 400"
| "error_status (InvalidPassword u) = 400"
| "error_status (InvalidTokenExpiry u) = 400"
| "error_status (NoContainer u) = 400"
| "error_status MissingUploadFile = 400"
| "error_status (GitError u) = 400"
| "error_status (CommandFailed u) = 400"
| "error_status InvalidCredentials = 401"
| "error_status Unauthenticated = 401"
| "error_status (Forbidden u) = 403"
| "error_status TooLarge = 413"
| "error_status (TooManyLoginAttempts u) = 429"
| "error_status (ContainerStartFailed u) = 502"
| "error_status (ContainerUnavailable u) = 502"
| "error_status AgentUnavailable = 502"
| "error_status AgentTimeout = 502"
| "error_status (AgentError u) = 502"
| "error_status (AgentOperationFailed u) = 502"
| "error_status (Zip u) = 500"
| "error_status (Multipart u) = 500"
| "error_status (Io u) = 500"
| "error_status (Json u) = 500"
| "error_status (PasswordHash u) = 500"
| "error_status (TimestampError u) = 500"
| "error_status (CorruptData u) = 500"
| "error_status (Db u) = 500"

definition is_server_error :: "nat \<Rightarrow> bool" where
  "is_server_error status \<longleftrightarrow> 500 \<le> status \<and> status \<le> 599"

definition into_response :: "app_error \<Rightarrow> nat \<times> string" where
  "into_response e =
     (let status = error_status e;
          message = (if is_server_error status then ''internal server error'' else display e)
      in (status, message))"

section \<open>Laws\<close>

lemma keeps_lift_model [keeps_intros]: "keeps I (lift_model r)"
  by (cases r) (simp_all add: lift_model_def keeps_intros)

lemma wpc_lift_model [simp]:
  "wpc (lift_model r) Q s \<longleftrightarrow>
     (case r of Inl e \<Rightarrow> Q (Fail (from_model_error e)) s | Inr a \<Rightarrow> Q (Done a) s)"
  by (simp add: lift_model_def split: sum.splits)

lemma error_status_range: "error_status e \<in> {400, 401, 403, 404, 409, 413, 429, 500, 502}"
  by (cases e) simp_all

text \<open>
  The errors that carry text produced by a library, the operating system or an agent.
\<close>

definition internal_error :: "app_error \<Rightarrow> bool" where
  "internal_error e = (case e of
       Db _ \<Rightarrow> True | Io _ \<Rightarrow> True | Zip _ \<Rightarrow> True | Multipart _ \<Rightarrow> True | Json _ \<Rightarrow> True
     | PasswordHash _ \<Rightarrow> True | TimestampError _ \<Rightarrow> True | CorruptData _ \<Rightarrow> True
     | ContainerStartFailed _ \<Rightarrow> True | ContainerUnavailable _ \<Rightarrow> True | AgentUnavailable \<Rightarrow> True
     | AgentTimeout \<Rightarrow> True | AgentError _ \<Rightarrow> True | AgentOperationFailed _ \<Rightarrow> True | _ \<Rightarrow> False)"

lemma server_error_iff: "is_server_error (error_status e) \<longleftrightarrow> internal_error e"
  by (cases e) (simp_all add: is_server_error_def internal_error_def)

text \<open>
  C38 A response to an internal fault (database, file system, zip,
  JSON, password hash, agent or container backend) carries a 5xx status and a body that is the
  same constant for every such fault, so no internal text reaches the client; every other error
  answers with a 4xx status and its own display text.
\<close>

theorem internal_errors_leak_nothing:
  "(if internal_error e
    then 500 \<le> fst (into_response e) \<and> snd (into_response e) = ''internal server error''
    else 400 \<le> fst (into_response e) \<and> fst (into_response e) < 500
         \<and> snd (into_response e) = display e)"
proof (cases "internal_error e")
  case True
  then have "is_server_error (error_status e)" by (simp add: server_error_iff)
  then show ?thesis using True by (simp add: into_response_def Let_def is_server_error_def)
next
  case False
  then have "\<not> is_server_error (error_status e)" by (simp add: server_error_iff)
  moreover from this have "400 \<le> error_status e \<and> error_status e < 500"
    using error_status_range [of e] by (auto simp: is_server_error_def)
  ultimately show ?thesis using False by (simp add: into_response_def Let_def)
qed

end
