(* ===== verification/Proto.thy ===== *)
theory Proto
  imports Models
begin

text \<open>
  The wire messages of \<open>berth.proto\<close> as the generated Rust code has them: a \<open>oneof\<close> is an
  \<open>option\<close> of a datatype (a peer may send none of the cases), an enum field is an \<open>i32\<close> read
  back with \<open>try_from\<close>. Host and container statistics are carried, never computed with, so
  their floating-point fields are the bit patterns of the \<open>f64\<close> and \<open>f32\<close>.
\<close>

section \<open>Common messages\<close>

record chunk =
  ch_data :: string
  ch_is_final :: bool

datatype agent_error_kind = KUnspecified | KUnavailable | KStartFailed | KCommandFailed

definition kind_to_i32 :: "agent_error_kind \<Rightarrow> int" where
  "kind_to_i32 k = (case k of KUnspecified \<Rightarrow> 0 | KUnavailable \<Rightarrow> 1 | KStartFailed \<Rightarrow> 2 | KCommandFailed \<Rightarrow> 3)"

definition kind_from_i32 :: "int \<Rightarrow> agent_error_kind option" where
  "kind_from_i32 i = (if i = 0 then Some KUnspecified else if i = 1 then Some KUnavailable
     else if i = 2 then Some KStartFailed else if i = 3 then Some KCommandFailed else None)"

record agent_error =
  ae_kind :: int
  ae_message :: string

datatype command_result = CrOk | CrError agent_error | CrNone

datatype command_output = CoLog chunk | CoResult command_result | CoNone

record container_stats =
  cs_cpu_percent :: "64 word"
  cs_memory_usage_bytes :: u64
  cs_memory_limit_bytes :: u64

record host_stats =
  hs_cpu_percent :: "32 word"
  hs_cpu_per_core_percent :: "32 word list"
  hs_memory_usage_bytes :: u64
  hs_memory_total_bytes :: u64
  hs_disk_usage_bytes :: u64
  hs_disk_total_bytes :: u64

datatype host_stats_result = HsOk host_stats | HsError string | HsNone

datatype is_running_result = IrOk bool | IrError agent_error | IrNone

datatype container_stats_result = CsOk container_stats | CsError agent_error | CsNone

datatype list_dirs_result = LdOk "string list" | LdError agent_error | LdNone

datatype upload_result = UpSize u64 | UpError agent_error | UpNone

record http_header =
  hh_name :: string
  hh_value :: string

record relay_request_head =
  rq_method :: string
  rq_path :: string
  rq_headers :: "http_header list"
  rq_container_name :: string
  rq_container_port :: "32 word"

datatype relay_request = RqHead relay_request_head | RqBody chunk | RqNone

record relay_response_head =
  rs_status :: "32 word"
  rs_headers :: "http_header list"

datatype relay_response = RsHead relay_response_head | RsBody chunk | RsError agent_error | RsNone

record start_run_container_request =
  sr_deployment_id :: string
  sr_container_name :: string
  sr_run_config_json :: string
  sr_env_vars_json :: string
  sr_install_timeout_secs :: u64

record run_build_command_request =
  rb_container_name :: string
  rb_checkout_dir :: string
  rb_image :: string
  rb_command :: string
  rb_env_vars_json :: string
  rb_timeout_secs :: u64

section \<open>Session payloads\<close>

text \<open>Hub to agent (\<open>session_response::Payload\<close>).\<close>

datatype (plugins only: code) hub_payload =
    GetHostStats
  | EchoUpload chunk
  | EchoStreamRequest "32 word"
  | StartRunContainer start_run_container_request
  | RunBuildCommand run_build_command_request
  | StopAndRemoveContainer string bool
  | IsContainerRunning string
  | ContainerStatsReq string
  | StreamContainerLogs string bool
  | CreateDeploymentDir string
  | DeleteDeploymentDir string
  | ListDeploymentDirs
  | UploadZipAndExtract string u64 "chunk option"
  | RelayHttpRequest relay_request

text \<open>Agent to hub (\<open>session_request::Payload\<close>).\<close>

datatype (plugins only: code) agent_payload =
    HostStatsResult host_stats_result
  | EchoUploadResult u64
  | EchoStreamChunk chunk
  | StartRunContainerResult command_output
  | RunBuildCommandResult command_output
  | StopAndRemoveContainerResult command_result
  | IsContainerRunningResult is_running_result
  | ContainerStatsResult container_stats_result
  | StreamContainerLogsChunk chunk
  | CreateDeploymentDirResult command_result
  | DeleteDeploymentDirResult command_result
  | ListDeploymentDirsResult list_dirs_result
  | UploadZipAndExtractResult upload_result
  | RelayHttpResponse relay_response

lemma kind_roundtrip [simp]: "kind_from_i32 (kind_to_i32 k) = Some k"
  by (cases k) (simp_all add: kind_from_i32_def kind_to_i32_def)

end
