(* ===== verification/Tables.thy ===== *)
theory Tables
  imports Rust_Std
begin

text \<open>
  The database of \<open>berth-db\<close>: the row types of \<open>models.rs\<close>, the unique indexes that file and the
  migrations declare, and the interface the storage layer uses (insert, update, delete, look up
  by key), stated as a locale whose laws are proved for each table and key of the schema. The
  database engine itself is not source code: a statement either has its effect on the rows or
  fails (the fault script decides which), and a unique index rejects a conflicting row.
\<close>

section \<open>Rows\<close>

type_synonym uuid = "128 word"

record db_user =
  u_id :: int
  u_username :: string
  u_password_hash :: string
  u_role :: string
  u_created_at :: int
  u_updated_at :: int

record db_app =
  a_id :: uuid
  a_name :: string
  a_source_json :: string
  a_env_vars_json :: string
  a_active_deployment_id :: "uuid option"
  a_host_id :: int
  a_created_at :: int
  a_updated_at :: int

record db_permission =
  p_id :: int
  p_app_id :: uuid
  p_user_id :: int
  p_level :: string
  p_created_at :: int
  p_updated_at :: int

record db_token =
  t_id :: int
  t_user_id :: int
  t_name :: string
  t_token_id :: string
  t_token_hash :: string
  t_expires_at :: int
  t_revoked :: bool
  t_created_at :: int
  t_updated_at :: int

record db_host =
  h_id :: int
  h_name :: string
  h_token_id :: string
  h_token_hash :: string
  h_revoked :: bool
  h_last_seen_at :: "int option"
  h_ip :: "string option"
  h_last_connected_ip :: "string option"
  h_created_at :: int
  h_updated_at :: int

record db_deployment =
  d_id :: uuid
  d_app_id :: uuid
  d_created_at :: int
  d_original_filename :: "string option"
  d_upload_size_bytes :: int
  d_git_info_json :: "string option"
  d_build_info_json :: "string option"
  d_container_name :: "string option"
  d_status :: string
  d_failure_error :: "string option"

text \<open>The stored enums: a level and a deployment state as text, with their parsers.\<close>

datatype db_permission_level = DbRead | DbWrite

definition db_level_as_str :: "db_permission_level \<Rightarrow> string" where
  "db_level_as_str l = (case l of DbRead \<Rightarrow> ''read'' | DbWrite \<Rightarrow> ''write'')"

definition db_level_from_str :: "string \<Rightarrow> string + db_permission_level" where
  "db_level_from_str v =
     (if v = ''read'' then Inr DbRead else if v = ''write'' then Inr DbWrite
      else Inl (''invalid permission level: '' @ v))"

datatype deployment_state = StPending | StReady | StFailed

definition state_as_str :: "deployment_state \<Rightarrow> string" where
  "state_as_str st = (case st of StPending \<Rightarrow> ''pending'' | StReady \<Rightarrow> ''ready'' | StFailed \<Rightarrow> ''failed'')"

definition state_from_str :: "string \<Rightarrow> string + deployment_state" where
  "state_from_str v =
     (if v = ''pending'' then Inr StPending else if v = ''ready'' then Inr StReady
      else if v = ''failed'' then Inr StFailed else Inl (''invalid deployment state: '' @ v))"

lemma db_level_roundtrip [simp]: "db_level_from_str (db_level_as_str l) = Inr l"
  by (cases l) (simp_all add: db_level_from_str_def db_level_as_str_def)

lemma state_roundtrip [simp]: "state_from_str (state_as_str st) = Inr st"
  by (cases st) (simp_all add: state_from_str_def state_as_str_def)

lemma state_as_str_inj [simp]: "state_as_str a = state_as_str b \<longleftrightarrow> a = b"
  by (cases a; cases b) (simp_all add: state_as_str_def)

section \<open>Unique indexes\<close>

text \<open>Two rows that the primary key or a unique index forbids to coexist.\<close>

definition user_clash :: "db_user \<Rightarrow> db_user \<Rightarrow> bool" where
  "user_clash a b \<longleftrightarrow> u_id a = u_id b \<or> u_username a = u_username b"

definition app_clash :: "db_app \<Rightarrow> db_app \<Rightarrow> bool" where
  "app_clash a b \<longleftrightarrow> a_id a = a_id b \<or> a_name a = a_name b"

definition permission_clash :: "db_permission \<Rightarrow> db_permission \<Rightarrow> bool" where
  "permission_clash a b \<longleftrightarrow> p_id a = p_id b"

definition token_clash :: "db_token \<Rightarrow> db_token \<Rightarrow> bool" where
  "token_clash a b \<longleftrightarrow> t_id a = t_id b \<or> t_token_id a = t_token_id b"

definition host_clash :: "db_host \<Rightarrow> db_host \<Rightarrow> bool" where
  "host_clash a b \<longleftrightarrow> h_id a = h_id b \<or> h_name a = h_name b \<or> h_token_id a = h_token_id b"

definition deployment_clash :: "db_deployment \<Rightarrow> db_deployment \<Rightarrow> bool" where
  "deployment_clash a b \<longleftrightarrow> d_id a = d_id b"

definition no_clash :: "('r \<Rightarrow> 'r \<Rightarrow> bool) \<Rightarrow> 'r list \<Rightarrow> bool" where
  "no_clash clash rs = sorted_wrt (\<lambda>a b. \<not> clash a b) rs"

definition insert_row :: "('r \<Rightarrow> 'r \<Rightarrow> bool) \<Rightarrow> 'r \<Rightarrow> 'r list \<Rightarrow> 'r list option" where
  "insert_row clash r rs = (if list_ex (clash r) rs then None else Some (rs @ [r]))"

definition update_rows ::
  "('r \<Rightarrow> 'r \<Rightarrow> bool) \<Rightarrow> ('r \<Rightarrow> bool) \<Rightarrow> ('r \<Rightarrow> 'r) \<Rightarrow> 'r list \<Rightarrow> 'r list option" where
  "update_rows clash P f rs =
     (let rs' = map (\<lambda>r. if P r then f r else r) rs in if no_clash clash rs' then Some rs' else None)"

definition delete_rows :: "('r \<Rightarrow> bool) \<Rightarrow> 'r list \<Rightarrow> 'r list" where
  "delete_rows P rs = filter (\<lambda>r. \<not> P r) rs"

section \<open>The table interface\<close>

locale keyed_table =
  fixes ins :: "'r \<Rightarrow> 'r list \<Rightarrow> 'r list option"
    and upd :: "('r \<Rightarrow> bool) \<Rightarrow> ('r \<Rightarrow> 'r) \<Rightarrow> 'r list \<Rightarrow> 'r list option"
    and del :: "('r \<Rightarrow> bool) \<Rightarrow> 'r list \<Rightarrow> 'r list"
    and inv :: "'r list \<Rightarrow> bool"
    and key :: "'r \<Rightarrow> 'k"
  assumes ins_rows: "ins r rs = Some rs' \<Longrightarrow> rs' = rs @ [r]"
    and ins_fresh: "ins r rs = Some rs' \<Longrightarrow> key r \<notin> key ` set rs"
    and ins_inv: "inv rs \<Longrightarrow> ins r rs = Some rs' \<Longrightarrow> inv rs'"
    and upd_rows: "upd P f rs = Some rs' \<Longrightarrow> rs' = map (\<lambda>r. if P r then f r else r) rs"
    and upd_inv: "upd P f rs = Some rs' \<Longrightarrow> inv rs'"
    and del_rows: "del P rs = filter (\<lambda>r. \<not> P r) rs"
    and del_inv: "inv rs \<Longrightarrow> inv (del P rs)"
    and inv_keys: "inv rs \<Longrightarrow> distinct (map key rs)"
begin

lemma key_unique: "inv rs \<Longrightarrow> a \<in> set rs \<Longrightarrow> b \<in> set rs \<Longrightarrow> key a = key b \<Longrightarrow> a = b"
  using inv_keys by (metis distinct_map inj_onD)

lemma find_key:
  assumes "inv rs" and "r \<in> set rs"
  shows "find (\<lambda>q. key q = key r) rs = Some r"
proof -
  obtain q where q: "find (\<lambda>q. key q = key r) rs = Some q"
    using find_Some_ex [of r rs "\<lambda>q. key q = key r"] assms(2) by auto
  then have "q \<in> set rs" and "key q = key r" by (auto dest: find_SomeD)
  with assms have "q = r" by (auto intro: key_unique)
  with q show ?thesis by simp
qed

lemma find_key_iff:
  assumes "inv rs"
  shows "find (\<lambda>q. key q = k) rs = Some r \<longleftrightarrow> r \<in> set rs \<and> key r = k"
  using find_key [OF assms, of r] by (auto dest: find_SomeD)

lemma find_ins_same: "inv rs \<Longrightarrow> ins r rs = Some rs' \<Longrightarrow> find (\<lambda>q. key q = key r) rs' = Some r"
  by (rule find_key) (auto dest: ins_inv ins_rows)

lemma find_ins_other:
  "ins r rs = Some rs' \<Longrightarrow> k \<noteq> key r \<Longrightarrow> find (\<lambda>q. key q = k) rs' = find (\<lambda>q. key q = k) rs"
  by (auto dest!: ins_rows simp: find_append split: option.split)

lemma find_del_key:
  "find (\<lambda>q. key q = k) (del (\<lambda>q. key q = k) rs) = None"
  by (simp add: del_rows find_None_iff)

lemma find_upd_key:
  assumes "inv rs" and "upd (\<lambda>q. key q = key r) f rs = Some rs'" and "r \<in> set rs" and "key (f r) = key r"
  shows "find (\<lambda>q. key q = key r) rs' = Some (f r)"
proof -
  have rs': "rs' = map (\<lambda>q. if key q = key r then f q else q) rs"
    using assms(2) by (rule upd_rows)
  then have "f r \<in> set rs'" using assms(3) by force
  then show ?thesis using find_key [OF upd_inv [OF assms(2)]] assms(4) by fastforce
qed

end

section \<open>The tables of the schema\<close>

lemma no_clash_Nil [simp]: "no_clash c []"
  by (simp add: no_clash_def)

lemma no_clash_filter: "no_clash c rs \<Longrightarrow> no_clash c (filter P rs)"
  by (simp add: no_clash_def sorted_wrt_filter)

lemma no_clash_snoc:
  assumes "\<And>a b. c a b \<longleftrightarrow> c b a"
  shows "no_clash c (rs @ [r]) \<longleftrightarrow> no_clash c rs \<and> (\<forall>q\<in>set rs. \<not> c r q)"
  using assms by (auto simp: no_clash_def sorted_wrt_append)

lemma no_clash_distinct:
  assumes "\<And>a b. key a = key b \<Longrightarrow> c a b" and "no_clash c rs"
  shows "distinct (map key rs)"
  using assms(2) unfolding no_clash_def
  by (induction rs) (auto, metis assms(1))

lemma insert_row_Some:
  "insert_row c r rs = Some rs' \<longleftrightarrow> (\<forall>q\<in>set rs. \<not> c r q) \<and> rs' = rs @ [r]"
  by (auto simp: insert_row_def list_ex_iff)

lemma update_rows_Some:
  "update_rows c P f rs = Some rs' \<longleftrightarrow>
     rs' = map (\<lambda>r. if P r then f r else r) rs \<and> no_clash c rs'"
  by (auto simp: update_rows_def Let_def)

lemma keyed_tableI:
  assumes sym: "\<And>a b. c a b \<longleftrightarrow> c b a" and key: "\<And>a b. key a = key b \<Longrightarrow> c a b"
  shows "keyed_table (insert_row c) (update_rows c) delete_rows (no_clash c) key"
proof
  show "no_clash c rs \<Longrightarrow> insert_row c r rs = Some rs' \<Longrightarrow> no_clash c rs'" for r rs rs'
    by (auto simp: insert_row_Some no_clash_snoc [OF sym])
  show "no_clash c rs \<Longrightarrow> distinct (map key rs)" for rs
    using key by (rule no_clash_distinct)
qed (auto simp: insert_row_Some update_rows_Some delete_rows_def no_clash_filter dest: key)

interpretation users_by_id: keyed_table
  "insert_row user_clash" "update_rows user_clash" delete_rows "no_clash user_clash" u_id
  by (rule keyed_tableI) (auto simp: user_clash_def)

interpretation users_by_name: keyed_table
  "insert_row user_clash" "update_rows user_clash" delete_rows "no_clash user_clash" u_username
  by (rule keyed_tableI) (auto simp: user_clash_def)

interpretation apps_by_id: keyed_table
  "insert_row app_clash" "update_rows app_clash" delete_rows "no_clash app_clash" a_id
  by (rule keyed_tableI) (auto simp: app_clash_def)

interpretation apps_by_name: keyed_table
  "insert_row app_clash" "update_rows app_clash" delete_rows "no_clash app_clash" a_name
  by (rule keyed_tableI) (auto simp: app_clash_def)

interpretation permissions_by_id: keyed_table
  "insert_row permission_clash" "update_rows permission_clash" delete_rows
  "no_clash permission_clash" p_id
  by (rule keyed_tableI) (auto simp: permission_clash_def)

interpretation tokens_by_token_id: keyed_table
  "insert_row token_clash" "update_rows token_clash" delete_rows "no_clash token_clash" t_token_id
  by (rule keyed_tableI) (auto simp: token_clash_def)

interpretation tokens_by_id: keyed_table
  "insert_row token_clash" "update_rows token_clash" delete_rows "no_clash token_clash" t_id
  by (rule keyed_tableI) (auto simp: token_clash_def)

interpretation hosts_by_id: keyed_table
  "insert_row host_clash" "update_rows host_clash" delete_rows "no_clash host_clash" h_id
  by (rule keyed_tableI) (auto simp: host_clash_def)

interpretation hosts_by_name: keyed_table
  "insert_row host_clash" "update_rows host_clash" delete_rows "no_clash host_clash" h_name
  by (rule keyed_tableI) (auto simp: host_clash_def)

interpretation hosts_by_token_id: keyed_table
  "insert_row host_clash" "update_rows host_clash" delete_rows "no_clash host_clash" h_token_id
  by (rule keyed_tableI) (auto simp: host_clash_def)

interpretation deployments_by_id: keyed_table
  "insert_row deployment_clash" "update_rows deployment_clash" delete_rows
  "no_clash deployment_clash" d_id
  by (rule keyed_tableI) (auto simp: deployment_clash_def)

end
