(* ===== verification/Net.thy ===== *)
theory Net
  imports Rust_Std
begin

text \<open>
  Addresses: the classification of \<open>git_fetch.rs\<close> that keeps git deployments away from
  non-public hosts, and the parser of \<open>std::net::IpAddr\<close> that \<open>update_host_ip\<close> validates with.
\<close>

datatype ip_addr =
    IpV4 u8 u8 u8 u8
  | IpV6 u16 u16 u16 u16 u16 u16 u16 u16

section \<open>Public addresses\<close>

definition v4_is_private :: "u8 \<Rightarrow> u8 \<Rightarrow> bool" where
  "v4_is_private a b \<longleftrightarrow> a = 10 \<or> (a = 172 \<and> 16 \<le> b \<and> b \<le> 31) \<or> (a = 192 \<and> b = 168)"

definition v4_is_documentation :: "u8 \<Rightarrow> u8 \<Rightarrow> u8 \<Rightarrow> bool" where
  "v4_is_documentation a b c \<longleftrightarrow>
     (a = 192 \<and> b = 0 \<and> c = 2) \<or> (a = 198 \<and> b = 51 \<and> c = 100) \<or> (a = 203 \<and> b = 0 \<and> c = 113)"

definition is_public_ipv4 :: "u8 \<Rightarrow> u8 \<Rightarrow> u8 \<Rightarrow> u8 \<Rightarrow> bool" where
  "is_public_ipv4 a b c d \<longleftrightarrow>
     \<not> (v4_is_private a b
        \<or> a = 127
        \<or> (a = 169 \<and> b = 254)
        \<or> (a = 255 \<and> b = 255 \<and> c = 255 \<and> d = 255)
        \<or> v4_is_documentation a b c
        \<or> (224 \<le> a \<and> a \<le> 239)
        \<or> (a = 0 \<and> b = 0 \<and> c = 0 \<and> d = 0)
        \<or> a = 0
        \<or> (a = 100 \<and> 64 \<le> b \<and> b \<le> 127)
        \<or> (a = 198 \<and> 18 \<le> b \<and> b \<le> 19)
        \<or> 240 \<le> a)"

definition high_byte :: "u16 \<Rightarrow> u8" where
  "high_byte w = ucast (drop_bit 8 w)"

definition low_byte :: "u16 \<Rightarrow> u8" where
  "low_byte w = ucast w"

definition is_public_ip :: "ip_addr \<Rightarrow> bool" where
  "is_public_ip ip = (case ip of
       IpV4 a b c d \<Rightarrow> is_public_ipv4 a b c d
     | IpV6 s0 s1 s2 s3 s4 s5 s6 s7 \<Rightarrow>
        (if s0 = 0 \<and> s1 = 0 \<and> s2 = 0 \<and> s3 = 0 \<and> s4 = 0 \<and> s5 = 0xFFFF
         then is_public_ipv4 (high_byte s6) (low_byte s6) (high_byte s7) (low_byte s7)
         else
          \<not> ((s0 = 0 \<and> s1 = 0 \<and> s2 = 0 \<and> s3 = 0 \<and> s4 = 0 \<and> s5 = 0 \<and> s6 = 0 \<and> s7 = 1)
             \<or> 0xFF00 \<le> s0
             \<or> (s0 = 0 \<and> s1 = 0 \<and> s2 = 0 \<and> s3 = 0 \<and> s4 = 0 \<and> s5 = 0 \<and> s6 = 0 \<and> s7 = 0)
             \<or> (0xFC00 \<le> s0 \<and> s0 \<le> 0xFDFF)
             \<or> (0xFE80 \<le> s0 \<and> s0 \<le> 0xFEBF))))"

text \<open>
  \<open>ensure_host_is_public\<close>. The URL parser (\<open>gix::url\<close>) and the resolver are parameters: the
  first gives the host and port of a URL, the second the addresses of a host at the time of the
  check. The look-up that the git library makes later is another call and may answer otherwise.
\<close>

definition ensure_host_is_public ::
  "(string \<Rightarrow> string + (string option \<times> u16 option)) \<Rightarrow> (string \<Rightarrow> u16 \<Rightarrow> string + ip_addr list)
    \<Rightarrow> string \<Rightarrow> string + unit" where
  "ensure_host_is_public parse_url resolve repo_url =
     (case parse_url repo_url of
        Inl err \<Rightarrow> Inl err
      | Inr (None, _) \<Rightarrow> Inl (''repo URL '' @ repo_url @ '' has no host to validate'')
      | Inr (Some host, port) \<Rightarrow>
         (case resolve host (case port of Some p \<Rightarrow> p | None \<Rightarrow> 0) of
            Inl err \<Rightarrow> Inl (''could not resolve host '' @ host @ '': '' @ err)
          | Inr addrs \<Rightarrow>
             if \<not> list_all is_public_ip addrs
               then Inl (''repo host '' @ host @ '' resolves to a non-public address'')
             else if addrs = []
               then Inl (''repo host '' @ host @ '' did not resolve to any address'')
             else Inr ()))"

text \<open>
  The reference: the special-purpose blocks by their network address and prefix length, on the
  address as a number.
\<close>

definition special_blocks :: "(nat \<times> nat) list" where
  "special_blocks = [
     (0x00000000, 8),   \<comment> \<open>0.0.0.0/8\<close>
     (0x0A000000, 8),   \<comment> \<open>10.0.0.0/8\<close>
     (0x64400000, 10),  \<comment> \<open>100.64.0.0/10\<close>
     (0x7F000000, 8),   \<comment> \<open>127.0.0.0/8\<close>
     (0xA9FE0000, 16),  \<comment> \<open>169.254.0.0/16\<close>
     (0xAC100000, 12),  \<comment> \<open>172.16.0.0/12\<close>
     (0xC0000200, 24),  \<comment> \<open>192.0.2.0/24\<close>
     (0xC0A80000, 16),  \<comment> \<open>192.168.0.0/16\<close>
     (0xC6120000, 15),  \<comment> \<open>198.18.0.0/15\<close>
     (0xC6336400, 24),  \<comment> \<open>198.51.100.0/24\<close>
     (0xCB007100, 24),  \<comment> \<open>203.0.113.0/24\<close>
     (0xE0000000, 4),   \<comment> \<open>224.0.0.0/4\<close>
     (0xF0000000, 4)]   \<comment> \<open>240.0.0.0/4\<close>"

definition in_block :: "nat \<Rightarrow> nat \<times> nat \<Rightarrow> bool" where
  "in_block n b \<longleftrightarrow> n div 2 ^ (32 - snd b) = fst b div 2 ^ (32 - snd b)"

definition v4_number :: "u8 \<Rightarrow> u8 \<Rightarrow> u8 \<Rightarrow> u8 \<Rightarrow> nat" where
  "v4_number a b c d = unat a * 2 ^ 24 + unat b * 2 ^ 16 + unat c * 2 ^ 8 + unat d"

lemma unat_u8 [simp]: "unat (a :: u8) < 256"
  using unsigned_less [of a, where 'a = nat] by simp

lemma u8_eq_iff: "a = b \<longleftrightarrow> unat (a :: u8) = unat b"
  by (simp add: unsigned_word_eqI [symmetric] word_unat_eq_iff)

lemma u8_le_iff: "a \<le> b \<longleftrightarrow> unat (a :: u8) \<le> unat b"
  by (rule word_le_nat_alt)

lemma public_ipv4_nat_form:
  "is_public_ipv4 a b c d \<longleftrightarrow>
     (let a' = unat a; b' = unat b; c' = unat c; d' = unat d in
      \<not> (a' = 10 \<or> (a' = 172 \<and> 16 \<le> b' \<and> b' \<le> 31) \<or> (a' = 192 \<and> b' = 168)
         \<or> a' = 127 \<or> (a' = 169 \<and> b' = 254)
         \<or> (a' = 192 \<and> b' = 0 \<and> c' = 2) \<or> (a' = 198 \<and> b' = 51 \<and> c' = 100)
         \<or> (a' = 203 \<and> b' = 0 \<and> c' = 113)
         \<or> 224 \<le> a' \<and> a' \<le> 239 \<or> a' = 0
         \<or> (a' = 100 \<and> 64 \<le> b' \<and> b' \<le> 127) \<or> (a' = 198 \<and> 18 \<le> b' \<and> b' \<le> 19) \<or> 240 \<le> a'))"
  unfolding is_public_ipv4_def v4_is_private_def v4_is_documentation_def Let_def u8_eq_iff u8_le_iff
  by (cases "unat a = 0"; cases "unat a = 255") simp_all

lemma block_arith:
  fixes a b c d :: nat
  assumes "b < 256" "c < 256" "d < 256"
  defines "n \<equiv> a * 2 ^ 24 + b * 2 ^ 16 + c * 2 ^ 8 + d"
  shows "n div 2 ^ 24 = a" "n div 2 ^ 16 = a * 256 + b" "n div 2 ^ 8 = a * 65536 + b * 256 + c"
    "n div 2 ^ 22 = a * 4 + b div 64" "n div 2 ^ 20 = a * 16 + b div 16"
    "n div 2 ^ 17 = a * 128 + b div 2" "n div 2 ^ 28 = a div 16"
  using assms by (simp_all add: n_def)

lemma special_blocks_nat:
  fixes a b c d :: nat
  assumes "a < 256" "b < 256" "c < 256" "d < 256"
  defines "n \<equiv> a * 2 ^ 24 + b * 2 ^ 16 + c * 2 ^ 8 + d"
  shows "list_ex (in_block n) special_blocks \<longleftrightarrow>
     a = 0 \<or> a = 10 \<or> a * 4 + b div 64 = 401 \<or> a = 127 \<or> a * 256 + b = 43518
     \<or> a * 16 + b div 16 = 2753 \<or> a * 65536 + b * 256 + c = 12582914 \<or> a * 256 + b = 49320
     \<or> a * 128 + b div 2 = 25353 \<or> a * 65536 + b * 256 + c = 12989284
     \<or> a * 65536 + b * 256 + c = 13303921 \<or> a div 16 = 14 \<or> a div 16 = 15"
proof -
  note eqs = block_arith [OF assms(2-4), of a, folded n_def]
  have "list_ex (in_block n) special_blocks \<longleftrightarrow>
     n div 2 ^ 24 = 0 \<or> n div 2 ^ 24 = 10 \<or> n div 2 ^ 22 = 401 \<or> n div 2 ^ 24 = 127 \<or> n div 2 ^ 16 = 43518
     \<or> n div 2 ^ 20 = 2753 \<or> n div 2 ^ 8 = 12582914 \<or> n div 2 ^ 16 = 49320
     \<or> n div 2 ^ 17 = 25353 \<or> n div 2 ^ 8 = 12989284
     \<or> n div 2 ^ 8 = 13303921 \<or> n div 2 ^ 28 = 14 \<or> n div 2 ^ 28 = 15"
    by (simp add: special_blocks_def in_block_def)
  then show ?thesis unfolding eqs .
qed

lemma digit_eq:
  fixes a q m r s :: nat
  assumes "r < m" and "s < m"
  shows "a * m + r = q * m + s \<longleftrightarrow> a = q \<and> r = s"
proof
  assume "a * m + r = q * m + s"
  then have "(a * m + r) div m = (q * m + s) div m" and "(a * m + r) mod m = (q * m + s) mod m"
    by simp_all
  with assms show "a = q \<and> r = s" by simp
qed simp

lemma block_equations:
  fixes a b c :: nat
  assumes "b < 256" "c < 256"
  shows "a * 4 + b div 64 = 401 \<longleftrightarrow> a = 100 \<and> 64 \<le> b \<and> b \<le> 127"
    and "a * 256 + b = 43518 \<longleftrightarrow> a = 169 \<and> b = 254"
    and "a * 16 + b div 16 = 2753 \<longleftrightarrow> a = 172 \<and> 16 \<le> b \<and> b \<le> 31"
    and "a * 65536 + b * 256 + c = 12582914 \<longleftrightarrow> a = 192 \<and> b = 0 \<and> c = 2"
    and "a * 256 + b = 49320 \<longleftrightarrow> a = 192 \<and> b = 168"
    and "a * 128 + b div 2 = 25353 \<longleftrightarrow> a = 198 \<and> 18 \<le> b \<and> b \<le> 19"
    and "a * 65536 + b * 256 + c = 12989284 \<longleftrightarrow> a = 198 \<and> b = 51 \<and> c = 100"
    and "a * 65536 + b * 256 + c = 13303921 \<longleftrightarrow> a = 203 \<and> b = 0 \<and> c = 113"
proof -
  have d: "b div 64 < 4" "b div 16 < 16" "b div 2 < 128" using assms by simp_all
  have r: "b div 64 = 1 \<longleftrightarrow> 64 \<le> b \<and> b \<le> 127" "b div 16 = 1 \<longleftrightarrow> 16 \<le> b \<and> b \<le> 31"
    "b div 2 = 9 \<longleftrightarrow> 18 \<le> b \<and> b \<le> 19" by linarith+
  have t: "a * 65536 + b * 256 + c = x * 65536 + y * 256 + z \<longleftrightarrow> a = x \<and> b = y \<and> c = z"
    if "y < 256" "z < 256" for x y z
  proof -
    have "b * 256 + c < 65536" and "y * 256 + z < 65536" using assms that by linarith+
    then show ?thesis
      using digit_eq [of "b * 256 + c" 65536 "y * 256 + z" a x] digit_eq [of c 256 z b y] assms(2) that(2)
      by (simp add: add.assoc)
  qed
  show "a * 4 + b div 64 = 401 \<longleftrightarrow> a = 100 \<and> 64 \<le> b \<and> b \<le> 127"
    using digit_eq [OF d(1), of 1 a 100] r by simp
  show "a * 256 + b = 43518 \<longleftrightarrow> a = 169 \<and> b = 254" using digit_eq [OF assms(1), of 254 a 169] by simp
  show "a * 16 + b div 16 = 2753 \<longleftrightarrow> a = 172 \<and> 16 \<le> b \<and> b \<le> 31"
    using digit_eq [OF d(2), of 1 a 172] r by simp
  show "a * 65536 + b * 256 + c = 12582914 \<longleftrightarrow> a = 192 \<and> b = 0 \<and> c = 2" using t [of 0 2 192] by simp
  show "a * 256 + b = 49320 \<longleftrightarrow> a = 192 \<and> b = 168" using digit_eq [OF assms(1), of 168 a 192] by simp
  show "a * 128 + b div 2 = 25353 \<longleftrightarrow> a = 198 \<and> 18 \<le> b \<and> b \<le> 19"
    using digit_eq [OF d(3), of 9 a 198] r by simp
  show "a * 65536 + b * 256 + c = 12989284 \<longleftrightarrow> a = 198 \<and> b = 51 \<and> c = 100"
    using t [of 51 100 198] by simp
  show "a * 65536 + b * 256 + c = 13303921 \<longleftrightarrow> a = 203 \<and> b = 0 \<and> c = 113"
    using t [of 0 113 203] by simp
qed

lemma block_top:
  fixes a :: nat
  assumes "a < 256"
  shows "a div 16 = 14 \<or> a div 16 = 15 \<longleftrightarrow> 224 \<le> a \<and> a \<le> 239 \<or> 240 \<le> a"
  using assms by linarith

text \<open>C40 The IPv4 classification that guards git deployments against server-side
  request forgery, written in the code as predicates on octets, accepts exactly the addresses
  that lie in none of the special-purpose blocks (network address and prefix length) above.\<close>

theorem public_ipv4_iff_no_special_block:
  "is_public_ipv4 a b c d \<longleftrightarrow> \<not> list_ex (in_block (v4_number a b c d)) special_blocks"
  using block_top [OF unat_u8, of a]
  unfolding public_ipv4_nat_form v4_number_def Let_def
    special_blocks_nat [OF unat_u8 unat_u8 unat_u8 unat_u8]
    block_equations [OF unat_u8 unat_u8]
  by argo

section \<open>Parsing\<close>

text \<open>
  \<open>str::parse::<IpAddr>\<close>, as the standard library's parser reads it: dotted decimal of four
  octets without leading zeros, or up to eight hexadecimal groups with one \<open>::\<close> and an optional
  embedded IPv4 tail; the whole text must be consumed.
\<close>

definition digit_value :: "char \<Rightarrow> nat option" where
  "digit_value c =
     (let n = of_char c in
      if 48 \<le> n \<and> n \<le> 57 then Some (n - 48)
      else if 97 \<le> n \<and> n \<le> 102 then Some (n - 87)
      else if 65 \<le> n \<and> n \<le> 70 then Some (n - 55)
      else None)"

definition radix_digit :: "nat \<Rightarrow> char \<Rightarrow> nat option" where
  "radix_digit radix c = (case digit_value c of Some d \<Rightarrow> if d < radix then Some d else None | None \<Rightarrow> None)"

definition read_number :: "nat \<Rightarrow> nat \<Rightarrow> bool \<Rightarrow> nat \<Rightarrow> string \<Rightarrow> (nat \<times> string) option" where
  "read_number radix max_digits zero_prefix bound s =
     (let ds = takeWhile (\<lambda>c. radix_digit radix c \<noteq> None) s;
          v = foldl (\<lambda>acc c. acc * radix + the (radix_digit radix c)) 0 ds in
      if ds = [] \<or> max_digits < length ds then None
      else if \<not> zero_prefix \<and> hd ds = CHR ''0'' \<and> 1 < length ds then None
      else if bound \<le> v then None
      else Some (v, drop (length ds) s))"

definition read_char :: "char \<Rightarrow> string \<Rightarrow> string option" where
  "read_char c s = (case s of [] \<Rightarrow> None | x # r \<Rightarrow> if x = c then Some r else None)"

definition read_separator ::
  "char \<Rightarrow> nat \<Rightarrow> (string \<Rightarrow> ('a \<times> string) option) \<Rightarrow> string \<Rightarrow> ('a \<times> string) option" where
  "read_separator sep i p s =
     (if i = 0 then p s else case read_char sep s of None \<Rightarrow> None | Some r \<Rightarrow> p r)"

primrec read_octets :: "nat \<Rightarrow> nat \<Rightarrow> string \<Rightarrow> (nat list \<times> string) option" where
  "read_octets 0 i s = Some ([], s)"
| "read_octets (Suc n) i s =
     (case read_separator CHR ''.'' i (read_number 10 3 False 256) s of
        None \<Rightarrow> None
      | Some (v, r) \<Rightarrow> map_option (\<lambda>(vs, r'). (v # vs, r')) (read_octets n (Suc i) r))"

definition read_ipv4 :: "string \<Rightarrow> (nat list \<times> string) option" where
  "read_ipv4 s = read_octets 4 0 s"

text \<open>The groups read, whether they end in an embedded IPv4 address, and the rest.\<close>

primrec read_groups :: "nat \<Rightarrow> nat \<Rightarrow> string \<Rightarrow> nat list \<times> bool \<times> string" where
  "read_groups 0 i s = ([], False, s)"
| "read_groups (Suc n) i s =
     (case (if 1 \<le> n then read_separator CHR '':'' i read_ipv4 s else None) of
        Some ([a, b, c, d], r) \<Rightarrow> ([a * 256 + b, c * 256 + d], True, r)
      | _ \<Rightarrow>
         (case read_separator CHR '':'' i (read_number 16 4 True 65536) s of
            None \<Rightarrow> ([], False, s)
          | Some (g, r) \<Rightarrow> (case read_groups n (Suc i) r of (gs, v4, r') \<Rightarrow> (g # gs, v4, r'))))"

definition read_ipv6 :: "string \<Rightarrow> (nat list \<times> string) option" where
  "read_ipv6 s =
     (case read_groups 8 0 s of (hd_groups, hd_v4, r) \<Rightarrow>
        if length hd_groups = 8 then Some (hd_groups, r)
        else if hd_v4 then None
        else case Option.bind (read_char CHR '':'' r) (read_char CHR '':'') of
          None \<Rightarrow> None
        | Some r' \<Rightarrow>
           (case read_groups (8 - (length hd_groups + 1)) 0 r' of (tl_groups, _, r'') \<Rightarrow>
              Some (hd_groups @ replicate (8 - length hd_groups - length tl_groups) 0 @ tl_groups, r'')))"

definition parse_ip :: "string \<Rightarrow> ip_addr option" where
  "parse_ip s =
     (case read_ipv4 s of
        Some ([a, b, c, d], []) \<Rightarrow> Some (IpV4 (of_nat a) (of_nat b) (of_nat c) (of_nat d))
      | Some _ \<Rightarrow> None
      | None \<Rightarrow>
         (case read_ipv6 s of
            Some ([s0, s1, s2, s3, s4, s5, s6, s7], []) \<Rightarrow>
              Some (IpV6 (of_nat s0) (of_nat s1) (of_nat s2) (of_nat s3)
                         (of_nat s4) (of_nat s5) (of_nat s6) (of_nat s7))
          | _ \<Rightarrow> None))"

end
