(* ===== verification/World.thy ===== *)
theory World
  imports Errors Proto Tables Net
begin

text \<open>
  The hub's state (\<open>berth-hub/src/state.rs\<close>) and the primitives every handler is built from:
  database statements and transactions, the clock, random draws, fresh ids, temporary paths,
  calls to a host's agent and detached tasks. Functions of third-party crates are the fields of
  \<open>externals\<close>, passed to the definitions that use them.
\<close>

section \<open>Database\<close>

record database =
  db_users :: "db_user list"
  db_apps :: "db_app list"
  db_permissions :: "db_permission list"
  db_tokens :: "db_token list"
  db_hosts :: "db_host list"
  db_deployments :: "db_deployment list"
  seq_users :: int
  seq_permissions :: int
  seq_tokens :: int
  seq_hosts :: int

section \<open>In-memory state\<close>

record session =
  ses_username :: string
  ses_created_at :: int

record login_attempts =
  la_count :: "32 word"
  la_window_start :: int

datatype log_kind = LogClone | LogInstall | LogBuild | LogRun

definition file_name :: "log_kind \<Rightarrow> string" where
  "file_name k = (case k of LogClone \<Rightarrow> ''clone.log'' | LogInstall \<Rightarrow> ''install.log''
     | LogBuild \<Rightarrow> ''build.log'' | LogRun \<Rightarrow> ''run.log'')"

record log_target =
  lt_path :: path
  lt_deployment_id :: string
  lt_kind :: log_kind

text \<open>Work handed to \<open>tokio::spawn\<close>; a link is the host it leads to, if one is connected.\<close>

type_synonym agent_link = "int option"

datatype task =
    RunGitDeployment string string git_source
  | RunLogPump agent_link string log_target
  | AgentSession int

record app_state_limits =
  lim_max_upload_bytes :: u64
  lim_max_uncompressed_bytes :: u64
  lim_base_domain :: string
  lim_git_fetch_timeout_secs :: u64
  lim_install_timeout_secs :: u64
  lim_build_timeout_secs :: u64
  lim_api_token_max_expiry_days :: int
  lim_enable_mcp :: bool

text \<open>
  The state: \<open>Inner\<close> of \<open>state.rs\<close> on top of the machine, and the environment's part - the clock
  in nanoseconds, the random bytes and the ids still to be drawn, the requests sent to agents
  and what the agents will answer (\<open>None\<close>: nothing before the time-out; otherwise the replies
  received before the connection or the stream closes), the tasks spawned.
\<close>

record world = machine +
  data_dir :: path
  limits :: app_state_limits
  secrets_key :: string
  id_seq :: u64
  db :: database
  sessions :: "string \<rightharpoonup> session"
  login_attempts_map :: "ip_addr \<rightharpoonup> login_attempts"
  log_registry :: "string \<rightharpoonup> log_kind"
  agent_hosts :: "int list"
  connect_signal :: bool
  clock_ns :: nat
  random_source :: "nat \<Rightarrow> char"
  random_pos :: nat
  fresh_ids :: "uuid list"
  agent_script :: "agent_payload list option list"
  rpc_log :: "(int \<times> hub_payload list) list"
  broadcasts :: "(string \<times> string) list"
  spawned :: "task list"

type_synonym 'a hub = "(world, app_error, 'a) comp"

text \<open>What the hub uses of third-party crates.\<close>

record externals =
  x_uuid_parse :: "string \<Rightarrow> uuid option"
  x_uuid_str :: "uuid \<Rightarrow> string"
  x_source_json :: "app_source \<Rightarrow> string + string"
  x_source_parse :: "string \<Rightarrow> string + app_source"
  x_env_json :: "env_var list \<Rightarrow> string + string"
  x_env_parse :: "string \<Rightarrow> string + env_var list"
  x_git_json :: "git_deployment_info \<Rightarrow> string + string"
  x_git_parse :: "string \<Rightarrow> string + git_deployment_info"
  x_build_json :: "build_info \<Rightarrow> string + string"
  x_build_parse :: "string \<Rightarrow> string + build_info"
  x_run_json :: "run_config \<Rightarrow> string + string"
  x_from_second :: "int \<Rightarrow> string + int"
  x_hash :: "string \<Rightarrow> string \<Rightarrow> string + string"
  x_verify :: "string \<Rightarrow> string \<Rightarrow> bool"
  x_b64_url :: "string \<Rightarrow> string"
  x_b64_std :: "string \<Rightarrow> string"
  x_b64_std_decode :: "string \<Rightarrow> string option"
  x_seal :: "string \<Rightarrow> string \<Rightarrow> string \<Rightarrow> string option"
  x_open :: "string \<Rightarrow> string \<Rightarrow> string \<Rightarrow> string option"
  x_zip_write :: "(string list \<times> string option) list \<Rightarrow> string + string"
  x_zip_read :: "string \<Rightarrow> string + (string list option \<times> string option \<times> u64) list"
  x_parse_url :: "string \<Rightarrow> string + (string option \<times> u16 option)"
  x_resolve :: "nat \<Rightarrow> string \<Rightarrow> u16 \<Rightarrow> string + ip_addr list"
  x_fetch :: "string \<Rightarrow> string \<Rightarrow> string + ((string list \<times> string option) list \<times> string)"

section \<open>\<open>AppState\<close>\<close>

definition apps_dir :: "world \<Rightarrow> path" where
  "apps_dir s = data_dir s @ [''apps'']"

definition tmp_dir :: "world \<Rightarrow> path" where
  "tmp_dir s = data_dir s @ [''tmp'']"

definition deployment_dir :: "world \<Rightarrow> string \<Rightarrow> string \<Rightarrow> path" where
  "deployment_dir s a d = apps_dir s @ [a, ''deployments'', d]"

definition deployment_files_dir :: "world \<Rightarrow> string \<Rightarrow> string \<Rightarrow> path" where
  "deployment_files_dir s a d = deployment_dir s a d @ [''files'']"

definition deployment_log_path :: "world \<Rightarrow> string \<Rightarrow> string \<Rightarrow> log_kind \<Rightarrow> path" where
  "deployment_log_path s a d k = deployment_dir s a d @ [file_name k]"

definition agent_link_for :: "world \<Rightarrow> int \<Rightarrow> agent_link" where
  "agent_link_for s h = (if h \<in> set (agent_hosts s) then Some h else None)"

definition now_secs :: "world \<Rightarrow> int" where
  "now_secs s = int (clock_ns s div 10 ^ 9)"

lemma now_secs_code [code]: "now_secs s = int (clock_ns s) div 10 ^ 9"
  by (simp add: now_secs_def zdiv_int)

definition next_seq :: "(world, 'e, u64) comp" where
  "next_seq s = (Done (id_seq s), s\<lparr>id_seq := id_seq s + 1\<rparr>)"

definition unique_tmp_path :: "string \<Rightarrow> (world, 'e, path) comp" where
  "unique_tmp_path pre =
     bindc (gets clock_ns) (\<lambda>ts.
     bindc next_seq (\<lambda>seq.
     bindc (gets tmp_dir) (\<lambda>dir.
     ret (dir @ [pre @ ''-'' @ show_nat ts @ ''-'' @ show_nat (unat seq)]))))"

section \<open>Environment\<close>

definition random_bytes :: "nat \<Rightarrow> (world, 'e, string) comp" where
  "random_bytes n s =
     (Done (map (random_source s) [random_pos s ..< random_pos s + n]),
      s\<lparr>random_pos := random_pos s + n\<rparr>)"

text \<open>\<open>Uuid::now_v7\<close>. A run goes on only as long as the supply of ids lasts.\<close>

definition now_v7 :: "(world, 'e, uuid) comp" where
  "now_v7 s = (case fresh_ids s of [] \<Rightarrow> (Crash, s) | u # us \<Rightarrow> (Done u, s\<lparr>fresh_ids := us\<rparr>))"

definition io :: "(world, io_error, 'a) comp \<Rightarrow> 'a hub" where
  "io m = map_err Io m"

definition spawn :: "task \<Rightarrow> (world, 'e, unit) comp" where
  "spawn t = modify (\<lambda>s. s\<lparr>spawned := spawned s @ [t]\<rparr>)"

text \<open>
  A request sent over a link: \<open>AgentUnavailable\<close> without a connection, \<open>AgentTimeout\<close> when
  nothing comes back, the first reply otherwise; a streamed request returns its replies.
\<close>

definition next_answer :: "world \<Rightarrow> agent_payload list option \<times> world" where
  "next_answer s = (case agent_script s of [] \<Rightarrow> (None, s) | r # rs \<Rightarrow> (r, s\<lparr>agent_script := rs\<rparr>))"

definition call_streamed :: "agent_link \<Rightarrow> hub_payload list \<Rightarrow> agent_payload hub" where
  "call_streamed link payloads =
     (case link of
        None \<Rightarrow> throw AgentUnavailable
      | Some h \<Rightarrow> ext_call (\<lambda>_. AgentUnavailable) (\<lambda>s.
          case next_answer (s\<lparr>rpc_log := rpc_log s @ [(h, payloads)]\<rparr>) of (answer, s') \<Rightarrow>
            (case answer of
               None \<Rightarrow> (Fail AgentTimeout, s')
             | Some [] \<Rightarrow> (Fail AgentUnavailable, s')
             | Some (p # _) \<Rightarrow> (Done p, s'))))"

definition call :: "agent_link \<Rightarrow> hub_payload \<Rightarrow> agent_payload hub" where
  "call link payload = call_streamed link [payload]"

definition call_streaming_reply :: "agent_link \<Rightarrow> hub_payload \<Rightarrow> agent_payload list hub" where
  "call_streaming_reply link payload =
     (case link of
        None \<Rightarrow> throw AgentUnavailable
      | Some h \<Rightarrow> ext_call (\<lambda>_. AgentUnavailable) (\<lambda>s.
          case next_answer (s\<lparr>rpc_log := rpc_log s @ [(h, [payload])]\<rparr>) of (answer, s') \<Rightarrow>
            (Done (case answer of None \<Rightarrow> [] | Some ps \<Rightarrow> ps), s')))"

section \<open>Database statements\<close>

definition db_read :: "(database \<Rightarrow> 'a) \<Rightarrow> 'a hub" where
  "db_read f = ext_call Db (gets (\<lambda>s. f (db s)))"

definition db_write :: "(database \<Rightarrow> ('a \<times> database) option) \<Rightarrow> 'a hub" where
  "db_write f = ext_call Db (\<lambda>s.
     case f (db s) of
       None \<Rightarrow> (Fail (Db ''constraint failed''), s)
     | Some (a, d) \<Rightarrow> (Done a, s\<lparr>db := d\<rparr>))"

text \<open>
  A transaction: whatever ends it early, an error or a crash, leaves the tables as they were.
\<close>

definition transaction :: "'a hub \<Rightarrow> 'a hub" where
  "transaction m s =
     (case bindc (ext_call Db (ret ())) (\<lambda>_. bindc m (\<lambda>a. bindc (ext_call Db (ret ())) (\<lambda>_. ret a))) s of
        (r, s') \<Rightarrow> (r, case r of Done _ \<Rightarrow> s' | _ \<Rightarrow> s'\<lparr>db := db s\<rparr>))"

section \<open>What the primitives leave alone\<close>

lemmas leaves_fs_ops [leaves_intros] = fs_only_ops [THEN fs_only_leaves]

lemma leaves_io [leaves_intros]: "leaves g m \<Longrightarrow> leaves g (io m)"
  unfolding io_def by (rule leaves_map_err)

lemma keeps_io [keeps_intros]: "keeps I m \<Longrightarrow> keeps I (io m)"
  unfolding io_def by (rule keeps_map_err)

lemma triple_io: "triple P m Q E \<Longrightarrow> triple P (io m) Q E"
  unfolding io_def by (rule triple_map_err)

lemma leaves_ext_call:
  assumes "\<And>s f. g (s\<lparr>faults := f\<rparr>) = g s" and "leaves g body"
  shows "leaves g (ext_call mk body)"
proof (rule leavesI)
  show "keeps (\<lambda>s. g s = v) (ext_call mk body)" for v
    using assms by (intro keeps_ext_call) (simp_all add: leaves_iff_keeps)
qed

lemma leaves_db_read [leaves_intros]:
  "(\<And>s f. g (s\<lparr>faults := f\<rparr>) = g s) \<Longrightarrow> leaves g (db_read h)"
  unfolding db_read_def by (intro leaves_ext_call leaves_intros)

lemma leaves_db_write [leaves_intros]:
  assumes "\<And>s f. g (s\<lparr>faults := f\<rparr>) = g s" and "\<And>s d. g (s\<lparr>db := d\<rparr>) = g s"
  shows "leaves g (db_write h)"
  unfolding db_write_def
  by (rule leaves_ext_call) (use assms in \<open>auto simp: leaves_def split: option.splits\<close>)

lemma leaves_transaction [leaves_intros]:
  assumes "\<And>s f. g (s\<lparr>faults := f\<rparr>) = g s" and db: "\<And>s d. g (s\<lparr>db := d\<rparr>) = g s" and m: "leaves g m"
  shows "leaves g (transaction m)"
proof -
  have "leaves g (bindc (ext_call Db (ret ())) (\<lambda>_. bindc m (\<lambda>a. bindc (ext_call Db (ret ())) (\<lambda>_. ret a))))"
    by (intro leaves_intros leaves_ext_call assms)
  then show ?thesis
    unfolding leaves_def transaction_def
    by (auto simp: db split: prod.splits outcome.splits) (metis snd_conv)+
qed

lemma leaves_next_seq [leaves_intros]: "(\<And>s n. g (s\<lparr>id_seq := n\<rparr>) = g s) \<Longrightarrow> leaves g next_seq"
  by (simp add: leaves_def next_seq_def)

lemma leaves_unique_tmp_path [leaves_intros]:
  "(\<And>s n. g (s\<lparr>id_seq := n\<rparr>) = g s) \<Longrightarrow> leaves g (unique_tmp_path pre)"
  unfolding unique_tmp_path_def by (intro leaves_intros)

lemma leaves_random_bytes [leaves_intros]:
  "(\<And>s n. g (s\<lparr>random_pos := n\<rparr>) = g s) \<Longrightarrow> leaves g (random_bytes k)"
  by (simp add: leaves_def random_bytes_def)

lemma leaves_now_v7 [leaves_intros]: "(\<And>s n. g (s\<lparr>fresh_ids := n\<rparr>) = g s) \<Longrightarrow> leaves g now_v7"
  by (simp add: leaves_def now_v7_def split: list.splits)

lemma leaves_spawn [leaves_intros]: "(\<And>s n. g (s\<lparr>spawned := n\<rparr>) = g s) \<Longrightarrow> leaves g (spawn t)"
  unfolding spawn_def by (rule leaves_modify)

lemma leaves_lift_model [leaves_intros]: "leaves g (lift_model r)"
  by (cases r) (simp_all add: lift_model_def leaves_intros)

lemma snd_next_answer:
  "\<exists>q. snd (next_answer s) = s\<lparr>agent_script := q\<rparr>"
  unfolding next_answer_def
  by (cases "agent_script s") (auto intro: exI [of _ "agent_script s"])

lemma leaves_calls [leaves_intros]:
  assumes "\<And>s f. g (s\<lparr>faults := f\<rparr>) = g s" and log: "\<And>s l. g (s\<lparr>rpc_log := l\<rparr>) = g s"
    and script: "\<And>s q. g (s\<lparr>agent_script := q\<rparr>) = g s"
  shows "leaves g (call_streamed link payloads)" and "leaves g (call_streaming_reply link payload)"
    and "leaves g (call link payload)"
proof -
  have next_answer: "g (snd (next_answer (s\<lparr>rpc_log := l\<rparr>))) = g s" for s l
    using snd_next_answer [of "s\<lparr>rpc_log := l\<rparr>"] by (auto simp: log script)
  show 1: "leaves g (call_streamed link payloads)" for payloads
    unfolding call_streamed_def
    by (intro leaves_intros leaves_ext_call assms(1))
       (use next_answer in \<open>auto simp: leaves_def split: prod.splits option.splits list.splits, (metis snd_conv)+\<close>)
  show "leaves g (call_streaming_reply link payload)"
    unfolding call_streaming_reply_def
    by (intro leaves_intros leaves_ext_call assms(1))
       (use next_answer in \<open>auto simp: leaves_def split: prod.splits option.splits list.splits, (metis snd_conv)+\<close>)
  show "leaves g (call link payload)" unfolding call_def by (rule 1)
qed

section \<open>Database statements on assertions\<close>

lemma triple_db_read:
  "triple (\<lambda>s. J (db s)) (db_read f) (\<lambda>a s. J (db s) \<and> a = f (db s)) (\<lambda>s. J (db s))"
  unfolding db_read_def by (rule triple_ext_call) (auto intro: triple_gets)

lemma triple_db_write:
  assumes "\<And>d a d'. J d \<Longrightarrow> f d = Some (a, d') \<Longrightarrow> K a d'"
  shows "triple (\<lambda>s. J (db s)) (db_write f) (\<lambda>a s. K a (db s)) (\<lambda>s. J (db s))"
  unfolding db_write_def
  by (rule triple_ext_call) (use assms in \<open>auto simp: triple_def split: option.splits\<close>)

lemma keeps_db_read [keeps_intros]: "keeps (\<lambda>s. J (db s)) (db_read f)"
  by (intro keeps_leaves leaves_intros) simp

lemma keeps_db_write:
  "(\<And>d a d'. J d \<Longrightarrow> f d = Some (a, d') \<Longrightarrow> J d') \<Longrightarrow> keeps (\<lambda>s. J (db s)) (db_write f)"
  unfolding keeps_iff_triple by (rule triple_db_write)

text \<open>Inside a transaction the tables may be anything; only a commit makes them visible.\<close>

lemma triple_transaction:
  assumes "triple (\<lambda>s. J (db s)) m (\<lambda>a s. K a (db s)) (\<lambda>_. True)"
  shows "triple (\<lambda>s. J (db s)) (transaction m) (\<lambda>a s. K a (db s)) (\<lambda>s. J (db s))"
proof -
  let ?b = "bindc (ext_call Db (ret ())) (\<lambda>_. bindc m (\<lambda>a. bindc (ext_call Db (ret ())) (\<lambda>_. ret a)))"
  have ext: "triple (\<lambda>s. P (db s)) (ext_call Db (ret ())) (\<lambda>_ s. P (db s)) (\<lambda>_. True)" for P
    by (rule triple_ext_call) (auto intro: triple_ret)
  have "triple (\<lambda>s. J (db s)) ?b (\<lambda>a s. K a (db s)) (\<lambda>_. True)"
    by (rule triple_bindc [OF ext]) (rule triple_bindc [OF assms] triple_bindc [OF ext] triple_ret | assumption)+
  then show ?thesis
    unfolding triple_def transaction_def by (auto split: prod.splits outcome.splits)
qed

text \<open>A frame on a triple: what \<open>m\<close> leaves alone stays as it was.\<close>

lemma triple_frame:
  assumes "triple P m Q E" and "leaves g m"
  shows "triple (\<lambda>s. P s \<and> F (g s)) m (\<lambda>a s. Q a s \<and> F (g s)) (\<lambda>s. E s \<and> F (g s))"
  by (rule tripleI)
     (use assms triple_Done [OF assms(1)] triple_Fail [OF assms(1)] triple_Crash [OF assms(1)]
        leavesD [OF assms(2)] in auto)

end
