(* ===== verification/Sample.thy ===== *)
theory Sample
  imports World
begin

text \<open>
  One concrete instance of the third-party functions and one concrete state, on which the
  witnesses of the properties run. An id is spelled as so many ones; the parser also accepts
  a capital I for a one, as a uuid parser accepts more spellings than the one it prints.
\<close>

definition sample_uuid_str :: "uuid \<Rightarrow> string" where
  "sample_uuid_str u = replicate (unat u) CHR ''1''"

definition sample_uuid_parse :: "string \<Rightarrow> uuid option" where
  "sample_uuid_parse v =
     (if list_all (\<lambda>c. c = CHR ''1'' \<or> c = CHR ''I'') v then Some (of_nat (length v)) else None)"

definition sample_run :: run_config where
  "sample_run = \<lparr>rc_image = Node24, rc_install_command = None, rc_start_command = ''run'', rc_container_port = 80\<rparr>"

definition sample_git :: git_source where
  "sample_git = \<lparr>gs_repo_url = ''https://h/r'', gs_branch = ''main'', gs_mode = RunMode sample_run\<rparr>"

definition sample_static :: git_source where
  "sample_static = sample_git\<lparr>gs_mode := StaticMode None\<rparr>"

definition sample_source_json :: "app_source \<Rightarrow> string + string" where
  "sample_source_json src = (case src of Upload \<Rightarrow> Inr ''upload''
     | Git gs \<Rightarrow> Inr (case gs_mode gs of RunMode _ \<Rightarrow> ''run'' | BuildMode _ \<Rightarrow> ''build'' | StaticMode _ \<Rightarrow> ''static''))"

definition sample_source_parse :: "string \<Rightarrow> string + app_source" where
  "sample_source_parse v =
     (if v = ''upload'' then Inr Upload else if v = ''run'' then Inr (Git sample_git)
      else if v = ''static'' then Inr (Git sample_static) else Inl ''bad source'')"

definition sample_externals :: externals where
  "sample_externals = \<lparr>
     x_uuid_parse = sample_uuid_parse,
     x_uuid_str = sample_uuid_str,
     x_source_json = sample_source_json,
     x_source_parse = sample_source_parse,
     x_env_json = (\<lambda>vs. Inr (if vs = [] then ''[]'' else ''[v]'')),
     x_env_parse = (\<lambda>v. if v = ''[]'' then Inr [] else Inr [\<lparr>ev_key = ''K'', ev_value = Plain ''v''\<rparr>]),
     x_git_json = (\<lambda>g. Inr (gdi_commit_sha g)),
     x_git_parse = (\<lambda>v. Inr \<lparr>gdi_commit_sha = v, gdi_branch = ''main''\<rparr>),
     x_build_json = (\<lambda>b. Inr (bi_command b)),
     x_build_parse = (\<lambda>v. Inr \<lparr>bi_image = Node24, bi_command = v\<rparr>),
     x_run_json = (\<lambda>r. Inr (rc_start_command r)),
     x_from_second = Inr,
     x_hash = (\<lambda>pw salt. Inr (CHR ''h'' # pw)),
     x_verify = (\<lambda>pw h. h = CHR ''h'' # pw),
     x_b64_url = filter (\<lambda>c. c \<noteq> CHR ''.''),
     x_b64_std = (\<lambda>v. v),
     x_b64_std_decode = Some,
     x_seal = (\<lambda>k n p. Some (CHR ''s'' # p)),
     x_open = (\<lambda>k n c. case c of [] \<Rightarrow> None | t # p \<Rightarrow> if t = CHR ''s'' then Some p else None),
     x_zip_write = (\<lambda>es. Inr ''zip''),
     x_zip_read = (\<lambda>b. if b = ''zip'' then Inr [(Some [''a'', ''b.txt''], Some ''hi'', 2)]
                       else if b = ''evil'' then Inr [(Some [''ok''], Some ''x'', 1), (None, Some ''y'', 1)]
                       else Inl ''not a zip''),
     x_parse_url = (\<lambda>u. Inr (Some ''h'', None)),
     x_resolve = (\<lambda>t h p. Inr [IpV4 8 8 8 8]),
     x_fetch = (\<lambda>u b. Inr ([([''.git''], None), ([''index.html''], Some ''hello'')], ''abc''))\<rparr>"

definition empty_database :: database where
  "empty_database = \<lparr>db_users = [], db_apps = [], db_permissions = [], db_tokens = [], db_hosts = [],
     db_deployments = [], seq_users = 0, seq_permissions = 0, seq_tokens = 0, seq_hosts = 0\<rparr>"

definition sample_limits :: app_state_limits where
  "sample_limits = \<lparr>lim_max_upload_bytes = 1000, lim_max_uncompressed_bytes = 1000,
     lim_base_domain = ''example.com'', lim_git_fetch_timeout_secs = 60,
     lim_install_timeout_secs = 60, lim_build_timeout_secs = 60,
     lim_api_token_max_expiry_days = 90, lim_enable_mcp = True\<rparr>"

definition sample_world :: world where
  "sample_world = \<lparr>
     fs = [([], Dir), ([''d''], Dir), ([''d'', ''apps''], Dir), ([''d'', ''tmp''], Dir)],
     faults = [],
     data_dir = [''d''],
     limits = sample_limits,
     secrets_key = ''key'',
     id_seq = 0,
     db = empty_database,
     sessions = Map.empty,
     login_attempts_map = Map.empty,
     log_registry = Map.empty,
     agent_hosts = [],
     connect_signal = False,
     clock_ns = 0,
     random_source = (\<lambda>_. CHR ''A''),
     random_pos = 0,
     fresh_ids = [1, 2, 3],
     agent_script = [],
     rpc_log = [],
     broadcasts = [],
     spawned = []\<rparr>"

text \<open>What is assumed of the id parser: it reads back what the printer writes.\<close>

definition uuid_ok :: "externals \<Rightarrow> bool" where
  "uuid_ok x \<longleftrightarrow> (\<forall>u. x_uuid_parse x (x_uuid_str x u) = Some u)"

lemma sample_uuid_ok: "uuid_ok sample_externals"
  by (simp add: uuid_ok_def sample_externals_def sample_uuid_parse_def sample_uuid_str_def list_all_iff)

lemma uuid_str_inj: "uuid_ok x \<Longrightarrow> x_uuid_str x u = x_uuid_str x v \<longleftrightarrow> u = v"
  unfolding uuid_ok_def by (metis option.inject)

end
