(* ===== verification/Rows.thy ===== *)
theory Rows
  imports Sample
begin

text \<open>
  The statements the hub issues, one per table and kind, and what must always hold of the
  tables: unique keys, no reference to a missing app, an active deployment that exists and
  belongs to its app, at most one deployment in progress per app.
\<close>

section \<open>Statements\<close>

definition db_first :: "(database \<Rightarrow> 'r list) \<Rightarrow> ('r \<Rightarrow> bool) \<Rightarrow> 'r option hub" where
  "db_first tbl P = db_read (\<lambda>d. find P (tbl d))"

definition db_all :: "(database \<Rightarrow> 'r list) \<Rightarrow> ('r \<Rightarrow> bool) \<Rightarrow> 'r list hub" where
  "db_all tbl P = db_read (\<lambda>d. filter P (tbl d))"

text \<open>Inserts; an \<open>#[auto]\<close> integer key is one more than the last one given out.\<close>

definition insert_user :: "db_user \<Rightarrow> db_user hub" where
  "insert_user r = db_write (\<lambda>d.
     let r' = r\<lparr>u_id := seq_users d + 1\<rparr> in
     map_option (\<lambda>rs. (r', d\<lparr>db_users := rs, seq_users := seq_users d + 1\<rparr>))
       (insert_row user_clash r' (db_users d)))"

definition insert_token :: "db_token \<Rightarrow> db_token hub" where
  "insert_token r = db_write (\<lambda>d.
     let r' = r\<lparr>t_id := seq_tokens d + 1\<rparr> in
     map_option (\<lambda>rs. (r', d\<lparr>db_tokens := rs, seq_tokens := seq_tokens d + 1\<rparr>))
       (insert_row token_clash r' (db_tokens d)))"

definition insert_host :: "db_host \<Rightarrow> db_host hub" where
  "insert_host r = db_write (\<lambda>d.
     let r' = r\<lparr>h_id := seq_hosts d + 1\<rparr> in
     map_option (\<lambda>rs. (r', d\<lparr>db_hosts := rs, seq_hosts := seq_hosts d + 1\<rparr>))
       (insert_row host_clash r' (db_hosts d)))"

definition insert_permission :: "db_permission \<Rightarrow> db_permission hub" where
  "insert_permission r = db_write (\<lambda>d.
     let r' = r\<lparr>p_id := seq_permissions d + 1\<rparr> in
     map_option (\<lambda>rs. (r', d\<lparr>db_permissions := rs, seq_permissions := seq_permissions d + 1\<rparr>))
       (insert_row permission_clash r' (db_permissions d)))"

definition insert_app :: "db_app \<Rightarrow> db_app hub" where
  "insert_app r = db_write (\<lambda>d.
     map_option (\<lambda>rs. (r, d\<lparr>db_apps := rs\<rparr>)) (insert_row app_clash r (db_apps d)))"

definition insert_deployment :: "db_deployment \<Rightarrow> db_deployment hub" where
  "insert_deployment r = db_write (\<lambda>d.
     map_option (\<lambda>rs. (r, d\<lparr>db_deployments := rs\<rparr>)) (insert_row deployment_clash r (db_deployments d)))"

text \<open>Updates of one row, by its primary key; the row in memory is refreshed.\<close>

definition update_user :: "db_user \<Rightarrow> (db_user \<Rightarrow> db_user) \<Rightarrow> db_user hub" where
  "update_user r f = db_write (\<lambda>d.
     map_option (\<lambda>rs. (f r, d\<lparr>db_users := rs\<rparr>)) (update_rows user_clash (\<lambda>q. u_id q = u_id r) f (db_users d)))"

definition update_token :: "db_token \<Rightarrow> (db_token \<Rightarrow> db_token) \<Rightarrow> db_token hub" where
  "update_token r f = db_write (\<lambda>d.
     map_option (\<lambda>rs. (f r, d\<lparr>db_tokens := rs\<rparr>)) (update_rows token_clash (\<lambda>q. t_id q = t_id r) f (db_tokens d)))"

definition update_host :: "db_host \<Rightarrow> (db_host \<Rightarrow> db_host) \<Rightarrow> db_host hub" where
  "update_host r f = db_write (\<lambda>d.
     map_option (\<lambda>rs. (f r, d\<lparr>db_hosts := rs\<rparr>)) (update_rows host_clash (\<lambda>q. h_id q = h_id r) f (db_hosts d)))"

definition update_app_row :: "db_app \<Rightarrow> (db_app \<Rightarrow> db_app) \<Rightarrow> db_app hub" where
  "update_app_row r f = db_write (\<lambda>d.
     map_option (\<lambda>rs. (f r, d\<lparr>db_apps := rs\<rparr>)) (update_rows app_clash (\<lambda>q. a_id q = a_id r) f (db_apps d)))"

definition update_deployment :: "db_deployment \<Rightarrow> (db_deployment \<Rightarrow> db_deployment) \<Rightarrow> db_deployment hub" where
  "update_deployment r f = db_write (\<lambda>d.
     map_option (\<lambda>rs. (f r, d\<lparr>db_deployments := rs\<rparr>))
       (update_rows deployment_clash (\<lambda>q. d_id q = d_id r) f (db_deployments d)))"

definition delete_users :: "(db_user \<Rightarrow> bool) \<Rightarrow> unit hub" where
  "delete_users P = db_write (\<lambda>d. Some ((), d\<lparr>db_users := delete_rows P (db_users d)\<rparr>))"

definition delete_permissions :: "(db_permission \<Rightarrow> bool) \<Rightarrow> unit hub" where
  "delete_permissions P = db_write (\<lambda>d. Some ((), d\<lparr>db_permissions := delete_rows P (db_permissions d)\<rparr>))"

definition delete_apps :: "(db_app \<Rightarrow> bool) \<Rightarrow> unit hub" where
  "delete_apps P = db_write (\<lambda>d. Some ((), d\<lparr>db_apps := delete_rows P (db_apps d)\<rparr>))"

definition delete_deployments :: "(db_deployment \<Rightarrow> bool) \<Rightarrow> unit hub" where
  "delete_deployments P = db_write (\<lambda>d. Some ((), d\<lparr>db_deployments := delete_rows P (db_deployments d)\<rparr>))"

lemmas insert_defs = insert_user_def insert_token_def insert_host_def insert_permission_def
  insert_app_def insert_deployment_def

lemmas row_update_defs = update_user_def update_token_def update_host_def update_app_row_def
  update_deployment_def

lemmas delete_defs = delete_users_def delete_permissions_def delete_apps_def delete_deployments_def

section \<open>Frames\<close>

lemma leaves_rows [leaves_intros]:
  assumes "\<And>s f. g (s\<lparr>faults := f\<rparr>) = g s" and "\<And>s d. g (s\<lparr>db := d\<rparr>) = g s"
  shows "leaves g (insert_user u)" "leaves g (insert_token t)" "leaves g (insert_host h)"
    "leaves g (insert_permission p)" "leaves g (insert_app a)" "leaves g (insert_deployment e)"
    "leaves g (update_user u uf)" "leaves g (update_token t tf)" "leaves g (update_host h hf)"
    "leaves g (update_app_row a af)" "leaves g (update_deployment e ef)"
    "leaves g (delete_users uP)" "leaves g (delete_permissions pP)" "leaves g (delete_apps aP)"
    "leaves g (delete_deployments eP)"
  unfolding insert_defs row_update_defs delete_defs by (intro leaves_db_write assms)+

lemma leaves_db_first [leaves_intros]:
  "(\<And>s f. g (s\<lparr>faults := f\<rparr>) = g s) \<Longrightarrow> leaves g (db_first tbl P)"
  unfolding db_first_def by (rule leaves_db_read)

lemma leaves_db_all [leaves_intros]:
  "(\<And>s f. g (s\<lparr>faults := f\<rparr>) = g s) \<Longrightarrow> leaves g (db_all tbl P)"
  unfolding db_all_def by (rule leaves_db_read)

lemma triple_db_first:
  "triple (\<lambda>s. J (db s)) (db_first tbl P) (\<lambda>r s. J (db s) \<and> r = find P (tbl (db s))) (\<lambda>s. J (db s))"
  unfolding db_first_def by (rule triple_db_read)

lemma triple_db_all:
  "triple (\<lambda>s. J (db s)) (db_all tbl P) (\<lambda>r s. J (db s) \<and> r = filter P (tbl (db s))) (\<lambda>s. J (db s))"
  unfolding db_all_def by (rule triple_db_read)

section \<open>The invariant of the tables\<close>

definition app_ids :: "database \<Rightarrow> uuid set" where
  "app_ids d = a_id ` set (db_apps d)"

definition keys_ok :: "database \<Rightarrow> bool" where
  "keys_ok d \<longleftrightarrow>
     no_clash user_clash (db_users d) \<and> no_clash app_clash (db_apps d)
     \<and> no_clash permission_clash (db_permissions d) \<and> no_clash token_clash (db_tokens d)
     \<and> no_clash host_clash (db_hosts d) \<and> no_clash deployment_clash (db_deployments d)"

definition refs_ok :: "database \<Rightarrow> bool" where
  "refs_ok d \<longleftrightarrow>
     d_app_id ` set (db_deployments d) \<subseteq> app_ids d \<and> p_app_id ` set (db_permissions d) \<subseteq> app_ids d"

definition active_ok :: "database \<Rightarrow> bool" where
  "active_ok d \<longleftrightarrow>
     (\<forall>a\<in>set (db_apps d). \<forall>v. a_active_deployment_id a = Some v \<longrightarrow>
        (\<exists>e\<in>set (db_deployments d). d_id e = v \<and> d_app_id e = a_id a))"

definition is_pending :: "db_deployment \<Rightarrow> bool" where
  "is_pending e \<longleftrightarrow> d_status e = state_as_str StPending"

definition pending_ok :: "database \<Rightarrow> bool" where
  "pending_ok d \<longleftrightarrow>
     (\<forall>e\<in>set (db_deployments d). \<forall>e'\<in>set (db_deployments d).
        is_pending e \<and> is_pending e' \<and> d_app_id e = d_app_id e' \<longrightarrow> e = e')"

definition db_ok :: "database \<Rightarrow> bool" where
  "db_ok d \<longleftrightarrow> keys_ok d \<and> refs_ok d \<and> active_ok d \<and> pending_ok d"

lemmas db_ok_defs = db_ok_def keys_ok_def refs_ok_def active_ok_def pending_ok_def app_ids_def

lemma empty_database_ok: "db_ok empty_database"
  by (simp add: db_ok_defs empty_database_def)

lemma db_okD_deployments: "db_ok d \<Longrightarrow> no_clash deployment_clash (db_deployments d)"
  by (simp add: db_ok_def keys_ok_def)

lemma db_okD_apps: "db_ok d \<Longrightarrow> no_clash app_clash (db_apps d)"
  by (simp add: db_ok_def keys_ok_def)

section \<open>Statements that keep the invariant\<close>

text \<open>
  Users, tokens and hosts are referred to by no other table's invariant; the other rows keep
  it under the condition each lemma states.
\<close>

lemma db_ok_plain:
  assumes "db_ok d"
  shows "no_clash user_clash us \<Longrightarrow> db_ok (d\<lparr>db_users := us\<rparr>)"
    and "no_clash token_clash ts \<Longrightarrow> db_ok (d\<lparr>db_tokens := ts\<rparr>)"
    and "no_clash host_clash hs \<Longrightarrow> db_ok (d\<lparr>db_hosts := hs\<rparr>)"
    and "db_ok (d\<lparr>seq_users := n\<rparr>)" and "db_ok (d\<lparr>seq_tokens := n\<rparr>)" and "db_ok (d\<lparr>seq_hosts := n\<rparr>)"
  using assms by (simp_all add: db_ok_defs)

lemma db_ok_plain_rows:
  assumes "db_ok d"
  shows "insert_row user_clash u (db_users d) = Some us \<Longrightarrow> db_ok (d\<lparr>db_users := us\<rparr>)"
    and "insert_row token_clash t (db_tokens d) = Some ts \<Longrightarrow> db_ok (d\<lparr>db_tokens := ts\<rparr>)"
    and "insert_row host_clash h (db_hosts d) = Some hs \<Longrightarrow> db_ok (d\<lparr>db_hosts := hs\<rparr>)"
    and "update_rows user_clash uP uf (db_users d) = Some us \<Longrightarrow> db_ok (d\<lparr>db_users := us\<rparr>)"
    and "update_rows token_clash tP tf (db_tokens d) = Some ts \<Longrightarrow> db_ok (d\<lparr>db_tokens := ts\<rparr>)"
    and "update_rows host_clash hP hf (db_hosts d) = Some hs \<Longrightarrow> db_ok (d\<lparr>db_hosts := hs\<rparr>)"
    and "db_ok (d\<lparr>db_users := delete_rows uP (db_users d)\<rparr>)"
proof -
  have k: "no_clash user_clash (db_users d)" "no_clash token_clash (db_tokens d)" "no_clash host_clash (db_hosts d)"
    using assms by (simp_all add: db_ok_def keys_ok_def)
  note p = db_ok_plain(1-3) [OF assms]
  show "insert_row user_clash u (db_users d) = Some us \<Longrightarrow> db_ok (d\<lparr>db_users := us\<rparr>)"
    by (rule p(1), rule users_by_id.ins_inv [OF k(1)])
  show "insert_row token_clash t (db_tokens d) = Some ts \<Longrightarrow> db_ok (d\<lparr>db_tokens := ts\<rparr>)"
    by (rule p(2), rule tokens_by_id.ins_inv [OF k(2)])
  show "insert_row host_clash h (db_hosts d) = Some hs \<Longrightarrow> db_ok (d\<lparr>db_hosts := hs\<rparr>)"
    by (rule p(3), rule hosts_by_id.ins_inv [OF k(3)])
  show "update_rows user_clash uP uf (db_users d) = Some us \<Longrightarrow> db_ok (d\<lparr>db_users := us\<rparr>)"
    by (rule p(1), rule users_by_id.upd_inv)
  show "update_rows token_clash tP tf (db_tokens d) = Some ts \<Longrightarrow> db_ok (d\<lparr>db_tokens := ts\<rparr>)"
    by (rule p(2), rule tokens_by_id.upd_inv)
  show "update_rows host_clash hP hf (db_hosts d) = Some hs \<Longrightarrow> db_ok (d\<lparr>db_hosts := hs\<rparr>)"
    by (rule p(3), rule hosts_by_id.upd_inv)
  show "db_ok (d\<lparr>db_users := delete_rows uP (db_users d)\<rparr>)"
    by (rule p(1), rule users_by_id.del_inv [OF k(1)])
qed

lemma keeps_db_ok_plain [keeps_intros]:
  "keeps (\<lambda>s. db_ok (db s)) (insert_user u)" "keeps (\<lambda>s. db_ok (db s)) (insert_token t)"
  "keeps (\<lambda>s. db_ok (db s)) (insert_host h)" "keeps (\<lambda>s. db_ok (db s)) (update_user u uf)"
  "keeps (\<lambda>s. db_ok (db s)) (update_token t tf)" "keeps (\<lambda>s. db_ok (db s)) (update_host h hf)"
  "keeps (\<lambda>s. db_ok (db s)) (delete_users P)"
  unfolding insert_defs row_update_defs delete_defs Let_def
  by (rule keeps_db_write; auto intro!: db_ok_plain(4-6) intro: db_ok_plain_rows)+

lemma db_ok_insert_app:
  assumes "db_ok d" and "insert_row app_clash r (db_apps d) = Some rs" and "a_active_deployment_id r = None"
  shows "db_ok (d\<lparr>db_apps := rs\<rparr>)"
proof -
  have "no_clash app_clash rs" using assms(1,2) apps_by_id.ins_inv by (auto simp: db_ok_def keys_ok_def)
  moreover have "rs = db_apps d @ [r]" using assms(2) by (rule apps_by_id.ins_rows)
  ultimately show ?thesis using assms(1,3) by (auto simp: db_ok_defs)
qed

lemma db_ok_insert_deployment:
  assumes "db_ok d" and "insert_row deployment_clash r (db_deployments d) = Some rs"
    and "d_app_id r \<in> app_ids d"
    and "is_pending r \<Longrightarrow> \<forall>e\<in>set (db_deployments d). d_app_id e = d_app_id r \<longrightarrow> \<not> is_pending e"
  shows "db_ok (d\<lparr>db_deployments := rs\<rparr>)"
proof -
  have "no_clash deployment_clash rs"
    using assms(1,2) deployments_by_id.ins_inv by (auto simp: db_ok_def keys_ok_def)
  moreover have rs: "rs = db_deployments d @ [r]" using assms(2) by (rule deployments_by_id.ins_rows)
  moreover have "pending_ok (d\<lparr>db_deployments := rs\<rparr>)"
    using assms(1,4) unfolding rs db_ok_def pending_ok_def by auto
  ultimately show ?thesis using assms(1,3) by (auto simp: db_ok_def keys_ok_def refs_ok_def active_ok_def app_ids_def)
qed

lemma db_ok_insert_permission:
  assumes "db_ok d" and "insert_row permission_clash r (db_permissions d) = Some rs" and "p_app_id r \<in> app_ids d"
  shows "db_ok (d\<lparr>db_permissions := rs, seq_permissions := n\<rparr>)"
proof -
  have "no_clash permission_clash rs" using assms(1,2) permissions_by_id.ins_inv by (auto simp: db_ok_def keys_ok_def)
  moreover have "rs = db_permissions d @ [r]" using assms(2) by (rule permissions_by_id.ins_rows)
  ultimately show ?thesis using assms(1,3) by (auto simp: db_ok_defs)
qed

lemma db_ok_update_deployment:
  assumes "db_ok d" and upd: "update_rows deployment_clash P f (db_deployments d) = Some rs"
    and f: "\<And>q. d_id (f q) = d_id q" "\<And>q. d_app_id (f q) = d_app_id q" "\<And>q. is_pending (f q) \<Longrightarrow> is_pending q"
  shows "db_ok (d\<lparr>db_deployments := rs\<rparr>)"
proof -
  let ?g = "\<lambda>r. if P r then f r else r"
  have rs: "rs = map ?g (db_deployments d)" using upd by (rule deployments_by_id.upd_rows)
  have "no_clash deployment_clash rs" using upd by (rule deployments_by_id.upd_inv)
  moreover have "pending_ok (d\<lparr>db_deployments := rs\<rparr>)"
    unfolding pending_ok_def
  proof (intro ballI impI)
    fix x y assume "x \<in> set (db_deployments (d\<lparr>db_deployments := rs\<rparr>))" "y \<in> set (db_deployments (d\<lparr>db_deployments := rs\<rparr>))"
      and xy: "is_pending x \<and> is_pending y \<and> d_app_id x = d_app_id y"
    then obtain a b where ab: "a \<in> set (db_deployments d)" "b \<in> set (db_deployments d)" "x = ?g a" "y = ?g b"
      unfolding rs by auto
    then have "is_pending a" "is_pending b" "d_app_id a = d_app_id b"
      using xy f by (auto split: if_splits)
    then have "a = b" using assms(1) ab(1,2) by (auto simp: db_ok_def pending_ok_def)
    then show "x = y" using ab by simp
  qed
  moreover have "active_ok (d\<lparr>db_deployments := rs\<rparr>)"
    unfolding active_ok_def
  proof (intro ballI allI impI)
    fix a v assume "a \<in> set (db_apps (d\<lparr>db_deployments := rs\<rparr>))" and "a_active_deployment_id a = Some v"
    then obtain e where e: "e \<in> set (db_deployments d)" "d_id e = v" "d_app_id e = a_id a"
      using assms(1) by (auto simp: db_ok_def active_ok_def)
    then have "?g e \<in> set rs" unfolding rs by auto
    moreover have "d_id (?g e) = v" "d_app_id (?g e) = a_id a" using e f by simp_all
    ultimately show "\<exists>e\<in>set (db_deployments (d\<lparr>db_deployments := rs\<rparr>)). d_id e = v \<and> d_app_id e = a_id a"
      by auto
  qed
  ultimately show ?thesis using assms(1) f by (auto simp: db_ok_def keys_ok_def refs_ok_def app_ids_def rs)
qed

lemma db_ok_update_app:
  assumes "db_ok d" and upd: "update_rows app_clash (\<lambda>q. a_id q = k) f (db_apps d) = Some rs"
    and f: "\<And>q. a_id (f q) = a_id q"
    and act: "\<And>q v. a_id q = k \<Longrightarrow> a_active_deployment_id (f q) = Some v \<Longrightarrow>
      a_active_deployment_id q = Some v \<or> (\<exists>e\<in>set (db_deployments d). d_id e = v \<and> d_app_id e = k)"
  shows "db_ok (d\<lparr>db_apps := rs\<rparr>)"
proof -
  let ?g = "\<lambda>r. if a_id r = k then f r else r"
  have rs: "rs = map ?g (db_apps d)" using upd by (rule apps_by_id.upd_rows)
  have "no_clash app_clash rs" using upd by (rule apps_by_id.upd_inv)
  moreover have "app_ids (d\<lparr>db_apps := rs\<rparr>) = app_ids d"
  proof -
    have "map a_id rs = map a_id (db_apps d)" using f by (simp add: rs)
    then have "set (map a_id rs) = set (map a_id (db_apps d))" by simp
    then show ?thesis by (simp only: app_ids_def set_map) simp
  qed
  moreover have "active_ok (d\<lparr>db_apps := rs\<rparr>)"
    unfolding active_ok_def
  proof (intro ballI allI impI)
    fix x v assume "x \<in> set (db_apps (d\<lparr>db_apps := rs\<rparr>))" and v: "a_active_deployment_id x = Some v"
    then obtain q where q: "q \<in> set (db_apps d)" "x = ?g q" unfolding rs by auto
    have id: "a_id x = a_id q" using q f by simp
    have "a_active_deployment_id q = Some v \<or> (\<exists>e\<in>set (db_deployments d). d_id e = v \<and> d_app_id e = a_id q)"
      using q v act by (auto split: if_splits)
    then show "\<exists>e\<in>set (db_deployments (d\<lparr>db_apps := rs\<rparr>)). d_id e = v \<and> d_app_id e = a_id x"
      using q(1) assms(1) id by (auto simp: db_ok_def active_ok_def)
  qed
  ultimately show ?thesis using assms(1) by (auto simp: db_ok_def keys_ok_def refs_ok_def pending_ok_def)
qed

lemma db_ok_delete_deployments:
  assumes "db_ok d" and "\<And>a v e. a \<in> set (db_apps d) \<Longrightarrow> a_active_deployment_id a = Some v \<Longrightarrow>
      e \<in> set (db_deployments d) \<Longrightarrow> d_id e = v \<Longrightarrow> \<not> P e"
  shows "db_ok (d\<lparr>db_deployments := delete_rows P (db_deployments d)\<rparr>)"
proof -
  have "no_clash deployment_clash (delete_rows P (db_deployments d))"
    using assms(1) by (intro deployments_by_id.del_inv) (simp add: db_ok_def keys_ok_def)
  moreover have "active_ok (d\<lparr>db_deployments := delete_rows P (db_deployments d)\<rparr>)"
    using assms unfolding db_ok_def active_ok_def delete_rows_def by simp blast
  ultimately show ?thesis
    using assms(1) by (auto simp: db_ok_def keys_ok_def refs_ok_def pending_ok_def app_ids_def delete_rows_def)
qed

text \<open>Removing an app together with its deployments and permissions.\<close>

lemma db_ok_delete_app:
  assumes "db_ok d"
  shows "db_ok (d\<lparr>db_deployments := delete_rows (\<lambda>e. d_app_id e = k) (db_deployments d),
                  db_permissions := delete_rows (\<lambda>p. p_app_id p = k) (db_permissions d),
                  db_apps := delete_rows (\<lambda>a. a_id a = k) (db_apps d)\<rparr>)" (is "db_ok ?d")
proof -
  have "keys_ok ?d"
    using assms by (auto simp: db_ok_def keys_ok_def intro: deployments_by_id.del_inv permissions_by_id.del_inv apps_by_id.del_inv)
  moreover have "refs_ok ?d" and "pending_ok ?d"
    using assms by (auto simp: db_ok_def refs_ok_def pending_ok_def app_ids_def delete_rows_def)
  moreover have "active_ok ?d"
    using assms unfolding db_ok_def active_ok_def delete_rows_def by simp metis
  ultimately show ?thesis by (simp add: db_ok_def)
qed

lemma keeps_db_ok_insert_app [keeps_intros]:
  "a_active_deployment_id r = None \<Longrightarrow> keeps (\<lambda>s. db_ok (db s)) (insert_app r)"
  unfolding insert_app_def by (rule keeps_db_write) (auto intro: db_ok_insert_app)

lemma triple_insert_deployment:
  assumes "\<And>d. J d \<Longrightarrow> db_ok d \<and> d_app_id r \<in> app_ids d
      \<and> (is_pending r \<longrightarrow> (\<forall>e\<in>set (db_deployments d). d_app_id e = d_app_id r \<longrightarrow> \<not> is_pending e))"
  shows "triple (\<lambda>s. J (db s)) (insert_deployment r)
    (\<lambda>q s. q = r \<and> db_ok (db s) \<and> (\<exists>d. J d \<and> db s = d\<lparr>db_deployments := db_deployments d @ [r]\<rparr>)) (\<lambda>s. J (db s))"
  unfolding insert_deployment_def
proof (rule triple_db_write)
  fix d a d' assume "J d" and run: "map_option (\<lambda>rs. (r, d\<lparr>db_deployments := rs\<rparr>))
      (insert_row deployment_clash r (db_deployments d)) = Some (a, d')"
  then obtain rs where rs: "insert_row deployment_clash r (db_deployments d) = Some rs"
    and d': "a = r" "d' = d\<lparr>db_deployments := rs\<rparr>" by auto
  have "db_ok d'" using assms [OF \<open>J d\<close>] rs unfolding d' by (intro db_ok_insert_deployment) auto
  then show "a = r \<and> db_ok d' \<and> (\<exists>d. J d \<and> d' = d\<lparr>db_deployments := db_deployments d @ [r]\<rparr>)"
    using \<open>J d\<close> d' deployments_by_id.ins_rows [OF rs] by blast
qed

lemma keeps_db_ok_update_deployment:
  assumes "\<And>q. d_id (f q) = d_id q" "\<And>q. d_app_id (f q) = d_app_id q" "\<And>q. is_pending (f q) \<Longrightarrow> is_pending q"
  shows "keeps (\<lambda>s. db_ok (db s)) (update_deployment r f)"
  unfolding update_deployment_def using assms by (intro keeps_db_write) (auto intro: db_ok_update_deployment)

lemma keeps_db_ok_update_app:
  assumes "\<And>q. a_id (f q) = a_id q" and "\<And>q. a_active_deployment_id (f q) = a_active_deployment_id q"
  shows "keeps (\<lambda>s. db_ok (db s)) (update_app_row r f)"
  unfolding update_app_row_def using assms by (intro keeps_db_write) (auto intro!: db_ok_update_app)

section \<open>Runs of single statements\<close>

lemma ext_call_no_faults: "faults s = [] \<Longrightarrow> ext_call mk body s = body s"
  by (simp add: ext_call_def)

lemma ext_call_Done:
  assumes "ext_call mk body s = (Done a, s')"
  obtains f where "body (s\<lparr>faults := f\<rparr>) = (Done a, s')"
proof (cases "faults s")
  case Nil
  then have "s\<lparr>faults := faults s\<rparr> = s" and "body s = (Done a, s')" using assms by (simp_all add: ext_call_def)
  then have "body (s\<lparr>faults := faults s\<rparr>) = (Done a, s')" by simp
  then show ?thesis by (rule that)
next
  case (Cons c cs)
  then have "body (s\<lparr>faults := cs\<rparr>) = (Done a, s')"
    using assms by (cases c) (auto simp: ext_call_def Let_def)
  then show ?thesis by (rule that)
qed

lemma db_first_no_faults: "faults s = [] \<Longrightarrow> db_first tbl P s = (Done (find P (tbl (db s))), s)"
  by (simp add: db_first_def db_read_def ext_call_no_faults gets_def)

lemma db_all_no_faults: "faults s = [] \<Longrightarrow> db_all tbl P s = (Done (filter P (tbl (db s))), s)"
  by (simp add: db_all_def db_read_def ext_call_no_faults gets_def)

lemma db_first_Done:
  assumes "db_first tbl P s = (Done r, s')"
  obtains f where "s' = s\<lparr>faults := f\<rparr>" and "r = find P (tbl (db s))"
  using assms unfolding db_first_def db_read_def
  by (elim ext_call_Done) (auto simp: gets_def)

lemma db_write_Done:
  assumes "db_write h s = (Done a, s')"
  obtains f d where "h (db s) = Some (a, d)" and "s' = s\<lparr>faults := f, db := d\<rparr>"
  using assms unfolding db_write_def
  by (elim ext_call_Done) (auto split: option.splits)

lemmas run_elims = db_first_Done db_write_Done bindc_DoneE

lemma ok_or_Done [simp]: "ok_or e r s = (Done a, s') \<longleftrightarrow> r = Some a \<and> s' = s"
  by (cases r) (auto simp: ok_or_def throw_def ret_def)

lemma ret_Done [simp]: "ret a s = (Done b, s') \<longleftrightarrow> b = a \<and> s' = s"
  by (auto simp: ret_def)

lemma throw_Done [simp]: "throw e s \<noteq> (Done b, s')"
  by (simp add: throw_def)

lemma gets_Done [simp]: "gets f s = (Done b, s') \<longleftrightarrow> b = f s \<and> s' = s"
  by (auto simp: gets_def)

lemma from_sum_Done [simp]: "from_sum r s = (Done a, s') \<longleftrightarrow> r = Inr a \<and> s' = s"
  by (cases r) (auto simp: from_sum_def throw_def ret_def)

lemma guardc_Done [simp]: "guardc b e s = (Done a, s') \<longleftrightarrow> b \<and> s' = s"
  by (auto simp: guardc_def throw_def ret_def)

end
