(* ===== verification/Logs.thy ===== *)
theory Logs
  imports Rows
begin

text \<open>
  Deployment logs: \<open>deployment_logs.rs\<close>. A pump writes the chunks of one phase of one deployment
  to its file and broadcasts them. An open file is its path: a write to a file that has been
  unlinked in the meantime goes nowhere, as it does through a file handle. What a pump does to
  the files over its whole life is in \<open>LogFacts\<close>.
\<close>

section \<open>Files opened for writing\<close>

definition open_append :: "path \<Rightarrow> (world, io_error, unit) comp" where
  "open_append p = io_call (\<lambda>s.
     case map_of (fs s) p of
       Some Dir \<Rightarrow> (Fail (io_err IsADirectory), s)
     | Some (File _) \<Rightarrow> (Done (), s)
     | None \<Rightarrow> (case parent_check (fs s) p of
         Some e \<Rightarrow> (Fail e, s)
       | None \<Rightarrow> set_fs (fs_put p (File [])) s))"

definition file_len :: "path \<Rightarrow> (world, io_error, u64) comp" where
  "file_len p = io_call (\<lambda>s.
     case map_of (fs s) p of Some (File c) \<Rightarrow> (Done (of_nat (length c)), s) | _ \<Rightarrow> (Done 0, s))"

text \<open>
  \<open>write_all\<close> on a file opened for appending: the bytes go out one after the other, so a failure or
  the end of the process in the midst of a chunk leaves its first part in the file.
\<close>

definition append_byte :: "path \<Rightarrow> char \<Rightarrow> ('z machine_scheme, io_error, unit) comp" where
  "append_byte p b = io_call (\<lambda>s.
     case map_of (fs s) p of
       Some (File c) \<Rightarrow> set_fs (fs_put p (File (c @ [b]))) s
     | _ \<Rightarrow> (Done (), s))"

definition append_file :: "path \<Rightarrow> string \<Rightarrow> ('z machine_scheme, io_error, unit) comp" where
  "append_file p chunk = forc chunk (append_byte p)"

text \<open>\<open>Path::with_extension\<close>: the part after the last dot of the file name is replaced.\<close>

definition file_stem :: "string \<Rightarrow> string" where
  "file_stem name =
     (case split_once CHR ''.'' (rev name) of
        None \<Rightarrow> name
      | Some (_, rest) \<Rightarrow> if rest = [] then name else rev rest)"

definition with_extension :: "string \<Rightarrow> path \<Rightarrow> path" where
  "with_extension ext p = butlast p @ [file_stem (last p) @ ''.'' @ ext]"

section \<open>The registry of active pumps\<close>

definition log_active :: "string \<Rightarrow> log_kind option hub" where
  "log_active deployment_id = gets (\<lambda>s. log_registry s deployment_id)"

definition try_register :: "string \<Rightarrow> log_kind \<Rightarrow> bool hub" where
  "try_register deployment_id kind = (\<lambda>s.
     case log_registry s deployment_id of
       Some _ \<Rightarrow> (Done False, s)
     | None \<Rightarrow> (Done True, s\<lparr>log_registry := (log_registry s)(deployment_id \<mapsto> kind)\<rparr>))"

definition deregister :: "string \<Rightarrow> unit hub" where
  "deregister deployment_id = modify (\<lambda>s. s\<lparr>log_registry := (log_registry s)(deployment_id := None)\<rparr>)"

section \<open>A pump\<close>

definition run_log_rotate_bytes :: u64 where "run_log_rotate_bytes = 1024 * 1024"

record log_pump =
  lp_target :: log_target
  lp_file :: "path option"
  lp_bytes_written :: u64

definition open_for_kind :: "log_kind \<Rightarrow> path \<Rightarrow> path hub" where
  "open_for_kind kind p =
     bindc (io (if kind = LogRun then open_append p else write_file p [])) (\<lambda>_. ret p)"

definition rotate_and_reopen :: "path \<Rightarrow> path hub" where
  "rotate_and_reopen run_log_path =
     (let rotated = with_extension ''log.1'' run_log_path in
      bindc (io (rename run_log_path rotated)) (\<lambda>_.
      open_for_kind LogRun run_log_path))"

definition ok :: "'e + 'a \<Rightarrow> 'a option" where
  "ok r = (case r of Inl _ \<Rightarrow> None | Inr a \<Rightarrow> Some a)"

definition pump_try_new :: "log_target \<Rightarrow> log_pump option hub" where
  "pump_try_new target =
     bindc (try_register (lt_deployment_id target) (lt_kind target)) (\<lambda>fresh.
     if \<not> fresh then ret None
     else
       bindc (attempt (open_for_kind (lt_kind target) (lt_path target))) (\<lambda>r.
       bindc (case ok r of
                Some p \<Rightarrow> bindc (attempt (file_len p)) (\<lambda>l. ret (case ok l of Some n \<Rightarrow> n | None \<Rightarrow> 0))
              | None \<Rightarrow> ret 0) (\<lambda>bytes_written.
       ret (Some \<lparr>lp_target = target, lp_file = ok r, lp_bytes_written = bytes_written\<rparr>))))"

definition pump_rotate :: "log_pump \<Rightarrow> log_pump hub" where
  "pump_rotate pump =
     (if lp_file pump \<noteq> None \<and> lt_kind (lp_target pump) = LogRun
         \<and> run_log_rotate_bytes \<le> lp_bytes_written pump
      then bindc (attempt (rotate_and_reopen (lt_path (lp_target pump)))) (\<lambda>r.
           ret (pump\<lparr>lp_file := ok r, lp_bytes_written := 0\<rparr>))
      else ret pump)"

definition pump_persist :: "string \<Rightarrow> log_pump \<Rightarrow> log_pump hub" where
  "pump_persist chunk pump =
     (case lp_file pump of
        None \<Rightarrow> ret pump
      | Some p \<Rightarrow>
         bindc (attempt (append_file p chunk)) (\<lambda>r.
         ret (case r of
                Inr _ \<Rightarrow> pump\<lparr>lp_bytes_written := lp_bytes_written pump + of_nat (length chunk)\<rparr>
              | Inl _ \<Rightarrow> pump)))"

definition pump_push :: "string \<Rightarrow> log_pump \<Rightarrow> log_pump hub" where
  "pump_push chunk pump =
     bindc (pump_rotate pump) (\<lambda>pump.
     bindc (pump_persist chunk pump) (\<lambda>pump.
     bindc (modify (\<lambda>s. s\<lparr>broadcasts := broadcasts s @ [(lt_deployment_id (lp_target pump), chunk)]\<rparr>)) (\<lambda>_.
     ret pump)))"

text \<open>\<open>impl Drop for LogPump\<close>.\<close>

definition pump_drop :: "log_pump \<Rightarrow> unit hub" where
  "pump_drop pump = deregister (lt_deployment_id (lp_target pump))"

section \<open>Reading logs\<close>

text \<open>What a live subscriber receives: a gap after falling behind is skipped.\<close>

datatype live_event = LiveBytes string | Lagged nat

fun live_tail :: "live_event list \<Rightarrow> string list" where
  "live_tail [] = []"
| "live_tail (LiveBytes b # es) = b # live_tail es"
| "live_tail (Lagged n # es) = live_tail es"

definition read_into :: "path \<Rightarrow> string \<Rightarrow> string hub" where
  "read_into p buf =
     bindc (attempt (read_file p)) (\<lambda>r.
     case r of
       Inr bytes \<Rightarrow> ret (buf @ bytes)
     | Inl err \<Rightarrow> (if io_kind err = NotFound then ret buf else throw (Io err)))"

definition read_backlog :: "path \<Rightarrow> log_kind \<Rightarrow> string hub" where
  "read_backlog dir kind =
     bindc (if kind = LogRun then read_into (dir @ [''run.log.1'']) [] else ret []) (\<lambda>buf.
     read_into (dir @ [file_name kind]) buf)"

definition resolve_terminal_phase :: "path \<Rightarrow> log_kind option hub" where
  "resolve_terminal_phase dir =
     gets (\<lambda>s. find (\<lambda>kind. path_exists (fs s) (dir @ [file_name kind])) [LogRun, LogBuild, LogInstall, LogClone])"

section \<open>Facts\<close>

lemma fs_only_log_calls: "fs_only (open_append p)" "fs_only (file_len p)" "fs_only (append_byte p b)"
  unfolding open_append_def file_len_def append_byte_def
  by (rule fs_only_ext_call; auto simp: set_fs_run intro: fs_keep split: option.splits node.splits)+

lemma fs_only_forc: "(\<And>x. fs_only (f x)) \<Longrightarrow> fs_only (forc xs f)"
proof (induction xs)
  case Nil
  have "\<exists>t fl. s = s\<lparr>fs := t, faults := fl\<rparr>" for s :: "'b machine_scheme"
    by (rule exI [of _ "fs s"], rule exI [of _ "faults s"]) simp
  then show ?case by (simp add: fs_only_def ret_def)
next
  case (Cons a xs)
  have "\<exists>t fl. snd (forc (a # xs) f s) = s\<lparr>fs := t, faults := fl\<rparr>" for s
  proof -
    obtain r s1 where m: "f a s = (r, s1)" by fastforce
    obtain t fl where s1: "s1 = s\<lparr>fs := t, faults := fl\<rparr>"
      using Cons.prems [of a] m unfolding fs_only_def by (metis snd_conv)
    obtain t' fl' where "snd (forc xs f s1) = s1\<lparr>fs := t', faults := fl'\<rparr>"
      using Cons unfolding fs_only_def by metis
    then show ?thesis using m s1 by (cases r) (auto simp: bindc_def)
  qed
  then show ?case by (simp add: fs_only_def)
qed

lemma fs_only_log_files: "fs_only (open_append p)" "fs_only (file_len p)" "fs_only (append_file p c)"
  unfolding append_file_def by (intro fs_only_log_calls fs_only_forc)+

lemmas leaves_log_files [leaves_intros] = fs_only_log_files [THEN fs_only_leaves]

lemmas pump_defs = pump_try_new_def pump_push_def pump_rotate_def pump_persist_def pump_drop_def
  rotate_and_reopen_def open_for_kind_def

lemma leaves_registry [leaves_intros]:
  assumes "\<And>s r. g (s\<lparr>log_registry := r\<rparr>) = g s"
  shows "leaves g (try_register did k)" "leaves g (deregister did)" "leaves g (pump_drop pmp)"
proof -
  show "leaves g (try_register did k)"
    by (auto simp: leaves_def try_register_def assms split: option.split)
  show "leaves g (deregister did)" "leaves g (pump_drop pmp)"
    unfolding pump_drop_def deregister_def by (rule leaves_modify, rule assms)+
qed

lemma leaves_pump [leaves_intros]:
  assumes "\<And>s t f. g (s\<lparr>fs := t, faults := f\<rparr>) = g s" and "\<And>s r. g (s\<lparr>log_registry := r\<rparr>) = g s"
    and "\<And>s b. g (s\<lparr>broadcasts := b\<rparr>) = g s"
  shows "leaves g (pump_try_new t)" "leaves g (pump_push c pmp)"
  unfolding pump_defs Let_def by (intro leaves_intros assms)+

lemma attempt_Done:
  "attempt m s = (Done r, s') \<longleftrightarrow> (case r of Inr a \<Rightarrow> m s = (Done a, s') | Inl e \<Rightarrow> m s = (Fail e, s'))"
  by (cases r) (auto simp: attempt_def split: prod.splits outcome.splits)

lemma bindc_ret_Done:
  "bindc m (\<lambda>r. ret (f r)) s = (Done b, s') \<longleftrightarrow> (\<exists>r. m s = (Done r, s') \<and> b = f r)"
  by (auto simp: bindc_def ret_def split: prod.splits outcome.splits)

lemma ok_simps [simp]: "ok (Inr a) = Some a" "ok (Inl e) = None"
  by (simp_all add: ok_def)

lemma io_Done [simp]: "io m s = (Done a, s') \<longleftrightarrow> m s = (Done a, s')"
  by (auto simp: io_def map_err_def split: prod.splits outcome.splits)

lemma file_stem_run: "file_stem ''run.log'' = ''run''"
  by code_simp

lemma rotated_path: "with_extension ''log.1'' (dir @ [''run.log'']) = dir @ [''run.log.1'']"
  by (simp add: with_extension_def file_stem_run)

lemma rename_Done:
  assumes "rename src dst s = (Done (), s')" and "src \<noteq> dst"
  shows "rename_check src dst (fs s) = None" and "fs s' = fs_move src dst (fs s)"
  using assms(1) unfolding rename_def
  by (auto elim!: ext_call_Done simp: set_fs_run assms(2) split: if_splits option.splits)

lemma open_append_Done:
  assumes "open_append p s = (Done (), s')" and "map_of (fs s) p = None"
  shows "parent_check (fs s) p = None" and "fs s' = fs_put p (File []) (fs s)"
  using assms(1) unfolding open_append_def
  by (auto elim!: ext_call_Done simp: set_fs_run assms(2) split: option.splits)

lemma keeps_open_append:
  assumes "p \<noteq> []"
  shows "keeps (\<lambda>s. dirs_in D (fs s)) (open_append p)"
proof -
  have "dirs_in D (fs_put p (File []) t)" if "dirs_in D t" "map_of t p = None" "is_dir t (butlast p)" for t
    using that assms wf_put [of t p "File []"] by (auto simp: dirs_in_def is_dir_put is_dir_def map_of_fs_put)
  then show ?thesis
    unfolding open_append_def
    by (intro keeps_ext_call keepsI)
       (auto simp: set_fs_run is_dir_def parent_check_def parent_def split: option.splits node.splits)
qed

lemma keeps_rotate_and_reopen:
  assumes "\<forall>q\<in>D. \<not> prefix (dir @ [''run.log'']) q"
  shows "keeps (\<lambda>s. dirs_in D (fs s)) (rotate_and_reopen (dir @ [''run.log'']))"
  unfolding rotate_and_reopen_def open_for_kind_def Let_def rotated_path
  using assms by (intro keeps_intros keeps_rename) (simp_all add: keeps_open_append)

lemma rotate_and_reopen_Done:
  assumes "rotate_and_reopen (dir @ [''run.log'']) s = (Done p, s')" and "dirs_in {} (fs s)"
  shows "p = dir @ [''run.log''] \<and> map_of (fs s') p = Some (File []) \<and> dirs_in {} (fs s')"
proof -
  let ?src = "dir @ [''run.log'']" and ?dst = "dir @ [''run.log.1'']"
  obtain s1 where mv: "rename ?src ?dst s = (Done (), s1)" and op: "open_append ?src s1 = (Done (), s')"
    and p: "p = ?src"
    using assms(1) unfolding rotate_and_reopen_def open_for_kind_def Let_def rotated_path
    by (auto elim!: bindc_DoneE)
  note chk = rename_Done [OF mv, simplified]
  have wf: "fs_wf (fs s)" using assms(2) by (simp add: dirs_in_def)
  have free: "\<forall>q\<in>set (map fst (fs s)). \<not> below ?dst q" and out: "\<not> prefix ?src ?dst"
    using move_conditions [OF wf chk(1)] by auto
  have none: "map_of (fs s1) ?src = None"
    using map_of_fs_move [OF free out, of ?src] chk(2) by simp
  have "dirs_in {} (fs s')"
    using keeps_run [OF keeps_rotate_and_reopen [of "{}"] assms(1)] assms(2) by simp
  then show ?thesis using p open_append_Done [OF op none] by (simp add: map_of_fs_put)
qed

lemma dirs_in_overwrite:
  assumes "dirs_in D t" and "map_of t p = Some (File c)"
  shows "dirs_in D (fs_put p (File c') t)"
proof -
  have "p \<noteq> []" using assms by (auto simp: dirs_in_def is_dir_def)
  moreover from this have "is_dir t (butlast p)" using assms by (auto simp: dirs_in_def fs_wf_iff)
  ultimately show ?thesis
    using wf_put [of t p "File c'"] assms by (auto simp: dirs_in_def is_dir_put is_dir_def map_of_fs_put)
qed

lemma keeps_append_file: "keeps (\<lambda>s. dirs_in D (fs s)) (append_file p c)"
proof -
  have "dirs_in D (fs_put p (File c') t)" if "dirs_in D t" "map_of t p = Some (File b)" for t b c'
    using that dirs_in_overwrite by blast
  then show ?thesis
    unfolding append_file_def append_byte_def
    by (intro keeps_forc keeps_ext_call keepsI) (auto simp: set_fs_run split: option.splits node.splits)
qed

lemma append_byte_effect:
  assumes "append_byte p b s = (r, s')" and "map_of (fs s) p = Some (File c)"
  shows "r = Done () \<and> map_of (fs s') = (map_of (fs s))(p \<mapsto> File (c @ [b])) \<and> failures (faults s') = failures (faults s)
    \<or> r = Crash \<and> fs s' = fs s \<and> failures (faults s') = failures (faults s)
    \<or> (\<exists>e. r = Fail e) \<and> fs s' = fs s \<and> failures (faults s) = Suc (failures (faults s'))"
  using assms(1) unfolding append_byte_def
  by (cases rule: ext_call_budget) (auto simp: set_fs_run assms(2) map_of_fs_put fun_eq_iff)

text \<open>Appending writes a first part of the chunk, all of it if the call returns; a failure in the
  midst of it is one of the script's failures.\<close>

lemma append_file_effect:
  "append_file p chunk s = (r, s') \<Longrightarrow> map_of (fs s) p = Some (File c) \<Longrightarrow>
    (\<exists>k\<le>length chunk. map_of (fs s') = (map_of (fs s))(p \<mapsto> File (c @ take k chunk)) \<and> (r = Done () \<longrightarrow> k = length chunk))
    \<and> failures (faults s') + (case r of Fail _ \<Rightarrow> 1 | _ \<Rightarrow> 0) = failures (faults s)"
proof (induction chunk arbitrary: s c)
  case Nil
  then show ?case by (auto simp: append_file_def ret_def)
next
  case (Cons b bs)
  obtain q s1 where byte: "append_byte p b s = (q, s1)" by fastforce
  note effect = append_byte_effect [OF byte Cons.prems(2)]
  show ?case
  proof (cases "q = Done ()")
    case False
    then have "s' = s1" and "(\<exists>e. q = Fail e \<and> r = Fail e) \<or> q = Crash \<and> r = Crash"
      using byte Cons.prems(1) by (auto simp: append_file_def bindc_def split: outcome.splits)
    then show ?thesis using effect Cons.prems(2) by (auto intro!: exI [of _ 0])
  next
    case True
    then have run: "append_file p bs s1 = (r, s')" using byte Cons.prems(1) by (simp add: append_file_def bindc_def)
    have s1: "map_of (fs s1) = (map_of (fs s))(p \<mapsto> File (c @ [b]))" "failures (faults s1) = failures (faults s)"
      using effect True by auto
    have "map_of (fs s1) p = Some (File (c @ [b]))" using s1 by simp
    note tail = Cons.IH [OF run this]
    then obtain k where k: "k \<le> length bs" "map_of (fs s') = (map_of (fs s1))(p \<mapsto> File ((c @ [b]) @ take k bs))"
        "r = Done () \<longrightarrow> k = length bs"
      by blast
    have "map_of (fs s') = (map_of (fs s))(p \<mapsto> File (c @ take (Suc k) (b # bs)))" using k(2) s1(1) by simp
    moreover have "Suc k \<le> length (b # bs)" and "r = Done () \<longrightarrow> Suc k = length (b # bs)" using k by simp_all
    moreover have "failures (faults s') + (case r of Fail _ \<Rightarrow> 1 | _ \<Rightarrow> 0) = failures (faults s)" using tail s1(2) by simp
    ultimately show ?thesis by blast
  qed
qed

lemma append_file_Done:
  assumes "append_file p chunk s = (Done (), s')" and "map_of (fs s) p = Some (File c)"
  shows "map_of (fs s') = (map_of (fs s))(p \<mapsto> File (c @ chunk))"
  using append_file_effect [OF assms] by auto

end
