(* ===== verification/AgentCalls.thy ===== *)
theory AgentCalls
  imports Logs
begin

text \<open>
  What the hub asks of a host's agent: \<open>containers.rs\<close> and \<open>agent_fs.rs\<close>. A request goes over
  the link of the app's host; the answer is checked for its type and its error kind.
\<close>

section \<open>Containers\<close>

definition container_name :: "string \<Rightarrow> string \<Rightarrow> string" where
  "container_name aid did = ''berth-'' @ aid @ ''-'' @ did"

definition agent_error_of :: "agent_error \<Rightarrow> app_error" where
  "agent_error_of err =
     (case (case kind_from_i32 (ae_kind err) of Some k \<Rightarrow> k | None \<Rightarrow> KUnspecified) of
        KStartFailed \<Rightarrow> ContainerStartFailed (ae_message err)
      | KCommandFailed \<Rightarrow> CommandFailed (ae_message err)
      | KUnavailable \<Rightarrow> ContainerUnavailable (ae_message err)
      | KUnspecified \<Rightarrow> ContainerUnavailable (ae_message err))"

definition command_result_to_app_result :: "command_result \<Rightarrow> app_error + unit" where
  "command_result_to_app_result r =
     (case r of
        CrOk \<Rightarrow> Inr ()
      | CrError err \<Rightarrow> Inl (agent_error_of err)
      | CrNone \<Rightarrow> Inl (AgentError ''agent sent an empty command result''))"

text \<open>The loop of \<open>drain_command_output\<close> over the replies received before the stream closed.\<close>

fun drain_loop ::
  "(agent_payload \<Rightarrow> command_output option) \<Rightarrow> agent_payload list \<Rightarrow> log_pump option
    \<Rightarrow> (command_result option \<times> log_pump option) hub" where
  "drain_loop extract [] pump = ret (None, pump)"
| "drain_loop extract (p # ps) pump =
     (case extract p of
        None \<Rightarrow> ret (None, pump)
      | Some (CoLog chunk) \<Rightarrow>
         (case pump of
            Some q \<Rightarrow> bindc (pump_push (ch_data chunk) q) (\<lambda>q'. drain_loop extract ps (Some q'))
          | None \<Rightarrow> drain_loop extract ps None)
      | Some (CoResult r) \<Rightarrow> ret (Some r, pump)
      | Some CoNone \<Rightarrow> ret (None, pump))"

definition drop_pump :: "log_pump option \<Rightarrow> unit hub" where
  "drop_pump pump = (case pump of Some q \<Rightarrow> pump_drop q | None \<Rightarrow> ret ())"

definition drain_command_output ::
  "(agent_payload \<Rightarrow> command_output option) \<Rightarrow> agent_payload list \<Rightarrow> log_pump option \<Rightarrow> unit hub" where
  "drain_command_output extract replies pump =
     bindc (drain_loop extract replies pump) (\<lambda>(r, pump').
     bindc (drop_pump pump') (\<lambda>_.
     case r of
       None \<Rightarrow> throw (AgentError ''agent closed the stream without a final result'')
     | Some result \<Rightarrow> from_sum (command_result_to_app_result result)))"

definition pump_for :: "log_target option \<Rightarrow> log_pump option hub" where
  "pump_for target = (case target of Some t \<Rightarrow> pump_try_new t | None \<Rightarrow> ret None)"

definition start_output :: "agent_payload \<Rightarrow> command_output option" where
  "start_output p = (case p of StartRunContainerResult out \<Rightarrow> Some out | _ \<Rightarrow> None)"

definition build_output :: "agent_payload \<Rightarrow> command_output option" where
  "build_output p = (case p of RunBuildCommandResult out \<Rightarrow> Some out | _ \<Rightarrow> None)"

definition start ::
  "externals \<Rightarrow> agent_link \<Rightarrow> string \<Rightarrow> string \<Rightarrow> run_config \<Rightarrow> env_var list \<Rightarrow> u64 \<Rightarrow> log_target option
    \<Rightarrow> unit hub" where
  "start x link did cname run env install_timeout install_log_target =
     bindc (map_err Json (from_sum (x_run_json x run))) (\<lambda>run_json.
     bindc (map_err Json (from_sum (x_env_json x env))) (\<lambda>env_json.
     bindc (call_streaming_reply link (StartRunContainer
        \<lparr>sr_deployment_id = did, sr_container_name = cname, sr_run_config_json = run_json,
         sr_env_vars_json = env_json, sr_install_timeout_secs = install_timeout\<rparr>)) (\<lambda>replies.
     bindc (pump_for install_log_target) (\<lambda>pump.
     drain_command_output start_output replies pump))))"

record build_command_config =
  bcc_image :: string
  bcc_command :: string
  bcc_env_vars :: "env_var list"
  bcc_timeout :: u64

text \<open>A path as text, for the message to the agent.\<close>

definition path_display :: "path \<Rightarrow> string" where
  "path_display p = concat (map (\<lambda>c. CHR ''/'' # c) p)"

definition run_build_command ::
  "externals \<Rightarrow> agent_link \<Rightarrow> string \<Rightarrow> path \<Rightarrow> build_command_config \<Rightarrow> log_target option \<Rightarrow> unit hub" where
  "run_build_command x link cname checkout_dir config build_log_target =
     bindc (map_err Json (from_sum (x_env_json x (bcc_env_vars config)))) (\<lambda>env_json.
     bindc (call_streaming_reply link (RunBuildCommand
        \<lparr>rb_container_name = cname, rb_checkout_dir = path_display checkout_dir,
         rb_image = bcc_image config, rb_command = bcc_command config,
         rb_env_vars_json = env_json, rb_timeout_secs = bcc_timeout config\<rparr>)) (\<lambda>replies.
     bindc (pump_for build_log_target) (\<lambda>pump.
     drain_command_output build_output replies pump)))"

definition stop_and_remove :: "agent_link \<Rightarrow> string \<Rightarrow> bool \<Rightarrow> unit hub" where
  "stop_and_remove link cname is_install =
     bindc (call link (StopAndRemoveContainer cname is_install)) (\<lambda>reply.
     case reply of
       StopAndRemoveContainerResult result \<Rightarrow> from_sum (command_result_to_app_result result)
     | _ \<Rightarrow> throw (AgentError ''agent replied to StopAndRemoveContainer with the wrong payload type''))"

definition is_running :: "agent_link \<Rightarrow> string \<Rightarrow> bool hub" where
  "is_running link cname =
     bindc (call link (IsContainerRunning cname)) (\<lambda>reply.
     case reply of
       IsContainerRunningResult (IrOk running) \<Rightarrow> ret running
     | IsContainerRunningResult (IrError err) \<Rightarrow> throw (agent_error_of err)
     | IsContainerRunningResult IrNone \<Rightarrow> throw (AgentError ''agent sent an empty IsContainerRunning result'')
     | _ \<Rightarrow> throw (AgentError ''agent replied to IsContainerRunning with the wrong payload type''))"

definition stats :: "agent_link \<Rightarrow> string \<Rightarrow> container_stats hub" where
  "stats link cname =
     bindc (call link (ContainerStatsReq cname)) (\<lambda>reply.
     case reply of
       ContainerStatsResult (CsOk st) \<Rightarrow> ret st
     | ContainerStatsResult (CsError err) \<Rightarrow> throw (agent_error_of err)
     | ContainerStatsResult CsNone \<Rightarrow> throw (AgentError ''agent sent an empty ContainerStats result'')
     | _ \<Rightarrow> throw (AgentError ''agent replied to ContainerStats with the wrong payload type''))"

definition spawn_run_log_pump :: "agent_link \<Rightarrow> string \<Rightarrow> log_target \<Rightarrow> unit hub" where
  "spawn_run_log_pump link cname target = spawn (RunLogPump link cname target)"

text \<open>The body of the detached pump: replies are pushed until one is final or of another type.\<close>

fun run_log_loop :: "agent_payload list \<Rightarrow> log_pump \<Rightarrow> log_pump hub" where
  "run_log_loop [] pump = ret pump"
| "run_log_loop (p # ps) pump =
     (case p of
        StreamContainerLogsChunk chunk \<Rightarrow>
          bindc (pump_push (ch_data chunk) pump) (\<lambda>pump'.
          if ch_is_final chunk then ret pump' else run_log_loop ps pump')
      | _ \<Rightarrow> ret pump)"

definition run_log_pump_task :: "agent_link \<Rightarrow> string \<Rightarrow> log_target \<Rightarrow> unit hub" where
  "run_log_pump_task link cname target =
     bindc (attempt (call_streaming_reply link (StreamContainerLogs cname True))) (\<lambda>r.
     case r of
       Inl err \<Rightarrow> ret ()
     | Inr replies \<Rightarrow>
        bindc (pump_try_new target) (\<lambda>p.
        case p of
          None \<Rightarrow> ret ()
        | Some pump \<Rightarrow> bindc (run_log_loop replies pump) pump_drop))"

section \<open>The agent's deployment directories\<close>

definition upload_chunk_bytes :: nat where "upload_chunk_bytes = 64 * 1024"

definition fs_agent_error :: "agent_error \<Rightarrow> app_error" where
  "fs_agent_error err =
     (case (case kind_from_i32 (ae_kind err) of Some k \<Rightarrow> k | None \<Rightarrow> KUnspecified) of
        KCommandFailed \<Rightarrow> CommandFailed (ae_message err)
      | KStartFailed \<Rightarrow> AgentOperationFailed (ae_message err)
      | KUnavailable \<Rightarrow> AgentOperationFailed (ae_message err)
      | KUnspecified \<Rightarrow> AgentOperationFailed (ae_message err))"

definition fs_command_result :: "command_result \<Rightarrow> app_error + unit" where
  "fs_command_result r =
     (case r of
        CrOk \<Rightarrow> Inr ()
      | CrError err \<Rightarrow> Inl (fs_agent_error err)
      | CrNone \<Rightarrow> Inl (AgentError ''agent sent an empty command result''))"

definition create_deployment_dir :: "agent_link \<Rightarrow> string \<Rightarrow> unit hub" where
  "create_deployment_dir link did =
     bindc (call link (CreateDeploymentDir did)) (\<lambda>reply.
     case reply of
       CreateDeploymentDirResult result \<Rightarrow> from_sum (fs_command_result result)
     | _ \<Rightarrow> throw (AgentError ''agent replied to CreateDeploymentDir with the wrong payload type''))"

definition delete_deployment_dir :: "agent_link \<Rightarrow> string \<Rightarrow> unit hub" where
  "delete_deployment_dir link did =
     bindc (call link (DeleteDeploymentDir did)) (\<lambda>reply.
     case reply of
       DeleteDeploymentDirResult result \<Rightarrow> from_sum (fs_command_result result)
     | _ \<Rightarrow> throw (AgentError ''agent replied to DeleteDeploymentDir with the wrong payload type''))"

definition list_deployment_dirs :: "agent_link \<Rightarrow> string list hub" where
  "list_deployment_dirs link =
     bindc (call link ListDeploymentDirs) (\<lambda>reply.
     case reply of
       ListDeploymentDirsResult (LdOk ids) \<Rightarrow> ret ids
     | ListDeploymentDirsResult (LdError err) \<Rightarrow> throw (fs_agent_error err)
     | ListDeploymentDirsResult LdNone \<Rightarrow> throw (AgentError ''agent sent an empty ListDeploymentDirs result'')
     | _ \<Rightarrow> throw (AgentError ''agent replied to ListDeploymentDirs with the wrong payload type''))"

definition wrap_chunk :: "string \<Rightarrow> u64 \<Rightarrow> string \<Rightarrow> bool \<Rightarrow> hub_payload" where
  "wrap_chunk did max_uncompressed_bytes data is_final =
     UploadZipAndExtract did max_uncompressed_bytes (Some \<lparr>ch_data = data, ch_is_final = is_final\<rparr>)"

text \<open>The chunks of a file: full buffers while data is left, then one empty final chunk.\<close>

function file_chunks :: "nat \<Rightarrow> string \<Rightarrow> string list" where
  "file_chunks n bytes =
     (if bytes = [] \<or> n = 0 then [] else take n bytes # file_chunks n (drop n bytes))"
  by pat_completeness auto
termination by (relation "measure (\<lambda>(n, bytes). length bytes)") auto

declare file_chunks.simps [simp del]

definition upload_payloads :: "string \<Rightarrow> u64 \<Rightarrow> string \<Rightarrow> hub_payload list" where
  "upload_payloads did max_uncompressed_bytes bytes =
     map (\<lambda>c. wrap_chunk did max_uncompressed_bytes c False) (file_chunks upload_chunk_bytes bytes)
     @ [wrap_chunk did max_uncompressed_bytes [] True]"

definition upload_zip_and_extract :: "agent_link \<Rightarrow> string \<Rightarrow> path \<Rightarrow> u64 \<Rightarrow> u64 hub" where
  "upload_zip_and_extract link did zip_path max_uncompressed_bytes =
     bindc (io (read_file zip_path)) (\<lambda>bytes.
     bindc (call_streamed link (upload_payloads did max_uncompressed_bytes bytes)) (\<lambda>reply.
     case reply of
       UploadZipAndExtractResult (UpSize n) \<Rightarrow> ret n
     | UploadZipAndExtractResult (UpError err) \<Rightarrow> throw (fs_agent_error err)
     | UploadZipAndExtractResult UpNone \<Rightarrow> throw (AgentError ''agent sent an empty UploadZipAndExtract result'')
     | _ \<Rightarrow> throw (AgentError ''agent replied to UploadZipAndExtract with the wrong payload type'')))"

text \<open>
  The entries of a directory, depth first, with paths relative to \<open>base\<close>. The fuel bounds the
  depth of the walk; the tree is no deeper than its longest path.
\<close>

primrec add_dir_to_zip :: "nat \<Rightarrow> path \<Rightarrow> path \<Rightarrow> (string list \<times> string option) list hub" where
  "add_dir_to_zip 0 base dir = (\<lambda>s. (Crash, s))"
| "add_dir_to_zip (Suc n) base dir =
     bindc (io (read_dir dir)) (\<lambda>names.
     foldc (\<lambda>entries name.
       (let p = dir @ [name]; relative = map utf8_lossy (drop (length base) p) in
        bindc (gets (\<lambda>s. is_dir (fs s) p)) (\<lambda>d.
        if d then
          bindc (add_dir_to_zip n base p) (\<lambda>sub. ret (entries @ [(relative, None)] @ sub))
        else
          bindc (io (read_file p)) (\<lambda>bytes. ret (entries @ [(relative, Some bytes)])))))
       [] names)"

definition tree_depth :: "filesystem \<Rightarrow> nat" where
  "tree_depth t = fold max (map (length \<circ> fst) t) 0"

definition zip_dir :: "externals \<Rightarrow> path \<Rightarrow> path \<Rightarrow> unit hub" where
  "zip_dir x source_dir zip_path =
     bindc (io (write_file zip_path [])) (\<lambda>_.
     bindc (gets (\<lambda>s. tree_depth (fs s))) (\<lambda>depth.
     bindc (add_dir_to_zip (Suc depth) source_dir source_dir) (\<lambda>entries.
     bindc (map_err Zip (from_sum (x_zip_write x entries))) (\<lambda>bytes.
     io (write_file zip_path bytes)))))"

lemmas agent_call_defs = start_def run_build_command_def stop_and_remove_def is_running_def stats_def
  create_deployment_dir_def delete_deployment_dir_def list_deployment_dirs_def upload_zip_and_extract_def
  drain_command_output_def pump_for_def drop_pump_def spawn_run_log_pump_def

section \<open>Facts\<close>

lemma leaves_drain_loop [leaves_intros]:
  assumes "\<And>s t f. g (s\<lparr>fs := t, faults := f\<rparr>) = g s" and "\<And>s r. g (s\<lparr>log_registry := r\<rparr>) = g s"
    and "\<And>s b. g (s\<lparr>broadcasts := b\<rparr>) = g s"
  shows "leaves g (drain_loop extract ps pmp)"
proof (induction ps arbitrary: pmp)
  case Nil
  then show ?case by (simp add: leaves_intros)
next
  case (Cons p ps)
  have "leaves g (pump_push c q)" for c q by (intro leaves_intros assms)
  then show ?case
    using Cons by (auto split: option.split command_output.split intro!: leaves_intros assms)
qed

lemma concat_file_chunks: "0 < n \<Longrightarrow> concat (file_chunks n bytes) = bytes"
  by (induction n bytes rule: file_chunks.induct) (subst file_chunks.simps, auto)

lemma length_file_chunks: "0 < n \<Longrightarrow> c \<in> set (file_chunks n bytes) \<Longrightarrow> c \<noteq> [] \<and> length c \<le> n"
proof (induction n bytes rule: file_chunks.induct)
  case (1 n bytes)
  then show ?case by (subst (asm) (2) file_chunks.simps) (auto split: if_splits)
qed

lemma leaves_agent_requests [leaves_intros]:
  assumes "\<And>s f. g (s\<lparr>faults := f\<rparr>) = g s" and "\<And>s l. g (s\<lparr>rpc_log := l\<rparr>) = g s"
    and "\<And>s q. g (s\<lparr>agent_script := q\<rparr>) = g s"
  shows "leaves g (stop_and_remove link cname inst)" "leaves g (is_running link cname)" "leaves g (stats link cname)"
    "leaves g (create_deployment_dir link did)" "leaves g (delete_deployment_dir link did)"
    "leaves g (list_deployment_dirs link)"
  unfolding agent_call_defs
  by (intro leaves_intros assms | simp split: agent_payload.split is_running_result.split
        container_stats_result.split list_dirs_result.split |
      intro conjI impI allI leaves_intros assms)+

lemma leaves_agent_calls [leaves_intros]:
  assumes fs: "\<And>s t f. g (s\<lparr>fs := t, faults := f\<rparr>) = g s" and "\<And>s f. g (s\<lparr>faults := f\<rparr>) = g s"
    and "\<And>s r. g (s\<lparr>log_registry := r\<rparr>) = g s"
    and "\<And>s b. g (s\<lparr>broadcasts := b\<rparr>) = g s" and "\<And>s l. g (s\<lparr>rpc_log := l\<rparr>) = g s"
    and "\<And>s q. g (s\<lparr>agent_script := q\<rparr>) = g s" and "\<And>s q. g (s\<lparr>spawned := q\<rparr>) = g s"
  shows "leaves g (start x link did cname run env tmo tgt)"
    "leaves g (run_build_command x link cname dir cfg tgt)"
    "leaves g (upload_zip_and_extract link did zp mx)"
    "leaves g (spawn_run_log_pump link cname t)"
  unfolding agent_call_defs
  by (intro leaves_intros assms | simp split: agent_payload.split upload_result.split |
      intro conjI impI allI leaves_intros assms)+

lemma leaves_add_dir_to_zip [leaves_intros]:
  assumes "\<And>s t f. g (s\<lparr>fs := t, faults := f\<rparr>) = g s"
  shows "leaves g (add_dir_to_zip n base dir)"
proof (induction n arbitrary: dir)
  case 0
  then show ?case by (simp add: leaves_def)
next
  case (Suc n)
  then show ?case unfolding add_dir_to_zip.simps Let_def by (intro leaves_intros assms)
qed

lemma leaves_zip_dir [leaves_intros]:
  "(\<And>s t f. g (s\<lparr>fs := t, faults := f\<rparr>) = g s) \<Longrightarrow> leaves g (zip_dir x src zp)"
  unfolding zip_dir_def by (intro leaves_intros)

section \<open>Properties\<close>

text \<open>The data and the final mark of the chunks an agent receives.\<close>

definition chunk_data :: "hub_payload \<Rightarrow> string" where
  "chunk_data p = (case p of UploadZipAndExtract _ _ (Some c) \<Rightarrow> ch_data c | _ \<Rightarrow> [])"

definition chunk_final :: "hub_payload \<Rightarrow> bool" where
  "chunk_final p = (case p of UploadZipAndExtract _ _ (Some c) \<Rightarrow> ch_is_final c | _ \<Rightarrow> False)"

text \<open>An upload to an agent loses nothing: the chunks sent, in order, concatenate to the
  content of the zip file, none is larger than 64 KiB, and exactly the last one is marked
  final.\<close>

lemma upload_chunks_reassemble:
  "concat (map chunk_data (upload_payloads did n bytes)) = bytes
   \<and> list_all (\<lambda>p. length (chunk_data p) \<le> 65536) (upload_payloads did n bytes)
   \<and> map chunk_final (upload_payloads did n bytes)
      = replicate (length (upload_payloads did n bytes) - 1) False @ [True]"
proof -
  have pos: "0 < upload_chunk_bytes" by (simp add: upload_chunk_bytes_def)
  have d: "chunk_data \<circ> (\<lambda>c. wrap_chunk did n c False) = id"
    and f: "chunk_final \<circ> (\<lambda>c. wrap_chunk did n c False) = (\<lambda>_. False)"
    by (simp_all add: fun_eq_iff chunk_data_def chunk_final_def wrap_chunk_def)
  have e: "chunk_data (wrap_chunk did n c b) = c" "chunk_final (wrap_chunk did n c b) = b" for c b
    by (simp_all add: chunk_data_def chunk_final_def wrap_chunk_def)
  show ?thesis
    using length_file_chunks [OF pos] concat_file_chunks [OF pos, of bytes]
    by (auto simp: upload_payloads_def e d f map_replicate_const upload_chunk_bytes_def list_all_iff)
qed

text \<open>What a request and its answer do to the record of requests and to the script.\<close>

lemma call_streaming_reply_Done:
  assumes "call_streaming_reply link payload s = (Done ps, s')"
  obtains h rest where "link = Some h" and "rpc_log s' = rpc_log s @ [(h, [payload])]"
    and "agent_script s = Some ps # rest \<or> ps = []" and "db s' = db s"
proof -
  obtain h where h: "link = Some h" using assms by (auto simp: call_streaming_reply_def throw_def split: option.splits)
  have 1: "(case next_answer (u\<lparr>rpc_log := rpc_log u @ [(h, [payload])]\<rparr>) of (a, s1) \<Rightarrow>
      (Done (case a of None \<Rightarrow> [] | Some ps \<Rightarrow> ps), s1)) = (Done ps, s') \<Longrightarrow> u = s\<lparr>faults := f\<rparr> \<Longrightarrow> thesis" for u f
    by (rule that [OF h, of "tl (agent_script s)"])
       (auto simp: next_answer_def split: list.splits option.splits prod.splits)
  show thesis
    using assms unfolding call_streaming_reply_def h option.case by (rule ext_call_Done) (rule 1; simp)
qed

lemma drain_loop_result:
  assumes "drain_loop extract ps pump s = (Done (Some r, pump'), s')"
  shows "\<exists>p\<in>set ps. extract p = Some (CoResult r)"
  using assms
proof (induction ps arbitrary: pump s)
  case Nil
  then show ?case by simp
next
  case (Cons p ps)
  show ?case
  proof (cases "extract p")
    case None
    then show ?thesis using Cons.prems by simp
  next
    case (Some out)
    then show ?thesis using Cons by (cases out) (auto split: option.splits elim!: bindc_DoneE)
  qed
qed

lemma start_Done:
  assumes "start x link did cname run env tmo tgt s = (Done (), s')"
  obtains h req ps rest where "link = Some h" and "agent_script s = Some ps # rest"
    and "StartRunContainerResult (CoResult CrOk) \<in> set ps"
    and "sr_deployment_id req = did" and "sr_container_name req = cname"
    and "rpc_log s' = rpc_log s @ [(h, [StartRunContainer req])]"
proof -
  obtain req ps s1 s2 pump where req: "sr_deployment_id req = did" "sr_container_name req = cname"
    and c: "call_streaming_reply link (StartRunContainer req) s = (Done ps, s1)"
    and p: "pump_for tgt s1 = (Done pump, s2)" and d: "drain_command_output start_output ps pump s2 = (Done (), s')"
    using assms unfolding start_def
    by (elim bindc_DoneE, (auto simp: map_err_def split: prod.splits outcome.splits)[1])
       (rule that [rotated 2], assumption+, simp_all)
  obtain h rest where h: "link = Some h" "rpc_log s1 = rpc_log s @ [(h, [StartRunContainer req])]"
    and scr: "agent_script s = Some ps # rest \<or> ps = []"
    using c by (rule call_streaming_reply_Done)
  obtain r pump' s3 where r: "drain_loop start_output ps pump s2 = (Done (Some r, pump'), s3)" and ok: "command_result_to_app_result r = Inr ()"
    using d unfolding drain_command_output_def by (auto split: option.splits elim!: bindc_DoneE)
  have "r = CrOk" using ok by (cases r) (simp_all add: command_result_to_app_result_def)
  then obtain q where "q \<in> set ps" and "start_output q = Some (CoResult CrOk)" using drain_loop_result [OF r] by auto
  then have "q = StartRunContainerResult (CoResult CrOk)"
    unfolding start_output_def by (simp split: agent_payload.splits)
  with \<open>q \<in> set ps\<close> have in_ps: "StartRunContainerResult (CoResult CrOk) \<in> set ps" by simp
  have "rpc_log s' = rpc_log s1"
  proof -
    have "leaves rpc_log (pump_for tgt)" "leaves rpc_log (drain_command_output start_output ps pump)"
      unfolding pump_for_def drain_command_output_def drop_pump_def by (intro leaves_intros; simp)+
    then show ?thesis using leavesD p d by metis
  qed
  then show thesis using that [of h _ rest req] h scr in_ps req by auto
qed

text \<open>The hub takes a container for started only on the agent's word: \<open>start\<close> succeeds only
  if the request went out to the connected host and one of its replies is the final result
  "ok" for a start.\<close>

lemma start_succeeds_only_if_confirmed:
  assumes "start x link did cname run env tmo tgt s = (Done (), s')"
  shows "\<exists>h req ps rest. link = Some h \<and> agent_script s = Some ps # rest
    \<and> StartRunContainerResult (CoResult CrOk) \<in> set ps
    \<and> sr_deployment_id req = did \<and> sr_container_name req = cname
    \<and> (h, [StartRunContainer req]) \<in> set (rpc_log s')"
  using assms by (rule start_Done) auto

definition sample_agent_world :: world where
  "sample_agent_world = sample_world\<lparr>agent_hosts := [1],
     agent_script := [Some [StartRunContainerResult (CoResult CrOk)]]\<rparr>"

lemma sample_start:
  "start sample_externals (Some 1) ''1'' ''c'' sample_run [] 60 None sample_agent_world =
     (Done (), sample_agent_world\<lparr>agent_script := [], rpc_log := [(1, [StartRunContainer
        \<lparr>sr_deployment_id = ''1'', sr_container_name = ''c'', sr_run_config_json = ''run'',
         sr_env_vars_json = ''[]'', sr_install_timeout_secs = 60\<rparr>])]\<rparr>)"
  by (simp add: start_def bindc_def map_err_def from_sum_def ret_def call_streaming_reply_def ext_call_def
      next_answer_def pump_for_def drain_command_output_def drop_pump_def start_output_def
      command_result_to_app_result_def sample_agent_world_def sample_world_def sample_externals_def sample_run_def)

lemma start_succeeds_only_if_confirmed_witness:
  "\<exists>h req ps rest. Some 1 = Some h \<and> agent_script sample_agent_world = Some ps # rest
    \<and> StartRunContainerResult (CoResult CrOk) \<in> set ps
    \<and> sr_deployment_id req = ''1'' \<and> sr_container_name req = ''c''
    \<and> (h, [StartRunContainer req]) \<in> set (rpc_log (snd (start sample_externals (Some 1) ''1'' ''c'' sample_run [] 60 None sample_agent_world)))"
  by (rule start_succeeds_only_if_confirmed [where x = sample_externals and run = sample_run and env = "[]"
        and tmo = 60 and tgt = None]) (simp add: sample_start)

end
