(* ===== verification/Accounts.thy ===== *)
theory Accounts
  imports Sample
begin

text \<open>
  Accounts, API tokens, per-app authorization and stored secrets: \<open>accounts.rs\<close>,
  \<open>api_tokens.rs\<close>, \<open>authz.rs\<close> and \<open>secrets.rs\<close> of the hub. Argon2, ChaCha20-Poly1305 and
  base64 are parameters (\<open>externals\<close>); the laws used of them are \<open>hashing_ok\<close> and \<open>sealing_ok\<close>.
\<close>

section \<open>Accounts\<close>

datatype account_role = Admin | Member

definition role_as_str :: "account_role \<Rightarrow> string" where
  "role_as_str r = (case r of Admin \<Rightarrow> ''admin'' | Member \<Rightarrow> ''member'')"

definition role_from_str :: "string \<Rightarrow> app_error + account_role" where
  "role_from_str v =
     (if v = ''admin'' then Inr Admin else if v = ''member'' then Inr Member else Inl (InvalidRole v))"

definition user_role :: "db_user \<Rightarrow> app_error + account_role" where
  "user_role u = role_from_str (u_role u)"

definition min_username_len :: nat where "min_username_len = 3"

definition min_password_len :: nat where "min_password_len = 5"

definition username_char :: "char \<Rightarrow> bool" where
  "username_char c \<longleftrightarrow> is_ascii_lowercase c \<or> is_ascii_digit c \<or> c = CHR ''_''"

definition validate_username :: "string \<Rightarrow> app_error + unit" where
  "validate_username name =
     (if min_username_len \<le> length name
         \<and> (case name of [] \<Rightarrow> False | c # _ \<Rightarrow> is_ascii_lowercase c)
         \<and> list_all username_char name
      then Inr () else Inl (InvalidUsername name))"

definition validate_password :: "string \<Rightarrow> app_error + unit" where
  "validate_password password =
     (if min_password_len \<le> length password then Inr ()
      else Inl (InvalidPassword (''password must be at least '' @ show_nat min_password_len @ '' characters'')))"

text \<open>A salt is sixteen random bytes.\<close>

definition hash_password :: "externals \<Rightarrow> string \<Rightarrow> string hub" where
  "hash_password x password =
     bindc (random_bytes 16) (\<lambda>salt.
     map_err PasswordHash (from_sum (x_hash x password salt)))"

definition verify_password :: "externals \<Rightarrow> string \<Rightarrow> string \<Rightarrow> bool" where
  "verify_password x password hash = x_verify x password hash"

section \<open>API tokens\<close>

definition token_prefix :: string where "token_prefix = ''berth_''"

definition validate_expiry :: "int \<Rightarrow> int \<Rightarrow> int \<Rightarrow> app_error + unit" where
  "validate_expiry now expires_at max_expiry_days =
     (let max_expires_at = wrap_i64 (now + wrap_i64 (max_expiry_days * 86400)) in
      if now < expires_at \<and> expires_at \<le> max_expires_at then Inr ()
      else Inl (InvalidTokenExpiry expires_at))"

definition random_urlsafe :: "externals \<Rightarrow> nat \<Rightarrow> string hub" where
  "random_urlsafe x len = bindc (random_bytes len) (\<lambda>bytes. ret (x_b64_url x bytes))"

definition hash_secret :: "externals \<Rightarrow> string \<Rightarrow> string hub" where
  "hash_secret x secret =
     bindc (random_bytes 16) (\<lambda>salt.
     map_err PasswordHash (from_sum (x_hash x secret salt)))"

definition generate :: "externals \<Rightarrow> (string \<times> string \<times> string) hub" where
  "generate x =
     bindc (random_urlsafe x 16) (\<lambda>token_id.
     bindc (random_urlsafe x 32) (\<lambda>secret.
     bindc (hash_secret x secret) (\<lambda>hash.
     ret (token_id, secret, hash))))"

definition verify_secret :: "externals \<Rightarrow> string \<Rightarrow> string \<Rightarrow> bool" where
  "verify_secret x secret hash = x_verify x secret hash"

definition parse_bearer_value :: "string \<Rightarrow> (string \<times> string) option" where
  "parse_bearer_value value =
     (case strip_prefix token_prefix value of None \<Rightarrow> None | Some rest \<Rightarrow> split_once CHR ''.'' rest)"

definition format_token :: "string \<Rightarrow> string \<Rightarrow> string" where
  "format_token token_id secret = token_prefix @ token_id @ ''.'' @ secret"

section \<open>Authorization\<close>

record current_user =
  cu_id :: int
  cu_username :: string
  cu_role :: account_role

definition require_admin :: "current_user \<Rightarrow> app_error + unit" where
  "require_admin u =
     (case cu_role u of Admin \<Rightarrow> Inr () | Member \<Rightarrow> Inl (Forbidden ''admin access required''))"

definition check_app_permission :: "current_user \<Rightarrow> app \<Rightarrow> permission_level \<Rightarrow> app_error + unit" where
  "check_app_permission u a required =
     (case cu_role u of
        Admin \<Rightarrow> Inr ()
      | Member \<Rightarrow>
         (if has_permission a (cu_username u) required then Inr ()
          else Inl (Forbidden (''you don'' @ [CHR 0x27] @ ''t have''
                    @ (case required of Read \<Rightarrow> '' read'' | Write \<Rightarrow> '' write'') @ '' access to this app''))))"

section \<open>Secrets\<close>

definition encrypt :: "externals \<Rightarrow> string \<Rightarrow> string \<Rightarrow> string hub" where
  "encrypt x key plaintext =
     bindc (random_bytes 12) (\<lambda>nonce.
     bindc (ok_or (CorruptData ''secret value could not be encrypted'') (x_seal x key nonce plaintext)) (\<lambda>ciphertext.
     ret (x_b64_std x (nonce @ ciphertext))))"

definition decrypt :: "externals \<Rightarrow> string \<Rightarrow> string \<Rightarrow> app_error + string" where
  "decrypt x key stored =
     (case x_b64_std_decode x stored of
        None \<Rightarrow> Inl (CorruptData ''secret value could not be decoded'')
      | Some raw \<Rightarrow>
         if length raw < 12 then Inl (CorruptData ''secret value could not be decoded'')
         else case x_open x key (take 12 raw) (drop 12 raw) of
           None \<Rightarrow> Inl (CorruptData ''secret value could not be decrypted'')
         | Some plaintext \<Rightarrow>
             if valid_utf8 plaintext then Inr plaintext
             else Inl (CorruptData ''secret value could not be decoded''))"

text \<open>\<open>load_or_generate\<close>: the key is read from \<open>secrets.key\<close>, or made and written once.\<close>

definition load_or_generate :: "path \<Rightarrow> (world, string, string) comp" where
  "load_or_generate dir =
     (let p = dir @ [''secrets.key''] in
      bindc (attempt (read_file p)) (\<lambda>r.
      case r of
        Inr bytes \<Rightarrow>
          if length bytes = 32 then ret bytes
          else throw ''secrets key file has the wrong length''
      | Inl err \<Rightarrow>
          if io_kind err = NotFound then
            bindc (random_bytes 32) (\<lambda>key.
            bindc (map_err io_text (write_file p key)) (\<lambda>_. ret key))
          else throw ''failed to read secrets key file''))"

section \<open>Laws of the parameters\<close>

text \<open>A hash verifies the text it was made from.\<close>

definition hashing_ok :: "externals \<Rightarrow> bool" where
  "hashing_ok x \<longleftrightarrow> (\<forall>pw salt h. x_hash x pw salt = Inr h \<longrightarrow> x_verify x pw h)"

text \<open>Base64 decodes what it encoded; the cipher opens what it sealed under key and nonce.\<close>

definition sealing_ok :: "externals \<Rightarrow> bool" where
  "sealing_ok x \<longleftrightarrow>
     (\<forall>b. x_b64_std_decode x (x_b64_std x b) = Some b)
     \<and> (\<forall>k n p c. x_seal x k n p = Some c \<longrightarrow> x_open x k n c = Some p)"

section \<open>Facts\<close>

lemma role_roundtrip [simp]: "role_from_str (role_as_str r) = Inr r"
  by (cases r) (simp_all add: role_from_str_def role_as_str_def)

lemma role_from_str_Inr: "role_from_str v = Inr r \<longleftrightarrow> v = role_as_str r"
  by (cases r) (auto simp: role_from_str_def role_as_str_def)

lemma random_bytes_run:
  "random_bytes n s = (Done (map (random_source s) [random_pos s ..< random_pos s + n]),
     s\<lparr>random_pos := random_pos s + n\<rparr>)"
  by (simp add: random_bytes_def)

lemma validate_username_ok:
  "validate_username name = Inr () \<longleftrightarrow>
     3 \<le> length name \<and> is_ascii_lowercase (hd name) \<and> (\<forall>c\<in>set name. username_char c)"
  by (cases name) (auto simp: validate_username_def min_username_len_def list_all_iff)

lemma leaves_generate [leaves_intros]:
  "(\<And>s n. g (s\<lparr>random_pos := n\<rparr>) = g s) \<Longrightarrow> leaves g (generate x)"
  unfolding generate_def random_urlsafe_def hash_secret_def by (intro leaves_intros)

lemma leaves_hash_password [leaves_intros]:
  "(\<And>s n. g (s\<lparr>random_pos := n\<rparr>) = g s) \<Longrightarrow> leaves g (hash_password x pw)"
  unfolding hash_password_def by (intro leaves_intros)

lemma leaves_encrypt [leaves_intros]:
  "(\<And>s n. g (s\<lparr>random_pos := n\<rparr>) = g s) \<Longrightarrow> leaves g (encrypt x k v)"
  unfolding encrypt_def by (intro leaves_intros)

lemma require_admin_ok: "require_admin u = Inr () \<longleftrightarrow> cu_role u = Admin"
  by (simp add: require_admin_def split: account_role.splits)

lemma sample_hashing_ok: "hashing_ok sample_externals"
  by (simp add: hashing_ok_def sample_externals_def)

lemma sample_sealing_ok: "sealing_ok sample_externals"
  by (auto simp: sealing_ok_def sample_externals_def)

lemma parse_format_token: "CHR ''.'' \<notin> set token_id \<Longrightarrow> parse_bearer_value (format_token token_id secret) = Some (token_id, secret)"
  by (simp add: parse_bearer_value_def format_token_def split_once_append)

lemma generate_Done:
  assumes "generate x s = (Done (token_id, secret, hash), s')"
  obtains salt b where "x_hash x secret salt = Inr hash" and "token_id = x_b64_url x b"
  using assms
  by (auto simp: generate_def random_urlsafe_def hash_secret_def bindc_def random_bytes_def ret_def
      map_err_def from_sum_def throw_def split: prod.splits outcome.splits sum.splits)

section \<open>Properties\<close>

text \<open>C38 An issued API token comes back from its text form: the plaintext handed to the user
  parses into the lookup id and the secret that were generated, and the secret verifies against
  the stored hash. Base64url output contains no dot, the delimiter.\<close>

theorem issued_token_is_accepted:
  assumes "hashing_ok x" and "\<forall>b. CHR ''.'' \<notin> set (x_b64_url x b)"
    and "generate x s = (Done (token_id, secret, hash), s')"
  shows "parse_bearer_value (format_token token_id secret) = Some (token_id, secret)
    \<and> verify_secret x secret hash"
proof -
  obtain salt b where h: "x_hash x secret salt = Inr hash" and b: "token_id = x_b64_url x b"
    using assms(3) by (rule generate_Done)
  have "CHR ''.'' \<notin> set token_id" using assms(2) b by simp
  moreover have "verify_secret x secret hash"
    using assms(1) h by (auto simp: hashing_ok_def verify_secret_def)
  ultimately show ?thesis by (simp add: parse_format_token)
qed

lemma issued_token_is_accepted_witness:
  "parse_bearer_value (format_token (replicate 16 CHR ''A'') (replicate 32 CHR ''A''))
     = Some (replicate 16 CHR ''A'', replicate 32 CHR ''A'')
   \<and> verify_secret sample_externals (replicate 32 CHR ''A'') (CHR ''h'' # replicate 32 CHR ''A'')"
proof (rule issued_token_is_accepted)
  show "hashing_ok sample_externals" by (rule sample_hashing_ok)
  show "\<forall>b. CHR ''.'' \<notin> set (x_b64_url sample_externals b)" by (simp add: sample_externals_def)
  show "generate sample_externals sample_world =
    (Done (replicate 16 CHR ''A'', replicate 32 CHR ''A'', CHR ''h'' # replicate 32 CHR ''A''),
     sample_world\<lparr>random_pos := 64\<rparr>)"
    by (simp add: generate_def random_urlsafe_def hash_secret_def random_bytes_def bindc_def ret_def
        map_err_def from_sum_def sample_externals_def sample_world_def map_replicate_const del: upt_rec_numeral)
qed

text \<open>C37 A stored secret survives the round trip: what \<open>encrypt\<close> stores, \<open>decrypt\<close> with the
  same key gives back, for every text the program can hold (valid UTF-8).\<close>

theorem secret_roundtrip:
  assumes "sealing_ok x" and "valid_utf8 plaintext" and "encrypt x key plaintext s = (Done stored, s')"
  shows "decrypt x key stored = Inr plaintext"
proof -
  define nonce where "nonce = map (random_source s) [random_pos s ..< random_pos s + 12]"
  have len: "length nonce = 12" by (simp add: nonce_def)
  obtain c where "x_seal x key nonce plaintext = Some c" and "stored = x_b64_std x (nonce @ c)"
    using assms(3)
    by (auto simp: encrypt_def bindc_def random_bytes_def ok_or_def throw_def ret_def nonce_def
        split: prod.splits outcome.splits option.splits)
  then show ?thesis using assms(1,2) len by (simp add: decrypt_def sealing_ok_def)
qed

lemma secret_roundtrip_witness:
  "decrypt sample_externals ''key'' (replicate 12 CHR ''A'' @ ''spw'') = Inr ''pw''"
proof (rule secret_roundtrip)
  show "sealing_ok sample_externals" by (rule sample_sealing_ok)
  show "valid_utf8 ''pw''" by code_simp
  show "encrypt sample_externals ''key'' ''pw'' sample_world =
    (Done (replicate 12 CHR ''A'' @ ''spw''), sample_world\<lparr>random_pos := 12\<rparr>)"
    by (simp add: encrypt_def random_bytes_def bindc_def ret_def ok_or_def sample_externals_def
        sample_world_def map_replicate_const del: upt_rec_numeral)
qed

text \<open>Access to an app: an admin always passes, a member passes exactly when the app grants
  the member Write, or grants Read and no more than Read is asked; every refusal is an
  answer 403.\<close>

theorem app_permission_decision:
  "case check_app_permission u a required of
     Inr _ \<Rightarrow> cu_role u = Admin \<or>
       (\<exists>g\<in>set (app_permissions a). perm_username g = cu_username u \<and> (perm_level g = Write \<or> required = Read))
   | Inl e \<Rightarrow> cu_role u = Member \<and> \<not> has_permission a (cu_username u) required \<and> error_status e = 403"
  by (cases "cu_role u"; cases "has_permission a (cu_username u) required")
     (simp_all add: check_app_permission_def has_permission_iff)

text \<open>The expiry check on a new token: as long as the latest admissible time does not
  overflow the 64-bit clock, exactly the times after now and at most the configured number of
  days ahead pass.\<close>

theorem expiry_window:
  assumes "0 \<le> now" and "0 \<le> days" and "now + days * 86400 < 2 ^ 63"
  shows "validate_expiry now expires_at days = Inr () \<longleftrightarrow>
    now < expires_at \<and> expires_at \<le> now + days * 86400"
proof -
  have "0 \<le> days * 86400" using assms(2) by simp
  then have "wrap_i64 (days * 86400) = days * 86400"
    using assms by (intro wrap_i64_id) linarith+
  moreover have "wrap_i64 (now + days * 86400) = now + days * 86400"
    using assms \<open>0 \<le> days * 86400\<close> by (intro wrap_i64_id) linarith+
  ultimately show ?thesis by (simp add: validate_expiry_def Let_def)
qed

lemma expiry_window_witness:
  "validate_expiry 1000 87400 1 = Inr () \<longleftrightarrow> (1000::int) < 87400 \<and> (87400::int) \<le> 1000 + 1 * 86400"
  by (rule expiry_window) simp_all

end
