(* ===== verification/TokenStore.thy ===== *)
theory TokenStore
  imports Rows Accounts
begin

text \<open>
  The rows of API tokens and hosts: the functions of \<open>storage.rs\<close> from \<open>create_api_token\<close> to
  \<open>update_host_ip\<close>.
\<close>

section \<open>API tokens\<close>

definition create_api_token :: "externals \<Rightarrow> int \<Rightarrow> string \<Rightarrow> int \<Rightarrow> (db_token \<times> string) hub" where
  "create_api_token x user_id name expires_at =
     bindc (gets now_secs) (\<lambda>now.
     bindc (gets (lim_api_token_max_expiry_days \<circ> limits)) (\<lambda>days.
     bindc (from_sum (validate_expiry now expires_at days)) (\<lambda>_.
     bindc (generate x) (\<lambda>(token_id, secret, token_hash).
     bindc (insert_token \<lparr>t_id = 0, t_user_id = user_id, t_name = name, t_token_id = token_id,
              t_token_hash = token_hash, t_expires_at = expires_at, t_revoked = False,
              t_created_at = now, t_updated_at = now\<rparr>) (\<lambda>row.
     ret (row, format_token token_id secret))))))"

definition list_api_tokens :: "int \<Rightarrow> db_token list hub" where
  "list_api_tokens user_id = db_all db_tokens (\<lambda>t. t_user_id t = user_id)"

definition revoke_api_token :: "int \<Rightarrow> int \<Rightarrow> unit hub" where
  "revoke_api_token user_id token_row_id =
     bindc (db_first db_tokens (\<lambda>t. t_id t = token_row_id \<and> t_user_id t = user_id)) (\<lambda>r.
     bindc (ok_or TokenNotFound r) (\<lambda>token.
     bindc (gets now_secs) (\<lambda>now.
     bindc (update_token token (\<lambda>t. t\<lparr>t_revoked := True, t_updated_at := now\<rparr>)) (\<lambda>_.
     ret ()))))"

definition find_user_by_api_token :: "externals \<Rightarrow> string \<Rightarrow> string \<Rightarrow> db_user option hub" where
  "find_user_by_api_token x token_id secret =
     bindc (db_first db_tokens (\<lambda>t. t_token_id t = token_id)) (\<lambda>r.
     case r of
       None \<Rightarrow> ret None
     | Some token \<Rightarrow>
        bindc (gets now_secs) (\<lambda>now.
        if t_revoked token \<or> t_expires_at token \<le> now then ret None
        else if \<not> verify_secret x secret (t_token_hash token) then ret None
        else
          bindc (db_first db_users (\<lambda>u. u_id u = t_user_id token)) (\<lambda>u.
          bindc (ok_or (Db ''record not found'') u) (\<lambda>user. ret (Some user)))))"

section \<open>Hosts\<close>

definition create_host :: "externals \<Rightarrow> string \<Rightarrow> (db_host \<times> string) hub" where
  "create_host x name =
     (if trim name = [] then throw (InvalidName name)
      else
       bindc (gets now_secs) (\<lambda>now.
       bindc (generate x) (\<lambda>(token_id, secret, token_hash).
       bindc (db_first db_hosts (\<lambda>h. h_name h = name)) (\<lambda>r.
       bindc (guardc (r = None) (HostAlreadyExists name)) (\<lambda>_.
       bindc (insert_host \<lparr>h_id = 0, h_name = name, h_token_id = token_id, h_token_hash = token_hash,
                h_revoked = False, h_last_seen_at = None, h_ip = None, h_last_connected_ip = None,
                h_created_at = now, h_updated_at = now\<rparr>) (\<lambda>row.
       ret (row, format_token token_id secret)))))))"

definition list_hosts :: "db_host list hub" where
  "list_hosts = db_all db_hosts (\<lambda>_. True)"

definition revoke_host :: "int \<Rightarrow> unit hub" where
  "revoke_host host_id =
     bindc (db_first db_hosts (\<lambda>h. h_id h = host_id)) (\<lambda>r.
     bindc (ok_or HostNotFound r) (\<lambda>host.
     bindc (gets now_secs) (\<lambda>now.
     bindc (update_host host (\<lambda>h. h\<lparr>h_revoked := True, h_updated_at := now\<rparr>)) (\<lambda>_.
     ret ()))))"

definition find_host_by_token :: "externals \<Rightarrow> string \<Rightarrow> string \<Rightarrow> db_host option hub" where
  "find_host_by_token x token_id secret =
     bindc (db_first db_hosts (\<lambda>h. h_token_id h = token_id)) (\<lambda>r.
     case r of
       None \<Rightarrow> ret None
     | Some host \<Rightarrow>
        (if h_revoked host then ret None
         else if \<not> verify_secret x secret (h_token_hash host) then ret None
         else ret (Some host)))"

definition touch_host_last_seen :: "int \<Rightarrow> string option \<Rightarrow> unit hub" where
  "touch_host_last_seen host_id peer_ip =
     bindc (db_first db_hosts (\<lambda>h. h_id h = host_id)) (\<lambda>r.
     case r of
       None \<Rightarrow> ret ()
     | Some host \<Rightarrow>
        bindc (gets now_secs) (\<lambda>now.
        bindc (update_host host (\<lambda>h.
            let h' = h\<lparr>h_last_seen_at := Some now, h_updated_at := now\<rparr> in
            case peer_ip of Some ip \<Rightarrow> h'\<lparr>h_last_connected_ip := Some ip\<rparr> | None \<Rightarrow> h')) (\<lambda>_.
        ret ())))"

definition update_host_ip :: "int \<Rightarrow> string option \<Rightarrow> unit hub" where
  "update_host_ip host_id ip =
     bindc (case ip of
              Some t \<Rightarrow> guardc (parse_ip t \<noteq> None) (InvalidHostIp t)
            | None \<Rightarrow> ret ()) (\<lambda>_.
     bindc (db_first db_hosts (\<lambda>h. h_id h = host_id)) (\<lambda>r.
     bindc (ok_or HostNotFound r) (\<lambda>host.
     bindc (gets now_secs) (\<lambda>now.
     bindc (update_host host (\<lambda>h. h\<lparr>h_updated_at := now, h_ip := ip\<rparr>)) (\<lambda>_.
     ret ())))))"

lemmas token_store_defs = create_api_token_def list_api_tokens_def revoke_api_token_def
  find_user_by_api_token_def create_host_def list_hosts_def revoke_host_def find_host_by_token_def
  touch_host_last_seen_def update_host_ip_def

section \<open>Facts\<close>

lemma leaves_token_store [leaves_intros]:
  assumes "\<And>s f. g (s\<lparr>faults := f\<rparr>) = g s" and "\<And>s d. g (s\<lparr>db := d\<rparr>) = g s"
    and "\<And>s n. g (s\<lparr>random_pos := n\<rparr>) = g s"
  shows "leaves g (create_api_token x uid nm ex)" "leaves g (list_api_tokens uid)"
    "leaves g (revoke_api_token uid k)" "leaves g (find_user_by_api_token x tid sec)"
    "leaves g (create_host x nm)" "leaves g list_hosts" "leaves g (revoke_host hid)"
    "leaves g (find_host_by_token x tid sec)" "leaves g (touch_host_last_seen hid peer)"
    "leaves g (update_host_ip hid ip)"
  unfolding token_store_defs by (intro leaves_intros assms)+

text \<open>Lookups leave the tables alone.\<close>

lemma leaves_db_find_user [leaves_intros]: "leaves db (find_user_by_api_token x tid sec)"
  and leaves_db_find_host [leaves_intros]: "leaves db (find_host_by_token x tid' sec')"
  unfolding token_store_defs by (intro leaves_intros; simp)+

lemma keeps_db_ok_generate: "keeps (\<lambda>s. db_ok (db s)) (generate x)"
  by (intro keeps_leaves leaves_intros) simp

lemma keeps_db_ok_first: "keeps (\<lambda>s. db_ok (db s)) (db_first tbl P)"
  by (intro keeps_leaves leaves_intros) simp

lemma keeps_db_ok_all: "keeps (\<lambda>s. db_ok (db s)) (db_all tbl P)"
  by (intro keeps_leaves leaves_intros) simp

lemmas db_ok_steps = keeps_intros keeps_db_ok_generate keeps_db_ok_first keeps_db_ok_all

lemma keeps_db_ok_token_store:
  "keeps (\<lambda>s. db_ok (db s)) (create_api_token x uid nm ex)"
  "keeps (\<lambda>s. db_ok (db s)) (revoke_api_token uid k)"
  "keeps (\<lambda>s. db_ok (db s)) (create_host x nm)"
  "keeps (\<lambda>s. db_ok (db s)) (revoke_host hid)"
  "keeps (\<lambda>s. db_ok (db s)) (touch_host_last_seen hid peer)"
  "keeps (\<lambda>s. db_ok (db s)) (update_host_ip hid ip)"
  unfolding token_store_defs by (intro db_ok_steps)+

lemma find_user_by_api_token_Some:
  assumes "find_user_by_api_token x token_id secret s = (Done (Some u), s')"
  obtains t where "find (\<lambda>t. t_token_id t = token_id) (db_tokens (db s)) = Some t" and "\<not> t_revoked t"
    and "now_secs s < t_expires_at t" and "verify_secret x secret (t_token_hash t)"
    and "find (\<lambda>u. u_id u = t_user_id t) (db_users (db s)) = Some u"
proof -
  obtain r f where r: "r = find (\<lambda>t. t_token_id t = token_id) (db_tokens (db s))"
    and run: "(case r of None \<Rightarrow> ret None | Some token \<Rightarrow>
        bindc (gets now_secs) (\<lambda>now.
        if t_revoked token \<or> t_expires_at token \<le> now then ret None
        else if \<not> verify_secret x secret (t_token_hash token) then ret None
        else bindc (db_first db_users (\<lambda>u. u_id u = t_user_id token)) (\<lambda>u.
          bindc (ok_or (Db ''record not found'') u) (\<lambda>user. ret (Some user))))) (s\<lparr>faults := f\<rparr>)
      = (Done (Some u), s')"
    using assms unfolding find_user_by_api_token_def by (elim bindc_DoneE db_first_Done) auto
  then show thesis
    by (auto simp: now_secs_def split: option.splits if_splits elim!: bindc_DoneE db_first_Done intro: that)
qed

lemma find_host_by_token_Some:
  assumes "find_host_by_token x token_id secret s = (Done (Some h), s')"
  shows "find (\<lambda>h. h_token_id h = token_id) (db_hosts (db s)) = Some h \<and> \<not> h_revoked h
    \<and> verify_secret x secret (h_token_hash h)"
  using assms unfolding find_host_by_token_def
  by (auto split: option.splits if_splits elim!: bindc_DoneE db_first_Done)

lemma revoke_api_token_Done:
  assumes "revoke_api_token uid k s = (Done (), s')"
  obtains t where "find (\<lambda>t. t_id t = k \<and> t_user_id t = uid) (db_tokens (db s)) = Some t"
    and "update_rows token_clash (\<lambda>q. t_id q = t_id t)
        (\<lambda>t. t\<lparr>t_revoked := True, t_updated_at := now_secs s\<rparr>) (db_tokens (db s)) = Some (db_tokens (db s'))"
    and "db_users (db s') = db_users (db s)"
  using assms unfolding revoke_api_token_def update_token_def
  by (auto elim!: bindc_DoneE db_first_Done db_write_Done simp: now_secs_def intro: that)

section \<open>Properties\<close>

text \<open>C33 A request that presents an API token is treated as a user only if the token's row
  exists, is not revoked, has not expired and its hash verifies the presented secret; the user
  it is treated as is the owner of that row.\<close>

theorem token_authentication_sound:
  assumes "find_user_by_api_token x token_id secret s = (Done (Some u), s')"
  shows "\<exists>t\<in>set (db_tokens (db s)). t_token_id t = token_id \<and> \<not> t_revoked t \<and> now_secs s < t_expires_at t
    \<and> x_verify x secret (t_token_hash t) \<and> u \<in> set (db_users (db s)) \<and> u_id u = t_user_id t"
  using assms
  by (rule find_user_by_api_token_Some) (auto simp: verify_secret_def dest!: find_SomeD)

definition sample_user :: db_user where
  "sample_user = \<lparr>u_id = 1, u_username = ''ann'', u_password_hash = ''hpw'', u_role = ''member'', u_created_at = 0, u_updated_at = 0\<rparr>"

definition sample_token :: db_token where
  "sample_token = \<lparr>t_id = 1, t_user_id = 1, t_name = ''ci'', t_token_id = ''T'', t_token_hash = ''hsec'',
     t_expires_at = 5000, t_revoked = False, t_created_at = 0, t_updated_at = 0\<rparr>"

definition sample_token_world :: world where
  "sample_token_world = sample_world\<lparr>db := empty_database\<lparr>db_users := [sample_user], db_tokens := [sample_token], seq_tokens := 1\<rparr>\<rparr>"

lemmas sample_token_simps = sample_token_world_def sample_world_def empty_database_def sample_token_def
  sample_user_def sample_limits_def now_secs_def

lemma sample_token_accepted:
  "find_user_by_api_token sample_externals ''T'' ''sec'' sample_token_world = (Done (Some sample_user), sample_token_world)"
  by (simp add: find_user_by_api_token_def bindc_def db_first_no_faults gets_def ret_def ok_or_def
      verify_secret_def sample_externals_def sample_token_simps)

lemma token_authentication_sound_witness:
  "\<exists>t\<in>set (db_tokens (db sample_token_world)). t_token_id t = ''T'' \<and> \<not> t_revoked t
     \<and> now_secs sample_token_world < t_expires_at t \<and> x_verify sample_externals ''sec'' (t_token_hash t)
     \<and> sample_user \<in> set (db_users (db sample_token_world)) \<and> u_id sample_user = t_user_id t"
  by (rule token_authentication_sound [OF sample_token_accepted])

text \<open>A revoked token is dead at once and for good: from the moment \<open>revoke_api_token\<close> has
  returned, no request presenting that token is authenticated by it, in any later state whose
  token rows are the ones the revocation left, whatever the clock and the secret; and
  revocation only succeeds for the token's owner.\<close>

lemma revoked_token_rejected:
  assumes "db_ok (db s)" and "t \<in> set (db_tokens (db s))"
    and "revoke_api_token uid (t_id t) s = (Done (), s1)"
    and "db_tokens (db s2) = db_tokens (db s1)"
  shows "t_user_id t = uid \<and> find_user_by_api_token x (t_token_id t) secret s2 \<noteq> (Done (Some u), s3)"
proof -
  obtain q where q: "find (\<lambda>q. t_id q = t_id t \<and> t_user_id q = uid) (db_tokens (db s)) = Some q"
    and upd: "update_rows token_clash (\<lambda>r. t_id r = t_id q)
        (\<lambda>r. r\<lparr>t_revoked := True, t_updated_at := now_secs s\<rparr>) (db_tokens (db s)) = Some (db_tokens (db s1))"
    using assms(3) by (rule revoke_api_token_Done)
  have inv: "no_clash token_clash (db_tokens (db s))" using assms(1) by (simp add: db_ok_def keys_ok_def)
  have "q \<in> set (db_tokens (db s))" "t_id q = t_id t" "t_user_id q = uid" using find_SomeD [OF q] by auto
  then have "q = t" using tokens_by_id.key_unique [OF inv _ assms(2)] by blast
  have row: "t\<lparr>t_revoked := True, t_updated_at := now_secs s\<rparr> \<in> set (db_tokens (db s1))"
    using tokens_by_id.upd_rows [OF upd] assms(2) \<open>q = t\<close> by force
  have inv1: "no_clash token_clash (db_tokens (db s1))" using upd by (rule tokens_by_id.upd_inv)
  have "find (\<lambda>r. t_token_id r = t_token_id t) (db_tokens (db s2)) = Some (t\<lparr>t_revoked := True, t_updated_at := now_secs s\<rparr>)"
    using tokens_by_token_id.find_key [OF inv1 row] assms(4) by simp
  then have "find_user_by_api_token x (t_token_id t) secret s2 \<noteq> (Done (Some u), s3)"
    by (auto elim!: find_user_by_api_token_Some)
  then show ?thesis using \<open>q = t\<close> \<open>t_user_id q = uid\<close> by simp
qed

definition sample_revoked_world :: world where
  "sample_revoked_world = snd (revoke_api_token 1 1 sample_token_world)"

lemma revoked_token_rejected_witness:
  "t_user_id sample_token = 1 \<and>
   find_user_by_api_token sample_externals (t_token_id sample_token) ''sec'' sample_revoked_world
     \<noteq> (Done (Some sample_user), sample_world)"
proof (rule revoked_token_rejected)
  show "db_ok (db sample_token_world)"
    by (simp add: db_ok_defs no_clash_def sample_token_simps)
  show "sample_token \<in> set (db_tokens (db sample_token_world))" by (simp add: sample_token_simps)
  have "fst (revoke_api_token 1 1 sample_token_world) = Done ()"
    by (simp add: revoke_api_token_def update_token_def db_write_def bindc_def db_first_no_faults gets_def ret_def
        ok_or_def ext_call_def update_rows_def no_clash_def sample_token_simps)
  then show "revoke_api_token 1 (t_id sample_token) sample_token_world = (Done (), sample_revoked_world)"
    by (simp add: sample_revoked_world_def sample_token_def prod_eq_iff)
qed simp

end
