(* ===== verification/AppStore.thy ===== *)
theory AppStore
  imports TokenStore "HOL-Library.List_Lexorder" "HOL-Library.Char_ord"
begin

text \<open>
  Apps and their permissions: the functions of \<open>storage.rs\<close> on \<open>App\<close> rows, from the lookups to
  \<open>delete_app\<close>. The write lock of the source makes each of them run alone; here every operation
  runs from one state to the next, and a crash may end it at any external call.
\<close>

section \<open>Sums\<close>

definition sbind :: "'e + 'a \<Rightarrow> ('a \<Rightarrow> 'e + 'b) \<Rightarrow> 'e + 'b" where
  "sbind m k = (case m of Inl e \<Rightarrow> Inl e | Inr a \<Rightarrow> k a)"

definition serr :: "('e \<Rightarrow> 'f) \<Rightarrow> 'e + 'a \<Rightarrow> 'f + 'a" where
  "serr f m = (case m of Inl e \<Rightarrow> Inl (f e) | Inr a \<Rightarrow> Inr a)"

lemma sbind_Inr [simp]: "sbind m k = Inr b \<longleftrightarrow> (\<exists>a. m = Inr a \<and> k a = Inr b)"
  by (cases m) (simp_all add: sbind_def)

lemma serr_Inr [simp]: "serr f m = Inr a \<longleftrightarrow> m = Inr a"
  by (cases m) (simp_all add: serr_def)

primrec traverse :: "('a \<Rightarrow> 'e + 'b) \<Rightarrow> 'a list \<Rightarrow> 'e + 'b list" where
  "traverse f [] = Inr []"
| "traverse f (a # as) = sbind (f a) (\<lambda>b. sbind (traverse f as) (\<lambda>bs. Inr (b # bs)))"

lemma traverse_Inr: "traverse f as = Inr bs \<longleftrightarrow> list_all2 (\<lambda>a b. f a = Inr b) as bs"
  by (induction as arbitrary: bs) (auto simp: list_all2_Cons1)

section \<open>Staging directories\<close>

definition remove_dir_all_logged :: "path \<Rightarrow> unit hub" where
  "remove_dir_all_logged p = ignore (remove_dir_all p)"

text \<open>\<open>std::fs::remove_dir_all(path).ok()\<close>.\<close>

definition remove_dir_all_quiet :: "path \<Rightarrow> unit hub" where
  "remove_dir_all_quiet p = ignore (remove_dir_all p)"

definition remove_file_logged :: "path \<Rightarrow> unit hub" where
  "remove_file_logged p = ignore (remove_file p)"

definition sweep_tmp_dir :: "unit hub" where
  "sweep_tmp_dir =
     bindc (gets tmp_dir) (\<lambda>dir.
     bindc (gets (\<lambda>s. path_exists (fs s) dir)) (\<lambda>present.
     bindc (whenc present (io (remove_dir_all dir))) (\<lambda>_.
     io (create_dir_all dir))))"

section \<open>Lookups\<close>

definition find_app_row :: "string \<Rightarrow> db_app hub" where
  "find_app_row name =
     bindc (db_first db_apps (\<lambda>a. a_name a = name)) (\<lambda>r. ok_or (AppNotFound name) r)"

definition find_app_row_by_id :: "externals \<Rightarrow> string \<Rightarrow> db_app hub" where
  "find_app_row_by_id x aid =
     bindc (ok_or (AppNotFound aid) (x_uuid_parse x aid)) (\<lambda>uuid.
     bindc (db_first db_apps (\<lambda>a. a_id a = uuid)) (\<lambda>r. ok_or (AppNotFound aid) r))"

definition find_deployment_row :: "externals \<Rightarrow> uuid \<Rightarrow> string \<Rightarrow> db_deployment hub" where
  "find_deployment_row x aid deployment_id =
     bindc (ok_or (DeploymentNotFound deployment_id) (x_uuid_parse x deployment_id)) (\<lambda>uuid.
     bindc (db_first db_deployments (\<lambda>e. d_id e = uuid \<and> d_app_id e = aid)) (\<lambda>r.
     ok_or (DeploymentNotFound (x_uuid_str x uuid)) r))"

definition find_user_id :: "string \<Rightarrow> int hub" where
  "find_user_id username =
     bindc (db_first db_users (\<lambda>u. u_username u = username)) (\<lambda>r.
     bindc (ok_or (UserNotFound username) r) (\<lambda>u. ret (u_id u)))"

section \<open>Rows to values\<close>

definition level_of_db :: "db_permission_level \<Rightarrow> permission_level" where
  "level_of_db l = (case l of DbRead \<Rightarrow> Read | DbWrite \<Rightarrow> Write)"

definition level_to_db :: "permission_level \<Rightarrow> db_permission_level" where
  "level_to_db l = (case l of Read \<Rightarrow> DbRead | Write \<Rightarrow> DbWrite)"

fun permissions_from_rows :: "(int \<rightharpoonup> string) \<Rightarrow> db_permission list \<Rightarrow> app_error + app_permission list" where
  "permissions_from_rows usernames [] = Inr []"
| "permissions_from_rows usernames (row # rows) =
     (case usernames (p_user_id row) of
        None \<Rightarrow> permissions_from_rows usernames rows
      | Some username \<Rightarrow>
         sbind (serr CorruptData (db_level_from_str (p_level row))) (\<lambda>level.
         sbind (permissions_from_rows usernames rows) (\<lambda>ps.
         Inr (\<lparr>perm_username = username, perm_level = level_of_db level\<rparr> # ps))))"

definition load_permissions :: "db_app \<Rightarrow> app_permission list hub" where
  "load_permissions app_row =
     bindc (db_all db_permissions (\<lambda>p. p_app_id p = a_id app_row)) (\<lambda>rows.
     bindc (db_all db_users (\<lambda>u. u_id u \<in> set (map p_user_id rows))) (\<lambda>users.
     from_sum (permissions_from_rows (map_of (map (\<lambda>u. (u_id u, u_username u)) users)) rows)))"

definition app_from_row :: "externals \<Rightarrow> db_app \<Rightarrow> app_permission list \<Rightarrow> app_error + app" where
  "app_from_row x row permissions =
     sbind (serr TimestampError (x_from_second x (a_created_at row))) (\<lambda>created.
     sbind (serr TimestampError (x_from_second x (a_updated_at row))) (\<lambda>updated.
     sbind (serr Json (x_source_parse x (a_source_json row))) (\<lambda>src.
     sbind (serr Json (x_env_parse x (a_env_vars_json row))) (\<lambda>env.
     Inr \<lparr>app_id = x_uuid_str x (a_id row), app_name = a_name row, app_created_at = created,
          app_updated_at = updated, app_host_id = a_host_id row, app_source = src,
          app_env_vars = env, app_permissions = permissions\<rparr>))))"

definition app_from_row_with_permissions :: "externals \<Rightarrow> db_app \<Rightarrow> app hub" where
  "app_from_row_with_permissions x row =
     bindc (load_permissions row) (\<lambda>permissions. from_sum (app_from_row x row permissions))"

section \<open>Environment variables\<close>

definition resolve_env_var_input :: "externals \<Rightarrow> env_var list \<Rightarrow> env_var_input \<Rightarrow> env_var hub" where
  "resolve_env_var_input x existing input =
     bindc (case evi_value input of
         InPlain v \<Rightarrow> ret (Plain v)
       | InSecret (Some v) \<Rightarrow>
           (if v \<noteq> [] then
              bindc (gets secrets_key) (\<lambda>key. bindc (encrypt x key v) (\<lambda>c. ret (Secret c)))
            else throw (InvalidEnvVar (evi_key input)))
       | InSecret None \<Rightarrow>
           ok_or (InvalidEnvVar (evi_key input))
             (map_option ev_value
               (find (\<lambda>v. ev_key v = evi_key input \<and> (\<exists>c. ev_value v = Secret c)) existing)))
     (\<lambda>value. ret \<lparr>ev_key = evi_key input, ev_value = value\<rparr>)"

definition resolve_env_var_inputs :: "externals \<Rightarrow> env_var_input list \<Rightarrow> env_var list \<Rightarrow> env_var list hub" where
  "resolve_env_var_inputs x inputs existing = mapc (resolve_env_var_input x existing) inputs"

definition decrypt_env_var :: "externals \<Rightarrow> string \<Rightarrow> env_var \<Rightarrow> app_error + env_var" where
  "decrypt_env_var x key v =
     sbind (case ev_value v of Plain t \<Rightarrow> Inr t | Secret c \<Rightarrow> decrypt x key c)
       (\<lambda>t. Inr \<lparr>ev_key = ev_key v, ev_value = Plain t\<rparr>)"

definition decrypt_env_vars :: "externals \<Rightarrow> string \<Rightarrow> env_var list \<Rightarrow> app_error + env_var list" where
  "decrypt_env_vars x key vs = traverse (decrypt_env_var x key) vs"

definition validate_host_id :: "int \<Rightarrow> unit hub" where
  "validate_host_id host_id =
     bindc (db_first db_hosts (\<lambda>h. h_id h = host_id)) (\<lambda>r.
     bindc (ok_or HostNotFound r) (\<lambda>host. guardc (\<not> h_revoked host) HostNotFound))"

section \<open>Operations on apps\<close>

definition validate_source :: "app_source \<Rightarrow> unit hub" where
  "validate_source src =
     (case src of
        Upload \<Rightarrow> ret ()
      | Git gs \<Rightarrow>
         bindc (lift_model (validate_repo_url (gs_repo_url gs))) (\<lambda>_.
         case gs_mode gs of
           RunMode run \<Rightarrow> lift_model (validate_run_config run)
         | BuildMode build \<Rightarrow> lift_model (validate_build_config build)
         | StaticMode _ \<Rightarrow> ret ()))"

definition create_app ::
  "externals \<Rightarrow> string \<Rightarrow> app_source \<Rightarrow> env_var_input list \<Rightarrow> string option \<Rightarrow> int \<Rightarrow> app hub" where
  "create_app x name src env_inputs creator host_id =
     bindc (lift_model (validate_slug name)) (\<lambda>_.
     bindc (lift_model (validate_env_var_inputs env_inputs)) (\<lambda>_.
     bindc (resolve_env_var_inputs x env_inputs []) (\<lambda>env_vars.
     bindc (validate_source src) (\<lambda>_.
     bindc (db_first db_apps (\<lambda>a. a_name a = name)) (\<lambda>taken.
     bindc (guardc (taken = None) (AppAlreadyExists name)) (\<lambda>_.
     bindc (validate_host_id host_id) (\<lambda>_.
     bindc (case creator of
              Some username \<Rightarrow> bindc (find_user_id username) (\<lambda>i. ret (Some i))
            | None \<Rightarrow> ret None) (\<lambda>creator_id.
     bindc now_v7 (\<lambda>uuid.
     bindc (unique_tmp_path ''create-app'') (\<lambda>staging.
     bindc (io (create_dir staging)) (\<lambda>_.
     bindc (io (create_dir (staging @ [''deployments'']))) (\<lambda>_.
     bindc (gets (\<lambda>s. apps_dir s @ [x_uuid_str x uuid])) (\<lambda>target.
     bindc (on_error (io (rename staging target)) (\<lambda>_. remove_dir_all_quiet staging)) (\<lambda>_.
     bindc (gets now_secs) (\<lambda>now.
     bindc (transaction
       (bindc (map_err Json (from_sum (x_source_json x src))) (\<lambda>source_json.
        bindc (map_err Json (from_sum (x_env_json x env_vars))) (\<lambda>env_json.
        bindc (insert_app \<lparr>a_id = uuid, a_name = name, a_source_json = source_json,
                 a_env_vars_json = env_json, a_active_deployment_id = None, a_host_id = host_id,
                 a_created_at = now, a_updated_at = now\<rparr>) (\<lambda>row.
        bindc (case creator_id of
                 Some user_id \<Rightarrow>
                   bindc (insert_permission \<lparr>p_id = 0, p_app_id = a_id row, p_user_id = user_id,
                     p_level = db_level_as_str DbWrite, p_created_at = now, p_updated_at = now\<rparr>) (\<lambda>_. ret ())
               | None \<Rightarrow> ret ()) (\<lambda>_.
        ret row)))))) (\<lambda>row.
     app_from_row_with_permissions x row))))))))))))))))"

definition list_apps :: "externals \<Rightarrow> app list hub" where
  "list_apps x =
     bindc (db_all db_apps (\<lambda>_. True)) (\<lambda>rows.
     mapc (app_from_row_with_permissions x) (sort_key a_name rows))"

definition get_app :: "externals \<Rightarrow> string \<Rightarrow> app hub" where
  "get_app x name = bindc (find_app_row name) (app_from_row_with_permissions x)"

definition get_app_by_id :: "externals \<Rightarrow> string \<Rightarrow> app hub" where
  "get_app_by_id x aid = bindc (find_app_row_by_id x aid) (app_from_row_with_permissions x)"

definition update_app ::
  "externals \<Rightarrow> string \<Rightarrow> string option \<Rightarrow> env_var_input list option \<Rightarrow> int option \<Rightarrow> app hub" where
  "update_app x aid name env_inputs host_id =
     bindc (case env_inputs of Some vs \<Rightarrow> lift_model (validate_env_var_inputs vs) | None \<Rightarrow> ret ()) (\<lambda>_.
     bindc (find_app_row_by_id x aid) (\<lambda>row.
     bindc (case env_inputs of
              Some vs \<Rightarrow>
                bindc (map_err Json (from_sum (x_env_parse x (a_env_vars_json row)))) (\<lambda>existing.
                bindc (resolve_env_var_inputs x vs existing) (\<lambda>env. ret (Some env)))
            | None \<Rightarrow> ret None) (\<lambda>env_vars.
     bindc (case host_id of Some h \<Rightarrow> validate_host_id h | None \<Rightarrow> ret ()) (\<lambda>_.
     bindc (case name of
              Some n \<Rightarrow>
                (if n \<noteq> a_name row then
                   bindc (lift_model (validate_slug n)) (\<lambda>_.
                   bindc (db_first db_apps (\<lambda>a. a_name a = n)) (\<lambda>taken.
                   guardc (taken = None) (AppAlreadyExists n)))
                 else ret ())
            | None \<Rightarrow> ret ()) (\<lambda>_.
     bindc (gets now_secs) (\<lambda>now.
     bindc (case env_vars of
              Some vs \<Rightarrow> bindc (map_err Json (from_sum (x_env_json x vs))) (\<lambda>j. ret (Some j))
            | None \<Rightarrow> ret None) (\<lambda>env_json.
     bindc (update_app_row row (\<lambda>r. r\<lparr>
              a_updated_at := now,
              a_name := (case name of Some n \<Rightarrow> n | None \<Rightarrow> a_name r),
              a_env_vars_json := (case env_json of Some j \<Rightarrow> j | None \<Rightarrow> a_env_vars_json r),
              a_host_id := (case host_id of Some h \<Rightarrow> h | None \<Rightarrow> a_host_id r)\<rparr>)) (\<lambda>row'.
     app_from_row_with_permissions x row'))))))))"

definition update_app_permissions :: "externals \<Rightarrow> string \<Rightarrow> app_permission list \<Rightarrow> app hub" where
  "update_app_permissions x aid permissions =
     bindc (find_app_row_by_id x aid) (\<lambda>app_row.
     bindc (mapc (\<lambda>p. bindc (find_user_id (perm_username p)) (\<lambda>i. ret (i, perm_level p))) permissions) (\<lambda>resolved.
     bindc (gets now_secs) (\<lambda>now.
     bindc (transaction
       (bindc (delete_permissions (\<lambda>p. p_app_id p = a_id app_row)) (\<lambda>_.
        forc resolved (\<lambda>(user_id, level).
          bindc (insert_permission \<lparr>p_id = 0, p_app_id = a_id app_row, p_user_id = user_id,
            p_level = db_level_as_str (level_to_db level), p_created_at = now, p_updated_at = now\<rparr>)
          (\<lambda>_. ret ()))))) (\<lambda>_.
     app_from_row_with_permissions x app_row))))"

definition delete_app :: "externals \<Rightarrow> string \<Rightarrow> unit hub" where
  "delete_app x aid =
     bindc (find_app_row_by_id x aid) (\<lambda>app_row.
     bindc (transaction
       (bindc (delete_deployments (\<lambda>e. d_app_id e = a_id app_row)) (\<lambda>_.
        bindc (delete_permissions (\<lambda>p. p_app_id p = a_id app_row)) (\<lambda>_.
        delete_apps (\<lambda>a. a_id a = a_id app_row))))) (\<lambda>_.
     bindc (unique_tmp_path ''deleted'') (\<lambda>staging.
     bindc (gets (\<lambda>s. apps_dir s @ [x_uuid_str x (a_id app_row)])) (\<lambda>src.
     bindc (io (rename src staging)) (\<lambda>_.
     io (remove_dir_all staging))))))"

lemmas lookup_defs = find_app_row_def find_app_row_by_id_def find_deployment_row_def find_user_id_def
  load_permissions_def app_from_row_with_permissions_def validate_host_id_def validate_source_def
  resolve_env_var_inputs_def resolve_env_var_input_def list_apps_def get_app_def get_app_by_id_def

section \<open>Frames and the invariant of the tables\<close>

lemma leaves_lookups [leaves_intros]:
  assumes "\<And>s f. g (s\<lparr>faults := f\<rparr>) = g s" and "\<And>s n. g (s\<lparr>random_pos := n\<rparr>) = g s"
  shows "leaves g (find_app_row nm)" "leaves g (find_app_row_by_id x aid)"
    "leaves g (find_deployment_row x k did)" "leaves g (find_user_id nm)"
    "leaves g (load_permissions row)" "leaves g (app_from_row_with_permissions x row)"
    "leaves g (validate_host_id hid)" "leaves g (validate_source src)"
    "leaves g (resolve_env_var_inputs x ins ex)" "leaves g (list_apps x)" "leaves g (get_app x nm)"
    "leaves g (get_app_by_id x aid)"
  unfolding lookup_defs
  by (intro leaves_intros assms | simp split: app_source.split git_deploy_mode.split env_var_input_value.split option.split |
      intro conjI impI allI leaves_intros assms)+

lemma find_app_row_by_id_Done:
  assumes "find_app_row_by_id x aid s = (Done row, s')"
  obtains k where "x_uuid_parse x aid = Some k" and "find (\<lambda>a. a_id a = k) (db_apps (db s)) = Some row"
    and "row \<in> set (db_apps (db s))" and "a_id row = k" and "db s' = db s" and "fs s' = fs s"
proof -
  obtain k f where "x_uuid_parse x aid = Some k" and "find (\<lambda>a. a_id a = k) (db_apps (db s)) = Some row"
    and "s' = s\<lparr>faults := f\<rparr>"
    using assms unfolding find_app_row_by_id_def by (auto elim!: bindc_DoneE db_first_Done)
  then show thesis using that find_SomeD [of "\<lambda>a. a_id a = k"] by auto
qed

lemma triple_find_app_row_by_id:
  "triple (\<lambda>s. J (db s)) (find_app_row_by_id x aid)
     (\<lambda>row s. J (db s) \<and> row \<in> set (db_apps (db s)) \<and> x_uuid_parse x aid = Some (a_id row)) (\<lambda>s. J (db s))"
  by (rule tripleI)
     (auto elim!: find_app_row_by_id_Done dest: leavesD [OF leaves_lookups(2) [of db], rotated 2])

lemma find_deployment_row_Done:
  assumes "find_deployment_row x k did s = (Done row, s')"
  obtains u where "x_uuid_parse x did = Some u" and "row \<in> set (db_deployments (db s))" and "d_id row = u"
    and "d_app_id row = k" and "db s' = db s"
proof -
  obtain u f where "x_uuid_parse x did = Some u"
    and "find (\<lambda>e. d_id e = u \<and> d_app_id e = k) (db_deployments (db s)) = Some row" and "s' = s\<lparr>faults := f\<rparr>"
    using assms unfolding find_deployment_row_def by (auto elim!: bindc_DoneE db_first_Done)
  then show thesis using that find_SomeD [of "\<lambda>e. d_id e = u \<and> d_app_id e = k"] by auto
qed

lemma triple_find_deployment_row:
  "triple (\<lambda>s. J (db s)) (find_deployment_row x k did)
     (\<lambda>row s. J (db s) \<and> row \<in> set (db_deployments (db s)) \<and> x_uuid_parse x did = Some (d_id row) \<and> d_app_id row = k)
     (\<lambda>s. J (db s))"
  by (rule tripleI)
     (auto elim!: find_deployment_row_Done dest: leavesD [OF leaves_lookups(3) [of db], rotated 2])

text \<open>A step that leaves the tables alone, in a proof about the tables.\<close>

lemma triple_skip_db: "leaves db m \<Longrightarrow> triple (\<lambda>s. J (db s)) m (\<lambda>_ s. J (db s)) (\<lambda>s. J (db s))"
  by (simp add: keeps_iff_triple [symmetric] keeps_leaves)

lemma keeps_db_ok_lookup: "leaves db m \<Longrightarrow> keeps (\<lambda>s. db_ok (db s)) m"
  by (rule keeps_leaves)

lemma triple_insert_permission:
  "triple (\<lambda>s. db_ok (db s) \<and> p_app_id p \<in> app_ids (db s)) (insert_permission p)
     (\<lambda>_ s. db_ok (db s) \<and> p_app_id p \<in> app_ids (db s)) (\<lambda>_. True)"
  unfolding insert_permission_def Let_def
  by (rule triple_conseq [OF triple_db_write [where J = "\<lambda>d. db_ok d \<and> p_app_id p \<in> app_ids d"
        and K = "\<lambda>_ d. db_ok d \<and> p_app_id p \<in> app_ids d"]])
     (auto intro: db_ok_insert_permission simp: app_ids_def)

lemma triple_insert_app:
  assumes "a_active_deployment_id r = None"
  shows "triple (\<lambda>s. db_ok (db s)) (insert_app r) (\<lambda>q s. q = r \<and> db_ok (db s) \<and> a_id r \<in> app_ids (db s)) (\<lambda>_. True)"
  unfolding insert_app_def
  by (rule triple_conseq [OF triple_db_write [where J = db_ok and K = "\<lambda>q d. q = r \<and> db_ok d \<and> a_id r \<in> app_ids d"]])
     (auto intro: db_ok_insert_app [OF _ _ assms] simp: app_ids_def dest: apps_by_id.ins_rows)

lemma keeps_db_ok_update_app_op: "keeps (\<lambda>s. db_ok (db s)) (update_app x aid nm vs hid)"
  unfolding update_app_def
  by (intro db_ok_steps keeps_db_ok_update_app keeps_db_ok_lookup leaves_lookups leaves_lift_model
      leaves_intros; simp)

lemma leaves_db_lookups:
  "leaves db (find_app_row nm)" "leaves db (find_app_row_by_id x aid)"
  "leaves db (find_deployment_row x k did)" "leaves db (find_user_id nm)"
  "leaves db (load_permissions row)" "leaves db (app_from_row_with_permissions x row)"
  "leaves db (validate_host_id hid)" "leaves db (validate_source src)"
  "leaves db (resolve_env_var_inputs x ins ex)" "leaves db (list_apps x)" "leaves db (get_app x nm)"
  "leaves db (get_app_by_id x aid)"
  by (rule leaves_lookups; simp)+

lemmas db_skips = leaves_db_lookups [THEN keeps_db_ok_lookup]

text \<open>Running a transaction whose body establishes the invariant establishes it.\<close>

lemma keeps_db_ok_transaction:
  assumes "triple (\<lambda>s. db_ok (db s)) m (\<lambda>_ s. db_ok (db s)) (\<lambda>_. True)"
  shows "keeps (\<lambda>s. db_ok (db s)) (transaction m)"
  unfolding keeps_iff_triple using triple_transaction [where J = db_ok and K = "\<lambda>_. db_ok", OF assms] .

lemma keeps_db_ok_fs: "fs_only m \<Longrightarrow> keeps (\<lambda>s. db_ok (db s)) m"
  by (rule keeps_leaves) (rule fs_only_leaves; simp)

lemma keeps_db_ok_env:
  "keeps (\<lambda>s. db_ok (db s)) (unique_tmp_path pre)" "keeps (\<lambda>s. db_ok (db s)) now_v7"
  "keeps (\<lambda>s. db_ok (db s)) (spawn t)"
  by (intro keeps_leaves leaves_intros; simp)+

lemma leaves_cleanup [leaves_intros]:
  assumes "\<And>s t f. g (s\<lparr>fs := t, faults := f\<rparr>) = g s"
  shows "leaves g (remove_dir_all_logged p)" "leaves g (remove_dir_all_quiet p)" "leaves g (remove_file_logged p)"
  unfolding remove_dir_all_logged_def remove_dir_all_quiet_def remove_file_logged_def
  by (intro leaves_intros assms)+

lemma keeps_db_ok_cleanup:
  "keeps (\<lambda>s. db_ok (db s)) (remove_dir_all_logged p)" "keeps (\<lambda>s. db_ok (db s)) (remove_dir_all_quiet p)"
  "keeps (\<lambda>s. db_ok (db s)) (remove_file_logged p)"
  by (intro keeps_leaves leaves_intros; simp)+

lemmas db_ok_calls = keeps_db_ok_cleanup db_ok_steps db_skips keeps_db_ok_env fs_only_ops [THEN keeps_db_ok_fs]

definition create_app_rows ::
  "externals \<Rightarrow> uuid \<Rightarrow> string \<Rightarrow> app_source \<Rightarrow> env_var list \<Rightarrow> int \<Rightarrow> int option \<Rightarrow> int \<Rightarrow> db_app hub" where
  "create_app_rows x uuid name src env_vars host_id creator_id now =
     bindc (map_err Json (from_sum (x_source_json x src))) (\<lambda>source_json.
        bindc (map_err Json (from_sum (x_env_json x env_vars))) (\<lambda>env_json.
        bindc (insert_app \<lparr>a_id = uuid, a_name = name, a_source_json = source_json,
                 a_env_vars_json = env_json, a_active_deployment_id = None, a_host_id = host_id,
                 a_created_at = now, a_updated_at = now\<rparr>) (\<lambda>row.
        bindc (case creator_id of
                 Some user_id \<Rightarrow>
                   bindc (insert_permission \<lparr>p_id = 0, p_app_id = a_id row, p_user_id = user_id,
                     p_level = db_level_as_str DbWrite, p_created_at = now, p_updated_at = now\<rparr>) (\<lambda>_. ret ())
               | None \<Rightarrow> ret ()) (\<lambda>_.
        ret row))))"

lemma create_app_rows_ok:
  "triple (\<lambda>s. db_ok (db s)) (create_app_rows x k nm src vs hid cid now) (\<lambda>_ s. db_ok (db s)) (\<lambda>_. True)"
  unfolding create_app_rows_def
  apply (rule triple_bindc [OF triple_map_err [OF triple_from_sum [where Q = "\<lambda>_ s. db_ok (db s)"]]], assumption, simp)
  apply (rule triple_bindc [OF triple_map_err [OF triple_from_sum [where Q = "\<lambda>_ s. db_ok (db s)"]]], assumption, simp)
  apply (rule triple_bindc [OF triple_insert_app], simp)
  apply (rule triple_bindc [where Q = "\<lambda>_ s. db_ok (db s)"])
   apply (rule triple_case_option)
    apply (rule triple_ret, simp)
   apply (rule triple_bindc [OF triple_pre [OF triple_insert_permission]])
    apply simp
   apply (rule triple_ret, simp)
  apply (rule triple_ret, simp)
  done

lemma triple_db_write_any:
  assumes "\<And>d a d'. J d \<Longrightarrow> f d = Some (a, d') \<Longrightarrow> K a d'"
  shows "triple (\<lambda>s. J (db s)) (db_write f) (\<lambda>a s. K a (db s)) (\<lambda>_. True)"
  by (rule triple_conseq [OF triple_db_write [where J = J and K = K]]) (use assms in auto)

lemma db_ok_delete_permissions: "db_ok d \<Longrightarrow> db_ok (d\<lparr>db_permissions := delete_rows P (db_permissions d)\<rparr>)"
  unfolding db_ok_def keys_ok_def refs_ok_def active_ok_def pending_ok_def app_ids_def
  by (simp add: permissions_by_id.del_inv) (auto simp: delete_rows_def)

lemma keeps_db_ok_create_app: "keeps (\<lambda>s. db_ok (db s)) (create_app x nm src vs creator hid)"
  unfolding create_app_def create_app_rows_def [symmetric]
  by (intro db_ok_calls keeps_db_ok_transaction create_app_rows_ok)

lemma keeps_db_ok_update_app_permissions: "keeps (\<lambda>s. db_ok (db s)) (update_app_permissions x aid ps)"
proof -
  let ?J = "\<lambda>k d. db_ok d \<and> k \<in> app_ids d"
  have del: "triple (\<lambda>s. ?J k (db s)) (delete_permissions P) (\<lambda>_ s. ?J k (db s)) (\<lambda>_. True)" for k P
    unfolding delete_permissions_def
    by (rule triple_db_write_any [where J = "?J k" and K = "\<lambda>_. ?J k"])
       (auto simp: app_ids_def intro: db_ok_delete_permissions)
  have ins: "triple (\<lambda>s. ?J k (db s)) (forc rs (\<lambda>(i, l). bindc (insert_permission \<lparr>p_id = 0, p_app_id = k,
      p_user_id = i, p_level = db_level_as_str (level_to_db l), p_created_at = n, p_updated_at = n\<rparr>) (\<lambda>_. ret ())))
      (\<lambda>_ s. ?J k (db s)) (\<lambda>_. True)" for k rs n
  proof -
    have one: "triple (\<lambda>s. ?J k (db s)) (insert_permission p) (\<lambda>_ s. ?J k (db s)) (\<lambda>_. True)"
      if "p_app_id p = k" for p
      using triple_insert_permission [of p] that by simp
    have "triple (\<lambda>s. ?J k (db s)) (bindc (insert_permission p) (\<lambda>_. ret ())) (\<lambda>_ s. ?J k (db s)) (\<lambda>_. True)"
      if "p_app_id p = k" for p
      by (rule triple_bindc [OF one [OF that]]) (simp add: triple_ret)
    then show ?thesis by (intro triple_forc) (simp add: case_prod_beta)
  qed
  have res: "leaves db (mapc (\<lambda>p. bindc (find_user_id (perm_username p)) (\<lambda>i. ret (i, perm_level p))) ps)"
    by (intro leaves_intros leaves_db_lookups)
  show ?thesis
    unfolding keeps_iff_triple update_app_permissions_def
    apply (rule triple_bindc [OF triple_find_app_row_by_id [where J = db_ok]])
    subgoal for row
      apply (rule triple_bindc [where Q = "\<lambda>_ s. ?J (a_id row) (db s)"])
       apply (rule triple_conseq [OF triple_skip_db [where J = "?J (a_id row)", OF res]]; simp add: app_ids_def)
      apply (rule triple_bindc [where Q = "\<lambda>_ s. ?J (a_id row) (db s)"])
       apply (rule triple_gets, simp)
      apply (rule triple_bindc [where Q = "\<lambda>_ s. ?J (a_id row) (db s)"])
       apply (rule triple_conseq [OF triple_transaction [where J = "?J (a_id row)" and K = "\<lambda>_. ?J (a_id row)"]])
          apply (rule triple_bindc [OF del ins])
         apply simp_all
      apply (rule triple_conseq [OF triple_skip_db [where J = db_ok, OF leaves_db_lookups(6)]]; simp)
      done
    done
qed

lemma keeps_db_ok_delete_app: "keeps (\<lambda>s. db_ok (db s)) (delete_app x aid)"
proof -
  have body: "triple (\<lambda>s. db_ok (db s)) (bindc (delete_deployments (\<lambda>e. d_app_id e = k)) (\<lambda>_.
        bindc (delete_permissions (\<lambda>p. p_app_id p = k)) (\<lambda>_. delete_apps (\<lambda>a. a_id a = k))))
      (\<lambda>_ s. db_ok (db s)) (\<lambda>_. True)" for k
  proof -
    let ?J1 = "\<lambda>d'. \<exists>d. db_ok d \<and> d' = d\<lparr>db_deployments := delete_rows (\<lambda>e. d_app_id e = k) (db_deployments d)\<rparr>"
    let ?J2 = "\<lambda>d'. \<exists>d. db_ok d \<and> d' = d\<lparr>db_deployments := delete_rows (\<lambda>e. d_app_id e = k) (db_deployments d),
           db_permissions := delete_rows (\<lambda>p. p_app_id p = k) (db_permissions d)\<rparr>"
    have "triple (\<lambda>s. db_ok (db s)) (delete_deployments (\<lambda>e. d_app_id e = k)) (\<lambda>_ s. ?J1 (db s)) (\<lambda>_. True)"
      unfolding delete_defs by (rule triple_db_write_any) auto
    moreover have "triple (\<lambda>s. ?J1 (db s)) (delete_permissions (\<lambda>p. p_app_id p = k)) (\<lambda>_ s. ?J2 (db s)) (\<lambda>_. True)"
      unfolding delete_defs by (rule triple_db_write_any [where J = ?J1 and K = "\<lambda>_. ?J2"]) auto
    moreover have "triple (\<lambda>s. ?J2 (db s)) (delete_apps (\<lambda>a. a_id a = k)) (\<lambda>_ s. db_ok (db s)) (\<lambda>_. True)"
      unfolding delete_defs
      by (rule triple_db_write_any [where J = ?J2 and K = "\<lambda>_. db_ok"]) (auto dest: db_ok_delete_app [of _ k])
    ultimately show ?thesis by (intro triple_bindc)
  qed
  show ?thesis
    unfolding delete_app_def
    by (intro db_ok_calls keeps_db_ok_transaction body)
qed

end
