(* ===== verification/Subtree.thy ===== *)
theory Subtree
  imports Filesystem
begin

text \<open>
  Operations that stay below a directory: what the unpacking of an archive does to a tree, for
  the hub's copy of the code and the agent's.
\<close>

text \<open>The tree is unchanged outside \<open>dest\<close>, an existing directory.\<close>

definition only_below :: "path \<Rightarrow> filesystem \<Rightarrow> filesystem \<Rightarrow> bool" where
  "only_below dest t0 t \<longleftrightarrow>
     dirs_in {dest} t \<and> (\<forall>q. \<not> prefix dest q \<longrightarrow> map_of t q = map_of t0 q)"

lemma make_dirs_only_below:
  assumes "make_dirs ps t = Inr t'" and "\<forall>p\<in>set ps. is_dir t p \<or> prefix dest p" and "\<not> prefix dest q"
  shows "map_of t' q = map_of t q"
  using assms
proof (induction ps t rule: make_dirs.induct)
  case (1 t)
  then show ?case by simp
next
  case (2 p ps t)
  show ?case
  proof (cases "map_of t p")
    case None
    then have "prefix dest p" using "2.prems"(2) by (auto simp: is_dir_def)
    then have "q \<noteq> p" using "2.prems"(3) by auto
    moreover have "map_of t' q = map_of (fs_put p Dir t) q"
      using "2.IH"(1) [OF None] "2.prems" None by (auto simp: is_dir_put)
    ultimately show ?thesis by (simp add: map_of_fs_put)
  next
    case (Some n)
    then show ?thesis using "2.IH"(2) "2.prems" by (cases n) auto
  qed
qed

lemma prefixes_dir_or_below:
  assumes "dirs_in {dest} t" and "prefix dest p" and "q \<in> set (prefixes p)"
  shows "is_dir t q \<or> prefix dest q"
proof -
  have "prefix q p" using assms(3) by (simp add: in_set_prefixes)
  then consider "prefix dest q" | "strict_prefix q dest"
    using assms(2) prefix_same_cases by (metis prefix_order.less_le)
  then show ?thesis
  proof cases
    case 2
    then have "is_dir t q" using assms(1) wf_ancestors [of t q dest] by (auto simp: dirs_in_def is_dir_def)
    then show ?thesis by simp
  qed simp
qed

lemma keeps_only_below_create_dir_all:
  assumes "prefix dest p"
  shows "keeps (\<lambda>s. only_below dest t0 (fs s)) (create_dir_all p)"
proof -
  have "only_below dest t0 t'" if ob: "only_below dest t0 t" and mk: "make_dirs (prefixes p) t = Inr t'" for t t'
  proof -
    have d: "dirs_in {dest} t" using ob by (simp add: only_below_def)
    have "\<forall>q\<in>set (prefixes p). is_dir t q \<or> prefix dest q" using prefixes_dir_or_below [OF d assms] by blast
    then have "\<not> prefix dest q \<Longrightarrow> map_of t' q = map_of t q" for q using make_dirs_only_below [OF mk] by blast
    moreover have "dirs_in {dest} t'"
    proof -
      have "q = [] \<or> is_dir t (butlast q) \<or> butlast q \<in> set (prefixes p)" if "q \<in> set (prefixes p)" for q
        using that by (metis in_set_prefixes prefixeq_butlast prefix_order.trans)
      then show ?thesis using make_dirs_step [OF _ mk] prefixes_sorted d by (auto simp: dirs_in_def)
    qed
    ultimately show ?thesis using ob by (simp add: only_below_def)
  qed
  then show ?thesis
    unfolding create_dir_all_def
    by (intro keeps_ext_call keepsI) (auto simp: set_fs_run split: sum.splits)
qed

lemma keeps_only_below_write_file:
  assumes "prefix dest p"
  shows "keeps (\<lambda>s. only_below dest t0 (fs s)) (write_file p c)"
proof -
  have "map_of (fs_put p (File c) t) q = map_of t q" if "\<not> prefix dest q" for t q
    using that assms by (auto simp: map_of_fs_put)
  moreover have "dirs_in {dest} (fs_put p (File c) t)"
    if "dirs_in {dest} t" "\<not> is_dir t p" "p \<noteq> []" "is_dir t (butlast p)" for t
    using that wf_put [of t p "File c"] by (auto simp: dirs_in_def is_dir_put)
  moreover have "p \<noteq> [] \<and> is_dir t (butlast p)" if "dirs_in {dest} t" "map_of t p = Some (File c')" for t c'
    using that by (cases "p = []") (auto simp: dirs_in_def is_dir_def fs_wf_iff)
  moreover have "p \<noteq> [] \<and> is_dir t (butlast p)" if "dirs_in {dest} t" "map_of t p = None" "parent_check t p = None" for t
    using that by (cases "p = []")
      (auto simp: dirs_in_def is_dir_def parent_check_def parent_def split: option.splits node.splits)
  ultimately show ?thesis
    unfolding write_file_def only_below_def
    by (intro keeps_ext_call keepsI)
       (auto simp: set_fs_run is_dir_def split: option.splits node.splits)
qed

lemma make_dirs_result:
  "make_dirs ps t = Inr t' \<Longrightarrow> map_of t' q = (if q \<in> set ps then Some Dir else map_of t q)"
  by (induction ps t rule: make_dirs.induct) (auto simp: map_of_fs_put split: option.splits node.splits)

lemma keeps_only_below_create_parent:
  "keeps (\<lambda>s. only_below dest t0 (fs s)) (create_dir_all (parent (dest @ r)))"
proof (cases "r = []")
  case False
  then show ?thesis
    by (intro keeps_only_below_create_dir_all) (simp add: parent_def butlast_append)
next
  case True
  have "only_below dest t0 t'" if ob: "only_below dest t0 t" and mk: "make_dirs (prefixes (parent dest)) t = Inr t'" for t t'
  proof -
    have all: "is_dir t q" if "q \<in> set (prefixes (parent dest))" for q
    proof -
      have "prefix q dest" using that by (metis in_set_prefixes parent_def prefixeq_butlast prefix_order.trans)
      then show ?thesis using ob wf_ancestors [of t q dest]
        by (cases "q = dest") (auto simp: only_below_def dirs_in_def is_dir_def strict_prefix_def)
    qed
    have "make_dirs ps t = Inr t' \<Longrightarrow> \<forall>q\<in>set ps. is_dir t q \<Longrightarrow> t' = t" for ps
      by (induction ps) (auto simp: is_dir_def)
    then have "t' = t" using mk all by blast
    then show ?thesis using ob by simp
  qed
  then show ?thesis
    unfolding create_dir_all_def using True
    by (intro keeps_ext_call keepsI) (auto simp: set_fs_run split: sum.splits)
qed

lemma foldl_sat_add:
  "unat (foldl sat_add_u64 tot ns) = min (unat tot + sum_list (map unat ns)) (2 ^ 64 - 1)"
proof (induction ns arbitrary: tot)
  case Nil
  then show ?case using unsigned_less [of tot, where 'a = nat] by simp
next
  case (Cons n ns)
  then show ?case by (auto simp: unat_sat_add_u64 min_def)
qed

section \<open>The tree of an archive\<close>

text \<open>What one call does to the tree, exactly.\<close>

lemma ext_call_cases:
  assumes "ext_call mk body s = (r, s')"
  obtains f where "s' = s\<lparr>faults := f\<rparr>" and "\<forall>a. r \<noteq> Done a" and "r = Crash \<or> (\<exists>m. r = Fail (mk m))"
  | f where "body (s\<lparr>faults := f\<rparr>) = (r, s')"
  using assms by (cases "faults s") (auto simp: ext_call_def Let_def split: fault.splits, metis machine.surjective machine.update_convs(2))

lemma make_dirs_no_file:
  "make_dirs ps t = Inr t' \<Longrightarrow> q \<in> set ps \<Longrightarrow> map_of t q = None \<or> map_of t q = Some Dir"
proof (induction ps t rule: make_dirs.induct)
  case (2 p ps t)
  show ?case
  proof (cases "map_of t p")
    case None
    then have "make_dirs ps (fs_put p Dir t) = Inr t'" using "2.prems"(1) by simp
    then show ?thesis
      using "2.IH"(1) [OF None] "2.prems"(2) None by (cases "q = p") (auto simp: map_of_fs_put)
  next
    case (Some n)
    then show ?thesis using "2.IH"(2) "2.prems" by (cases n) auto
  qed
qed simp

lemma make_dirs_all:
  assumes "make_dirs ps t = Inr t'"
  shows "\<forall>q. map_of t' q = (if q \<in> set ps then Some Dir else map_of t q)
    \<and> (q \<in> set ps \<longrightarrow> map_of t q = None \<or> map_of t q = Some Dir)"
  using make_dirs_result [OF assms] make_dirs_no_file [OF assms] by simp

lemma create_dir_all_effect:
  assumes "create_dir_all p s = (r, s')"
  shows "fs s' = fs s \<and> (\<forall>a. r \<noteq> Done a)
    \<or> r = Done () \<and> (\<forall>q. map_of (fs s') q = (if prefix q p then Some Dir else map_of (fs s) q)
          \<and> (prefix q p \<longrightarrow> map_of (fs s) q = None \<or> map_of (fs s) q = Some Dir))"
  using assms unfolding create_dir_all_def
  by (elim ext_call_cases) (auto simp: set_fs_run in_set_prefixes dest!: make_dirs_all split: sum.splits)

text \<open>The tree an archive stands for: its entries, later ones over earlier ones.\<close>

fun put_entry :: "(path \<rightharpoonup> node) \<Rightarrow> path \<times> string option \<Rightarrow> (path \<rightharpoonup> node)" where
  "put_entry tr (p, None) = (\<lambda>q. if prefix q p then Some Dir else tr q)"
| "put_entry tr (p, Some c) = (\<lambda>q. if q = p then Some (File c) else if prefix q (parent p) then Some Dir else tr q)"

definition archive_tree :: "(path \<times> string option) list \<Rightarrow> (path \<rightharpoonup> node)" where
  "archive_tree es = foldl put_entry [[] \<mapsto> Dir] es"

definition entry_of :: "string list option \<times> string option \<times> u64 \<Rightarrow> path \<times> string option" where
  "entry_of e = (the (fst e), fst (snd e))"

text \<open>The tree at and below a directory.\<close>

definition subtree :: "path \<Rightarrow> filesystem \<Rightarrow> (path \<rightharpoonup> node)" where
  "subtree dest t = (\<lambda>q. map_of t (dest @ q))"

lemma write_file_effect:
  assumes "write_file p c s = (r, s')"
  shows "fs s' = fs s \<and> (\<forall>a. r \<noteq> Done a) \<or> r = Done () \<and> \<not> is_dir (fs s) p \<and> fs s' = fs_put p (File c) (fs s)"
  using assms unfolding write_file_def
  by (elim ext_call_cases) (auto simp: set_fs_run is_dir_def split: option.splits node.splits)

lemma create_all_subtree:
  assumes "create_dir_all (dest @ p) s = (Done u, s')"
  shows "subtree dest (fs s') = (\<lambda>q. if prefix q p then Some Dir else subtree dest (fs s) q)"
  using create_dir_all_effect [OF assms] by (auto simp: subtree_def fun_eq_iff)

text \<open>What the extraction of one entry does below the destination.\<close>

lemma made_entry:
  assumes "create_dir_all (dest @ p) s = (Done (), s')" and "is_dir (fs s) dest" and "fst e = Some p" and "fst (snd e) = None"
  shows "is_dir (fs s') dest \<and> subtree dest (fs s') = put_entry (subtree dest (fs s)) (entry_of e)"
  using create_all_subtree [OF assms(1)] create_dir_all_effect [OF assms(1)] assms(2-4)
  by (auto simp: entry_of_def is_dir_def)

lemma written_entry:
  assumes mk: "create_dir_all (parent (dest @ p)) s = (Done (), s1)"
    and w1: "write_file (dest @ p) [] s1 = (Done (), s2)" and w2: "write_file (dest @ p) c s2 = (Done (), s')"
    and dest: "is_dir (fs s) dest" and e: "fst e = Some p" "fst (snd e) = Some c"
  shows "is_dir (fs s') dest \<and> subtree dest (fs s') = put_entry (subtree dest (fs s)) (entry_of e)"
proof -
  have fs': "map_of (fs s') q = (if q = dest @ p then Some (File c) else map_of (fs s1) q)" for q
    using write_file_effect [OF w1] write_file_effect [OF w2] by (simp add: map_of_fs_put)
  have dest1: "is_dir (fs s1) dest" using create_dir_all_effect [OF mk] dest by (auto simp: is_dir_def)
  then have "p \<noteq> []" using write_file_effect [OF w1] by auto
  then have "parent (dest @ p) = dest @ parent p" by (simp add: parent_def butlast_append)
  then show ?thesis
    using create_all_subtree [of dest "parent p" s "()" s1] mk e fs' dest1 \<open>p \<noteq> []\<close>
    by (auto simp: entry_of_def subtree_def fun_eq_iff is_dir_def)
qed

end
