(* ===== verification/Zip.thy ===== *)
theory Zip
  imports AppStore Logs Subtree
begin

text \<open>
  Unpacking an uploaded archive: \<open>zip_extract.rs\<close>. The \<open>zip\<close> crate reads an archive as a list of
  entries: the path \<open>enclosed_name\<close> gives (\<open>None\<close> when it would leave the destination), the
  content (\<open>None\<close> for a directory) and the declared size.
\<close>

type_synonym zip_entry = "string list option \<times> string option \<times> u64"

definition enclosed_path :: "zip_entry \<Rightarrow> app_error + path" where
  "enclosed_path e =
     (case fst e of
        None \<Rightarrow> Inl (Zip ''entry path escapes the destination directory'')
      | Some p \<Rightarrow> Inr p)"

text \<open>The first pass: every path is checked and the sizes are added up, saturating.\<close>

fun check_entries :: "u64 \<Rightarrow> zip_entry list \<Rightarrow> app_error + u64" where
  "check_entries tot [] = Inr tot"
| "check_entries tot (e # es) =
     sbind (enclosed_path e) (\<lambda>_. check_entries (sat_add_u64 tot (snd (snd e))) es)"

text \<open>
  One entry of the second pass. A path is a list of names here and \<open>..\<close> has no meaning in it: that
  \<open>dest @ relative_path\<close> is what \<open>dest.join(relative_path)\<close> leads to rests on \<open>enclosed_name\<close>, which
  is documented to give a path only if it has normal components alone.
\<close>

definition extract_entry :: "path \<Rightarrow> zip_entry \<Rightarrow> unit hub" where
  "extract_entry dest e =
     bindc (from_sum (enclosed_path e)) (\<lambda>relative_path.
     (let out_path = dest @ relative_path in
      case fst (snd e) of
        None \<Rightarrow> io (create_dir_all out_path)
      | Some content \<Rightarrow>
         bindc (io (create_dir_all (parent out_path))) (\<lambda>_.
         bindc (io (write_file out_path [])) (\<lambda>_.
         io (write_file out_path content)))))"

definition unpack_zip :: "externals \<Rightarrow> string \<Rightarrow> path \<Rightarrow> u64 \<Rightarrow> u64 hub" where
  "unpack_zip x bytes dest max_uncompressed_bytes =
     bindc (map_err Zip (from_sum (x_zip_read x bytes))) (\<lambda>entries.
     bindc (from_sum (check_entries 0 entries)) (\<lambda>total_size.
     bindc (guardc (total_size \<le> max_uncompressed_bytes)
              (Zip ''uncompressed size exceeds the configured limit'')) (\<lambda>_.
     bindc (forc entries (extract_entry dest)) (\<lambda>_.
     ret total_size))))"

section \<open>Facts\<close>

lemma leaves_unpack_zip [leaves_intros]:
  assumes "\<And>s t f. g (s\<lparr>fs := t, faults := f\<rparr>) = g s"
  shows "leaves g (unpack_zip x bytes dest mx)"
  unfolding unpack_zip_def extract_entry_def Let_def by (intro leaves_intros assms)

lemma keeps_only_below_unpack:
  "keeps (\<lambda>s. only_below dest t0 (fs s)) (unpack_zip x bytes dest mx)"
proof -
  have "keeps (\<lambda>s. only_below dest t0 (fs s)) (extract_entry dest e)" for e
    unfolding extract_entry_def Let_def
    by (intro keeps_intros keeps_only_below_create_parent keeps_only_below_create_dir_all keeps_only_below_write_file) simp_all
  then show ?thesis unfolding unpack_zip_def by (intro keeps_intros)
qed

lemma check_entries_escape:
  "(None, r) \<in> set es \<Longrightarrow> check_entries tot es = Inl (Zip ''entry path escapes the destination directory'')"
  by (induction tot es rule: check_entries.induct)
     (auto simp: enclosed_path_def sbind_def split: option.splits)

lemma check_entries_total:
  "check_entries tot es = Inr n \<Longrightarrow> n = foldl sat_add_u64 tot (map (snd \<circ> snd) es)"
  by (induction tot es rule: check_entries.induct) auto

lemma extract_entry_step:
  assumes "extract_entry dest e s = (Done (), s')" and dest: "is_dir (fs s) dest"
  shows "fst e \<noteq> None \<and> is_dir (fs s') dest \<and> subtree dest (fs s') = put_entry (subtree dest (fs s)) (entry_of e)"
proof -
  obtain p where p: "fst e = Some p" "enclosed_path e = Inr p"
    using assms by (cases "fst e") (auto simp: extract_entry_def enclosed_path_def from_sum_def bindc_def throw_def)
  show ?thesis
  proof (cases "fst (snd e)")
    case None
    then have mk: "create_dir_all (dest @ p) s = (Done (), s')"
      using assms p by (simp add: extract_entry_def from_sum_def io_Done Let_def)
    show ?thesis using made_entry [OF mk dest p(1) None] p by simp
  next
    case (Some content)
    then obtain s1 s2 where run: "create_dir_all (parent (dest @ p)) s = (Done (), s1)"
      "write_file (dest @ p) [] s1 = (Done (), s2)" "write_file (dest @ p) content s2 = (Done (), s')"
      using assms p by (auto simp: extract_entry_def from_sum_def io_Done Let_def elim!: bindc_DoneE)
    show ?thesis using written_entry [OF run dest p(1) Some] p by simp
  qed
qed

lemma extract_entries_subtree:
  "forc entries (extract_entry dest) s = (Done (), s') \<Longrightarrow> is_dir (fs s) dest
    \<Longrightarrow> (\<forall>e\<in>set entries. fst e \<noteq> None) \<and> is_dir (fs s') dest
      \<and> subtree dest (fs s') = foldl put_entry (subtree dest (fs s)) (map entry_of entries)"
  by (induction entries arbitrary: s) (auto simp: ret_def elim!: bindc_DoneE dest!: extract_entry_step)

section \<open>Properties\<close>

text \<open>C30 Unpacking writes the archive and nothing else. Whatever the archive holds, whatever
  fails and even if the process dies in the middle, no entry of the tree outside the (existing)
  destination is created, changed or removed; and when it reports success, the size it reports is
  the sum of the declared sizes, at most the limit, and the destination holds exactly what it
  held with every entry of the archive put over it in order, later entries over earlier ones.
  That an entry's path leads below the destination rests on \<open>enclosed_name\<close> of the \<open>zip\<close>
  crate, whose paths are documented to have normal components only.\<close>

theorem unpack_zip_writes_the_archive:
  assumes "fs_wf (fs s)" and "is_dir (fs s) []" and "is_dir (fs s) dest" and "unpack_zip x bytes dest mx s = (r, s')"
  shows "(\<forall>q. \<not> prefix dest q \<longrightarrow> map_of (fs s') q = map_of (fs s) q)
    \<and> (\<forall>n. r = Done n \<longrightarrow> (\<exists>entries. x_zip_read x bytes = Inr entries \<and> (\<forall>e\<in>set entries. fst e \<noteq> None)
        \<and> n = foldl sat_add_u64 0 (map (snd \<circ> snd) entries) \<and> n \<le> mx
        \<and> subtree dest (fs s') = foldl put_entry (subtree dest (fs s)) (map entry_of entries)))"
proof (intro conjI allI impI)
  have "only_below dest (fs s) (fs s)" using assms(1-3) by (simp add: only_below_def dirs_in_def)
  then have "only_below dest (fs s) (fs s')" using keeps_run [OF keeps_only_below_unpack assms(4)] by blast
  then show "map_of (fs s') q = map_of (fs s) q" if "\<not> prefix dest q" for q using that by (simp add: only_below_def)
  fix n assume "r = Done n"
  then obtain entries s1 where run: "x_zip_read x bytes = Inr entries" "check_entries 0 entries = Inr n" "n \<le> mx"
    "forc entries (extract_entry dest) s = (Done (), s')"
    using assms(4) unfolding unpack_zip_def
    by (auto elim!: bindc_DoneE simp: map_err_Done from_sum_def guardc_def ret_def throw_def split: sum.splits if_splits)
  then show "\<exists>entries. x_zip_read x bytes = Inr entries \<and> (\<forall>e\<in>set entries. fst e \<noteq> None)
        \<and> n = foldl sat_add_u64 0 (map (snd \<circ> snd) entries) \<and> n \<le> mx
        \<and> subtree dest (fs s') = foldl put_entry (subtree dest (fs s)) (map entry_of entries)"
    using extract_entries_subtree [OF run(4) assms(3)] check_entries_total [OF run(2)] by auto
qed

definition sample_unpack :: "(app_error, u64) outcome \<times> world" where
  "sample_unpack = unpack_zip sample_externals ''zip'' [''d'', ''tmp''] 100 sample_world"

lemma sample_unpack_Done: "\<exists>n. fst sample_unpack = Done n"
proof -
  have "case fst sample_unpack of Done _ \<Rightarrow> True | _ \<Rightarrow> False" by code_simp
  then show ?thesis by (simp split: outcome.splits)
qed

lemma unpack_zip_writes_the_archive_witness:
  "map_of (fs (snd sample_unpack)) [''d'', ''apps''] = map_of (fs sample_world) [''d'', ''apps'']
    \<and> (\<exists>n entries. fst sample_unpack = Done n \<and> x_zip_read sample_externals ''zip'' = Inr entries
        \<and> subtree [''d'', ''tmp''] (fs (snd sample_unpack)) = foldl put_entry (subtree [''d'', ''tmp''] (fs sample_world)) (map entry_of entries))"
proof -
  have wf: "fs_wf (fs sample_world)" "is_dir (fs sample_world) []" "is_dir (fs sample_world) [''d'', ''tmp'']"
    by (simp_all add: fs_wf_def is_dir_def sample_world_def)
  have "unpack_zip sample_externals ''zip'' [''d'', ''tmp''] 100 sample_world = (fst sample_unpack, snd sample_unpack)"
    by (simp add: sample_unpack_def)
  from unpack_zip_writes_the_archive [OF wf this] show ?thesis using sample_unpack_Done by auto
qed

text \<open>C31 An unsafe archive is rejected as a whole before anything is written: if one entry would
  leave the destination, or the declared sizes add up to more than the limit, the tree is
  exactly as before and the answer is an error.\<close>

theorem unsafe_archive_rejected:
  assumes "x_zip_read x bytes = Inr entries"
    and "(\<exists>e. e \<in> set entries \<and> fst e = None) \<or> unat mx < sum_list (map (unat \<circ> snd \<circ> snd) entries)"
    and "unat mx < 2 ^ 64 - 1"
  shows "\<exists>e. unpack_zip x bytes dest mx s = (Fail e, s) \<and> error_status e = 500"
proof (cases "check_entries 0 entries")
  case (Inl e)
  then have "error_status e = 500"
  proof -
    have "check_entries t es = Inl e \<Longrightarrow> error_status e = 500" for t es
      by (induction t es rule: check_entries.induct)
         (auto simp: enclosed_path_def sbind_def split: option.splits)
    then show ?thesis using Inl by blast
  qed
  then show ?thesis using Inl assms(1) by (simp add: unpack_zip_def bindc_def map_err_def from_sum_def ret_def throw_def)
next
  case (Inr tot)
  have "\<not> (\<exists>e. e \<in> set entries \<and> fst e = None)"
    using Inr check_entries_escape by (metis Inl_Inr_False prod.collapse)
  then have big: "unat mx < sum_list (map (unat \<circ> snd \<circ> snd) entries)" using assms(2) by blast
  have "unat tot = min (sum_list (map (unat \<circ> snd \<circ> snd) entries)) (2 ^ 64 - 1)"
    using check_entries_total [OF Inr] foldl_sat_add [of 0 "map (snd \<circ> snd) entries"] by (simp add: comp_assoc)
  then have "\<not> tot \<le> mx" using big assms(3) by (simp add: word_le_nat_alt min_def split: if_splits)
  then show ?thesis using Inr assms(1)
    by (simp add: unpack_zip_def bindc_def map_err_def from_sum_def guardc_def ret_def throw_def)
qed

lemma unsafe_archive_rejected_witness:
  "\<exists>e. unpack_zip sample_externals ''evil'' [''d'', ''tmp''] 100 sample_world = (Fail e, sample_world) \<and> error_status e = 500"
  by (rule unsafe_archive_rejected [where entries = "[(Some [''ok''], Some ''x'', 1), (None, Some ''y'', 1)]"])
     (simp_all add: sample_externals_def)

end
