(* ===== verification/GitFetch.thy ===== *)
theory GitFetch
  imports AppStore Logs
begin

text \<open>
  Fetching a repository: \<open>git_fetch.rs\<close> and \<open>clone_repo\<close> of \<open>storage.rs\<close>. The git library is
  the parameter \<open>x_fetch\<close>: the entries a shallow clone of a branch checks out and the commit's
  id, or its error. The interrupt flag is read twice; the environment decides what is read.
  The name resolver \<open>x_resolve\<close> is asked at a time: the check of the host reads what it answers
  then, and \<open>x_fetch\<close>, which stands for the library's own look-up and transfer, is tied to no
  answer of it.

  The tree of the model has files and directories and no symbolic links. A checkout may hold
  them, and \<open>resolve_publish_dir\<close> follows one (\<open>is_dir\<close>): what is said below of a publish
  directory holds of checkouts without links.
\<close>

section \<open>Progress lines\<close>

text \<open>
  \<open>CloneProgress\<close> without the shared sink: name, bound and counter of one phase and the time of
  its last line, in milliseconds.
\<close>

record clone_progress =
  cp_name :: string
  cp_max :: "u64 option"
  cp_step :: u64
  cp_last_emit :: nat

definition progress_emit_interval :: nat where "progress_emit_interval = 500"

definition with_sink :: "nat \<Rightarrow> clone_progress" where
  "with_sink now = \<lparr>cp_name = [], cp_max = None, cp_step = 0,
     cp_last_emit = (if progress_emit_interval \<le> now then now - progress_emit_interval else now)\<rparr>"

definition spawn_child :: "nat \<Rightarrow> string \<Rightarrow> clone_progress" where
  "spawn_child now name = (with_sink now)\<lparr>cp_name := name\<rparr>"

definition sat_mul_u64 :: "u64 \<Rightarrow> u64 \<Rightarrow> u64" where
  "sat_mul_u64 a b = (if unat a * unat b < 2 ^ 64 then a * b else -1)"

definition progress_line :: "clone_progress \<Rightarrow> u64 \<Rightarrow> string" where
  "progress_line p step =
     (case cp_max p of
        Some mx \<Rightarrow>
          (if 0 < mx then
             cp_name p @ '': '' @ show_nat (unat step) @ ''/'' @ show_nat (unat mx) @ '' (''
             @ show_nat (unat (sat_mul_u64 step 100 div mx)) @ ''%)''
           else cp_name p @ '': '' @ show_nat (unat step))
      | None \<Rightarrow> cp_name p @ '': '' @ show_nat (unat step))"

definition maybe_emit :: "nat \<Rightarrow> u64 \<Rightarrow> clone_progress \<Rightarrow> string option \<times> clone_progress" where
  "maybe_emit now step p =
     (if cp_name p = [] then (None, p)
      else if now - cp_last_emit p < progress_emit_interval then (None, p)
      else (Some (progress_line p step), p\<lparr>cp_last_emit := now\<rparr>))"

definition progress_set :: "nat \<Rightarrow> u64 \<Rightarrow> clone_progress \<Rightarrow> string option \<times> clone_progress" where
  "progress_set now step p = maybe_emit now step (p\<lparr>cp_step := step\<rparr>)"

definition progress_inc_by :: "nat \<Rightarrow> u64 \<Rightarrow> clone_progress \<Rightarrow> string option \<times> clone_progress" where
  "progress_inc_by now step p =
     (let new_step = cp_step p + step in maybe_emit now new_step (p\<lparr>cp_step := new_step\<rparr>))"

section \<open>Clone\<close>

definition check_interrupted :: "bool \<Rightarrow> app_error + unit" where
  "check_interrupted flag = (if flag then Inl (GitError ''git fetch interrupted'') else Inr ())"

text \<open>The log of a clone: registered while it runs, its file created anew.\<close>

definition clone_log_start :: "log_target option \<Rightarrow> log_target option hub" where
  "clone_log_start target =
     (case target of
        None \<Rightarrow> ret None
      | Some t \<Rightarrow>
         bindc (try_register (lt_deployment_id t) (lt_kind t)) (\<lambda>fresh.
         if fresh then bindc (ignore (write_file (lt_path t) [])) (\<lambda>_. ret (Some t))
         else ret None))"

definition clone_log_stop :: "log_target option \<Rightarrow> unit hub" where
  "clone_log_stop t = (case t of Some t \<Rightarrow> deregister (lt_deployment_id t) | None \<Rightarrow> ret ())"

definition write_entry :: "path \<Rightarrow> string list \<times> string option \<Rightarrow> unit hub" where
  "write_entry dest e =
     map_err (\<lambda>err. GitError (io_text err))
       (case snd e of
          None \<Rightarrow> create_dir_all (dest @ fst e)
        | Some content \<Rightarrow>
            bindc (create_dir_all (parent (dest @ fst e))) (\<lambda>_. write_file (dest @ fst e) content))"

text \<open>
  \<open>clone_shallow\<close> between the start and the end of its log. The entries of the checkout are files
  and directories; symbolic links, which the library writes too, are not among them.
\<close>

definition fetch_into :: "externals \<Rightarrow> string \<Rightarrow> string \<Rightarrow> path \<Rightarrow> string hub" where
  "fetch_into x repo_url branch dest =
     bindc (map_err GitError (from_sum (x_fetch x repo_url branch))) (\<lambda>(entries, commit_sha).
     bindc (map_err (\<lambda>err. GitError (io_text err)) (create_dir_all dest)) (\<lambda>_.
     bindc (forc entries (write_entry dest)) (\<lambda>_.
     ret commit_sha)))"

definition clone_shallow ::
  "externals \<Rightarrow> bool \<Rightarrow> bool \<Rightarrow> string \<Rightarrow> string \<Rightarrow> path \<Rightarrow> log_target option \<Rightarrow> string hub" where
  "clone_shallow x flag1 flag2 repo_url branch dest log_target =
     bindc (from_sum (check_interrupted flag1)) (\<lambda>_.
     bindc (gets clock_ns) (\<lambda>now.
     bindc (map_err GitError (from_sum (ensure_host_is_public (x_parse_url x) (x_resolve x now) repo_url))) (\<lambda>_.
     bindc (from_sum (check_interrupted flag2)) (\<lambda>_.
     bindc (clone_log_start log_target) (\<lambda>sink.
     bindc (attempt (fetch_into x repo_url branch dest)) (\<lambda>r.
     bindc (clone_log_stop sink) (\<lambda>_.
     from_sum r)))))))"

definition clone_repo ::
  "externals \<Rightarrow> bool \<Rightarrow> bool \<Rightarrow> path \<Rightarrow> git_source \<Rightarrow> log_target option \<Rightarrow> (path \<times> string) hub" where
  "clone_repo x flag1 flag2 staging src log_target =
     bindc (io (create_dir staging)) (\<lambda>_.
     (let checkout_dir = staging @ [''_checkout''] in
      bindc (clone_shallow x flag1 flag2 (gs_repo_url src) (gs_branch src) checkout_dir log_target) (\<lambda>commit_sha.
      bindc (io (remove_dir_all (checkout_dir @ [''.git'']))) (\<lambda>_.
      ret (checkout_dir, commit_sha)))))"

section \<open>The publish directory\<close>

text \<open>\<open>Path::components\<close> on Unix: empty parts and inner dots disappear.\<close>

datatype component = RootDir | CurDir | ParentDir | Normal string

definition components :: "string \<Rightarrow> component list" where
  "components p =
     (let root = (if starts_with ''/'' p then [RootDir] else []);
          parts = split_on CHR ''/'' p;
          lead = (if root = [] \<and> parts \<noteq> [] \<and> hd parts = ''.'' then [CurDir] else [])
      in root @ lead @ map (\<lambda>c. if c = ''..'' then ParentDir else Normal c)
           (filter (\<lambda>c. c \<noteq> [] \<and> c \<noteq> ''.'') parts))"

definition normal_names :: "component list \<Rightarrow> string list" where
  "normal_names cs = concat (map (\<lambda>c. case c of Normal n \<Rightarrow> [n] | _ \<Rightarrow> []) cs)"

text \<open>
  The publish or output directory of a deployment. The test for a directory is made on the model's
  tree, which has no symbolic links; the program's follows them, out of the checkout if the
  repository says so.
\<close>

definition resolve_publish_dir :: "path \<Rightarrow> string option \<Rightarrow> path hub" where
  "resolve_publish_dir checkout_dir publish_dir =
     (case publish_dir of
        None \<Rightarrow> ret checkout_dir
      | Some dir \<Rightarrow>
         (let relative = components dir in
          if list_ex (\<lambda>c. c = ParentDir \<or> c = RootDir) relative then throw (InvalidPublishDir dir)
          else
           (let resolved = checkout_dir @ normal_names relative in
            bindc (gets (\<lambda>s. is_dir (fs s) resolved)) (\<lambda>d.
            if \<not> d then throw (InvalidPublishDir dir) else ret resolved))))"

section \<open>Facts\<close>

lemma leaves_clone [leaves_intros]:
  assumes "\<And>s t f. g (s\<lparr>fs := t, faults := f\<rparr>) = g s" and "\<And>s r. g (s\<lparr>log_registry := r\<rparr>) = g s"
  shows "leaves g (clone_repo x i j staging src tgt)"
  unfolding clone_repo_def clone_shallow_def clone_log_start_def clone_log_stop_def fetch_into_def write_entry_def Let_def
  by (intro leaves_intros assms)

lemma leaves_resolve_publish_dir [leaves_intros]: "leaves g (resolve_publish_dir c p)"
  unfolding resolve_publish_dir_def Let_def by (intro leaves_intros)

lemma ensure_host_is_public_Inr:
  "ensure_host_is_public parse_url resolve url = Inr () \<longleftrightarrow>
     (\<exists>host port addrs. parse_url url = Inr (Some host, port)
        \<and> resolve host (case port of Some p \<Rightarrow> p | None \<Rightarrow> 0) = Inr addrs
        \<and> addrs \<noteq> [] \<and> list_all is_public_ip addrs)"
  by (auto simp: ensure_host_is_public_def split: sum.splits option.splits prod.splits if_splits)

section \<open>Properties\<close>

text \<open>C35 A clone gets past the check of its host only if the repository's URL has a host, the name
  resolves to at least one address and every address it resolves to is public at the moment of
  the check; otherwise the clone fails and neither the file tree nor anything else of the state
  changes. This says nothing of the addresses the git library connects to: it resolves the name
  again, as the comment above \<open>ensure_host_is_public\<close> warns.\<close>

theorem clone_only_from_public_hosts:
  assumes "clone_shallow x flag1 flag2 url branch dest tgt s = (r, s')" and "s' \<noteq> s \<or> (\<exists>sha. r = Done sha)"
  shows "\<exists>host port addrs. x_parse_url x url = Inr (Some host, port)
    \<and> x_resolve x (clock_ns s) host (case port of Some p \<Rightarrow> p | None \<Rightarrow> 0) = Inr addrs
    \<and> addrs \<noteq> [] \<and> list_all is_public_ip addrs"
proof -
  have "ensure_host_is_public (x_parse_url x) (x_resolve x (clock_ns s)) url = Inr ()"
  proof (rule ccontr)
    assume "ensure_host_is_public (x_parse_url x) (x_resolve x (clock_ns s)) url \<noteq> Inr ()"
    then obtain e where "ensure_host_is_public (x_parse_url x) (x_resolve x (clock_ns s)) url = Inl e"
      by (cases "ensure_host_is_public (x_parse_url x) (x_resolve x (clock_ns s)) url") auto
    then have "\<exists>e. clone_shallow x flag1 flag2 url branch dest tgt s = (Fail e, s)"
      by (cases flag1) (simp_all add: clone_shallow_def bindc_def gets_def from_sum_def check_interrupted_def
          ret_def throw_def map_err_def)
    then show False using assms by auto
  qed
  then show ?thesis by (simp add: ensure_host_is_public_Inr)
qed

lemma clone_only_from_public_hosts_witness:
  "\<exists>host port addrs. x_parse_url sample_externals ''https://h/r'' = Inr (Some host, port)
    \<and> x_resolve sample_externals (clock_ns sample_world) host (case port of Some p \<Rightarrow> p | None \<Rightarrow> 0) = Inr addrs
    \<and> addrs \<noteq> [] \<and> list_all is_public_ip addrs"
proof (rule clone_only_from_public_hosts)
  show "clone_shallow sample_externals False False ''https://h/r'' ''main'' [''d'', ''tmp'', ''c''] None sample_world =
     (Done ''abc'', snd (clone_shallow sample_externals False False ''https://h/r'' ''main'' [''d'', ''tmp'', ''c''] None sample_world))"
    by (simp add: clone_shallow_def check_interrupted_def gets_def from_sum_def ret_def bindc_def map_err_def
        ensure_host_is_public_def sample_externals_def is_public_ip_def is_public_ipv4_def v4_is_private_def
        v4_is_documentation_def clone_log_start_def clone_log_stop_def attempt_def fetch_into_def write_entry_def
        create_dir_all_def write_file_def ext_call_def set_fs_run fs_put_def parent_def parent_check_def sample_world_def)
qed simp

end
