(* ===== verification/DeploymentStore.thy ===== *)
theory DeploymentStore
  imports AgentCalls Zip GitFetch
begin

text \<open>
  Deployments in \<open>storage.rs\<close>: from staging an upload and recording a git deployment to
  activating and deleting one, and the sweeps that clear what a crash left behind.
\<close>

section \<open>Rows to values\<close>

definition status_of_row :: "db_deployment \<Rightarrow> app_error + deployment_status" where
  "status_of_row row =
     sbind (serr CorruptData (state_from_str (d_status row))) (\<lambda>state_tag.
     Inr (case state_tag of
            StPending \<Rightarrow> Pending
          | StReady \<Rightarrow> Ready
          | StFailed \<Rightarrow> Failed (case d_failure_error row of Some e \<Rightarrow> e | None \<Rightarrow> [])))"

definition transpose_opt :: "('a \<Rightarrow> 'e + 'b) \<Rightarrow> 'a option \<Rightarrow> 'e + 'b option" where
  "transpose_opt f v = (case v of None \<Rightarrow> Inr None | Some a \<Rightarrow> sbind (f a) (\<lambda>b. Inr (Some b)))"

definition deployment_from_row :: "externals \<Rightarrow> db_deployment \<Rightarrow> string \<Rightarrow> app_error + deployment" where
  "deployment_from_row x row nm =
     sbind (status_of_row row) (\<lambda>status.
     sbind (transpose_opt (\<lambda>j. serr Json (x_git_parse x j)) (d_git_info_json row)) (\<lambda>git.
     sbind (transpose_opt (\<lambda>j. serr Json (x_build_parse x j)) (d_build_info_json row)) (\<lambda>build.
     sbind (serr TimestampError (x_from_second x (d_created_at row))) (\<lambda>created.
     Inr \<lparr>dep_id = x_uuid_str x (d_id row), dep_app = nm, dep_created_at = created,
          dep_original_filename = d_original_filename row,
          dep_upload_size_bytes = u64_from_i64 (d_upload_size_bytes row),
          dep_git = git, dep_build_info = build, dep_container_name = d_container_name row,
          dep_status = status\<rparr>))))"

section \<open>Sweeps at start-up\<close>

definition read_dir_if_present :: "path \<Rightarrow> string list option hub" where
  "read_dir_if_present dir =
     bindc (attempt (read_dir dir)) (\<lambda>r.
     case r of
       Inr names \<Rightarrow> ret (Some names)
     | Inl err \<Rightarrow> if io_kind err = NotFound then ret None else throw (Io err))"

text \<open>A name that is no id, readable as text or not, is skipped.\<close>

definition sweep_orphaned_deployment_dirs :: "externals \<Rightarrow> string \<Rightarrow> uuid \<Rightarrow> 32 word hub" where
  "sweep_orphaned_deployment_dirs x app_dir_name aid =
     bindc (db_all db_deployments (\<lambda>e. d_app_id e = aid)) (\<lambda>rows.
     bindc (gets (\<lambda>s. apps_dir s @ [app_dir_name, ''deployments''])) (\<lambda>deployments_dir.
     bindc (read_dir_if_present deployments_dir) (\<lambda>entries.
     case entries of
       None \<Rightarrow> ret 0
     | Some names \<Rightarrow>
        foldc (\<lambda>removed name.
          case x_uuid_parse x name of
            None \<Rightarrow> ret removed
          | Some deployment_id \<Rightarrow>
             (if deployment_id \<notin> set (map d_id rows) then
                bindc (io (remove_dir_all (deployments_dir @ [name]))) (\<lambda>_. ret (removed + 1))
              else ret removed)) 0 names)))"

definition sweep_orphaned_dirs :: "externals \<Rightarrow> unit hub" where
  "sweep_orphaned_dirs x =
     bindc (db_all db_apps (\<lambda>_. True)) (\<lambda>rows.
     bindc (gets apps_dir) (\<lambda>dir.
     bindc (read_dir_if_present dir) (\<lambda>entries.
     case entries of
       None \<Rightarrow> ret ()
     | Some names \<Rightarrow>
        bindc (foldc (\<lambda>removed dir_name.
          case x_uuid_parse x dir_name of
            None \<Rightarrow> ret removed
          | Some aid \<Rightarrow>
             (if aid \<in> set (map a_id rows) then
                bindc (sweep_orphaned_deployment_dirs x dir_name aid) (\<lambda>n. ret (removed + n))
              else
                bindc (io (remove_dir_all (dir @ [dir_name]))) (\<lambda>_. ret (removed + 1)))) 0 names)
        (\<lambda>_. ret ()))))"

definition sweep_agent_orphaned_deployment_dirs_on_host :: "externals \<Rightarrow> agent_link \<Rightarrow> uuid set \<Rightarrow> unit hub" where
  "sweep_agent_orphaned_deployment_dirs_on_host x link valid_deployment_ids =
     bindc (attempt (list_deployment_dirs link)) (\<lambda>r.
     case r of
       Inl err \<Rightarrow> ret ()
     | Inr agent_deployment_ids \<Rightarrow>
        forc agent_deployment_ids (\<lambda>deployment_id.
          case x_uuid_parse x deployment_id of
            None \<Rightarrow> ret ()
          | Some i \<Rightarrow>
             (if i \<in> valid_deployment_ids then ret ()
              else ignore (delete_deployment_dir link deployment_id))))"

definition sweep_agent_orphaned_deployment_dirs :: "externals \<Rightarrow> unit hub" where
  "sweep_agent_orphaned_deployment_dirs x =
     bindc (attempt (db_all db_deployments (\<lambda>_. True))) (\<lambda>r.
     case r of
       Inl err \<Rightarrow> ret ()
     | Inr rows \<Rightarrow>
        (let valid_deployment_ids = set (map d_id (filter (\<lambda>row. d_container_name row \<noteq> None) rows)) in
         bindc (gets agent_hosts) (\<lambda>hosts.
         forc hosts (\<lambda>host_id.
           sweep_agent_orphaned_deployment_dirs_on_host x (Some host_id) valid_deployment_ids))))"

section \<open>Creating a deployment\<close>

definition stage_deployment_files :: "externals \<Rightarrow> path \<Rightarrow> path \<Rightarrow> u64 \<Rightarrow> unit hub" where
  "stage_deployment_files x staging zip_path max_uncompressed_bytes =
     bindc (io (create_dir staging)) (\<lambda>_.
     (let files_dir = staging @ [''files''] in
      bindc (io (create_dir files_dir)) (\<lambda>_.
      bindc (io (read_file zip_path)) (\<lambda>bytes.
      bindc (unpack_zip x bytes files_dir max_uncompressed_bytes) (\<lambda>_. ret ())))))"

definition activate_deployment :: "externals \<Rightarrow> string \<Rightarrow> string \<Rightarrow> unit hub" where
  "activate_deployment x aid deployment_id =
     bindc (find_app_row_by_id x aid) (\<lambda>app_row.
     bindc (find_deployment_row x (a_id app_row) deployment_id) (\<lambda>deployment_row.
     bindc (gets now_secs) (\<lambda>now.
     bindc (update_app_row app_row (\<lambda>r. r\<lparr>a_active_deployment_id := Some (d_id deployment_row), a_updated_at := now\<rparr>))
     (\<lambda>_. ret ()))))"

text \<open>What \<open>create_deployment\<close> does under the write lock, once the files are staged.\<close>

definition place_deployment ::
  "externals \<Rightarrow> string \<Rightarrow> uuid \<Rightarrow> path \<Rightarrow> string option \<Rightarrow> u64 \<Rightarrow> deployment hub" where
  "place_deployment x aid uuid staging original_filename upload_size_bytes =
     bindc (on_error (find_app_row_by_id x aid) (\<lambda>_. remove_dir_all_quiet staging)) (\<lambda>app_row.
     bindc (gets (\<lambda>s. deployment_dir s (x_uuid_str x (a_id app_row)) (x_uuid_str x uuid))) (\<lambda>target.
     bindc (on_error (io (rename staging target)) (\<lambda>_. remove_dir_all_quiet staging)) (\<lambda>_.
     bindc (gets now_secs) (\<lambda>now.
     bindc (on_error
       (insert_deployment \<lparr>d_id = uuid, d_app_id = a_id app_row, d_created_at = now,
          d_original_filename = original_filename,
          d_upload_size_bytes = i64_from_u64 upload_size_bytes, d_git_info_json = None,
          d_build_info_json = None, d_container_name = None,
          d_status = state_as_str StReady, d_failure_error = None\<rparr>)
       (\<lambda>_. remove_dir_all_quiet target)) (\<lambda>row.
     from_sum (deployment_from_row x row (a_name app_row)))))))"

definition create_deployment ::
  "externals \<Rightarrow> string \<Rightarrow> path \<Rightarrow> string option \<Rightarrow> u64 \<Rightarrow> deployment hub" where
  "create_deployment x aid zip_path original_filename upload_size_bytes =
     bindc now_v7 (\<lambda>uuid.
     bindc (unique_tmp_path ''deployment'') (\<lambda>staging.
     bindc (gets (\<lambda>s. lim_max_uncompressed_bytes (limits s))) (\<lambda>max_uncompressed_bytes.
     bindc (on_error (stage_deployment_files x staging zip_path max_uncompressed_bytes)
              (\<lambda>_. remove_dir_all_quiet staging)) (\<lambda>_.
     bindc (place_deployment x aid uuid staging original_filename upload_size_bytes) (\<lambda>deployment.
     bindc (activate_deployment x aid (dep_id deployment)) (\<lambda>_.
     ret deployment))))))"

definition create_pending_git_deployment :: "externals \<Rightarrow> string \<Rightarrow> (deployment \<times> git_source) hub" where
  "create_pending_git_deployment x aid =
     bindc (find_app_row_by_id x aid) (\<lambda>app_row.
     bindc (map_err Json (from_sum (x_source_parse x (a_source_json app_row)))) (\<lambda>src.
     case src of
       Upload \<Rightarrow> throw (NotGitSourced (a_name app_row))
     | Git git_source \<Rightarrow>
        bindc (db_all db_deployments (\<lambda>e. d_app_id e = a_id app_row)) (\<lambda>rows.
        bindc (guardc (\<not> list_ex is_pending rows) (DeploymentInProgress (a_name app_row))) (\<lambda>_.
        bindc now_v7 (\<lambda>uuid.
        (let cname = (case gs_mode git_source of
                RunMode _ \<Rightarrow> Some (container_name (x_uuid_str x (a_id app_row)) (x_uuid_str x uuid))
              | _ \<Rightarrow> None) in
        bindc (gets (\<lambda>s. deployment_dir s (x_uuid_str x (a_id app_row)) (x_uuid_str x uuid))) (\<lambda>dir.
        bindc (io (create_dir dir)) (\<lambda>_.
        bindc (gets now_secs) (\<lambda>now.
        bindc (insert_deployment \<lparr>d_id = uuid, d_app_id = a_id app_row, d_created_at = now,
          d_original_filename = None, d_upload_size_bytes = 0, d_git_info_json = None,
          d_build_info_json = None, d_container_name = cname,
          d_status = state_as_str StPending, d_failure_error = None\<rparr>) (\<lambda>row.
        bindc (from_sum (deployment_from_row x row (a_name app_row))) (\<lambda>deployment.
        ret (deployment, git_source))))))))))))"

section \<open>Finishing a git deployment\<close>

text \<open>The size of a directory; the fuel bounds the depth of the walk.\<close>

primrec dir_size_bytes :: "nat \<Rightarrow> path \<Rightarrow> u64 hub" where
  "dir_size_bytes 0 dir = (\<lambda>s. (Crash, s))"
| "dir_size_bytes (Suc n) dir =
     bindc (io (read_dir dir)) (\<lambda>names.
     foldc (\<lambda>tot name.
       (let p = dir @ [name] in
        bindc (gets (\<lambda>s. is_dir (fs s) p)) (\<lambda>d.
        bindc (if d then dir_size_bytes n p else io (file_len p)) (\<lambda>k.
        ret (tot + k))))) 0 names)"

text \<open>Moving the servable content root to \<open>staging/files\<close>.\<close>

definition move_content_root :: "path \<Rightarrow> path \<Rightarrow> git_source \<Rightarrow> unit hub" where
  "move_content_root staging checkout_dir git_source =
     (case gs_mode git_source of
        RunMode _ \<Rightarrow> io (rename checkout_dir (staging @ [''files'']))
      | StaticMode publish_dir \<Rightarrow>
         bindc (resolve_publish_dir checkout_dir publish_dir) (\<lambda>content_root.
         bindc (io (rename content_root (staging @ [''files'']))) (\<lambda>_.
         remove_dir_all_quiet checkout_dir))
      | BuildMode build \<Rightarrow>
         bindc (resolve_publish_dir checkout_dir (Some (bc_output_dir build))) (\<lambda>content_root.
         bindc (io (rename content_root (staging @ [''files'']))) (\<lambda>_.
         remove_dir_all_quiet checkout_dir)))"

definition build_info_json :: "externals \<Rightarrow> git_deploy_mode \<Rightarrow> app_error + string option" where
  "build_info_json x mode =
     (case mode of
        BuildMode build \<Rightarrow>
          sbind (serr Json (x_build_json x \<lparr>bi_image = bc_image build, bi_command = bc_command build\<rparr>)) (\<lambda>j. Inr (Some j))
      | _ \<Rightarrow> Inr None)"

definition finish_git_deployment ::
  "externals \<Rightarrow> path \<Rightarrow> path \<Rightarrow> string \<Rightarrow> string \<Rightarrow> git_source \<Rightarrow> string \<Rightarrow> unit hub" where
  "finish_git_deployment x staging checkout_dir aid deployment_id git_source commit_sha =
     bindc (move_content_root staging checkout_dir git_source) (\<lambda>_.
     bindc (gets (\<lambda>s. tree_depth (fs s))) (\<lambda>depth.
     bindc (dir_size_bytes (Suc depth) (staging @ [''files''])) (\<lambda>content_size.
     bindc (find_app_row_by_id x aid) (\<lambda>app_row.
     bindc (gets (\<lambda>s. deployment_dir s (x_uuid_str x (a_id app_row)) deployment_id)) (\<lambda>dir.
     bindc (io (rename (staging @ [''files'']) (dir @ [''files'']))) (\<lambda>_.
     bindc (find_deployment_row x (a_id app_row) deployment_id) (\<lambda>deployment_row.
     bindc (map_err Json (from_sum (x_git_json x
        \<lparr>gdi_commit_sha = commit_sha, gdi_branch = gs_branch git_source\<rparr>))) (\<lambda>git_info_json.
     bindc (from_sum (build_info_json x (gs_mode git_source))) (\<lambda>build_json.
     bindc (update_deployment deployment_row (\<lambda>r. r\<lparr>d_git_info_json := Some git_info_json,
        d_build_info_json := build_json, d_upload_size_bytes := i64_from_u64 content_size\<rparr>)) (\<lambda>_.
     remove_dir_all_quiet staging))))))))))"

definition ship_run_deployment_to_agent :: "externals \<Rightarrow> string \<Rightarrow> string \<Rightarrow> unit hub" where
  "ship_run_deployment_to_agent x aid deployment_id =
     bindc (find_app_row_by_id x aid) (\<lambda>app_row.
     bindc (gets (\<lambda>s. deployment_files_dir s (x_uuid_str x (a_id app_row)) deployment_id)) (\<lambda>files_dir.
     bindc (unique_tmp_path ''ship-to-agent'') (\<lambda>tmp.
     (let zip_path = with_extension ''zip'' tmp in
     bindc (zip_dir x files_dir zip_path) (\<lambda>_.
     bindc (attempt
       (bindc (gets (\<lambda>s. agent_link_for s (a_host_id app_row))) (\<lambda>link.
        bindc (create_deployment_dir link deployment_id) (\<lambda>_.
        bindc (gets (\<lambda>s. lim_max_uncompressed_bytes (limits s))) (\<lambda>mx.
        bindc (upload_zip_and_extract link deployment_id zip_path mx) (\<lambda>_. ret ())))))) (\<lambda>result.
     bindc (remove_file_logged zip_path) (\<lambda>_.
     from_sum result)))))))"

definition set_deployment_status :: "externals \<Rightarrow> string \<Rightarrow> string \<Rightarrow> deployment_status \<Rightarrow> unit hub" where
  "set_deployment_status x aid deployment_id status =
     bindc (find_app_row_by_id x aid) (\<lambda>app_row.
     bindc (find_deployment_row x (a_id app_row) deployment_id) (\<lambda>deployment_row.
     (let (state_tag, failure_error) =
        (case status of
           Pending \<Rightarrow> (StPending, None)
         | Ready \<Rightarrow> (StReady, None)
         | Failed err \<Rightarrow> (StFailed, Some err)) in
      bindc (update_deployment deployment_row
               (\<lambda>r. r\<lparr>d_status := state_as_str state_tag, d_failure_error := failure_error\<rparr>)) (\<lambda>_.
      ret ()))))"

definition mark_git_deployment_ready :: "externals \<Rightarrow> string \<Rightarrow> string \<Rightarrow> unit hub" where
  "mark_git_deployment_ready x aid deployment_id = set_deployment_status x aid deployment_id Ready"

definition fail_git_deployment :: "externals \<Rightarrow> string \<Rightarrow> string \<Rightarrow> string \<Rightarrow> unit hub" where
  "fail_git_deployment x aid deployment_id err = set_deployment_status x aid deployment_id (Failed err)"

section \<open>Reading, deleting\<close>

definition list_deployments :: "externals \<Rightarrow> string \<Rightarrow> deployment list hub" where
  "list_deployments x aid =
     bindc (find_app_row_by_id x aid) (\<lambda>app_row.
     bindc (db_all db_deployments (\<lambda>e. d_app_id e = a_id app_row)) (\<lambda>rows.
     from_sum (traverse (\<lambda>row. deployment_from_row x row (a_name app_row)) (sort_key d_id rows))))"

definition get_deployment :: "externals \<Rightarrow> string \<Rightarrow> string \<Rightarrow> deployment hub" where
  "get_deployment x aid deployment_id =
     bindc (find_app_row_by_id x aid) (\<lambda>app_row.
     bindc (find_deployment_row x (a_id app_row) deployment_id) (\<lambda>row.
     from_sum (deployment_from_row x row (a_name app_row))))"

definition active_deployment_id :: "externals \<Rightarrow> string \<Rightarrow> string option hub" where
  "active_deployment_id x aid =
     bindc (attempt (find_app_row_by_id x aid)) (\<lambda>r.
     ret (case r of Inl _ \<Rightarrow> None | Inr row \<Rightarrow> map_option (x_uuid_str x) (a_active_deployment_id row)))"

text \<open>What \<open>delete_deployment\<close> does under the write lock: the id of the app, or an error.\<close>

definition delete_deployment_row :: "externals \<Rightarrow> string \<Rightarrow> string \<Rightarrow> uuid hub" where
  "delete_deployment_row x aid deployment_id =
     bindc (find_app_row_by_id x aid) (\<lambda>app_row.
     bindc (guardc (map_option (x_uuid_str x) (a_active_deployment_id app_row) \<noteq> Some deployment_id)
              DeleteActiveDeployment) (\<lambda>_.
     bindc (find_deployment_row x (a_id app_row) deployment_id) (\<lambda>deployment_row.
     bindc (delete_deployments (\<lambda>e. d_id e = d_id deployment_row)) (\<lambda>_.
     ret (a_id app_row)))))"

definition delete_deployment :: "externals \<Rightarrow> string \<Rightarrow> string \<Rightarrow> unit hub" where
  "delete_deployment x aid deployment_id =
     bindc (delete_deployment_row x aid deployment_id) (\<lambda>app_uuid.
     bindc (gets (\<lambda>s. deployment_dir s (x_uuid_str x app_uuid) deployment_id)) (\<lambda>deployments_dir.
     bindc (unique_tmp_path ''deleted-deployment'') (\<lambda>staging.
     bindc (map_err (\<lambda>err. if io_kind err = NotFound then DeploymentNotFound deployment_id else Io err)
              (rename deployments_dir staging)) (\<lambda>_.
     io (remove_dir_all staging)))))"


lemmas deployment_read_defs = list_deployments_def get_deployment_def active_deployment_id_def

section \<open>Frames\<close>

lemma leaves_deployment_reads [leaves_intros]:
  assumes "\<And>s f. g (s\<lparr>faults := f\<rparr>) = g s" and "\<And>s n. g (s\<lparr>random_pos := n\<rparr>) = g s"
  shows "leaves g (list_deployments x aid)" "leaves g (get_deployment x aid did)"
    "leaves g (active_deployment_id x aid)"
  unfolding deployment_read_defs by (intro leaves_intros assms)+

lemma leaves_dir_size [leaves_intros]:
  assumes "\<And>s t f. g (s\<lparr>fs := t, faults := f\<rparr>) = g s"
  shows "leaves g (dir_size_bytes n dir)"
proof (induction n arbitrary: dir)
  case 0
  then show ?case by (simp add: leaves_def)
next
  case (Suc n)
  then show ?case unfolding dir_size_bytes.simps Let_def by (intro leaves_intros assms)
qed

lemma leaves_read_dir_if_present [leaves_intros]:
  assumes "\<And>s t f. g (s\<lparr>fs := t, faults := f\<rparr>) = g s"
  shows "leaves g (read_dir_if_present dir)"
  unfolding read_dir_if_present_def by (intro leaves_intros assms)

lemma leaves_case_mode [leaves_intros]:
  "(\<And>p. leaves g (m1 p)) \<Longrightarrow> (\<And>b. leaves g (m2 b)) \<Longrightarrow> (\<And>r. leaves g (m3 r))
    \<Longrightarrow> leaves g (case mode of StaticMode p \<Rightarrow> m1 p | BuildMode b \<Rightarrow> m2 b | RunMode r \<Rightarrow> m3 r)"
  by (cases mode) simp_all

lemma triple_case_mode:
  "(\<And>p. triple P (m1 p) Q E) \<Longrightarrow> (\<And>b. triple P (m2 b) Q E) \<Longrightarrow> (\<And>r. triple P (m3 r) Q E)
    \<Longrightarrow> triple P (case mode of StaticMode p \<Rightarrow> m1 p | BuildMode b \<Rightarrow> m2 b | RunMode r \<Rightarrow> m3 r) Q E"
  by (cases mode) simp_all

lemma triple_case_source:
  "triple P m Q E \<Longrightarrow> (\<And>gs. triple P (n gs) Q E)
    \<Longrightarrow> triple P (case src of Upload \<Rightarrow> m | Git gs \<Rightarrow> n gs) Q E"
  by (cases src) simp_all

lemma leaves_staging [leaves_intros]:
  assumes "\<And>s t f. g (s\<lparr>fs := t, faults := f\<rparr>) = g s"
  shows "leaves g (stage_deployment_files x staging zp mx)" "leaves g (move_content_root staging dir src)"
  unfolding stage_deployment_files_def move_content_root_def Let_def
  by (intro leaves_intros assms)+

lemma leaves_sweeps [leaves_intros]:
  assumes "\<And>s t f. g (s\<lparr>fs := t, faults := f\<rparr>) = g s" and "\<And>s f. g (s\<lparr>faults := f\<rparr>) = g s"
  shows "leaves g (sweep_orphaned_deployment_dirs x nm k)" "leaves g (sweep_orphaned_dirs x)"
  unfolding sweep_orphaned_dirs_def sweep_orphaned_deployment_dirs_def by (intro leaves_intros assms)+

lemma leaves_agent_sweep [leaves_intros]:
  assumes "\<And>s f. g (s\<lparr>faults := f\<rparr>) = g s" and "\<And>s l. g (s\<lparr>rpc_log := l\<rparr>) = g s"
    and "\<And>s q. g (s\<lparr>agent_script := q\<rparr>) = g s"
  shows "leaves g (sweep_agent_orphaned_deployment_dirs x)"
  unfolding sweep_agent_orphaned_deployment_dirs_def sweep_agent_orphaned_deployment_dirs_on_host_def Let_def
  by (intro leaves_intros assms)

lemma leaves_ship [leaves_intros]:
  assumes "\<And>s t f. g (s\<lparr>fs := t, faults := f\<rparr>) = g s" and "\<And>s f. g (s\<lparr>faults := f\<rparr>) = g s"
    and "\<And>s r. g (s\<lparr>log_registry := r\<rparr>) = g s" and "\<And>s n. g (s\<lparr>id_seq := n\<rparr>) = g s"
    and "\<And>s n. g (s\<lparr>random_pos := n\<rparr>) = g s"
    and "\<And>s b. g (s\<lparr>broadcasts := b\<rparr>) = g s" and "\<And>s l. g (s\<lparr>rpc_log := l\<rparr>) = g s"
    and "\<And>s q. g (s\<lparr>agent_script := q\<rparr>) = g s" and "\<And>s q. g (s\<lparr>spawned := q\<rparr>) = g s"
  shows "leaves g (ship_run_deployment_to_agent x aid did)"
  unfolding ship_run_deployment_to_agent_def Let_def by (intro leaves_intros assms)

section \<open>The invariant of the tables\<close>

lemma leaves_db_deployments:
  "leaves db (list_deployments x aid)" "leaves db (get_deployment x aid did)" "leaves db (active_deployment_id x aid)"
  "leaves db (dir_size_bytes n dir)" "leaves db (stage_deployment_files x staging zp mx)"
  "leaves db (move_content_root staging dir src)" "leaves db (sweep_orphaned_dirs x)"
  "leaves db (sweep_agent_orphaned_deployment_dirs x)" "leaves db (ship_run_deployment_to_agent x aid did)"
  by (intro leaves_intros; simp)+

lemmas db_skips2 = leaves_db_deployments [THEN keeps_db_ok_lookup]

lemma keeps_db_ok_finish_git_deployment:
  "keeps (\<lambda>s. db_ok (db s)) (finish_git_deployment x staging dir aid did src sha)"
  unfolding finish_git_deployment_def
  by (intro db_ok_calls db_skips2 keeps_db_ok_update_deployment; simp add: is_pending_def)

lemma keeps_db_ok_set_status:
  "st \<noteq> Pending \<Longrightarrow> keeps (\<lambda>s. db_ok (db s)) (set_deployment_status x aid did st)"
  unfolding set_deployment_status_def
  by (cases st) (simp_all add: Let_def, (intro db_ok_calls keeps_db_ok_update_deployment; simp add: is_pending_def)+)

lemma keeps_db_ok_activate_deployment: "keeps (\<lambda>s. db_ok (db s)) (activate_deployment x aid did)"
proof -
  have upd: "triple (\<lambda>s. db_ok (db s) \<and> e \<in> set (db_deployments (db s)) \<and> d_app_id e = a_id r)
      (update_app_row r (\<lambda>r. r\<lparr>a_active_deployment_id := Some (d_id e), a_updated_at := now\<rparr>))
      (\<lambda>_ s. db_ok (db s)) (\<lambda>s. db_ok (db s))" for r e now
    unfolding update_app_row_def
    by (rule triple_conseq [OF triple_db_write [where J = "\<lambda>d. db_ok d \<and> e \<in> set (db_deployments d) \<and> d_app_id e = a_id r"
          and K = "\<lambda>_. db_ok"]]) (auto intro!: db_ok_update_app)
  show ?thesis
    unfolding keeps_iff_triple activate_deployment_def
    apply (rule triple_bindc [OF triple_post [OF triple_find_app_row_by_id [where J = db_ok]]])
     apply (erule conjunct1)
    apply (rule triple_bindc [OF triple_find_deployment_row [where J = db_ok]])
    apply (rule triple_bindc [OF triple_gets], assumption)
    apply (rule triple_bindc [OF triple_pre [OF upd]], simp)
    apply (rule triple_ret, assumption)
    done
qed

lemma keeps_db_ok_place_deployment:
  "keeps (\<lambda>s. db_ok (db s)) (place_deployment x aid u staging fn sz)"
proof -
  let ?J = "\<lambda>k d. db_ok d \<and> k \<in> app_ids d"
  have find: "triple (\<lambda>s. db_ok (db s)) (on_error (find_app_row_by_id x aid) (\<lambda>_. remove_dir_all_quiet staging))
     (\<lambda>row s. ?J (a_id row) (db s)) (\<lambda>s. db_ok (db s))"
    by (rule triple_on_error [OF triple_post [OF triple_find_app_row_by_id [where J = db_ok]]])
       (auto simp: app_ids_def keeps_iff_triple [symmetric] intro: keeps_db_ok_cleanup)
  have skip: "triple (\<lambda>s. ?J k (db s)) m (\<lambda>_ s. ?J k (db s)) (\<lambda>s. db_ok (db s))"
    if "leaves db m" for m :: "unit hub" and k
    by (rule triple_conseq [OF triple_skip_db [where J = "?J k", OF that]]) auto
  have quiet: "leaves db (remove_dir_all_quiet r)" for r by (intro leaves_intros) simp
  have mv: "triple (\<lambda>s. ?J k (db s)) (on_error (io (rename p q)) (\<lambda>_. remove_dir_all_quiet r)) (\<lambda>_ s. ?J k (db s)) (\<lambda>s. db_ok (db s))"
    for k p q r
    by (rule skip) (intro leaves_intros; simp)
  have ins: "triple (\<lambda>s. ?J k (db s)) (on_error (insert_deployment e) (\<lambda>_. remove_dir_all_quiet r)) (\<lambda>_ s. db_ok (db s)) (\<lambda>s. db_ok (db s))"
    if "d_app_id e = k" "\<not> is_pending e" for e k r
  proof (rule triple_on_error)
    show "triple (\<lambda>s. ?J k (db s)) (insert_deployment e) (\<lambda>_ s. db_ok (db s)) (\<lambda>s. ?J k (db s))"
      by (rule triple_post [OF triple_insert_deployment [where J = "?J k"]]) (use that in auto)
    show "triple (\<lambda>s. ?J k (db s)) (remove_dir_all_quiet r) (\<lambda>_ s. db_ok (db s)) (\<lambda>s. db_ok (db s))"
      by (rule triple_post [OF skip [OF quiet]]) simp
  qed simp
  show ?thesis
    unfolding keeps_iff_triple place_deployment_def
    apply (rule triple_bindc [OF find])
    apply (rule triple_bindc [OF triple_gets], assumption)
    apply (rule triple_bindc [OF mv])
    apply (rule triple_bindc [OF triple_gets], assumption)
    apply (rule triple_bindc [OF ins])
      apply simp
     apply (simp add: is_pending_def)
    apply (rule triple_from_sum; assumption)
    done
qed

lemma keeps_db_ok_create_deployment: "keeps (\<lambda>s. db_ok (db s)) (create_deployment x aid zp fn sz)"
  unfolding create_deployment_def
  by (intro db_ok_calls db_skips2 keeps_db_ok_place_deployment keeps_db_ok_activate_deployment)

lemma keeps_db_ok_create_pending: "keeps (\<lambda>s. db_ok (db s)) (create_pending_git_deployment x aid)"
proof -
  let ?J = "\<lambda>k d. db_ok d \<and> k \<in> app_ids d"
  let ?P = "\<lambda>k d. ?J k d \<and> (\<forall>e\<in>set (db_deployments d). d_app_id e = k \<longrightarrow> \<not> is_pending e)"
  have find: "triple (\<lambda>s. db_ok (db s)) (find_app_row_by_id x aid) (\<lambda>row s. ?J (a_id row) (db s)) (\<lambda>s. db_ok (db s))"
    by (rule triple_post [OF triple_find_app_row_by_id [where J = db_ok]]) (auto simp: app_ids_def)
  have rows: "triple (\<lambda>s. ?J k (db s)) (db_all db_deployments (\<lambda>e. d_app_id e = k))
      (\<lambda>rows s. ?J k (db s) \<and> (\<not> list_ex is_pending rows \<longrightarrow> ?P k (db s))) (\<lambda>s. db_ok (db s))" for k
    by (rule triple_conseq [OF triple_db_all [where J = "?J k"]]) (auto simp: list_ex_iff)
  have skip: "leaves db m \<Longrightarrow> triple (\<lambda>s. ?P k (db s)) m (\<lambda>_ s. ?P k (db s)) (\<lambda>s. db_ok (db s))"
    for m :: "'z hub" and k
    by (rule triple_conseq [OF triple_skip_db [where J = "?P k"]]) auto
  have ins: "triple (\<lambda>s. ?P k (db s)) (insert_deployment e) (\<lambda>_ s. db_ok (db s)) (\<lambda>s. db_ok (db s))"
    if "d_app_id e = k" for e k
    by (rule triple_conseq [OF triple_insert_deployment [where J = "?P k"]]) (use that in auto)
  show ?thesis
    unfolding keeps_iff_triple create_pending_git_deployment_def Let_def
    apply (rule triple_bindc [OF find])
    subgoal for row
    apply (rule triple_bindc [where Q = "\<lambda>_ s. ?J (a_id row) (db s)"])
     apply (rule triple_map_err, rule triple_from_sum; simp)
    apply (rule triple_case_source)
     apply (rule triple_throw, simp)
    apply (rule triple_bindc [OF rows])
    apply (rule triple_bindc [where Q = "\<lambda>_ s. ?P (a_id row) (db s)"])
     apply (rule triple_guardc; simp)
    apply (rule triple_bindc [OF skip], intro leaves_intros, simp)
    apply (rule triple_bindc [OF triple_gets], assumption)
    apply (rule triple_bindc [OF skip], intro leaves_intros, simp)
    apply (rule triple_bindc [OF triple_gets], assumption)
    apply (rule triple_bindc [OF ins], simp)
    apply (rule triple_bindc [OF triple_from_sum [where Q = "\<lambda>_ s. db_ok (db s)"]], assumption, assumption)
    apply (rule triple_ret, assumption)
    done
    done
qed

text \<open>
  The guard of \<open>delete_deployment\<close> compares the id given with the printed active id: it protects
  the active deployment when the id is spelled the way ids are printed. The requests it misses
  name the deployment their app is serving by another spelling of its id.
\<close>

definition respelled :: "externals \<Rightarrow> database \<Rightarrow> string \<Rightarrow> string \<Rightarrow> bool" where
  "respelled x d aid did \<longleftrightarrow>
     (\<exists>a\<in>set (db_apps d). x_uuid_parse x aid = Some (a_id a) \<and>
        (\<exists>u. a_active_deployment_id a = Some u \<and> x_uuid_parse x did = Some u \<and> did \<noteq> x_uuid_str x u))"

lemma respelled_printed [simp]: "uuid_ok x \<Longrightarrow> \<not> respelled x d aid (x_uuid_str x u)"
  by (auto simp: respelled_def uuid_ok_def)

lemma db_ok_delete_inactive:
  assumes "db_ok d" and "row \<in> set (db_apps d)" and "e \<in> set (db_deployments d)" and "d_app_id e = a_id row"
    and "a_active_deployment_id row \<noteq> Some (d_id e)"
  shows "db_ok (d\<lparr>db_deployments := delete_rows (\<lambda>q. d_id q = d_id e) (db_deployments d)\<rparr>)"
proof (rule db_ok_delete_deployments [OF assms(1)])
  fix a v q assume a: "a \<in> set (db_apps d)" "a_active_deployment_id a = Some v" "q \<in> set (db_deployments d)" "d_id q = v"
  have "active_ok d" using assms(1) by (simp add: db_ok_def)
  then obtain f where f: "f \<in> set (db_deployments d)" "d_id f = v" "d_app_id f = a_id a"
    using a(1,2) unfolding active_ok_def by meson
  show "\<not> d_id q = d_id e"
  proof
    assume "d_id q = d_id e"
    then have "f = e" using f(1,2) a(4) assms(1,3) by (auto intro: deployments_by_id.key_unique simp: db_ok_def keys_ok_def)
    then have "a = row" using f(3) assms a(1) by (auto intro: apps_by_id.key_unique simp: db_ok_def keys_ok_def)
    then show False using a(2,4) assms(5) \<open>d_id q = d_id e\<close> by simp
  qed
qed

lemma triple_db_ok_delete_deployment:
  "triple (\<lambda>s. db_ok (db s) \<and> \<not> respelled x (db s) aid did) (delete_deployment x aid did)
     (\<lambda>_ s. db_ok (db s)) (\<lambda>s. db_ok (db s))"
proof -
  let ?J = "\<lambda>row d. db_ok d \<and> \<not> respelled x d aid did \<and> row \<in> set (db_apps d) \<and> x_uuid_parse x aid = Some (a_id row)"
  let ?K = "\<lambda>row d. ?J row d \<and> map_option (x_uuid_str x) (a_active_deployment_id row) \<noteq> Some did"
  let ?L = "\<lambda>row e d. db_ok d \<and> row \<in> set (db_apps d) \<and> e \<in> set (db_deployments d) \<and> d_app_id e = a_id row
      \<and> a_active_deployment_id row \<noteq> Some (d_id e)"
  have find: "triple (\<lambda>s. db_ok (db s) \<and> \<not> respelled x (db s) aid did) (find_app_row_by_id x aid)
      (\<lambda>row s. ?J row (db s)) (\<lambda>s. db_ok (db s))"
    by (rule triple_conseq [OF triple_find_app_row_by_id [where J = "\<lambda>d. db_ok d \<and> \<not> respelled x d aid did"]]) auto
  have dep: "triple (\<lambda>s. ?K row (db s)) (find_deployment_row x (a_id row) did)
      (\<lambda>e s. ?L row e (db s)) (\<lambda>s. db_ok (db s))" for row
    by (rule triple_conseq [OF triple_find_deployment_row [where J = "?K row"]]) (auto simp: respelled_def)
  have del: "triple (\<lambda>s. ?L row e (db s)) (delete_deployments (\<lambda>q. d_id q = d_id e)) (\<lambda>_ s. db_ok (db s)) (\<lambda>s. db_ok (db s))" for row e
    unfolding delete_deployments_def
    by (rule triple_conseq [OF triple_db_write [where K = "\<lambda>_. db_ok" and J = "?L row e"]]) (auto intro!: db_ok_delete_inactive)
  have row: "triple (\<lambda>s. db_ok (db s) \<and> \<not> respelled x (db s) aid did) (delete_deployment_row x aid did)
      (\<lambda>_ s. db_ok (db s)) (\<lambda>s. db_ok (db s))"
    unfolding delete_deployment_row_def
    apply (rule triple_bindc [OF find])
    subgoal for row
      apply (rule triple_bindc [where Q = "\<lambda>_ s. ?K row (db s)"])
       apply (rule triple_guardc; simp)
      apply (rule triple_bindc [OF dep])
      apply (rule triple_bindc [OF del])
      apply (rule triple_ret, assumption)
      done
    done
  show ?thesis
    unfolding delete_deployment_def
    by (rule triple_bindc [OF row]) (unfold keeps_iff_triple [symmetric], intro db_ok_calls keeps_map_err)
qed

end
