(* ===== verification/Consistency.thy ===== *)
theory Consistency
  imports DeploymentStore
begin

text \<open>
  The tables and the file tree together. Every app row has its directory and every deployment
  row has its own, after every operation of \<open>storage.rs\<close>, whether it succeeds, fails at any
  external call or dies there: a directory is put in place before its row is written, and a row
  is deleted before its directory is moved away. What a crash can leave behind is a directory
  without a row, and the sweeps at start-up remove those and nothing else.
\<close>

section \<open>The directories the rows need\<close>

definition app_path :: "externals \<Rightarrow> path \<Rightarrow> uuid \<Rightarrow> path" where
  "app_path x dd a = dd @ [''apps'', x_uuid_str x a]"

definition deployments_path :: "externals \<Rightarrow> path \<Rightarrow> uuid \<Rightarrow> path" where
  "deployments_path x dd a = dd @ [''apps'', x_uuid_str x a, ''deployments'']"

definition deployment_path :: "externals \<Rightarrow> path \<Rightarrow> uuid \<Rightarrow> uuid \<Rightarrow> path" where
  "deployment_path x dd a e = dd @ [''apps'', x_uuid_str x a, ''deployments'', x_uuid_str x e]"

lemmas path_defs = app_path_def deployments_path_def deployment_path_def

definition needed :: "externals \<Rightarrow> path \<Rightarrow> database \<Rightarrow> path set" where
  "needed x dd d =
     (\<lambda>a. deployments_path x dd (a_id a)) ` set (db_apps d)
     \<union> (\<lambda>e. deployment_path x dd (d_app_id e) (d_id e)) ` set (db_deployments d)"

definition used_ids :: "database \<Rightarrow> uuid set" where
  "used_ids d = a_id ` set (db_apps d) \<union> d_id ` set (db_deployments d)"

text \<open>
  \<open>housed x dd U K S s\<close>: the rows have their directories, and so do the extra paths \<open>S\<close>; the
  ids \<open>U\<close> are drawn and not yet used; \<open>K\<close> is what else is known of the tables.
\<close>

type_synonym rest = "path \<times> uuid list \<times> filesystem"

definition rest :: "world \<Rightarrow> rest" where
  "rest s = (data_dir s, fresh_ids s, fs s)"

definition hbody ::
  "externals \<Rightarrow> path \<Rightarrow> uuid set \<Rightarrow> (database \<Rightarrow> bool) \<Rightarrow> path set \<Rightarrow> rest \<Rightarrow> database \<Rightarrow> bool" where
  "hbody x dd U K S r d \<longleftrightarrow> (case r of (dir, ids, t) \<Rightarrow>
     dir = dd \<and> distinct ids \<and> (U \<union> used_ids d) \<inter> set ids = {} \<and> U \<inter> used_ids d = {} \<and> K d
     \<and> dirs_in (needed x dd d \<union> S) t)"

definition housed ::
  "externals \<Rightarrow> path \<Rightarrow> uuid set \<Rightarrow> (database \<Rightarrow> bool) \<Rightarrow> path set \<Rightarrow> world \<Rightarrow> bool" where
  "housed x dd U K S s \<longleftrightarrow> hbody x dd U K S (rest s) (db s)"

abbreviation anything :: "database \<Rightarrow> bool" where "anything \<equiv> \<lambda>_. True"

definition tree_ok :: "externals \<Rightarrow> path \<Rightarrow> world \<Rightarrow> bool" where
  "tree_ok x dd s \<longleftrightarrow> housed x dd {} anything {} s"

lemmas housed_defs = housed_def hbody_def rest_def

lemma housed_mono:
  "housed x dd U K S s \<Longrightarrow> U' \<subseteq> U \<Longrightarrow> S' \<subseteq> S \<Longrightarrow> (\<And>d. K d \<Longrightarrow> K' d) \<Longrightarrow> housed x dd U' K' S' s"
  unfolding housed_defs by (auto intro: dirs_in_mono)

lemma housed_tree_ok: "housed x dd U K S s \<Longrightarrow> tree_ok x dd s"
  unfolding tree_ok_def by (erule housed_mono) auto

lemma tree_ok_iff:
  "tree_ok x dd s \<longleftrightarrow> data_dir s = dd \<and> distinct (fresh_ids s) \<and> used_ids (db s) \<inter> set (fresh_ids s) = {}
     \<and> dirs_in (needed x dd (db s)) (fs s)"
  by (auto simp: tree_ok_def housed_defs)

section \<open>Paths\<close>

lemma needed_in_apps: "q \<in> needed x dd d \<Longrightarrow> prefix (dd @ [''apps'']) q"
  by (auto simp: needed_def path_defs)

lemma tmp_not_needed: "q \<in> needed x dd d \<Longrightarrow> \<not> prefix (dd @ ''tmp'' # p) q"
  by (auto simp: needed_def path_defs)

lemma needed_below_app:
  assumes "q \<in> needed x dd d" and "prefix (dd @ [''apps'', nm]) q"
  shows "\<exists>a. nm = x_uuid_str x a \<and> (a \<in> a_id ` set (db_apps d) \<or> a \<in> d_app_id ` set (db_deployments d))"
  using assms by (auto simp: needed_def path_defs)

lemma needed_below_deployment:
  assumes "q \<in> needed x dd d" and "prefix (dd @ [''apps'', nm, ''deployments'', nm']) q"
  shows "\<exists>e\<in>set (db_deployments d). nm = x_uuid_str x (d_app_id e) \<and> nm' = x_uuid_str x (d_id e)"
  using assms by (auto simp: needed_def path_defs)

section \<open>How a step affects the directories\<close>

lemma triple_param:
  assumes "leaves g m" and "\<And>c. triple (P c) m (Q c) (E c)"
  shows "triple (\<lambda>s. P (g s) s) m (\<lambda>a s. Q (g s) a s) (\<lambda>s. E (g s) s)"
  by (rule tripleI)
     (use assms triple_Done [OF assms(2)] triple_Fail [OF assms(2)] triple_Crash [OF assms(2)]
        leavesD [OF assms(1)] in metis)+

definition meta :: "world \<Rightarrow> path \<times> uuid list \<times> database" where
  "meta s = (data_dir s, fresh_ids s, db s)"

definition core :: "world \<Rightarrow> path \<times> uuid list \<times> database \<times> filesystem" where
  "core s = (data_dir s, fresh_ids s, db s, fs s)"

lemma keeps_housed_core:
  assumes "leaves core m" shows "keeps (housed x dd U K S) m"
proof -
  have "housed x dd U K S = (\<lambda>s. (\<lambda>(dir, ids, d, t). hbody x dd U K S (dir, ids, t) d) (core s))"
    by (simp add: fun_eq_iff housed_def rest_def core_def)
  then show ?thesis using keeps_leaves [OF assms, of "\<lambda>(dir, ids, d, t). hbody x dd U K S (dir, ids, t) d"] by simp
qed

lemma triple_housed_core:
  assumes "leaves core m" shows "triple (housed x dd U K S) m (\<lambda>_. housed x dd U K S) (tree_ok x dd)"
  by (rule triple_keeps [OF keeps_housed_core [OF assms]]) (rule housed_tree_ok)

text \<open>A step on the tree only.\<close>

lemma triple_housed_fs:
  assumes "leaves meta m"
    and step: "\<And>d. U \<inter> used_ids d = {} \<Longrightarrow> K d \<Longrightarrow>
      triple (\<lambda>s. dirs_in (needed x dd d \<union> S) (fs s)) m
        (\<lambda>a s. dirs_in (needed x dd d \<union> S' a) (fs s)) (\<lambda>s. dirs_in (needed x dd d \<union> S'') (fs s))"
  shows "triple (housed x dd U K S) m (\<lambda>a. housed x dd U K (S' a)) (housed x dd U K S'')"
proof -
  let ?C = "\<lambda>(dir, ids, d). dir = dd \<and> distinct ids \<and> (U \<union> used_ids d) \<inter> set ids = {} \<and> U \<inter> used_ids d = {} \<and> K d"
  let ?I = "\<lambda>S c s. ?C c \<and> dirs_in (needed x dd (snd (snd c)) \<union> S) (fs s)"
  have "triple (?I S c) m (\<lambda>a. ?I (S' a) c) (?I S'' c)" for c
  proof (cases "?C c")
    case True
    then show ?thesis using step [of "snd (snd c)"] by (auto simp: case_prod_beta)
  next
    case False
    then have "\<not> ?I S c s" for s by blast
    then show ?thesis by (simp only: triple_def) blast
  qed
  from triple_param [OF assms(1), of "?I S" "\<lambda>c a. ?I (S' a) c" "?I S''", OF this]
  show ?thesis
    by (rule triple_conseq) (auto simp: housed_defs meta_def)
qed

lemma triple_housed_fs':
  assumes "leaves meta m"
    and "\<And>d. U \<inter> used_ids d = {} \<Longrightarrow> K d \<Longrightarrow>
      triple (\<lambda>s. dirs_in (needed x dd d \<union> S) (fs s)) m
        (\<lambda>a s. dirs_in (needed x dd d \<union> S' a) (fs s)) (\<lambda>s. dirs_in (needed x dd d \<union> S'') (fs s))"
  shows "triple (housed x dd U K S) m (\<lambda>a. housed x dd U K (S' a)) (tree_ok x dd)"
  by (rule triple_conseq [OF triple_housed_fs [where S' = S', OF assms]]) (auto dest: housed_tree_ok)

text \<open>A statement on the tables: the rows it adds must have their directories already.\<close>

lemma housed_grow:
  assumes "hbody x dd U K S r d"
    and "used_ids d' \<subseteq> used_ids d \<union> V" and "V \<subseteq> U" and "K' d'"
    and "needed x dd d' \<subseteq> needed x dd d \<union> S"
  shows "hbody x dd (U - V) K' S r d'"
  using assms unfolding hbody_def by (auto split: prod.splits intro: dirs_in_mono)

lemma hbody_shrink:
  assumes "hbody x dd U K S r d" and "used_ids d' \<subseteq> used_ids d" and "needed x dd d' \<subseteq> needed x dd d" and "K' d'"
  shows "hbody x dd U K' S r d'"
  using housed_grow [OF assms(1), of d' "{}" K'] assms(2-4) by auto

lemma triple_housed_db:
  assumes "\<And>d a d'. K d \<Longrightarrow> U \<inter> used_ids d = {} \<Longrightarrow> f d = Some (a, d') \<Longrightarrow> used_ids d' \<subseteq> used_ids d \<union> V \<and> K' a d'
      \<and> needed x dd d' \<subseteq> needed x dd d \<union> S" and "V \<subseteq> U"
  shows "triple (housed x dd U K S) (db_write f) (\<lambda>a. housed x dd (U - V) (K' a) S) (housed x dd U K S)"
proof -
  have grow: "triple (\<lambda>s. hbody x dd U K S c (db s)) (db_write f)
      (\<lambda>a s. hbody x dd (U - V) (K' a) S c (db s)) (\<lambda>s. hbody x dd U K S c (db s))" for c
  proof (rule triple_db_write)
    fix d a d' assume h: "hbody x dd U K S c d" and "f d = Some (a, d')"
    moreover from h have "K d" "U \<inter> used_ids d = {}" by (auto simp: hbody_def)
    ultimately show "hbody x dd (U - V) (K' a) S c d'"
      using assms(1) [of d a d'] by (intro housed_grow [OF h _ assms(2)]) auto
  qed
  have "leaves rest (db_write f)" by (intro leaves_intros) (simp_all add: rest_def)
  from triple_param [OF this grow] show ?thesis unfolding housed_def [abs_def] .
qed

text \<open>A transaction, from what its body does to the tables.\<close>

lemma triple_housed_tx:
  assumes "leaves rest m"
    and "\<And>r. triple (\<lambda>s. hbody x dd U K S r (db s)) m (\<lambda>a s. hbody x dd U' (K' a) S r (db s)) (\<lambda>_. True)"
  shows "triple (housed x dd U K S) (transaction m) (\<lambda>a. housed x dd U' (K' a) S) (housed x dd U K S)"
proof -
  have "leaves rest (transaction m)" by (intro leaves_intros assms(1)) (simp_all add: rest_def)
  moreover have "triple (\<lambda>s. hbody x dd U K S r (db s)) (transaction m)
      (\<lambda>a s. hbody x dd U' (K' a) S r (db s)) (\<lambda>s. hbody x dd U K S r (db s))" for r
    by (rule triple_transaction [OF assms(2)])
  ultimately show ?thesis unfolding housed_def [abs_def] by (rule triple_param)
qed


lemma triple_housed_tx':
  assumes "leaves rest m"
    and "\<And>r. triple (\<lambda>s. hbody x dd U K S r (db s)) m (\<lambda>a s. hbody x dd U' (K' a) S r (db s)) (\<lambda>_. True)"
  shows "triple (housed x dd U K S) (transaction m) (\<lambda>a. housed x dd U' (K' a) S) (tree_ok x dd)"
  by (rule triple_conseq [OF triple_housed_tx [OF assms]]) (auto dest: housed_tree_ok)

section \<open>The steps of the storage operations\<close>

text \<open>Drawing an id.\<close>

lemma triple_housed_now_v7:
  "triple (housed x dd U K S) now_v7 (\<lambda>u. housed x dd (insert u U) (\<lambda>d. K d \<and> u \<notin> used_ids d) S) (tree_ok x dd)"
proof -
  have "housed x dd (insert u U) (\<lambda>d. K d \<and> u \<notin> used_ids d) S (s\<lparr>fresh_ids := us\<rparr>)"
    if "housed x dd U K S s" "fresh_ids s = u # us" for s u us
    using that by (auto simp: housed_defs)
  then show ?thesis
    by (auto simp: triple_def now_v7_def intro: housed_tree_ok split: list.split)
qed

text \<open>Calls that only add to the tree, or work below \<open>tmp\<close>.\<close>

lemma meta_fs: "fs_only m \<Longrightarrow> leaves meta m"
  by (rule fs_only_leaves) (simp_all add: meta_def)

lemma meta_io: "leaves meta m \<Longrightarrow> leaves meta (io m)"
  by (rule leaves_io)

lemma triple_housed_create_dir:
  assumes "p \<noteq> []"
  shows "triple (housed x dd U K S) (io (create_dir p)) (\<lambda>_. housed x dd U K (insert p S)) (tree_ok x dd)"
  by (rule triple_housed_fs' [where S'' = S])
     (use triple_io [OF triple_create_dir [OF assms]] in \<open>auto intro: meta_io meta_fs fs_only_ops\<close>)

lemma triple_remove_dir_all_quiet:
  assumes "\<forall>q\<in>D. \<not> prefix p q" and "p \<noteq> []"
  shows "triple (\<lambda>s. dirs_in D (fs s)) (remove_dir_all_quiet p) (\<lambda>_ s. dirs_in D (fs s)) (\<lambda>s. dirs_in D (fs s))"
  unfolding remove_dir_all_quiet_def keeps_iff_triple [symmetric]
  by (rule keeps_ignore [OF keeps_remove_dir_all [OF assms]])

lemma meta_remove_dir_all_quiet: "leaves meta (remove_dir_all_quiet p)"
  by (rule leaves_cleanup) (simp add: meta_def)

text \<open>Below \<open>tmp\<close> anything may be removed.\<close>

lemma triple_housed_remove_tmp:
  "triple (housed x dd U K S) (remove_dir_all_quiet (dd @ ''tmp'' # p)) (\<lambda>_. housed x dd U K {}) (tree_ok x dd)"
  by (rule triple_pre [OF triple_housed_fs' [where S = "{}" and S'' = "{}"]])
     (auto intro!: triple_remove_dir_all_quiet meta_remove_dir_all_quiet dest: tmp_not_needed elim: housed_mono)

lemma triple_housed_remove_dir_tmp:
  "triple (housed x dd U K S) (io (remove_dir_all (dd @ ''tmp'' # p))) (\<lambda>_. housed x dd U K {}) (tree_ok x dd)"
proof (rule triple_pre [OF triple_housed_fs' [where S = "{}" and S'' = "{}"]])
  show "leaves meta (io (remove_dir_all (dd @ ''tmp'' # p)))" by (intro meta_io meta_fs fs_only_ops)
  show "triple (\<lambda>s. dirs_in (needed x dd d \<union> {}) (fs s)) (io (remove_dir_all (dd @ ''tmp'' # p)))
      (\<lambda>_ s. dirs_in (needed x dd d \<union> {}) (fs s)) (\<lambda>s. dirs_in (needed x dd d \<union> {}) (fs s))" for d
    unfolding keeps_iff_triple [symmetric]
    by (intro keeps_io keeps_remove_dir_all) (auto dest: tmp_not_needed)
qed (auto elim: housed_mono)

text \<open>Moving a directory out of \<open>tmp\<close>: what is known below it goes with it.\<close>

lemma triple_housed_rename_from_tmp:
  assumes "src = dd @ ''tmp'' # p" and "dst \<noteq> src" and "dst \<noteq> []"
  shows "triple (housed x dd U K ((@) src ` R)) (io (rename src dst))
    (\<lambda>_. housed x dd U K ((@) dst ` R)) (tree_ok x dd)"
proof (rule triple_housed_fs' [where S'' = "(@) src ` R"])
  show "leaves meta (io (rename src dst))" by (intro meta_io meta_fs fs_only_ops)
  show "triple (\<lambda>s. dirs_in (needed x dd d \<union> (@) src ` R) (fs s)) (io (rename src dst))
      (\<lambda>_ s. dirs_in (needed x dd d \<union> (@) dst ` R) (fs s)) (\<lambda>s. dirs_in (needed x dd d \<union> (@) src ` R) (fs s))" for d
    by (rule triple_io [OF triple_rename]) (use assms tmp_not_needed in auto)
qed

text \<open>Moving a directory away that no row needs.\<close>

lemma triple_housed_rename_away:
  assumes "\<And>d q. U \<inter> used_ids d = {} \<Longrightarrow> K d \<Longrightarrow> q \<in> needed x dd d \<Longrightarrow> \<not> prefix src q" and "src \<noteq> dst"
    and "src \<noteq> []" and "dst \<noteq> []"
  shows "triple (housed x dd U K S) (rename src dst) (\<lambda>_. housed x dd U K {}) (tree_ok x dd)"
proof (rule triple_pre [OF triple_housed_fs' [where S = "{}" and S'' = "{}"]])
  show "leaves meta (rename src dst)" by (intro meta_fs fs_only_ops)
  show "triple (\<lambda>s. dirs_in (needed x dd d \<union> {}) (fs s)) (rename src dst)
      (\<lambda>_ s. dirs_in (needed x dd d \<union> {}) (fs s)) (\<lambda>s. dirs_in (needed x dd d \<union> {}) (fs s))"
    if "U \<inter> used_ids d = {}" "K d" for d
    using keeps_rename [of "needed x dd d" src dst] assms that by (simp add: keeps_iff_triple)
qed (auto elim: housed_mono)

lemma triple_unique_tmp_path:
  "triple (housed x dd U K S) (unique_tmp_path pre)
     (\<lambda>p s. housed x dd U K S s \<and> (\<exists>nm. p = dd @ [''tmp'', nm])) (tree_ok x dd)"
proof (rule tripleI)
  fix s p s' assume h: "housed x dd U K S s" and run: "unique_tmp_path pre s = (Done p, s')"
  then have "s' = s\<lparr>id_seq := id_seq s + 1\<rparr>" "\<exists>nm. p = data_dir s @ [''tmp'', nm]"
    by (auto simp: unique_tmp_path_def bindc_def gets_def next_seq_def ret_def tmp_dir_def)
  then show "housed x dd U K S s' \<and> (\<exists>nm. p = dd @ [''tmp'', nm])" using h by (auto simp: housed_defs)
qed (auto simp: unique_tmp_path_def bindc_def gets_def next_seq_def ret_def)

section \<open>Statements\<close>

lemma keeps_housed_db:
  assumes "\<And>d a d'. f d = Some (a, d') \<Longrightarrow> used_ids d' \<subseteq> used_ids d \<and> needed x dd d' \<subseteq> needed x dd d"
  shows "keeps (tree_ok x dd) (db_write f)"
proof -
  have "triple (housed x dd {} anything {}) (db_write f) (\<lambda>_. housed x dd ({} - {}) anything {}) (housed x dd {} anything {})"
    by (rule triple_housed_db) (use assms in auto)
  then show ?thesis by (simp add: tree_ok_def [abs_def] keeps_iff_triple)
qed

lemma used_ids_plain [simp]:
  "used_ids (d\<lparr>db_users := us\<rparr>) = used_ids d" "used_ids (d\<lparr>db_tokens := ts\<rparr>) = used_ids d"
  "used_ids (d\<lparr>db_hosts := hs\<rparr>) = used_ids d" "used_ids (d\<lparr>db_permissions := ps\<rparr>) = used_ids d"
  "used_ids (d\<lparr>seq_users := n\<rparr>) = used_ids d" "used_ids (d\<lparr>seq_tokens := n\<rparr>) = used_ids d"
  "used_ids (d\<lparr>seq_hosts := n\<rparr>) = used_ids d" "used_ids (d\<lparr>seq_permissions := n\<rparr>) = used_ids d"
  by (simp_all add: used_ids_def)

lemma needed_plain [simp]:
  "needed x dd (d\<lparr>db_users := us\<rparr>) = needed x dd d" "needed x dd (d\<lparr>db_tokens := ts\<rparr>) = needed x dd d"
  "needed x dd (d\<lparr>db_hosts := hs\<rparr>) = needed x dd d" "needed x dd (d\<lparr>db_permissions := ps\<rparr>) = needed x dd d"
  "needed x dd (d\<lparr>seq_users := n\<rparr>) = needed x dd d" "needed x dd (d\<lparr>seq_tokens := n\<rparr>) = needed x dd d"
  "needed x dd (d\<lparr>seq_hosts := n\<rparr>) = needed x dd d" "needed x dd (d\<lparr>seq_permissions := n\<rparr>) = needed x dd d"
  by (simp_all add: needed_def)

lemma needed_deletes:
  "needed x dd (d\<lparr>db_apps := filter P (db_apps d)\<rparr>) \<subseteq> needed x dd d"
  "needed x dd (d\<lparr>db_deployments := filter Q (db_deployments d)\<rparr>) \<subseteq> needed x dd d"
  "used_ids (d\<lparr>db_apps := filter P (db_apps d)\<rparr>) \<subseteq> used_ids d"
  "used_ids (d\<lparr>db_deployments := filter Q (db_deployments d)\<rparr>) \<subseteq> used_ids d"
  by (auto simp: needed_def used_ids_def)

lemma tree_rows:
  "keeps (tree_ok x dd) (insert_user u)" "keeps (tree_ok x dd) (insert_token t)"
  "keeps (tree_ok x dd) (insert_host h)" "keeps (tree_ok x dd) (insert_permission p)"
  "keeps (tree_ok x dd) (update_user u uf)" "keeps (tree_ok x dd) (update_token t tf)"
  "keeps (tree_ok x dd) (update_host h hf)" "keeps (tree_ok x dd) (delete_users P)"
  "keeps (tree_ok x dd) (delete_permissions pP)"
  unfolding insert_defs row_update_defs delete_defs Let_def by ((rule keeps_housed_db, force)+)

lemma image_updated:
  assumes "\<And>q. h (f q) = h q"
  shows "h ` set (map (\<lambda>r. if P r then f r else r) rs) = h ` set rs"
proof -
  have "map h (map (\<lambda>r. if P r then f r else r) rs) = map h rs" using assms by simp
  then show ?thesis by (metis set_map)
qed

lemma tree_update_app_row:
  assumes "\<And>q. a_id (f q) = a_id q"
  shows "keeps (tree_ok x dd) (update_app_row r f)"
  unfolding update_app_row_def
proof (rule keeps_housed_db)
  fix d d' :: database and a assume "map_option (\<lambda>rs. (f r, d\<lparr>db_apps := rs\<rparr>))
      (update_rows app_clash (\<lambda>q. a_id q = a_id r) f (db_apps d)) = Some (a, d')"
  then have d': "d' = d\<lparr>db_apps := map (\<lambda>q. if a_id q = a_id r then f q else q) (db_apps d)\<rparr>"
    by (auto dest!: apps_by_id.upd_rows)
  have rows: "db_apps d' = map (\<lambda>q. if a_id q = a_id r then f q else q) (db_apps d)"
    "db_deployments d' = db_deployments d" by (simp_all add: d')
  have "a_id ` set (db_apps d') = a_id ` set (db_apps d)"
    "(\<lambda>a. deployments_path x dd (a_id a)) ` set (db_apps d') = (\<lambda>a. deployments_path x dd (a_id a)) ` set (db_apps d)"
    unfolding rows using assms by (intro image_updated; simp)+
  then show "used_ids d' \<subseteq> used_ids d \<and> needed x dd d' \<subseteq> needed x dd d"
    unfolding used_ids_def needed_def rows(2) by simp
qed

lemma tree_update_deployment:
  assumes "\<And>q. d_id (f q) = d_id q" and "\<And>q. d_app_id (f q) = d_app_id q"
  shows "keeps (tree_ok x dd) (update_deployment r f)"
  unfolding update_deployment_def
proof (rule keeps_housed_db)
  fix d d' :: database and a assume "map_option (\<lambda>rs. (f r, d\<lparr>db_deployments := rs\<rparr>))
      (update_rows deployment_clash (\<lambda>q. d_id q = d_id r) f (db_deployments d)) = Some (a, d')"
  then have d': "d' = d\<lparr>db_deployments := map (\<lambda>q. if d_id q = d_id r then f q else q) (db_deployments d)\<rparr>"
    by (auto dest!: deployments_by_id.upd_rows)
  have rows: "db_deployments d' = map (\<lambda>q. if d_id q = d_id r then f q else q) (db_deployments d)"
    "db_apps d' = db_apps d" by (simp_all add: d')
  have "d_id ` set (db_deployments d') = d_id ` set (db_deployments d)"
    "(\<lambda>e. deployment_path x dd (d_app_id e) (d_id e)) ` set (db_deployments d')
      = (\<lambda>e. deployment_path x dd (d_app_id e) (d_id e)) ` set (db_deployments d)"
    unfolding rows using assms by (intro image_updated; simp)+
  then show "used_ids d' \<subseteq> used_ids d \<and> needed x dd d' \<subseteq> needed x dd d"
    unfolding used_ids_def needed_def rows(2) by simp
qed

lemma keeps_tree_core: "leaves core m \<Longrightarrow> keeps (tree_ok x dd) m"
  unfolding tree_ok_def [abs_def] by (rule keeps_housed_core)

text \<open>What leaves tables, tree and ids alone.\<close>

lemma core_lookups:
  "leaves core (find_app_row nm)" "leaves core (find_app_row_by_id x aid)"
  "leaves core (find_deployment_row x k did)" "leaves core (find_user_id nm)"
  "leaves core (load_permissions row)" "leaves core (app_from_row_with_permissions x row)"
  "leaves core (validate_host_id hid)" "leaves core (validate_source src)"
  "leaves core (resolve_env_var_inputs x ins ex)" "leaves core (list_apps x)" "leaves core (get_app x nm)"
  "leaves core (get_app_by_id x aid)" "leaves core (list_deployments x aid)"
  "leaves core (get_deployment x aid did)" "leaves core (active_deployment_id x aid)"
  "leaves core (sweep_agent_orphaned_deployment_dirs x)" if "True"
  by (intro leaves_intros; simp add: core_def)+

lemma core_basic:
  "leaves core (unique_tmp_path pre)" "leaves core (db_first tbl P)" "leaves core (db_all tbl Q)"
  "leaves core (spawn t)" "leaves core (lift_model r)" "leaves core (gets g)" "leaves core (guardc b e)"
  "leaves core (ok_or e' v)" "leaves core (from_sum w)" "leaves core (ret a)"
  by (intro leaves_intros; simp add: core_def)+

lemmas tree_core = core_lookups [OF TrueI, THEN keeps_tree_core] core_basic [THEN keeps_tree_core]

lemma keeps_tree_tx:
  assumes "leaves rest m" and "\<And>r. triple (\<lambda>s. hbody x dd {} anything {} r (db s)) m (\<lambda>_ s. hbody x dd {} anything {} r (db s)) (\<lambda>_. True)"
  shows "keeps (tree_ok x dd) (transaction m)"
  using triple_housed_tx [OF assms] by (simp add: tree_ok_def [abs_def] keeps_iff_triple)

lemmas tree_steps = keeps_intros tree_core tree_rows

section \<open>The operations on apps\<close>

lemma tree_remove_tmp: "triple (tree_ok x dd) (remove_dir_all_quiet (dd @ ''tmp'' # p)) (\<lambda>_. tree_ok x dd) (tree_ok x dd)"
  by (rule triple_conseq [OF triple_housed_remove_tmp [where U = "{}" and K = anything and S = "{}"]])
     (auto simp: tree_ok_def)

lemma triple_housed_place:
  assumes "src = dd @ ''tmp'' # p" and "dst \<noteq> src" and "dst \<noteq> []"
  shows "triple (housed x dd U K ((@) src ` R)) (on_error (io (rename src dst)) (\<lambda>_. remove_dir_all_quiet src))
    (\<lambda>_. housed x dd U K ((@) dst ` R)) (tree_ok x dd)"
  by (rule triple_on_error [OF triple_housed_rename_from_tmp [OF assms]])
     (auto simp: assms(1) intro: tree_remove_tmp)

lemma triple_skip:
  assumes "leaves core m" and "\<And>a. triple (housed x dd U K S) (k a) Q (tree_ok x dd)"
  shows "triple (housed x dd U K S) (bindc m k) Q (tree_ok x dd)"
  by (rule triple_bindc [OF triple_housed_core [OF assms(1)] assms(2)])

lemma tree_create_app_rows:
  assumes "deployments_path x dd u \<in> S"
  shows "triple (\<lambda>s. hbody x dd {u} K S r (db s)) (create_app_rows x u nm src vs hid cid now)
    (\<lambda>_ s. hbody x dd {} anything S r (db s)) (\<lambda>_. True)"
proof -
  have ins: "triple (\<lambda>s. hbody x dd {u} K S r (db s)) (insert_app a) (\<lambda>_ s. hbody x dd {} anything S r (db s)) (\<lambda>_. True)"
    if "a_id a = u" for a
    unfolding insert_app_def
  proof (rule triple_db_write_any)
    fix d q d' assume h: "hbody x dd {u} K S r d"
      and "map_option (\<lambda>rs. (a, d\<lparr>db_apps := rs\<rparr>)) (insert_row app_clash a (db_apps d)) = Some (q, d')"
    then have "d' = d\<lparr>db_apps := db_apps d @ [a]\<rparr>" by (auto simp: insert_row_Some)
    then have "hbody x dd ({u} - {u}) anything S r d'"
      using assms that by (intro housed_grow [OF h]) (auto simp: used_ids_def needed_def)
    then show "hbody x dd {} anything S r d'" by simp
  qed
  have perm: "triple (\<lambda>s. hbody x dd {} anything S r (db s)) (insert_permission p) (\<lambda>_ s. hbody x dd {} anything S r (db s)) (\<lambda>_. True)" for p
    unfolding insert_permission_def Let_def by (rule triple_db_write_any) (auto simp: hbody_def)
  show ?thesis
    unfolding create_app_rows_def
    apply (rule triple_bindc [OF triple_map_err [OF triple_from_sum [where Q = "\<lambda>_ s. hbody x dd {u} K S r (db s)"]]], assumption, simp)
    apply (rule triple_bindc [OF triple_map_err [OF triple_from_sum [where Q = "\<lambda>_ s. hbody x dd {u} K S r (db s)"]]], assumption, simp)
    apply (rule triple_bindc [OF ins], simp)
    apply (rule triple_bindc [where Q = "\<lambda>_ s. hbody x dd {} anything S r (db s)"])
     apply (rule triple_case_option)
      apply (rule triple_ret, assumption)
     apply (rule triple_bindc [OF perm])
     apply (rule triple_ret, assumption)
    apply (rule triple_ret, assumption)
    done
qed

lemma core_creator: "leaves core (case creator of Some n \<Rightarrow> bindc (find_user_id n) (\<lambda>i. ret (Some i)) | None \<Rightarrow> ret None)"
  by (intro leaves_intros core_lookups TrueI)

lemma rest_create_app_rows: "leaves rest (create_app_rows x u nm src vs hid cid now)"
  unfolding create_app_rows_def by (intro leaves_intros; simp add: rest_def)

lemma triple_housed_gets:
  "(\<And>s. housed x dd U K S s \<Longrightarrow> A (f s)) \<Longrightarrow> (\<And>a. A a \<Longrightarrow> triple (housed x dd U K S) (k a) Q E)
    \<Longrightarrow> triple (housed x dd U K S) (bindc (gets f) k) Q E"
  by (simp add: triple_def)

lemma triple_with_tmp:
  assumes "\<And>nm. triple (housed x dd U K S) (k (dd @ [''tmp'', nm])) Q (tree_ok x dd)"
  shows "triple (housed x dd U K S) (bindc (unique_tmp_path pre) k) Q (tree_ok x dd)"
proof (rule triple_bindc [OF triple_unique_tmp_path])
  fix p
  show "triple (\<lambda>s. housed x dd U K S s \<and> (\<exists>nm. p = dd @ [''tmp'', nm])) (k p) Q (tree_ok x dd)"
    by (rule triple_assume) (use assms in blast)
qed

lemma triple_housed_create_sub:
  "triple (housed x dd U K ((@) p ` R)) (io (create_dir (p @ [c]))) (\<lambda>_. housed x dd U K ((@) p ` insert [c] R)) (tree_ok x dd)"
  using triple_housed_create_dir [of "p @ [c]" x dd U K "(@) p ` R"] by simp

lemma triple_housed_create_top:
  "p \<noteq> [] \<Longrightarrow> triple (housed x dd U K {}) (io (create_dir p)) (\<lambda>_. housed x dd U K ((@) p ` {[]})) (tree_ok x dd)"
  using triple_housed_create_dir [of p x dd U K "{}"] by simp

lemma keeps_tree_triple:
  "triple (housed x dd {} anything {}) m (\<lambda>_. tree_ok x dd) (tree_ok x dd) \<Longrightarrow> keeps (tree_ok x dd) m"
  by (simp add: keeps_iff_triple tree_ok_def [abs_def])

lemma triple_tree_end: "keeps (tree_ok x dd) m \<Longrightarrow> triple (housed x dd U K S) m (\<lambda>_. tree_ok x dd) (tree_ok x dd)"
  by (rule triple_conseq [OF triple_keeps [of "tree_ok x dd" m "tree_ok x dd"]]) (auto dest: housed_tree_ok)

lemma tree_create_app: "keeps (tree_ok x dd) (create_app x nm src vs creator hid)"
  unfolding create_app_def create_app_rows_def [symmetric]
  apply (rule keeps_tree_triple)
  apply (rule triple_skip, rule core_basic)
  apply (rule triple_skip, rule core_basic)
  apply (rule triple_skip, rule core_lookups, rule TrueI)
  apply (rule triple_skip, rule core_lookups, rule TrueI)
  apply (rule triple_skip, rule core_basic)
  apply (rule triple_skip, rule core_basic)
  apply (rule triple_skip, rule core_lookups, rule TrueI)
  apply (rule triple_skip, rule core_creator)
  apply (rule triple_bindc [OF triple_housed_now_v7])
  apply (rule triple_with_tmp)
  apply (rule triple_bindc [OF triple_housed_create_top], simp)
  apply (rule triple_bindc [OF triple_housed_create_sub])
  subgoal for _ _ _ _ _ _ _ _ u nm
    apply (rule triple_housed_gets [where A = "\<lambda>p. p = app_path x dd u"])
     apply (simp add: housed_defs apps_dir_def app_path_def)
    apply (simp only:)
    apply (rule triple_bindc [OF triple_housed_place [where p = "[nm]"]], simp, simp add: app_path_def, simp add: app_path_def)
    apply (rule triple_skip, rule core_basic)
    apply (rule triple_bindc [OF triple_housed_tx' [OF rest_create_app_rows tree_create_app_rows]])
     apply (simp add: path_defs)
    apply (rule triple_tree_end)
    apply (intro keeps_tree_core core_lookups TrueI)
    done
  done


lemma tree_update_app: "keeps (tree_ok x dd) (update_app x aid nm vs hid)"
  unfolding update_app_def
  by (intro keeps_intros tree_core tree_update_app_row; simp)

lemma tree_update_app_permissions: "keeps (tree_ok x dd) (update_app_permissions x aid ps)"
proof -
  let ?J = "\<lambda>r s. hbody x dd {} anything {} r (db s)"
  have del: "triple (?J r) (delete_permissions P) (\<lambda>_. ?J r) (\<lambda>_. True)" for r P
    unfolding delete_permissions_def by (rule triple_db_write_any) (auto simp: hbody_def)
  have ins: "triple (?J r) (insert_permission p) (\<lambda>_. ?J r) (\<lambda>_. True)" for r p
    unfolding insert_permission_def Let_def by (rule triple_db_write_any) (auto simp: hbody_def)
  have one: "triple (?J r) (bindc (insert_permission p) (\<lambda>_. ret ())) (\<lambda>_. ?J r) (\<lambda>_. True)" for r p
    by (rule triple_bindc [OF ins]) (rule triple_ret)
  show ?thesis
    unfolding update_app_permissions_def
    apply (intro keeps_intros tree_core)
    apply (rule keeps_tree_tx)
     apply (intro leaves_intros; simp add: rest_def)
    apply (rule triple_bindc [OF del])
    apply (rule triple_forc)
    apply (simp add: case_prod_beta one)
    done
qed

text \<open>Deleting an app: its rows first, so nothing needs its directory any more.\<close>

abbreviation no_app :: "uuid \<Rightarrow> database \<Rightarrow> bool" where
  "no_app k \<equiv> \<lambda>d. k \<notin> a_id ` set (db_apps d) \<and> k \<notin> d_app_id ` set (db_deployments d)"

lemma app_not_needed:
  assumes "uuid_ok x" and "no_app k d" and q: "q \<in> needed x dd d"
  shows "\<not> prefix (app_path x dd k) q"
proof
  assume "prefix (app_path x dd k) q"
  then have "prefix (dd @ [''apps'', x_uuid_str x k]) q" by (simp add: app_path_def)
  then obtain a where "x_uuid_str x k = x_uuid_str x a" and "a \<in> a_id ` set (db_apps d) \<or> a \<in> d_app_id ` set (db_deployments d)"
    using needed_below_app [OF q] by blast
  then show False using assms(1,2) by (simp add: uuid_str_inj)
qed

lemma tree_delete_app:
  assumes "uuid_ok x"
  shows "keeps (tree_ok x dd) (delete_app x aid)"
proof -
  let ?J = "\<lambda>K r s. hbody x dd {} K {} r (db s)"
  let ?N = "\<lambda>k d. k \<notin> d_app_id ` set (db_deployments d)"
  have a: "triple (?J anything r) (delete_deployments (\<lambda>e. d_app_id e = k)) (\<lambda>_. ?J (?N k) r) (\<lambda>_. True)" for k r
    unfolding delete_deployments_def
    by (rule triple_db_write_any) (auto elim!: hbody_shrink dest!: needed_deletes [THEN subsetD] simp: delete_rows_def)
  have b: "triple (?J (?N k) r) (delete_permissions P) (\<lambda>_. ?J (?N k) r) (\<lambda>_. True)" for k r P
    unfolding delete_permissions_def by (rule triple_db_write_any) (auto simp: hbody_def)
  have c: "triple (?J (?N k) r) (delete_apps (\<lambda>a. a_id a = k)) (\<lambda>_. ?J (no_app k) r) (\<lambda>_. True)" for k r
    unfolding delete_apps_def
  proof (rule triple_db_write_any)
    fix d d' q assume h: "hbody x dd {} (?N k) {} r d"
      and "Some ((), d\<lparr>db_apps := delete_rows (\<lambda>a. a_id a = k) (db_apps d)\<rparr>) = Some (q, d')"
    moreover from h have "?N k d" by (auto simp: hbody_def)
    ultimately show "hbody x dd {} (no_app k) {} r d'"
      by (auto intro!: hbody_shrink [OF h] dest!: needed_deletes [THEN subsetD] simp: delete_rows_def)
  qed
  have tx: "triple (housed x dd {} anything {}) (transaction (bindc (delete_deployments (\<lambda>e. d_app_id e = k)) (\<lambda>_.
        bindc (delete_permissions (\<lambda>p. p_app_id p = k)) (\<lambda>_. delete_apps (\<lambda>a. a_id a = k)))))
      (\<lambda>_. housed x dd {} (no_app k) {}) (tree_ok x dd)" for k
    by (rule triple_housed_tx')
       (intro leaves_intros triple_bindc [OF a] triple_bindc [OF b] c; simp add: rest_def)+
  show ?thesis
    unfolding delete_app_def
    apply (rule keeps_tree_triple)
    apply (rule triple_skip, rule core_lookups, rule TrueI)
    apply (rule triple_bindc [OF tx])
    apply (rule triple_with_tmp)
    subgoal for row _ nm
      apply (rule triple_housed_gets [where A = "\<lambda>p. p = app_path x dd (a_id row)"])
       apply (simp add: housed_defs apps_dir_def app_path_def)
      apply (simp only:)
      apply (rule triple_bindc [OF triple_io [OF triple_housed_rename_away]])
          apply (erule (1) app_not_needed [OF assms])
         apply (simp_all add: app_path_def)
      apply (rule triple_post [OF triple_housed_remove_dir_tmp])
      apply (erule housed_tree_ok)
      done
    done
qed

section \<open>Calls that destroy nothing\<close>

lemma triple_housed_keep:
  assumes "leaves meta m" and "\<And>D. keeps (\<lambda>s. dirs_in D (fs s)) m"
  shows "triple (housed x dd U K S) m (\<lambda>_. housed x dd U K S) (housed x dd U K S)"
  by (rule triple_housed_fs [OF assms(1)]) (use assms(2) in \<open>simp add: keeps_iff_triple\<close>)

lemma keeps_housed_keep:
  "leaves meta m \<Longrightarrow> (\<And>D. keeps (\<lambda>s. dirs_in D (fs s)) m) \<Longrightarrow> keeps (housed x dd U K S) m"
  unfolding keeps_iff_triple [of "housed x dd U K S"] by (rule triple_housed_keep)

lemma keeps_dirs_create_dir_all: "keeps (\<lambda>s. dirs_in D (fs s)) (create_dir_all p)"
  unfolding keeps_iff_triple by (rule triple_post [OF triple_create_dir_all]) (auto intro: dirs_in_mono)

lemma keeps_dirs_unpack_zip:
  assumes "dest \<noteq> []"
  shows "keeps (\<lambda>s. dirs_in D (fs s)) (unpack_zip x bytes dest mx)"
  unfolding unpack_zip_def extract_entry_def Let_def
  by (intro keeps_intros keeps_dirs_create_dir_all keeps_write_file) (use assms in simp_all)

lemma leaves_reads:
  assumes "\<And>s f. g (s\<lparr>faults := f\<rparr>) = g s"
  shows "leaves g (read_dir p)" "leaves g (read_file p)" "leaves g (file_len p)"
  unfolding read_dir_def read_file_def file_len_def
  by (intro leaves_ext_call assms; auto simp: leaves_def split: option.splits node.splits)+

lemma core_faults: "core (s\<lparr>faults := f\<rparr>) = core s"
  by (simp add: core_def)

lemmas core_reads = leaves_reads [where g = core, OF core_faults]

lemma core_read_dir_if_present: "leaves core (read_dir_if_present p)"
  unfolding read_dir_if_present_def by (intro leaves_attempt leaves_bindc leaves_case_sum leaves_if leaves_ret leaves_throw core_reads)

lemma core_walks: "leaves core (dir_size_bytes n dir)" "leaves core (add_dir_to_zip n base dir)"
proof -
  show "leaves core (dir_size_bytes n dir)"
  proof (induction n arbitrary: dir)
    case (Suc n)
    show ?case unfolding dir_size_bytes.simps Let_def
      by (intro leaves_bindc leaves_io core_reads leaves_foldc leaves_gets leaves_if Suc leaves_ret)
  qed (simp add: leaves_def)
  show "leaves core (add_dir_to_zip n base dir)"
  proof (induction n arbitrary: dir)
    case (Suc n)
    show ?case unfolding add_dir_to_zip.simps Let_def
      by (intro leaves_bindc leaves_io core_reads leaves_foldc leaves_gets leaves_if Suc leaves_ret)
  qed (simp add: leaves_def)
qed

lemma tree_create_write:
  "p \<noteq> [] \<Longrightarrow> keeps (tree_ok x dd) (create_dir p)" "keeps (tree_ok x dd) (create_dir_all p)"
  "p \<noteq> [] \<Longrightarrow> keeps (tree_ok x dd) (write_file p c)"
  "dest \<noteq> [] \<Longrightarrow> keeps (tree_ok x dd) (unpack_zip x bytes dest mx)"
  unfolding tree_ok_def [abs_def]
  by (intro keeps_housed_keep keeps_create_dir keeps_dirs_create_dir_all keeps_write_file keeps_dirs_unpack_zip
      meta_fs fs_only_ops leaves_unpack_zip; simp add: meta_def)+

lemma keeps_tree_fs:
  assumes "fs_only m" and "\<And>d. keeps (\<lambda>s. dirs_in (needed x dd d) (fs s)) m"
  shows "keeps (tree_ok x dd) m"
  unfolding tree_ok_def [abs_def] keeps_iff_triple [of "housed x dd {} anything {}"]
  by (rule triple_housed_fs [OF meta_fs [OF assms(1)]]) (use assms(2) in \<open>simp add: keeps_iff_triple\<close>)

lemma tree_remove:
  "keeps (tree_ok x dd) (remove_dir_all (dd @ ''tmp'' # p))"
  "keeps (tree_ok x dd) (remove_file (dd @ ''tmp'' # p))"
  "dst \<noteq> [] \<Longrightarrow> dst \<noteq> dd @ ''tmp'' # p \<Longrightarrow> keeps (tree_ok x dd) (rename (dd @ ''tmp'' # p) dst)"
proof -
  have out: "\<forall>q\<in>needed x dd d. \<not> prefix (dd @ ''tmp'' # p) q" for d by (auto dest: tmp_not_needed)
  show "keeps (tree_ok x dd) (remove_dir_all (dd @ ''tmp'' # p))"
    by (intro keeps_tree_fs fs_only_ops keeps_remove_dir_all out) simp
  show "keeps (tree_ok x dd) (remove_file (dd @ ''tmp'' # p))"
    by (intro keeps_tree_fs fs_only_ops keeps_remove_file out) simp
  show "keeps (tree_ok x dd) (rename (dd @ ''tmp'' # p) dst)" if "dst \<noteq> []" "dst \<noteq> dd @ ''tmp'' # p"
    by (intro keeps_tree_fs fs_only_ops keeps_rename out) (use that in auto)
qed

lemma tree_remove_quiet:
  "keeps (tree_ok x dd) (remove_dir_all_quiet (dd @ ''tmp'' # p))"
  "keeps (tree_ok x dd) (remove_dir_all_logged (dd @ ''tmp'' # p))"
  "keeps (tree_ok x dd) (remove_file_logged (dd @ ''tmp'' # p))"
  unfolding remove_dir_all_quiet_def remove_dir_all_logged_def remove_file_logged_def
  by (intro keeps_ignore tree_remove(1,2))+

section \<open>The operations on deployments\<close>

lemma triple_stage:
  assumes "staging \<noteq> []"
  shows "triple (housed x dd U K {}) (stage_deployment_files x staging zp mx) (\<lambda>_. housed x dd U K {staging}) (tree_ok x dd)"
proof -
  have sub: "triple (housed x dd U K {staging}) (io (create_dir (staging @ [''files'']))) (\<lambda>_. housed x dd U K {staging}) (tree_ok x dd)"
    by (rule triple_post [OF triple_housed_create_dir]) (auto elim: housed_mono)
  have unpack: "triple (housed x dd U K {staging}) (unpack_zip x bytes (staging @ [''files'']) mx)
      (\<lambda>_. housed x dd U K {staging}) (tree_ok x dd)" for bytes
    by (rule triple_conseq [OF triple_housed_keep])
       (auto intro!: leaves_unpack_zip keeps_dirs_unpack_zip simp: meta_def dest: housed_tree_ok)
  show ?thesis
    unfolding stage_deployment_files_def Let_def
    apply (rule triple_bindc [OF triple_housed_create_dir [OF assms]])
    apply (rule triple_bindc [OF sub])
    apply (rule triple_skip, intro leaves_io core_reads)
    apply (rule triple_bindc [OF unpack])
    apply (rule triple_ret, assumption)
    done
qed

lemma deployment_not_needed:
  assumes "x_uuid_parse x nm = Some u" and "uuid_ok x" and "u \<notin> d_id ` set (db_deployments d)" and q: "q \<in> needed x dd d"
  shows "\<not> prefix (dd @ [''apps'', c, ''deployments'', nm]) q"
proof
  assume "prefix (dd @ [''apps'', c, ''deployments'', nm]) q"
  then obtain e where "e \<in> set (db_deployments d)" "nm = x_uuid_str x (d_id e)"
    using needed_below_deployment [OF q] by blast
  then show False using assms(1-3) by (auto simp: uuid_ok_def)
qed

lemma tree_place_deployment:
  assumes x: "uuid_ok x" and staging: "staging = dd @ [''tmp'', nm]"
  shows "triple (housed x dd {u} K {staging}) (place_deployment x aid u staging fn sz) (\<lambda>_. tree_ok x dd) (tree_ok x dd)"
proof -
  have find: "triple (housed x dd {u} K {staging}) (on_error (find_app_row_by_id x aid) (\<lambda>_. remove_dir_all_quiet staging))
      (\<lambda>_. housed x dd {u} K {staging}) (tree_ok x dd)"
    by (rule triple_on_error [OF triple_housed_core]) (auto simp: staging intro: core_lookups tree_remove_tmp)
  let ?t = "\<lambda>k. deployment_path x dd k u"
  have place: "triple (housed x dd {u} K {staging}) (on_error (io (rename staging (?t k))) (\<lambda>_. remove_dir_all_quiet staging))
      (\<lambda>_. housed x dd {u} anything {?t k}) (tree_ok x dd)" for k
    using triple_housed_place [of staging dd "[nm]" "?t k" x "{u}" K "{[]}"] staging
    by (simp add: deployment_path_def) (erule triple_post, auto elim: housed_mono)
  have ins: "triple (housed x dd {u} anything {?t k}) (insert_deployment e) (\<lambda>_. tree_ok x dd) (housed x dd {u} anything {?t k})"
    if "d_id e = u" "d_app_id e = k" for e k
  proof -
    have "triple (housed x dd {u} anything {?t k}) (insert_deployment e) (\<lambda>_. housed x dd ({u} - {u}) anything {?t k}) (housed x dd {u} anything {?t k})"
      unfolding insert_deployment_def
      by (rule triple_housed_db) (use that in \<open>auto simp: insert_row_Some used_ids_def needed_def\<close>)
    then show ?thesis by (rule triple_post) (erule housed_tree_ok)
  qed
  have clean: "triple (housed x dd {u} anything {?t k}) (remove_dir_all_quiet (?t k)) (\<lambda>_. tree_ok x dd) (tree_ok x dd)" for k
  proof (rule triple_conseq [OF triple_housed_fs' [where S = "{}" and S' = "\<lambda>_. {}" and S'' = "{}" and U = "{u}" and K = anything]])
    fix d assume "{u} \<inter> used_ids d = {}"
    then have "u \<notin> d_id ` set (db_deployments d)" by (auto simp: used_ids_def)
    then have "\<forall>q\<in>needed x dd d. \<not> prefix (?t k) q"
      using deployment_not_needed [of x "x_uuid_str x u" u] x by (auto simp: uuid_ok_def deployment_path_def)
    then show "triple (\<lambda>s. dirs_in (needed x dd d \<union> {}) (fs s)) (remove_dir_all_quiet (?t k))
        (\<lambda>_ s. dirs_in (needed x dd d \<union> {}) (fs s)) (\<lambda>s. dirs_in (needed x dd d \<union> {}) (fs s))"
      by (intro triple_remove_dir_all_quiet) (auto simp: deployment_path_def)
  qed (auto intro: meta_remove_dir_all_quiet elim: housed_mono dest: housed_tree_ok)
  show ?thesis
    unfolding place_deployment_def
    apply (rule triple_bindc [OF find])
    subgoal for row
      apply (rule triple_housed_gets [where A = "\<lambda>p. p = ?t (a_id row)"])
       apply (simp add: housed_defs deployment_dir_def apps_dir_def deployment_path_def)
      apply (simp only:)
      apply (rule triple_bindc [OF place])
      apply (rule triple_skip, rule core_basic)
      apply (rule triple_bindc [OF triple_on_error [OF ins clean housed_tree_ok]])
         apply simp
        apply simp
       apply assumption
      apply (rule triple_from_sum; assumption)
      done
    done
qed

lemma tree_activate_deployment: "keeps (tree_ok x dd) (activate_deployment x aid did)"
  unfolding activate_deployment_def by (intro keeps_intros tree_core tree_update_app_row) simp

lemma tree_set_deployment_status: "keeps (tree_ok x dd) (set_deployment_status x aid did st)"
  unfolding set_deployment_status_def Let_def by (intro keeps_intros tree_core tree_update_deployment; simp)

lemma tree_create_deployment:
  assumes "uuid_ok x" shows "keeps (tree_ok x dd) (create_deployment x aid zp fn sz)"
  unfolding create_deployment_def
  apply (rule keeps_tree_triple)
  apply (rule triple_bindc [OF triple_housed_now_v7])
  apply (rule triple_with_tmp)
  apply (rule triple_skip, rule core_basic)
  apply (rule triple_bindc [OF triple_on_error [OF triple_stage]])
     apply simp
    apply (rule tree_remove_tmp)
   apply assumption
  apply (rule triple_bindc [OF tree_place_deployment [OF assms refl]])
  apply (rule triple_bindc [OF triple_keeps [OF tree_activate_deployment]], assumption)
  apply (rule triple_ret, assumption)
  done

lemma tree_create_pending: "keeps (tree_ok x dd) (create_pending_git_deployment x aid)"
proof -
  let ?t = "\<lambda>k u. deployment_path x dd k u"
  have ins: "triple (housed x dd {u} K {?t k u}) (insert_deployment e) (\<lambda>_. tree_ok x dd) (tree_ok x dd)"
    if "d_id e = u" "d_app_id e = k" for e k u K
  proof -
    have "triple (housed x dd {u} K {?t k u}) (insert_deployment e) (\<lambda>_. housed x dd ({u} - {u}) anything {?t k u}) (housed x dd {u} K {?t k u})"
      unfolding insert_deployment_def
      by (rule triple_housed_db) (use that in \<open>auto simp: insert_row_Some used_ids_def needed_def\<close>)
    then show ?thesis by (rule triple_conseq) (auto dest: housed_tree_ok)
  qed
  show ?thesis
    unfolding create_pending_git_deployment_def Let_def
    apply (rule keeps_tree_triple)
    apply (rule triple_skip, rule core_lookups, rule TrueI)
    apply (rule triple_skip, intro leaves_intros)
    apply (rule triple_case_source)
     apply (rule triple_throw, erule housed_tree_ok)
    apply (rule triple_skip, rule core_basic)
    apply (rule triple_skip, rule core_basic)
    apply (rule triple_bindc [OF triple_housed_now_v7])
    subgoal for row _ _ _ _ u
      apply (rule triple_housed_gets [where A = "\<lambda>p. p = ?t (a_id row) u"])
       apply (simp add: housed_defs deployment_dir_def apps_dir_def deployment_path_def)
      apply (simp only:)
      apply (rule triple_bindc [OF triple_housed_create_dir], simp add: deployment_path_def)
      apply (rule triple_skip, rule core_basic)
      apply (rule triple_bindc [OF ins], simp, simp)
      apply (rule triple_bindc [OF triple_from_sum [where Q = "\<lambda>_. tree_ok x dd"]], assumption, assumption)
      apply (rule triple_ret, assumption)
      done
    done
qed


lemma resolve_publish_dir_below:
  "resolve_publish_dir c p s = (Done r, s') \<Longrightarrow> prefix c r \<and> s' = s"
  by (auto simp: resolve_publish_dir_def Let_def split: option.splits if_splits elim!: bindc_DoneE)

lemma tree_move_content_root:
  assumes staging: "staging = dd @ [''tmp'', nm]"
  shows "keeps (tree_ok x dd) (move_content_root staging (staging @ [''_checkout'']) src)"
proof -
  let ?c = "staging @ [''_checkout'']"
  have mv: "keeps (tree_ok x dd) (io (rename r (staging @ [''files''])))" if "prefix ?c r" for r
  proof -
    obtain w where "r = ?c @ w" using \<open>prefix ?c r\<close> by (auto simp: prefix_def)
    then have "r = dd @ ''tmp'' # nm # ''_checkout'' # w" and "staging @ [''files''] \<noteq> r"
      using staging by simp_all
    then show ?thesis by (intro keeps_io) (simp add: tree_remove(3))
  qed
  have pub: "keeps (tree_ok x dd) (bindc (resolve_publish_dir ?c p) (\<lambda>r. bindc (io (rename r (staging @ [''files'']))) (\<lambda>_. remove_dir_all_quiet ?c)))" for p
    unfolding keeps_iff_triple
  proof (rule triple_bindc)
    show "triple (tree_ok x dd) (resolve_publish_dir ?c p) (\<lambda>r s. tree_ok x dd s \<and> prefix ?c r) (tree_ok x dd)"
      by (rule tripleI)
         (auto dest: resolve_publish_dir_below keeps_run [OF keeps_tree_core [OF leaves_resolve_publish_dir]])
    show "triple (\<lambda>s. tree_ok x dd s \<and> prefix ?c r) (bindc (io (rename r (staging @ [''files'']))) (\<lambda>_. remove_dir_all_quiet ?c))
        (\<lambda>_. tree_ok x dd) (tree_ok x dd)" for r
    proof (rule triple_assume)
      assume "prefix ?c r"
      then show "triple (tree_ok x dd) (bindc (io (rename r (staging @ [''files'']))) (\<lambda>_. remove_dir_all_quiet ?c)) (\<lambda>_. tree_ok x dd) (tree_ok x dd)"
        unfolding keeps_iff_triple [symmetric] using staging
        by (intro keeps_bindc mv) (auto intro: tree_remove_quiet)
    qed
  qed
  show ?thesis unfolding move_content_root_def using pub mv [of ?c] by (cases "gs_mode src") simp_all
qed

lemma tree_finish_git_deployment:
  assumes staging: "staging = dd @ [''tmp'', nm]"
  shows "keeps (tree_ok x dd) (finish_git_deployment x staging (staging @ [''_checkout'']) aid did src sha)"
proof -
  have mv: "keeps (tree_ok x dd) (rename (staging @ [''files'']) (dir @ [''files'']))" for dir
  proof (cases "dir = staging")
    case False
    then show ?thesis using staging tree_remove(3) [of "dir @ [''files'']" dd "[nm, ''files'']" x] by simp
  next
    case True
    have "keeps (\<lambda>s. dirs_in D (fs s)) (rename q q)" for D and q :: path
      unfolding rename_def by (intro keeps_ext_call keepsI) (auto split: option.splits simp: rename_check_def path_exists_def)
    then show ?thesis using True by (intro keeps_tree_fs fs_only_ops) simp
  qed
  show ?thesis
    unfolding finish_git_deployment_def
    by (intro keeps_intros tree_core keeps_tree_core [OF core_walks(1)] tree_move_content_root [OF staging] mv
        tree_update_deployment tree_remove_quiet(1) [of x dd "[nm]", folded staging, simplified]; simp add: staging tree_remove_quiet)
qed

lemma tree_zip_dir:
  assumes "zp = dd @ ''tmp'' # p" shows "keeps (tree_ok x dd) (zip_dir x src zp)"
  unfolding zip_dir_def
  by (intro keeps_intros tree_core tree_create_write keeps_tree_core [OF core_walks(2)]) (simp_all add: assms)

lemma core_agent_calls:
  "leaves core (stop_and_remove link cname inst)" "leaves core (is_running link cname)" "leaves core (stats link cname)"
  "leaves core (create_deployment_dir link did)" "leaves core (delete_deployment_dir link did)"
  "leaves core (list_deployment_dirs link)" "leaves core (upload_zip_and_extract link did zp mx)"
  "leaves core (spawn_run_log_pump link cname t)"
proof -
  show "leaves core (upload_zip_and_extract link did zp mx)"
    unfolding upload_zip_and_extract_def
    by (intro leaves_bindc leaves_io core_reads leaves_calls; simp add: core_def leaves_intros split: agent_payload.split upload_result.split)
  show "leaves core (spawn_run_log_pump link cname t)"
    unfolding spawn_run_log_pump_def by (intro leaves_spawn) (simp add: core_def)
qed (intro leaves_intros; simp add: core_def)+

lemma tree_ship: "keeps (tree_ok x dd) (ship_run_deployment_to_agent x aid did)"
proof -
  have zp: "with_extension ''zip'' (dd @ [''tmp'', nm]) = dd @ ''tmp'' # [file_stem nm @ ''.zip'']" for nm
    by (simp add: with_extension_def butlast_append)
  have "keeps (tree_ok x dd) (bindc (zip_dir x src zp) k)"
    if "zp = dd @ ''tmp'' # p" "\<And>a. keeps (tree_ok x dd) (k a)" for src zp p and k :: "unit \<Rightarrow> unit hub"
    using that by (intro keeps_bindc tree_zip_dir)
  then show ?thesis
    unfolding ship_run_deployment_to_agent_def Let_def
    apply (intro keeps_tree_triple)
    apply (rule triple_skip, rule core_lookups, rule TrueI)
    apply (rule triple_skip, rule core_basic)
    apply (rule triple_with_tmp)
    apply (rule triple_tree_end)
    apply (subst zp)+
    apply (intro keeps_bindc tree_zip_dir [OF refl] keeps_attempt tree_core keeps_tree_core [OF core_agent_calls(4)]
      keeps_tree_core [OF core_agent_calls(7)] tree_remove_quiet)
    done
qed

lemma tree_delete_deployment:
  assumes "uuid_ok x" shows "keeps (tree_ok x dd) (delete_deployment x aid did)"
proof -
  let ?N = "\<lambda>u d. u \<notin> d_id ` set (db_deployments d)"
  have row: "triple (housed x dd {} anything {}) (delete_deployments (\<lambda>e. d_id e = u)) (\<lambda>_. housed x dd {} (?N u) {}) (tree_ok x dd)" for u
  proof -
    have "triple (housed x dd {} anything {}) (delete_deployments (\<lambda>e. d_id e = u)) (\<lambda>_. housed x dd ({} - {}) (?N u) {}) (housed x dd {} anything {})"
      unfolding delete_deployments_def
      by (rule triple_housed_db) (auto dest!: needed_deletes [THEN subsetD] simp: delete_rows_def)
    then show ?thesis by (rule triple_conseq) (auto dest: housed_tree_ok)
  qed
  have find: "triple (housed x dd {} anything {}) (find_deployment_row x k did)
      (\<lambda>e s. housed x dd {} anything {} s \<and> x_uuid_parse x did = Some (d_id e)) (tree_ok x dd)" for k
  proof (rule tripleI)
    fix s e s' assume h: "housed x dd {} anything {} s" and run: "find_deployment_row x k did s = (Done e, s')"
    then have "housed x dd {} anything {} s'" by (intro keeps_run [OF keeps_housed_core [OF core_lookups(3) [OF TrueI]] run])
    then show "housed x dd {} anything {} s' \<and> x_uuid_parse x did = Some (d_id e)"
      using run by (auto elim: find_deployment_row_Done)
  qed (auto dest: keeps_run [OF keeps_housed_core [OF core_lookups(3) [OF TrueI]]] intro: housed_tree_ok)
  have del: "triple (housed x dd {} anything {}) (delete_deployment_row x aid did)
      (\<lambda>_ s. \<exists>u. x_uuid_parse x did = Some u \<and> housed x dd {} (?N u) {} s) (tree_ok x dd)"
    unfolding delete_deployment_row_def
    apply (rule triple_skip, rule core_lookups, rule TrueI)
    apply (rule triple_skip, rule core_basic)
    apply (rule triple_bindc [OF find])
    apply (rule triple_assume)
    apply (rule triple_bindc [OF row])
    apply (rule triple_ret)
    apply auto
    done
  show ?thesis
    unfolding delete_deployment_def
    apply (rule keeps_tree_triple)
    apply (rule triple_bindc [OF del])
    subgoal for k
    proof (cases "x_uuid_parse x did")
      case None
      then show ?thesis by (simp add: triple_def)
    next
      case (Some u)
      show ?thesis
        apply (rule triple_pre [where P' = "housed x dd {} (?N u) {}"])
         apply (rule triple_housed_gets [where A = "\<lambda>p. p = dd @ [''apps'', x_uuid_str x k, ''deployments'', did]"])
          apply (simp add: housed_defs deployment_dir_def apps_dir_def)
         apply (simp only:)
         apply (rule triple_with_tmp)
         apply (rule triple_bindc [OF triple_map_err [OF triple_housed_rename_away]])
             apply (erule (1) deployment_not_needed [OF Some assms])
            apply simp_all
         apply (rule triple_post [OF triple_housed_remove_dir_tmp])
         apply (erule housed_tree_ok)
        apply (use Some in auto)
        done
    qed
    done
qed

section \<open>The sweeps\<close>

lemma tree_sweep_tmp_dir: "keeps (tree_ok x dd) sweep_tmp_dir"
proof -
  have "triple (housed x dd {} anything {}) (bindc (gets tmp_dir) (\<lambda>dir.
     bindc (gets (\<lambda>s. path_exists (fs s) dir)) (\<lambda>present.
     bindc (whenc present (io (remove_dir_all dir))) (\<lambda>_. io (create_dir_all dir))))) (\<lambda>_. tree_ok x dd) (tree_ok x dd)"
    apply (rule triple_housed_gets [where A = "\<lambda>p. p = dd @ ''tmp'' # []"])
     apply (simp add: housed_defs tmp_dir_def)
    apply (simp only:)
    apply (rule triple_tree_end)
    apply (intro keeps_intros tree_remove tree_create_write)
    done
  then show ?thesis unfolding sweep_tmp_dir_def by (rule keeps_tree_triple)
qed

text \<open>Only entries that no row needs are removed; what remains is read off the names swept.\<close>

definition shrunk :: "filesystem \<Rightarrow> filesystem \<Rightarrow> bool" where
  "shrunk t0 t \<longleftrightarrow> (\<forall>q. path_exists t q \<longrightarrow> path_exists t0 q)"

definition kept_deployment :: "externals \<Rightarrow> database \<Rightarrow> path \<Rightarrow> uuid \<Rightarrow> string \<Rightarrow> filesystem \<Rightarrow> bool" where
  "kept_deployment x d dir aid c t \<longleftrightarrow>
     (\<forall>did. x_uuid_parse x c = Some did \<longrightarrow> path_exists t (dir @ [c]) \<longrightarrow>
        (\<exists>e\<in>set (db_deployments d). d_id e = did \<and> d_app_id e = aid))"

definition kept_app :: "externals \<Rightarrow> database \<Rightarrow> path \<Rightarrow> string \<Rightarrow> filesystem \<Rightarrow> bool" where
  "kept_app x d dir n t \<longleftrightarrow>
     (\<forall>aid. x_uuid_parse x n = Some aid \<longrightarrow> path_exists t (dir @ [n]) \<longrightarrow>
        aid \<in> app_ids d \<and> (\<forall>c. kept_deployment x d (dir @ [n, ''deployments'']) aid c t))"

lemma shrunk_refl [simp]: "shrunk t t"
  by (simp add: shrunk_def)

lemma shrunk_trans: "shrunk t0 t1 \<Longrightarrow> shrunk t1 t2 \<Longrightarrow> shrunk t0 t2"
  by (auto simp: shrunk_def)

lemma kept_shrunk:
  "kept_deployment x d dir aid c t0 \<Longrightarrow> shrunk t0 t \<Longrightarrow> kept_deployment x d dir aid c t"
  "kept_app x d dir n t0 \<Longrightarrow> shrunk t0 t \<Longrightarrow> kept_app x d dir n t"
  unfolding kept_deployment_def kept_app_def shrunk_def by blast+

lemma triple_foldc:
  assumes "\<And>acc ys y. y \<in> set xs \<Longrightarrow> triple (I ys) (f acc y) (\<lambda>_. I (ys @ [y])) E"
  shows "triple (I []) (foldc f acc xs) (\<lambda>_. I xs) E"
proof -
  have "triple (I ys) (foldc f acc zs) (\<lambda>_. I (ys @ zs)) E" if "set zs \<subseteq> set xs" for ys zs acc
    using that
  proof (induction zs arbitrary: ys acc)
    case Nil
    then show ?case by (simp add: triple_ret)
  next
    case (Cons z zs)
    have "triple (I (ys @ [z])) (foldc f acc' zs) (\<lambda>_. I (ys @ z # zs)) E" for acc'
      using Cons.IH [of "ys @ [z]"] Cons.prems by simp
    then show ?case using Cons.prems by (auto intro: triple_bindc assms)
  qed
  from this [of xs "[]" acc] show ?thesis by simp
qed

text \<open>
  The roots a sweep removes: a directory under the apps named by an id that is no app's, and one
  under an app's deployments named by an id that is no deployment of the app.
\<close>

definition orphan_root :: "externals \<Rightarrow> path \<Rightarrow> database \<Rightarrow> path \<Rightarrow> bool" where
  "orphan_root x dd d p \<longleftrightarrow>
     (\<exists>n aid. x_uuid_parse x n = Some aid
        \<and> (aid \<notin> app_ids d \<and> p = dd @ [''apps'', n]
          \<or> (\<exists>c did. aid \<in> app_ids d \<and> x_uuid_parse x c = Some did \<and> p = dd @ [''apps'', n, ''deployments'', c]
              \<and> \<not> (\<exists>e\<in>set (db_deployments d). d_id e = did \<and> d_app_id e = aid))))"

text \<open>The state of a sweep: the tables are \<open>d\<close>, the rows keep their directories, the tree only
  shrinks, and what is gone lay below a root of that kind.\<close>

definition intact :: "externals \<Rightarrow> path \<Rightarrow> database \<Rightarrow> filesystem \<Rightarrow> filesystem \<Rightarrow> bool" where
  "intact x dd d t0 t \<longleftrightarrow>
     (\<forall>q. map_of t q = map_of t0 q \<or> map_of t q = None \<and> (\<exists>p. orphan_root x dd d p \<and> prefix p q))"

lemma intact_refl [simp]: "intact x dd d t t"
  by (simp add: intact_def)

lemma intact_prune: "intact x dd d t0 t \<Longrightarrow> orphan_root x dd d p \<Longrightarrow> intact x dd d t0 (fs_prune p t)"
  by (auto simp: intact_def map_of_fs_prune)

definition sweeping :: "externals \<Rightarrow> path \<Rightarrow> database \<Rightarrow> filesystem \<Rightarrow> world \<Rightarrow> bool" where
  "sweeping x dd d t0 s \<longleftrightarrow> tree_ok x dd s \<and> db s = d \<and> shrunk t0 (fs s) \<and> intact x dd d t0 (fs s)"

lemma sweeping_faults: "sweeping x dd d t0 s \<Longrightarrow> sweeping x dd d t0 (s\<lparr>faults := f\<rparr>)"
  by (auto simp: sweeping_def tree_ok_iff)

lemma triple_sweep_remove:
  assumes "\<And>q. q \<in> needed x dd d \<Longrightarrow> \<not> prefix p q" and "p \<noteq> []" and "orphan_root x dd d p"
  shows "triple (\<lambda>s. sweeping x dd d t0 s \<and> P (fs s)) (io (remove_dir_all p))
    (\<lambda>_ s. sweeping x dd d t0 s \<and> (\<exists>t. P t \<and> shrunk t (fs s)) \<and> \<not> path_exists (fs s) p) (sweeping x dd d t0)"
proof -
  have step: "sweeping x dd d t0 (s\<lparr>fs := fs_prune p (fs s)\<rparr>) \<and> (\<exists>t. P t \<and> shrunk t (fs_prune p (fs s)))
      \<and> \<not> path_exists (fs_prune p (fs s)) p"
    if sw: "sweeping x dd d t0 s" and "P (fs s)" for s
  proof -
    have sh: "shrunk (fs s) (fs_prune p (fs s))" by (simp add: shrunk_def path_exists_def map_of_fs_prune)
    have "dirs_in (needed x dd d) (fs_prune p (fs s))"
      using sw assms(1,2) by (intro dirs_in_prune) (auto simp: sweeping_def tree_ok_iff)
    then have "sweeping x dd d t0 (s\<lparr>fs := fs_prune p (fs s)\<rparr>)"
      using sw sh intact_prune [OF _ assms(3)] by (auto simp: sweeping_def tree_ok_iff intro: shrunk_trans)
    then show ?thesis using sh \<open>P (fs s)\<close> by (auto simp: path_exists_def map_of_fs_prune)
  qed
  show ?thesis
    unfolding remove_dir_all_def
    apply (rule triple_io)
    apply (rule triple_ext_call)
      apply (simp add: sweeping_faults)
     apply (rule tripleI)
       apply (use step in \<open>auto simp: set_fs_run split: option.splits node.splits\<close>)
    done
qed

lemma triple_sweeping_core:
  assumes "leaves core m"
  shows "triple (\<lambda>s. sweeping x dd d t0 s \<and> P (fs s)) m (\<lambda>_ s. sweeping x dd d t0 s \<and> P (fs s)) (sweeping x dd d t0)"
proof -
  have "sweeping x dd d t0 s' \<and> P (fs s')" if "m s = (r, s')" "sweeping x dd d t0 s" "P (fs s)" for s r s'
  proof -
    have "core s' = core s" using leavesD [OF assms that(1)] .
    then show ?thesis using that by (auto simp: sweeping_def tree_ok_iff core_def)
  qed
  then show ?thesis by (auto intro!: tripleI)
qed

text \<open>What is read is all there is.\<close>

lemma triple_read_entries:
  "triple (sweeping x dd d t0) (read_dir_if_present dir)
     (\<lambda>r s. sweeping x dd d t0 s \<and> (\<forall>c. path_exists (fs s) (dir @ [c]) \<longrightarrow> (\<exists>ns. r = Some ns \<and> c \<in> set ns))) (sweeping x dd d t0)"
proof (rule tripleI)
  fix s r s' assume sw: "sweeping x dd d t0 s" and run: "read_dir_if_present dir s = (Done r, s')"
  have sw': "sweeping x dd d t0 s'" and fs: "fs s' = fs s"
    using leavesD [OF core_read_dir_if_present run] sw by (auto simp: sweeping_def tree_ok_iff core_def)
  have wf: "fs_wf (fs s)" using sw by (simp add: sweeping_def tree_ok_iff dirs_in_def)
  have rd: "fst (read_dir dir s) = (case map_of (fs s) dir of
       None \<Rightarrow> Fail (io_err NotFound) | Some (File _) \<Rightarrow> Fail (io_err NotADirectory) | Some Dir \<Rightarrow> Done (children (fs s) dir))
     \<or> (\<exists>m. fst (read_dir dir s) = Fail (IoError OtherIo m)) \<or> fst (read_dir dir s) = Crash"
    by (auto simp: read_dir_def ext_call_def Let_def split: list.splits fault.splits option.splits node.splits)
  have "\<exists>ns. r = Some ns \<and> c \<in> set ns" if c: "path_exists (fs s) (dir @ [c])" for c
  proof -
    have "is_dir (fs s) dir" using wf c by (auto simp: fs_wf_iff path_exists_def dest: spec [of _ "dir @ [c]"])
    then have "fst (read_dir dir s) = Done (children (fs s) dir) \<or> (\<exists>m. fst (read_dir dir s) = Fail (IoError OtherIo m))
        \<or> fst (read_dir dir s) = Crash" using rd by (simp add: is_dir_def)
    then have "r = Some (children (fs s) dir)"
      using run by (cases "read_dir dir s")
        (auto simp: read_dir_if_present_def bindc_def attempt_def ret_def throw_def split: if_splits)
    then show ?thesis using c by (simp add: set_children)
  qed
  then show "sweeping x dd d t0 s' \<and> (\<forall>c. path_exists (fs s') (dir @ [c]) \<longrightarrow> (\<exists>ns. r = Some ns \<and> c \<in> set ns))"
    using sw' fs by simp
next
  fix s e s' assume "sweeping x dd d t0 s" and "read_dir_if_present dir s = (Fail e, s')"
  then show "sweeping x dd d t0 s'"
    using leavesD [OF core_read_dir_if_present] by (auto simp: sweeping_def tree_ok_iff core_def)
next
  fix s s' assume "sweeping x dd d t0 s" and "read_dir_if_present dir s = (Crash, s')"
  then show "sweeping x dd d t0 s'"
    using leavesD [OF core_read_dir_if_present] by (auto simp: sweeping_def tree_ok_iff core_def)
qed

lemma triple_both:
  assumes "triple P m Q E" and "triple P' m Q' E'"
  shows "triple (\<lambda>s. P s \<and> P' s) m (\<lambda>a s. Q a s \<and> Q' a s) E"
  by (rule tripleI) (use triple_Done [OF assms(1)] triple_Done [OF assms(2)] triple_Fail [OF assms(1)]
      triple_Crash [OF assms(1)] in auto)

definition antitone :: "(filesystem \<Rightarrow> bool) \<Rightarrow> bool" where
  "antitone P \<longleftrightarrow> (\<forall>t t'. P t \<longrightarrow> shrunk t t' \<longrightarrow> P t')"

abbreviation swept :: "externals \<Rightarrow> path \<Rightarrow> database \<Rightarrow> filesystem \<Rightarrow> (filesystem \<Rightarrow> bool) \<Rightarrow> world \<Rightarrow> bool" where
  "swept x dd d t0 P \<equiv> \<lambda>s. sweeping x dd d t0 s \<and> P (fs s)"

lemma triple_swept_remove:
  assumes "\<And>q. q \<in> needed x dd d \<Longrightarrow> \<not> prefix p q" and "p \<noteq> []" and "orphan_root x dd d p" and "antitone P"
  shows "triple (swept x dd d t0 P) (io (remove_dir_all p)) (\<lambda>_. swept x dd d t0 (\<lambda>t. P t \<and> \<not> path_exists t p)) (sweeping x dd d t0)"
  by (rule triple_post [OF triple_sweep_remove [OF assms(1-3)]]) (use assms(4) in \<open>auto simp: antitone_def\<close>)

lemma triple_swept_rows:
  "triple (swept x dd d t0 P) (db_all tbl Q) (\<lambda>r s. swept x dd d t0 P s \<and> r = filter Q (tbl d)) (sweeping x dd d t0)"
proof -
  have "triple (\<lambda>s. db s = d) (db_all tbl Q) (\<lambda>r s. r = filter Q (tbl d)) (\<lambda>_. True)"
    by (rule triple_conseq [OF triple_db_all [where J = "\<lambda>d'. d' = d"]]) auto
  from triple_both [OF triple_sweeping_core [OF core_basic(3), of x dd d t0 P] this]
  show ?thesis by (rule triple_conseq) (auto simp: sweeping_def)
qed

lemma triple_swept_entries:
  "triple (swept x dd d t0 P) (read_dir_if_present dir)
     (\<lambda>r. swept x dd d t0 (\<lambda>t. P t \<and> (\<forall>c. path_exists t (dir @ [c]) \<longrightarrow> (\<exists>ns. r = Some ns \<and> c \<in> set ns)))) (sweeping x dd d t0)"
  by (rule triple_conseq [OF triple_both [OF triple_read_entries [of x dd d t0 dir]
        triple_sweeping_core [OF core_read_dir_if_present, of x dd d t0 P dir]]]) auto

lemma triple_swept_gets:
  "(\<And>s. sweeping x dd d t0 s \<Longrightarrow> f s = v) \<Longrightarrow> triple (swept x dd d t0 P) (k v) Q E
    \<Longrightarrow> triple (swept x dd d t0 P) (bindc (gets f) k) Q E"
  by (simp add: triple_def)

text \<open>One pass over a directory: every name is looked at, and what stays is kept for good reason.\<close>

lemma triple_swept_loop:
  assumes "antitone P" and "\<And>c. antitone (kept c)" and "\<And>c t. \<not> path_exists t (dir @ [c]) \<Longrightarrow> kept c t"
    and step: "\<And>acc c R. antitone R \<Longrightarrow> triple (swept x dd d t0 R) (f acc c) (\<lambda>_. swept x dd d t0 (\<lambda>t. R t \<and> kept c t)) (sweeping x dd d t0)"
  shows "triple (swept x dd d t0 (\<lambda>t. P t \<and> (\<forall>c. path_exists t (dir @ [c]) \<longrightarrow> c \<in> set names)))
    (foldc f acc names) (\<lambda>_. swept x dd d t0 (\<lambda>t. P t \<and> (\<forall>c. kept c t))) (sweeping x dd d t0)"
proof -
  let ?R = "\<lambda>ys t. (P t \<and> (\<forall>c. path_exists t (dir @ [c]) \<longrightarrow> c \<in> set names)) \<and> (\<forall>c\<in>set ys. kept c t)"
  have "antitone (?R ys)" for ys
    using assms(1,2) unfolding antitone_def shrunk_def by meson
  then have "triple (swept x dd d t0 (?R [])) (foldc f acc names) (\<lambda>_. swept x dd d t0 (?R names)) (sweeping x dd d t0)"
    by (intro triple_foldc triple_post [OF step]) auto
  then show ?thesis by (rule triple_conseq) (use assms(3) in auto)
qed

lemma sweep_deployments_run:
  assumes x: "uuid_ok x" and n: "x_uuid_parse x n = Some aid" "aid \<in> app_ids d" and "antitone P"
  shows "triple (swept x dd d t0 P) (sweep_orphaned_deployment_dirs x n aid)
    (\<lambda>_. swept x dd d t0 (\<lambda>t. P t \<and> (\<forall>c. kept_deployment x d (dd @ [''apps'', n, ''deployments'']) aid c t))) (sweeping x dd d t0)"
proof -
  let ?dir = "dd @ [''apps'', n, ''deployments'']"
  have anti: "antitone (kept_deployment x d ?dir aid c)" for c
    using kept_shrunk(1) by (auto simp: antitone_def)
  have step: "triple (swept x dd d t0 R)
      (case x_uuid_parse x c of None \<Rightarrow> ret r
        | Some did \<Rightarrow> if did \<notin> set (map d_id (filter (\<lambda>e. d_app_id e = aid) (db_deployments d)))
            then bindc (io (remove_dir_all (?dir @ [c]))) (\<lambda>_. ret (r + 1)) else ret r)
      (\<lambda>_. swept x dd d t0 (\<lambda>t. R t \<and> kept_deployment x d ?dir aid c t)) (sweeping x dd d t0)"
    if "antitone R" for r :: "32 word" and c R
  proof -
    have out: "\<not> prefix (?dir @ [c]) q" if q: "q \<in> needed x dd d" and c: "x_uuid_parse x c = Some did"
      and gone: "did \<notin> set (map d_id (filter (\<lambda>e. d_app_id e = aid) (db_deployments d)))" for q did
    proof
      assume "prefix (?dir @ [c]) q"
      then obtain e where "e \<in> set (db_deployments d)" "n = x_uuid_str x (d_app_id e)" "c = x_uuid_str x (d_id e)"
        using needed_below_deployment [OF q] by force
      then show False using c gone n(1) x by (auto simp: uuid_ok_def)
    qed
    show ?thesis
      apply (rule triple_case_option)
       apply (rule triple_ret, simp add: kept_deployment_def)
      apply (rule triple_if)
       apply (rule triple_bindc [OF triple_swept_remove [OF out _ _ that]], assumption, assumption, assumption, simp)
        apply (use n in \<open>force simp: orphan_root_def\<close>)
       apply (rule triple_ret, simp add: kept_deployment_def)
      apply (rule triple_ret, auto simp: kept_deployment_def)
      done
  qed
  show ?thesis
    unfolding sweep_orphaned_deployment_dirs_def
    apply (rule triple_bindc [OF triple_swept_rows])
    apply (rule triple_assume)
    apply (rule triple_swept_gets [where v = ?dir])
     apply (simp add: sweeping_def tree_ok_iff apps_dir_def)
    apply (rule triple_bindc [OF triple_swept_entries])
    apply (rule triple_case_option)
     apply (rule triple_ret, auto simp: kept_deployment_def)[1]
    apply (rule triple_pre [OF triple_swept_loop [where P = P and dir = ?dir, OF \<open>antitone P\<close> anti]])
      apply (simp add: kept_deployment_def)
     apply (simp only:)
     apply (erule step)
    apply auto
    done
qed

lemma sweep_run:
  assumes x: "uuid_ok x" and d: "db_ok d"
  shows "triple (swept x dd d t0 (\<lambda>_. True)) (sweep_orphaned_dirs x)
    (\<lambda>_. swept x dd d t0 (\<lambda>t. \<forall>n. kept_app x d (dd @ [''apps'']) n t)) (sweeping x dd d t0)"
proof -
  let ?dir = "dd @ [''apps'']"
  have anti: "antitone (kept_app x d ?dir n)" for n
    using kept_shrunk(2) by (auto simp: antitone_def)
  have step: "triple (swept x dd d t0 R)
      (case x_uuid_parse x n of None \<Rightarrow> ret r
        | Some aid \<Rightarrow> if aid \<in> set (map a_id (filter (\<lambda>_. True) (db_apps d)))
            then bindc (sweep_orphaned_deployment_dirs x n aid) (\<lambda>k. ret (r + k))
            else bindc (io (remove_dir_all (?dir @ [n]))) (\<lambda>_. ret (r + 1)))
      (\<lambda>_. swept x dd d t0 (\<lambda>t. R t \<and> kept_app x d ?dir n t)) (sweeping x dd d t0)"
    if R: "antitone R" for r :: "32 word" and n R
  proof -
    have out: "\<not> prefix (?dir @ [n]) q" if q: "q \<in> needed x dd d" and n: "x_uuid_parse x n = Some aid"
      and a: "aid \<notin> set (map a_id (filter (\<lambda>_. True) (db_apps d)))" for q aid
    proof
      assume "prefix (?dir @ [n]) q"
      then obtain k where "n = x_uuid_str x k" "k \<in> a_id ` set (db_apps d) \<or> k \<in> d_app_id ` set (db_deployments d)"
        using needed_below_app [OF q] by force
      then show False using n a x d by (auto simp: uuid_ok_def db_ok_def refs_ok_def app_ids_def)
    qed
    show ?thesis
      apply (rule triple_case_option)
       apply (rule triple_ret, simp add: kept_app_def)
      apply (rule triple_if)
       apply (rule triple_bindc [OF sweep_deployments_run [OF x _ _ R]], assumption, simp add: app_ids_def)
       apply (rule triple_ret, auto simp: kept_app_def app_ids_def)[1]
      apply (rule triple_bindc [OF triple_swept_remove [OF out _ _ R]], assumption, assumption, assumption, simp)
       apply (auto simp: orphan_root_def app_ids_def)[1]
      apply (rule triple_ret, auto simp: kept_app_def)
      done
  qed
  show ?thesis
    unfolding sweep_orphaned_dirs_def
    apply (rule triple_bindc [OF triple_swept_rows])
    apply (rule triple_assume)
    apply (rule triple_swept_gets [where v = ?dir])
     apply (simp add: sweeping_def tree_ok_iff apps_dir_def)
    apply (rule triple_bindc [OF triple_swept_entries])
    apply (rule triple_case_option)
     apply (rule triple_ret, auto simp: kept_app_def)[1]
    apply (rule triple_bindc)
     apply (rule triple_pre [OF triple_swept_loop [where P = "\<lambda>_. True" and dir = ?dir
            and kept = "kept_app x d ?dir" and x = x and dd = dd and d = d and ?t0.0 = t0, OF _ anti]])
        apply (simp add: antitone_def)
       apply (simp add: kept_app_def)
      apply (simp only:)
      apply (erule step)
     apply auto[1]
    apply (rule triple_ret, simp)
    done
qed

lemma swept_orphan_root:
  assumes "\<And>n. kept_app x d (dd @ [''apps'']) n t" and "fs_wf t" and "orphan_root x dd d p"
  shows "\<not> path_exists t p"
proof
  assume p: "path_exists t p"
  obtain n aid where n: "x_uuid_parse x n = Some aid" and
    "aid \<notin> app_ids d \<and> p = dd @ [''apps'', n]
      \<or> (\<exists>c did. x_uuid_parse x c = Some did \<and> p = dd @ [''apps'', n, ''deployments'', c]
              \<and> \<not> (\<exists>e\<in>set (db_deployments d). d_id e = did \<and> d_app_id e = aid))"
    using assms(3) by (auto simp: orphan_root_def)
  then show False
  proof (elim disjE exE conjE)
    assume "aid \<notin> app_ids d" "p = dd @ [''apps'', n]"
    then show False using assms(1) [of n] n p by (auto simp: kept_app_def)
  next
    fix c did assume c: "x_uuid_parse x c = Some did" "p = dd @ [''apps'', n, ''deployments'', c]"
      "\<not> (\<exists>e\<in>set (db_deployments d). d_id e = did \<and> d_app_id e = aid)"
    have "is_dir t (dd @ [''apps'', n])"
      using wf_ancestors [OF assms(2), of "dd @ [''apps'', n]" p] p c(2) by (simp add: path_exists_def strict_prefix_def)
    then have "path_exists t (dd @ [''apps'', n])" by (auto simp: path_exists_def is_dir_def)
    then show False using assms(1) [of n] n p c by (auto simp: kept_app_def kept_deployment_def)
  qed
qed

end
