(* ===== verification/Auth.thy ===== *)
theory Auth
  imports TokenStore
begin

text \<open>
  Sessions and requests: \<open>auth.rs\<close>. A request's headers are given by what
  \<open>headers.get(name)?.to_str().ok()\<close> returns for each (lower-case) name.
\<close>

datatype http_method = GET | HEAD | OPTIONS | POST | PUT | PATCH | DELETE | OtherMethod string

type_synonym headers = "string \<Rightarrow> string option"

definition session_cookie :: string where "session_cookie = ''berth_session''"

definition session_max_age_secs :: int where "session_max_age_secs = 60 * 60 * 24 * 30"

definition login_max_failures :: "32 word" where "login_max_failures = 10"

definition login_lockout_window_secs :: int where "login_lockout_window_secs = 15 * 60"

section \<open>Login attempts\<close>

definition check_login_lockout :: "ip_addr \<Rightarrow> unit hub" where
  "check_login_lockout ip =
     bindc (gets now_secs) (\<lambda>now.
     bindc (gets (\<lambda>s. login_attempts_map s ip)) (\<lambda>r.
     case r of
       None \<Rightarrow> ret ()
     | Some attempts \<Rightarrow>
        (let elapsed = now - la_window_start attempts in
         if login_lockout_window_secs < elapsed \<or> la_count attempts < login_max_failures then ret ()
         else
          (let retry_after_secs = login_lockout_window_secs - elapsed;
               retry_after_mins = (retry_after_secs + 59) div 60
           in throw (TooManyLoginAttempts retry_after_mins)))))"

definition record_failed_login :: "ip_addr \<Rightarrow> unit hub" where
  "record_failed_login ip =
     bindc (gets now_secs) (\<lambda>now.
     modify (\<lambda>s. s\<lparr>login_attempts_map := (login_attempts_map s)(ip \<mapsto>
       (case login_attempts_map s ip of
          Some attempts \<Rightarrow>
            (if login_lockout_window_secs < now - la_window_start attempts
             then \<lparr>la_count = 1, la_window_start = now\<rparr>
             else \<lparr>la_count = la_count attempts + 1, la_window_start = la_window_start attempts\<rparr>)
        | None \<Rightarrow> \<lparr>la_count = 1, la_window_start = now\<rparr>))\<rparr>))"

definition clear_login_attempts :: "ip_addr \<Rightarrow> unit hub" where
  "clear_login_attempts ip = modify (\<lambda>s. s\<lparr>login_attempts_map := (login_attempts_map s)(ip := None)\<rparr>)"

text \<open>\<open>retain\<close> on a concurrent map: the entries satisfying the predicate stay.\<close>

definition retain :: "('k \<Rightarrow> 'v \<Rightarrow> bool) \<Rightarrow> ('k \<rightharpoonup> 'v) \<Rightarrow> ('k \<rightharpoonup> 'v)" where
  "retain P m = (\<lambda>k. case m k of Some v \<Rightarrow> (if P k v then Some v else None) | None \<Rightarrow> None)"

definition sweep_expired_login_attempts :: "unit hub" where
  "sweep_expired_login_attempts =
     bindc (gets now_secs) (\<lambda>now.
     modify (\<lambda>s. s\<lparr>login_attempts_map :=
       retain (\<lambda>_ attempts. now - la_window_start attempts \<le> login_lockout_window_secs) (login_attempts_map s)\<rparr>))"

section \<open>Cookies, sessions and users\<close>

definition generate_session_token :: "externals \<Rightarrow> string hub" where
  "generate_session_token x = bindc (random_bytes 32) (\<lambda>bytes. ret (x_b64_url x bytes))"

definition cookie_pair :: "string \<Rightarrow> string \<Rightarrow> string option" where
  "cookie_pair name pair =
     (case split_once CHR ''='' (trim pair) of
        None \<Rightarrow> None
      | Some (key, value) \<Rightarrow> if key = name then Some value else None)"

definition cookie_value :: "headers \<Rightarrow> string \<Rightarrow> string option" where
  "cookie_value headers name =
     (case headers ''cookie'' of
        None \<Rightarrow> None
      | Some header \<Rightarrow> find_map (cookie_pair name) (split_on CHR '';'' header))"

definition resolve_cookie_username :: "headers \<Rightarrow> string hub" where
  "resolve_cookie_username headers =
     bindc (ok_or Unauthenticated (cookie_value headers session_cookie)) (\<lambda>token.
     bindc (gets (\<lambda>s. sessions s token)) (\<lambda>r.
     bindc (ok_or Unauthenticated r) (\<lambda>session.
     bindc (gets now_secs) (\<lambda>now.
     if session_max_age_secs < now - ses_created_at session
     then bindc (modify (\<lambda>s. s\<lparr>sessions := (sessions s)(token := None)\<rparr>)) (\<lambda>_. throw Unauthenticated)
     else ret (ses_username session)))))"

definition load_current_user :: "string \<Rightarrow> current_user hub" where
  "load_current_user username =
     bindc (db_first db_users (\<lambda>u. u_username u = username)) (\<lambda>r.
     bindc (ok_or Unauthenticated r) (\<lambda>user.
     bindc (from_sum (user_role user)) (\<lambda>role.
     ret \<lparr>cu_id = u_id user, cu_username = u_username user, cu_role = role\<rparr>)))"

definition bearer_token :: "headers \<Rightarrow> string option" where
  "bearer_token headers =
     (case headers ''authorization'' of None \<Rightarrow> None | Some value \<Rightarrow> strip_prefix ''Bearer '' value)"

definition load_user_from_bearer :: "externals \<Rightarrow> headers \<Rightarrow> current_user option hub" where
  "load_user_from_bearer x headers =
     (case bearer_token headers of
        None \<Rightarrow> ret None
      | Some bearer \<Rightarrow>
         bindc (ok_or Unauthenticated (parse_bearer_value bearer)) (\<lambda>(token_id, secret).
         bindc (find_user_by_api_token x token_id secret) (\<lambda>r.
         bindc (ok_or Unauthenticated r) (\<lambda>user.
         bindc (from_sum (user_role user)) (\<lambda>role.
         ret (Some \<lparr>cu_id = u_id user, cu_username = u_username user, cu_role = role\<rparr>))))))"

text \<open>The extractors \<open>CurrentUser\<close>, \<open>ApiUser\<close> and \<open>BearerUser\<close>.\<close>

definition cookie_user :: "headers \<Rightarrow> current_user hub" where
  "cookie_user headers = bindc (resolve_cookie_username headers) load_current_user"

definition api_user :: "externals \<Rightarrow> headers \<Rightarrow> current_user hub" where
  "api_user x headers =
     bindc (load_user_from_bearer x headers) (\<lambda>r.
     case r of
       Some user \<Rightarrow> ret user
     | None \<Rightarrow> bindc (resolve_cookie_username headers) load_current_user)"

definition bearer_user :: "externals \<Rightarrow> headers \<Rightarrow> current_user hub" where
  "bearer_user x headers =
     bindc (load_user_from_bearer x headers) (\<lambda>r. ok_or Unauthenticated r)"

definition verify_same_origin :: "http_method \<Rightarrow> headers \<Rightarrow> app_error + unit" where
  "verify_same_origin method headers =
     (if method = GET \<or> method = HEAD \<or> method = OPTIONS then Inr ()
      else if bearer_token headers \<noteq> None then Inr ()
      else if cookie_value headers session_cookie = None then Inr ()
      else if headers ''sec-fetch-site'' = Some ''same-origin'' then Inr ()
      else Inl (Forbidden ''cross-origin request rejected''))"

definition revoke_sessions_for :: "string \<Rightarrow> unit hub" where
  "revoke_sessions_for username =
     modify (\<lambda>s. s\<lparr>sessions := retain (\<lambda>_ ses. ses_username ses \<noteq> username) (sessions s)\<rparr>)"

definition revoke_other_sessions_for :: "string \<Rightarrow> string \<Rightarrow> unit hub" where
  "revoke_other_sessions_for username keep_token =
     modify (\<lambda>s. s\<lparr>sessions :=
       retain (\<lambda>token ses. ses_username ses \<noteq> username \<or> token = keep_token) (sessions s)\<rparr>)"

definition session_cookie_header :: "string \<Rightarrow> int \<Rightarrow> string \<times> string" where
  "session_cookie_header token max_age_secs =
     (''set-cookie'',
      session_cookie @ ''='' @ token @ ''; Path=/; HttpOnly; Secure; SameSite=Lax; Max-Age='' @ show_int max_age_secs)"

definition clear_session_cookie_header :: "string \<times> string" where
  "clear_session_cookie_header =
     (''set-cookie'', session_cookie @ ''=; Path=/; HttpOnly; Secure; SameSite=Lax; Max-Age=0'')"

section \<open>Facts\<close>

lemma retain_Some: "retain P m k = Some v \<longleftrightarrow> m k = Some v \<and> P k v"
  by (auto simp: retain_def split: option.splits)

lemma resolve_cookie_username_Done:
  assumes "resolve_cookie_username hs s = (Done name, s')"
  obtains token ses where "cookie_value hs session_cookie = Some token" and "sessions s token = Some ses"
    and "now_secs s - ses_created_at ses \<le> session_max_age_secs" and "name = ses_username ses" and "s' = s"
  using assms unfolding resolve_cookie_username_def
  by (auto elim!: bindc_DoneE split: if_splits intro: that)

lemma load_current_user_Done:
  assumes "load_current_user name s = (Done cu, s')"
  obtains u where "find (\<lambda>u. u_username u = name) (db_users (db s)) = Some u" and "cu_id cu = u_id u"
    and "cu_username cu = u_username u" and "u_role u = role_as_str (cu_role cu)"
  using assms unfolding load_current_user_def
  by (auto elim!: bindc_DoneE db_first_Done simp: user_role_def role_from_str_Inr intro: that)

lemma record_failed_login_run:
  "record_failed_login ip s = (Done (), s\<lparr>login_attempts_map := (login_attempts_map s)(ip \<mapsto>
       (case login_attempts_map s ip of
          Some attempts \<Rightarrow>
            (if login_lockout_window_secs < now_secs s - la_window_start attempts
             then \<lparr>la_count = 1, la_window_start = now_secs s\<rparr>
             else \<lparr>la_count = la_count attempts + 1, la_window_start = la_window_start attempts\<rparr>)
        | None \<Rightarrow> \<lparr>la_count = 1, la_window_start = now_secs s\<rparr>))\<rparr>)"
  by (simp add: record_failed_login_def modify_def now_secs_def)

lemma leaves_auth [leaves_intros]:
  assumes "\<And>s f. g (s\<lparr>faults := f\<rparr>) = g s" and "\<And>s d. g (s\<lparr>sessions := d\<rparr>) = g s"
    and "\<And>s d. g (s\<lparr>db := d\<rparr>) = g s" and "\<And>s n. g (s\<lparr>random_pos := n\<rparr>) = g s"
  shows "leaves g (cookie_user hs)" "leaves g (api_user x hs)" "leaves g (bearer_user x hs)"
  unfolding cookie_user_def api_user_def bearer_user_def load_user_from_bearer_def
    resolve_cookie_username_def load_current_user_def
  by (intro leaves_intros assms)+

lemma leaves_db_auth [leaves_intros]:
  "leaves db (cookie_user hs)" "leaves db (api_user x hs)" "leaves db (bearer_user x hs)"
  unfolding cookie_user_def api_user_def bearer_user_def load_user_from_bearer_def
    resolve_cookie_username_def load_current_user_def
  by (intro leaves_intros; simp)+

section \<open>Properties\<close>

text \<open>Failed logins from an address at the given clock readings (nanoseconds), in order.\<close>

primrec fail_logins :: "ip_addr \<Rightarrow> nat list \<Rightarrow> world \<Rightarrow> world" where
  "fail_logins ip [] s = s"
| "fail_logins ip (t # ts) s = fail_logins ip ts (snd (record_failed_login ip (s\<lparr>clock_ns := t\<rparr>)))"

definition in_window :: "nat \<Rightarrow> nat \<Rightarrow> bool" where
  "in_window t0 t \<longleftrightarrow> int (t div 10 ^ 9) - int (t0 div 10 ^ 9) \<le> login_lockout_window_secs"

lemma fail_logins_count:
  assumes "login_attempts_map s ip = Some \<lparr>la_count = of_nat n, la_window_start = int (t0 div 10 ^ 9)\<rparr>"
    and "\<forall>t\<in>set ts. in_window t0 t"
  shows "login_attempts_map (fail_logins ip ts s) ip
    = Some \<lparr>la_count = of_nat (n + length ts), la_window_start = int (t0 div 10 ^ 9)\<rparr>"
  using assms
proof (induction ts arbitrary: s n)
  case Nil
  then show ?case by simp
next
  case (Cons t ts)
  let ?s = "snd (record_failed_login ip (s\<lparr>clock_ns := t\<rparr>))"
  have "login_attempts_map ?s ip = Some \<lparr>la_count = of_nat (Suc n), la_window_start = int (t0 div 10 ^ 9)\<rparr>"
    using Cons.prems by (auto simp: record_failed_login_run now_secs_def in_window_def add.commute)
  then show ?case using Cons.IH [of ?s "Suc n"] Cons.prems(2) by simp
qed

lemma fail_logins_other: "ip' \<noteq> ip \<Longrightarrow> login_attempts_map (fail_logins ip ts s) ip' = login_attempts_map s ip'"
  by (induction ts arbitrary: s) (simp_all add: record_failed_login_run)

lemma check_login_lockout_run:
  "check_login_lockout ip s =
     (case login_attempts_map s ip of
        None \<Rightarrow> (Done (), s)
      | Some a \<Rightarrow>
         (if login_lockout_window_secs < now_secs s - la_window_start a \<or> la_count a < login_max_failures then (Done (), s)
          else (Fail (TooManyLoginAttempts ((login_lockout_window_secs - (now_secs s - la_window_start a) + 59) div 60)), s)))"
  by (simp add: check_login_lockout_def Let_def ret_def throw_def split: option.split)

text \<open>C32 Once an address has failed ten logins or more within a quarter of an hour of the first,
  every further attempt from it in that window is refused, a correct password included, with a
  waiting time of at most fifteen minutes; after the window it may try again, and no other
  address is affected.\<close>

theorem lockout_after_ten_failures:
  assumes "login_attempts_map s ip = None" and "\<forall>t\<in>set ts. in_window t0 t"
    and "9 \<le> length ts" and "length ts < 2 ^ 32 - 1" and "t0 \<le> now" and "ip' \<noteq> ip"
  defines "s' \<equiv> (fail_logins ip (t0 # ts) s)\<lparr>clock_ns := now\<rparr>"
  shows "(if in_window t0 now
          then \<exists>m\<in>{0..15}. check_login_lockout ip s' = (Fail (TooManyLoginAttempts m), s')
          else check_login_lockout ip s' = (Done (), s'))
    \<and> fst (check_login_lockout ip' s') = fst (check_login_lockout ip' (s\<lparr>clock_ns := now\<rparr>))"
proof -
  let ?s1 = "snd (record_failed_login ip (s\<lparr>clock_ns := t0\<rparr>))"
  have "login_attempts_map ?s1 ip = Some \<lparr>la_count = of_nat 1, la_window_start = int (t0 div 10 ^ 9)\<rparr>"
    using assms(1) by (simp add: record_failed_login_run now_secs_def)
  then have att: "login_attempts_map s' ip = Some \<lparr>la_count = of_nat (1 + length ts), la_window_start = int (t0 div 10 ^ 9)\<rparr>"
    using fail_logins_count [OF _ assms(2), of ?s1 ip 1] unfolding s'_def by simp
  have cnt: "\<not> (of_nat (1 + length ts) :: 32 word) < login_max_failures"
  proof -
    have "unat (of_nat (1 + length ts) :: 32 word) = 1 + length ts"
      using assms(4) by (simp add: unsigned_of_nat take_bit_nat_eq_self del: of_nat_Suc of_nat_add)
    moreover have "unat login_max_failures = 10" by (simp add: login_max_failures_def)
    ultimately show ?thesis using assms(3) by (simp add: word_less_nat_alt del: of_nat_Suc of_nat_add)
  qed
  define e where "e = int (now div 10 ^ 9) - int (t0 div 10 ^ 9)"
  have e0: "0 \<le> e"
    using div_le_mono [OF assms(5), of "10 ^ 9"] unfolding e_def by (simp only: of_nat_le_iff diff_ge_0_iff_ge)
  have chk: "check_login_lockout ip s' = (if 900 < e then (Done (), s')
      else (Fail (TooManyLoginAttempts ((900 - e + 59) div 60)), s'))"
    using att cnt by (simp add: check_login_lockout_run now_secs_def s'_def e_def login_lockout_window_secs_def)
  have "in_window t0 now \<Longrightarrow> \<exists>m\<in>{0..15}. check_login_lockout ip s' = (Fail (TooManyLoginAttempts m), s')"
  proof -
    assume "in_window t0 now"
    then have "e \<le> 900" by (simp add: in_window_def e_def login_lockout_window_secs_def)
    then have "(900 - e + 59) div 60 \<in> {0..15}" using e0 by auto
    then show "\<exists>m\<in>{0..15}. check_login_lockout ip s' = (Fail (TooManyLoginAttempts m), s')"
      using chk \<open>e \<le> 900\<close> by auto
  qed
  moreover have "\<not> in_window t0 now \<Longrightarrow> check_login_lockout ip s' = (Done (), s')"
    using att by (simp add: check_login_lockout_run in_window_def now_secs_def s'_def)
  moreover have "login_attempts_map s' ip' = login_attempts_map s ip'"
    using fail_logins_other [OF assms(6), of "t0 # ts" s] unfolding s'_def by (simp del: fail_logins.simps)
  then have "fst (check_login_lockout ip' s') = fst (check_login_lockout ip' (s\<lparr>clock_ns := now\<rparr>))"
    by (simp add: check_login_lockout_run now_secs_def s'_def split: option.split)
  ultimately show ?thesis by simp
qed

lemma lockout_after_ten_failures_witness:
  "(if in_window 0 0
    then \<exists>m\<in>{0..15}. check_login_lockout (IpV4 1 2 3 4)
        ((fail_logins (IpV4 1 2 3 4) (0 # replicate 9 0) sample_world)\<lparr>clock_ns := 0\<rparr>)
      = (Fail (TooManyLoginAttempts m), (fail_logins (IpV4 1 2 3 4) (0 # replicate 9 0) sample_world)\<lparr>clock_ns := 0\<rparr>)
    else check_login_lockout (IpV4 1 2 3 4)
        ((fail_logins (IpV4 1 2 3 4) (0 # replicate 9 0) sample_world)\<lparr>clock_ns := 0\<rparr>)
      = (Done (), (fail_logins (IpV4 1 2 3 4) (0 # replicate 9 0) sample_world)\<lparr>clock_ns := 0\<rparr>))
   \<and> fst (check_login_lockout (IpV4 5 6 7 8)
        ((fail_logins (IpV4 1 2 3 4) (0 # replicate 9 0) sample_world)\<lparr>clock_ns := 0\<rparr>))
     = fst (check_login_lockout (IpV4 5 6 7 8) (sample_world\<lparr>clock_ns := 0\<rparr>))"
  by (rule lockout_after_ten_failures)
     (simp_all add: sample_world_def in_window_def login_lockout_window_secs_def)

text \<open>Evicting expired entries from the table of failed logins bounds the table without
  changing any decision: the sweep leaves every address's lockout check as it was.\<close>

lemma sweep_keeps_lockout_decisions:
  "fst (check_login_lockout ip (snd (sweep_expired_login_attempts s))) = fst (check_login_lockout ip s)
   \<and> \<not> (\<exists>a. a \<in> ran (login_attempts_map (snd (sweep_expired_login_attempts s)))
            \<and> login_lockout_window_secs < now_secs s - la_window_start a)"
proof -
  have run: "snd (sweep_expired_login_attempts s) = s\<lparr>login_attempts_map :=
       retain (\<lambda>_ a. now_secs s - la_window_start a \<le> login_lockout_window_secs) (login_attempts_map s)\<rparr>"
    by (simp add: sweep_expired_login_attempts_def modify_def)
  have "fst (check_login_lockout ip (snd (sweep_expired_login_attempts s))) = fst (check_login_lockout ip s)"
    unfolding run check_login_lockout_run
    by (simp add: retain_def now_secs_def split: option.split)
  then show ?thesis unfolding run by (auto simp: ran_def retain_Some)
qed

text \<open>C34 A request is taken for a user by its cookie only if the cookie names a live session of
  at most thirty days of age and that session's user still has a row; the role is the one in the
  row at that moment, so a change of role or a deletion takes effect on the next request.\<close>

theorem cookie_authentication_sound:
  assumes "cookie_user hs s = (Done cu, s')"
  shows "\<exists>token ses. cookie_value hs session_cookie = Some token \<and> sessions s token = Some ses
      \<and> now_secs s - ses_created_at ses \<le> session_max_age_secs
      \<and> (\<exists>u\<in>set (db_users (db s)). u_username u = ses_username ses \<and> u_id u = cu_id cu
            \<and> cu_username cu = ses_username ses \<and> u_role u = role_as_str (cu_role cu))"
proof -
  obtain name s1 where "resolve_cookie_username hs s = (Done name, s1)" and "load_current_user name s1 = (Done cu, s')"
    using assms unfolding cookie_user_def by (rule bindc_DoneE)
  then show ?thesis
    by (elim resolve_cookie_username_Done load_current_user_Done) (auto dest!: find_SomeD)
qed

definition sample_headers :: headers where
  "sample_headers = Map.empty(''cookie'' \<mapsto> ''a=b; berth_session=tok'')"

definition sample_session_world :: world where
  "sample_session_world = sample_token_world\<lparr>sessions := Map.empty(''tok'' \<mapsto> \<lparr>ses_username = ''ann'', ses_created_at = 0\<rparr>)\<rparr>"

lemma sample_cookie: "cookie_value sample_headers session_cookie = Some ''tok''"
  by (simp add: cookie_value_def sample_headers_def session_cookie_def) code_simp

lemma sample_cookie_user:
  "cookie_user sample_headers sample_session_world
     = (Done \<lparr>cu_id = 1, cu_username = ''ann'', cu_role = Member\<rparr>, sample_session_world)"
  by (simp add: cookie_user_def resolve_cookie_username_def sample_cookie load_current_user_def bindc_def ok_or_def
      gets_def ret_def db_first_no_faults user_role_def role_from_str_def from_sum_def session_max_age_secs_def
      sample_session_world_def sample_token_simps)

lemma cookie_authentication_sound_witness:
  "\<exists>token ses. cookie_value sample_headers session_cookie = Some token \<and> sessions sample_session_world token = Some ses
      \<and> now_secs sample_session_world - ses_created_at ses \<le> session_max_age_secs
      \<and> (\<exists>u\<in>set (db_users (db sample_session_world)). u_username u = ses_username ses
            \<and> u_id u = cu_id \<lparr>cu_id = 1, cu_username = ''ann'', cu_role = Member\<rparr>
            \<and> cu_username \<lparr>cu_id = 1, cu_username = ''ann'', cu_role = Member\<rparr> = ses_username ses
            \<and> u_role u = role_as_str (cu_role \<lparr>cu_id = 1, cu_username = ''ann'', cu_role = Member\<rparr>))"
  by (rule cookie_authentication_sound [OF sample_cookie_user])

text \<open>Revoking a user's sessions logs the user out everywhere and nobody else: afterwards no
  request resolves to that user by a cookie, and a request of any other user resolves as
  before. Keeping one token spares exactly that session.\<close>

lemma revoked_sessions_are_gone:
  fixes s :: world and name keep :: string
  defines "s1 \<equiv> snd (revoke_sessions_for name s)"
    and "s2 \<equiv> snd (revoke_other_sessions_for name keep s)"
  shows "sessions s1 token = (case sessions s token of
            Some ses \<Rightarrow> if ses_username ses = name then None else Some ses | None \<Rightarrow> None)
    \<and> sessions s2 token = (if token = keep then sessions s token else sessions s1 token)
    \<and> resolve_cookie_username hs s1 \<noteq> (Done name, s')"
proof -
  have s1: "sessions s1 = retain (\<lambda>_ ses. ses_username ses \<noteq> name) (sessions s)"
    and s2: "sessions s2 = retain (\<lambda>token ses. ses_username ses \<noteq> name \<or> token = keep) (sessions s)"
    by (simp_all add: s1_def s2_def revoke_sessions_for_def revoke_other_sessions_for_def modify_def)
  have "resolve_cookie_username hs s1 \<noteq> (Done name, s')"
  proof
    assume "resolve_cookie_username hs s1 = (Done name, s')"
    then show False by (rule resolve_cookie_username_Done) (simp add: s1 retain_Some)
  qed
  then show ?thesis by (auto simp: s1 s2 retain_def split: option.split)
qed

text \<open>Cross-site request forgery: a request that would change state and carries the session
  cookie, but no bearer token, passes only with the browser's same-origin mark.\<close>

lemma verify_same_origin_iff:
  "verify_same_origin method hs = Inr () \<longleftrightarrow>
     method \<in> {GET, HEAD, OPTIONS} \<or> bearer_token hs \<noteq> None \<or> cookie_value hs session_cookie = None
     \<or> hs ''sec-fetch-site'' = Some ''same-origin''"
  by (simp add: verify_same_origin_def)

end
