(* ===== verification/Deploy.thy ===== *)
theory Deploy
  imports DeploymentStore Auth
begin

text \<open>
  The deployment flows and the app routes of \<open>routes/api.rs\<close>. A request body is already parsed:
  JSON bodies are the arguments of the handlers, a multipart body is the list of its fields as
  the parser yields them. The detached part of a git deployment takes from the environment
  whether the clone's time-out fires and what the clone then reads from its interrupt flag.
\<close>

section \<open>Access to an app\<close>

definition required_level :: "http_method \<Rightarrow> permission_level" where
  "required_level method = (if method = GET \<or> method = HEAD then Read else Write)"

text \<open>The middleware of every app-scoped route: \<open>run_handler\<close> runs only behind it.\<close>

definition enforce_app_access ::
  "externals \<Rightarrow> (string \<rightharpoonup> string) \<Rightarrow> current_user \<Rightarrow> http_method \<Rightarrow> 'a hub \<Rightarrow> 'a hub" where
  "enforce_app_access x params user method run_handler =
     bindc (ok_or (AppNotFound []) (params ''app_id'')) (\<lambda>aid.
     bindc (get_app_by_id x aid) (\<lambda>app.
     bindc (from_sum (check_app_permission user app (required_level method))) (\<lambda>_.
     run_handler)))"

section \<open>Views\<close>

record app_view =
  av_id :: string
  av_name :: string
  av_created_at :: int
  av_updated_at :: int
  av_active_deployment_id :: "string option"
  av_host_id :: int
  av_source :: app_source
  av_env_vars :: "env_var list"
  av_permissions :: "app_permission list"

text \<open>Eight bullets, in UTF-8.\<close>

definition secret_mask :: string where
  "secret_mask = concat (replicate 8 [CHR 0xE2, CHR 0x80, CHR 0xA2])"

definition mask_secrets :: "env_var list \<Rightarrow> env_var list" where
  "mask_secrets env_vars =
     map (\<lambda>v. case ev_value v of Secret _ \<Rightarrow> v\<lparr>ev_value := Secret secret_mask\<rparr> | Plain _ \<Rightarrow> v) env_vars"

definition view_of_app :: "externals \<Rightarrow> app \<Rightarrow> app_view hub" where
  "view_of_app x app =
     bindc (active_deployment_id x (app_id app)) (\<lambda>active.
     ret \<lparr>av_id = app_id app, av_name = app_name app, av_created_at = app_created_at app,
          av_updated_at = app_updated_at app, av_active_deployment_id = active,
          av_host_id = app_host_id app, av_source = app_source app,
          av_env_vars = mask_secrets (app_env_vars app), av_permissions = app_permissions app\<rparr>)"

datatype container_status = Running | Stopped | Unknown

record deployment_view =
  dv_deployment :: deployment
  dv_is_active :: bool
  dv_container_status :: "container_status option"

definition view_of_deployment :: "string option \<Rightarrow> int \<Rightarrow> deployment \<Rightarrow> deployment_view hub" where
  "view_of_deployment active_id host_id d =
     bindc (case dep_container_name d of
              Some cname \<Rightarrow>
                bindc (gets (\<lambda>s. agent_link_for s host_id)) (\<lambda>link.
                bindc (attempt (is_running link cname)) (\<lambda>r.
                ret (Some (case r of Inr True \<Rightarrow> Running | Inr False \<Rightarrow> Stopped | Inl _ \<Rightarrow> Unknown))))
            | None \<Rightarrow> ret None) (\<lambda>st.
     ret \<lparr>dv_deployment = d, dv_is_active = (active_id = Some (dep_id d)), dv_container_status = st\<rparr>)"

section \<open>Activation\<close>

definition log_target_for :: "world \<Rightarrow> string \<Rightarrow> string \<Rightarrow> log_kind \<Rightarrow> log_target" where
  "log_target_for s aid did kind =
     \<lparr>lt_path = deployment_log_path s aid did kind, lt_deployment_id = did, lt_kind = kind\<rparr>"

text \<open>Stopping the previous container, if another deployment was active; failures are logged.\<close>

definition stop_previous :: "externals \<Rightarrow> string \<Rightarrow> string \<Rightarrow> int \<Rightarrow> unit hub" where
  "stop_previous x aid did host_id =
     bindc (active_deployment_id x aid) (\<lambda>previous.
     case previous of
       None \<Rightarrow> ret ()
     | Some previous_id \<Rightarrow>
        (if previous_id = did then ret ()
         else
          bindc (attempt (get_deployment x aid previous_id)) (\<lambda>r.
          case r of
            Inl _ \<Rightarrow> ret ()
          | Inr d \<Rightarrow>
             (case dep_container_name d of
                None \<Rightarrow> ret ()
              | Some cname \<Rightarrow>
                 bindc (gets (\<lambda>s. agent_link_for s host_id)) (\<lambda>link.
                 ignore (stop_and_remove link cname False))))))"

definition start_new :: "externals \<Rightarrow> app \<Rightarrow> string \<Rightarrow> run_config \<Rightarrow> string \<Rightarrow> unit hub" where
  "start_new x app did run cname =
     bindc (gets (\<lambda>s. if rc_install_command run \<noteq> None then Some (log_target_for s (app_id app) did LogInstall) else None))
       (\<lambda>install_target.
     bindc (gets secrets_key) (\<lambda>key.
     bindc (from_sum (decrypt_env_vars x key (app_env_vars app))) (\<lambda>env_vars.
     bindc (gets (\<lambda>s. agent_link_for s (app_host_id app))) (\<lambda>link.
     bindc (gets (\<lambda>s. lim_install_timeout_secs (limits s))) (\<lambda>timeout.
     start x link did cname run env_vars timeout install_target)))))"

definition activate_with_containers :: "externals \<Rightarrow> string \<Rightarrow> string \<Rightarrow> unit hub" where
  "activate_with_containers x aid did =
     bindc (get_app_by_id x aid) (\<lambda>app.
     bindc (case app_run_config app of
         None \<Rightarrow> ret ()
       | Some run \<Rightarrow>
          bindc (get_deployment x aid did) (\<lambda>deployment.
          bindc (ok_or (ContainerStartFailed ''run-mode deployment has no container_name'') (dep_container_name deployment)) (\<lambda>cname.
          bindc (start_new x app did run cname) (\<lambda>_.
          bindc (gets (\<lambda>s. agent_link_for s (app_host_id app))) (\<lambda>link.
          bindc (gets (\<lambda>s. log_target_for s (app_id app) did LogRun)) (\<lambda>target.
          bindc (spawn_run_log_pump link cname target) (\<lambda>_.
          stop_previous x aid did (app_host_id app)))))))) (\<lambda>_.
     activate_deployment x aid did))"

section \<open>Git deployments\<close>

definition start_git_deployment :: "externals \<Rightarrow> string \<Rightarrow> deployment hub" where
  "start_git_deployment x aid =
     bindc (create_pending_git_deployment x aid) (\<lambda>(deployment, git_source).
     bindc (spawn (RunGitDeployment aid (dep_id deployment) git_source)) (\<lambda>_.
     ret deployment))"

record fetch_env =
  fe_timed_out :: bool
  fe_flag1 :: bool
  fe_flag2 :: bool

text \<open>The clone under its time-out; every way it can fail clears the staging directory.\<close>

definition timed_clone :: "externals \<Rightarrow> fetch_env \<Rightarrow> path \<Rightarrow> git_source \<Rightarrow> log_target \<Rightarrow> (path \<times> string) hub" where
  "timed_clone x env staging git_source clone_target =
     (if fe_timed_out env then
        bindc (ignore (clone_repo x (fe_flag1 env) (fe_flag2 env) staging git_source (Some clone_target))) (\<lambda>_.
        bindc (remove_dir_all_logged staging) (\<lambda>_.
        throw (GitError ''timed out waiting for git fetch'')))
      else
        on_error (clone_repo x False False staging git_source (Some clone_target))
          (\<lambda>_. remove_dir_all_logged staging))"

definition run_build :: "externals \<Rightarrow> app \<Rightarrow> string \<Rightarrow> path \<Rightarrow> build_config \<Rightarrow> unit hub" where
  "run_build x app did checkout_dir build =
     bindc (gets (\<lambda>s. log_target_for s (app_id app) did LogBuild)) (\<lambda>build_target.
     bindc (gets secrets_key) (\<lambda>key.
     bindc (from_sum (decrypt_env_vars x key (app_env_vars app))) (\<lambda>env_vars.
     bindc (gets (\<lambda>s. agent_link_for s (app_host_id app))) (\<lambda>link.
     bindc (gets (\<lambda>s. lim_build_timeout_secs (limits s))) (\<lambda>timeout.
     run_build_command x link (container_name (app_id app) did) checkout_dir
       \<lparr>bcc_image = image_tag (bc_image build), bcc_command = bc_command build, bcc_env_vars = env_vars,
        bcc_timeout = timeout\<rparr> (Some build_target))))))"

definition execute_git_deployment ::
  "externals \<Rightarrow> fetch_env \<Rightarrow> string \<Rightarrow> string \<Rightarrow> git_source \<Rightarrow> unit hub" where
  "execute_git_deployment x env aid did git_source =
     bindc (get_app_by_id x aid) (\<lambda>app.
     bindc (unique_tmp_path ''git-deployment'') (\<lambda>staging.
     bindc (gets (\<lambda>s. log_target_for s (app_id app) did LogClone)) (\<lambda>clone_target.
     bindc (timed_clone x env staging git_source clone_target) (\<lambda>(checkout_dir, commit_sha).
     bindc (case gs_mode git_source of
              BuildMode build \<Rightarrow>
                on_error (run_build x app did checkout_dir build) (\<lambda>_. remove_dir_all_logged staging)
            | StaticMode _ \<Rightarrow> ret ()
            | RunMode _ \<Rightarrow> ret ()) (\<lambda>_.
     bindc (on_error (finish_git_deployment x staging checkout_dir aid did git_source commit_sha)
              (\<lambda>_. remove_dir_all_logged staging)) (\<lambda>_.
     bindc (case gs_mode git_source of
              RunMode _ \<Rightarrow> ship_run_deployment_to_agent x aid did
            | StaticMode _ \<Rightarrow> ret ()
            | BuildMode _ \<Rightarrow> ret ()) (\<lambda>_.
     bindc (activate_with_containers x aid did) (\<lambda>_.
     mark_git_deployment_ready x aid did))))))))"

definition run_git_deployment :: "externals \<Rightarrow> fetch_env \<Rightarrow> string \<Rightarrow> string \<Rightarrow> git_source \<Rightarrow> unit hub" where
  "run_git_deployment x env aid did git_source =
     bindc (attempt (execute_git_deployment x env aid did git_source)) (\<lambda>r.
     case r of
       Inr _ \<Rightarrow> ret ()
     | Inl err \<Rightarrow> ignore (fail_git_deployment x aid did (display err)))"

section \<open>Deleting\<close>

definition delete_app_with_containers :: "externals \<Rightarrow> string \<Rightarrow> unit hub" where
  "delete_app_with_containers x aid =
     bindc (get_app_by_id x aid) (\<lambda>app.
     bindc (list_deployments x aid) (\<lambda>ds.
     bindc (forc ds (\<lambda>d.
       case dep_container_name d of
         Some cname \<Rightarrow>
           bindc (gets (\<lambda>s. agent_link_for s (app_host_id app))) (\<lambda>link. stop_and_remove link cname False)
       | None \<Rightarrow> ret ())) (\<lambda>_.
     delete_app x aid)))"

definition delete_deployment_with_containers :: "externals \<Rightarrow> string \<Rightarrow> string \<Rightarrow> unit hub" where
  "delete_deployment_with_containers x aid did =
     bindc (get_app_by_id x aid) (\<lambda>app.
     bindc (attempt (get_deployment x aid did)) (\<lambda>r.
     (let cname = (case r of Inr d \<Rightarrow> dep_container_name d | Inl _ \<Rightarrow> None) in
     bindc (delete_deployment x aid did) (\<lambda>_.
     case cname of
       None \<Rightarrow> ret ()
     | Some c \<Rightarrow>
        bindc (gets (\<lambda>s. agent_link_for s (app_host_id app))) (\<lambda>link.
        bindc (stop_and_remove link c False) (\<lambda>_.
        delete_deployment_dir link did))))))"

section \<open>Uploads\<close>

record multipart_field =
  mf_name :: "string option"
  mf_file_name :: "string option"
  mf_chunks :: "(string + string) list"

type_synonym multipart = "(string + multipart_field) list"

fun write_chunks :: "path \<Rightarrow> u64 \<Rightarrow> u64 \<Rightarrow> (string + string) list \<Rightarrow> u64 hub" where
  "write_chunks zip_path max_upload tot [] = ret tot"
| "write_chunks zip_path max_upload tot (c # cs) =
     (case c of
        Inl err \<Rightarrow> throw (Multipart err)
      | Inr chunk \<Rightarrow>
         (let tot' = tot + of_nat (length chunk) in
          if max_upload < tot' then throw TooLarge
          else bindc (io (append_file zip_path chunk)) (\<lambda>_. write_chunks zip_path max_upload tot' cs)))"

fun stream_upload_to_disk :: "path \<Rightarrow> multipart \<Rightarrow> (string option \<times> u64) hub" where
  "stream_upload_to_disk zip_path [] = throw MissingUploadFile"
| "stream_upload_to_disk zip_path (f # more_fields) =
     (case f of
        Inl err \<Rightarrow> throw (Multipart err)
      | Inr field \<Rightarrow>
         (if mf_name field \<noteq> Some ''file'' then stream_upload_to_disk zip_path more_fields
          else
            bindc (io (write_file zip_path [])) (\<lambda>_.
            bindc (gets (\<lambda>s. lim_max_upload_bytes (limits s))) (\<lambda>max_upload.
            bindc (write_chunks zip_path max_upload 0 (mf_chunks field)) (\<lambda>tot.
            ret (mf_file_name field, tot))))))"

definition upload_deployment :: "externals \<Rightarrow> string \<Rightarrow> multipart \<Rightarrow> deployment hub" where
  "upload_deployment x aid multipart =
     bindc (unique_tmp_path ''upload'') (\<lambda>tmp.
     (let zip_path = with_extension ''zip'' tmp in
     bindc (on_error (stream_upload_to_disk zip_path multipart) (\<lambda>_. remove_file_logged zip_path))
       (\<lambda>(original_filename, upload_size_bytes).
     bindc (attempt (create_deployment x aid zip_path original_filename upload_size_bytes)) (\<lambda>result.
     bindc (remove_file_logged zip_path) (\<lambda>_.
     from_sum result)))))"

section \<open>Handlers\<close>

definition list_apps_handler :: "externals \<Rightarrow> current_user \<Rightarrow> app_view list hub" where
  "list_apps_handler x user =
     bindc (list_apps x) (\<lambda>apps.
     mapc (view_of_app x)
       (filter (\<lambda>a. cu_role user = Admin \<or> has_permission a (cu_username user) Read) apps))"

definition create_app_handler ::
  "externals \<Rightarrow> current_user \<Rightarrow> string \<Rightarrow> int \<Rightarrow> app_source \<Rightarrow> env_var_input list \<Rightarrow> app_view hub" where
  "create_app_handler x user name host_id src env_vars =
     bindc (create_app x name src env_vars (if cu_role user = Member then Some (cu_username user) else None) host_id)
       (view_of_app x)"

definition get_app_handler :: "externals \<Rightarrow> string \<Rightarrow> app_view hub" where
  "get_app_handler x aid = bindc (get_app_by_id x aid) (view_of_app x)"

definition update_app_handler ::
  "externals \<Rightarrow> string \<Rightarrow> string option \<Rightarrow> env_var_input list option \<Rightarrow> int option \<Rightarrow> app_view hub" where
  "update_app_handler x aid name env_vars host_id = bindc (update_app x aid name env_vars host_id) (view_of_app x)"

definition update_app_permissions_endpoint :: "externals \<Rightarrow> string \<Rightarrow> app_permission list \<Rightarrow> app_view hub" where
  "update_app_permissions_endpoint x aid permissions =
     bindc (update_app_permissions x aid permissions) (view_of_app x)"

definition list_deployments_handler :: "externals \<Rightarrow> string \<Rightarrow> deployment_view list hub" where
  "list_deployments_handler x aid =
     bindc (get_app_by_id x aid) (\<lambda>app.
     bindc (active_deployment_id x aid) (\<lambda>active_id.
     bindc (list_deployments x aid) (\<lambda>ds.
     mapc (view_of_deployment active_id (app_host_id app)) ds)))"

record logs_response =
  lr_content_type :: string
  lr_backlog :: string
  lr_live :: bool

definition deployment_logs :: "externals \<Rightarrow> string \<Rightarrow> string \<Rightarrow> bool \<Rightarrow> log_kind option \<Rightarrow> logs_response hub" where
  "deployment_logs x aid did follow phase =
     bindc (get_deployment x aid did) (\<lambda>_.
     bindc (get_app_by_id x aid) (\<lambda>app.
     bindc (gets (\<lambda>s. deployment_dir s (app_id app) did)) (\<lambda>dir.
     bindc (log_active did) (\<lambda>active.
     bindc (case phase of
              Some kind \<Rightarrow> ret kind
            | None \<Rightarrow>
               (case active of
                  Some kind \<Rightarrow> ret kind
                | None \<Rightarrow> bindc (resolve_terminal_phase dir) (\<lambda>k. ok_or (NoContainer did) k))) (\<lambda>kind.
     bindc (read_backlog dir kind) (\<lambda>backlog.
     ret \<lparr>lr_content_type = (if follow then ''text/event-stream'' else ''text/plain; charset=utf-8''),
          lr_backlog = backlog, lr_live = (active = Some kind \<and> follow)\<rparr>))))))"

definition deployment_stats :: "externals \<Rightarrow> string \<Rightarrow> string \<Rightarrow> container_stats option hub" where
  "deployment_stats x aid did =
     bindc (get_app_by_id x aid) (\<lambda>app.
     bindc (get_deployment x aid did) (\<lambda>d.
     case dep_container_name d of
       None \<Rightarrow> ret None
     | Some cname \<Rightarrow>
        bindc (gets (\<lambda>s. agent_link_for s (app_host_id app))) (\<lambda>link.
        bindc (is_running link cname) (\<lambda>running.
        if \<not> running then ret None
        else bindc (stats link cname) (\<lambda>st. ret (Some st))))))"

end
