(* ===== verification/Reconcile.thy ===== *)
theory Reconcile
  imports Deploy
begin

text \<open>
  What runs each time an agent connects: \<open>reconcile.rs\<close>. Every failure is logged and passed
  over, so none of these steps returns an error.
\<close>

definition fail_pending_deployment :: "externals \<Rightarrow> app \<Rightarrow> deployment \<Rightarrow> unit hub" where
  "fail_pending_deployment x app d =
     (if dep_status d \<noteq> Pending then ret ()
      else
       bindc (case dep_container_name d of
                Some cname \<Rightarrow>
                  bindc (gets (\<lambda>s. agent_link_for s (app_host_id app))) (\<lambda>link.
                  ignore (stop_and_remove link cname True))
              | None \<Rightarrow> ret ()) (\<lambda>_.
       ignore (fail_git_deployment x (app_id app) (dep_id d) ''interrupted by server restart'')))"

definition fail_pending_deployments :: "externals \<Rightarrow> unit hub" where
  "fail_pending_deployments x =
     bindc (attempt (list_apps x)) (\<lambda>r.
     case r of
       Inl err \<Rightarrow> ret ()
     | Inr apps \<Rightarrow>
        forc apps (\<lambda>app.
          bindc (attempt (list_deployments x (app_id app))) (\<lambda>r.
          case r of
            Inl err \<Rightarrow> ret ()
          | Inr deployments \<Rightarrow> forc deployments (fail_pending_deployment x app))))"

definition reconcile_app :: "externals \<Rightarrow> app \<Rightarrow> unit hub" where
  "reconcile_app x app =
     (case app_run_config app of
        None \<Rightarrow> ret ()
      | Some run \<Rightarrow>
         bindc (active_deployment_id x (app_id app)) (\<lambda>active.
         case active of
           None \<Rightarrow> ret ()
         | Some did \<Rightarrow>
            bindc (get_deployment x (app_id app) did) (\<lambda>d.
            case dep_container_name d of
              None \<Rightarrow> ret ()
            | Some cname \<Rightarrow>
               bindc (gets secrets_key) (\<lambda>key.
               bindc (from_sum (decrypt_env_vars x key (app_env_vars app))) (\<lambda>env_vars.
               bindc (gets (\<lambda>s. agent_link_for s (app_host_id app))) (\<lambda>link.
               bindc (gets (\<lambda>s. lim_install_timeout_secs (limits s))) (\<lambda>timeout.
               bindc (start x link did cname run env_vars timeout None) (\<lambda>_.
               bindc (gets (\<lambda>s. agent_link_for s (app_host_id app))) (\<lambda>link.
               bindc (gets (\<lambda>s. log_target_for s (app_id app) did LogRun)) (\<lambda>target.
               spawn_run_log_pump link cname target))))))))))"

definition reconcile_run_mode_containers :: "externals \<Rightarrow> unit hub" where
  "reconcile_run_mode_containers x =
     bindc (attempt (list_apps x)) (\<lambda>r.
     case r of
       Inl err \<Rightarrow> ret ()
     | Inr apps \<Rightarrow> forc apps (\<lambda>app. ignore (reconcile_app x app)))"

definition on_agent_connected :: "externals \<Rightarrow> unit hub" where
  "on_agent_connected x =
     bindc (fail_pending_deployments x) (\<lambda>_.
     bindc (reconcile_run_mode_containers x) (\<lambda>_.
     sweep_agent_orphaned_deployment_dirs x))"

end
