(* ===== verification/Runs.thy ===== *)
theory Runs
  imports Consistency Reconcile
begin

text \<open>
  The hub as a transition system: every storage operation, deployment flow and reconciliation
  step, run from any state with any arguments and any fault script, and restarts in between.
  The invariant of the tables and the one of the tree hold in every reachable state.
\<close>

section \<open>Sequencing on the tree invariant\<close>

lemma tree_with_tmp:
  assumes "\<And>nm. triple (tree_ok x dd) (k (dd @ [''tmp'', nm])) Q (tree_ok x dd)"
  shows "triple (tree_ok x dd) (bindc (unique_tmp_path pre) k) Q (tree_ok x dd)"
  using triple_with_tmp [of x dd "{}" anything "{}" k Q pre] assms by (simp add: tree_ok_def [abs_def])

lemma tree_gets:
  "(\<And>s. tree_ok x dd s \<Longrightarrow> A (f s)) \<Longrightarrow> (\<And>a. A a \<Longrightarrow> triple (tree_ok x dd) (k a) Q E)
    \<Longrightarrow> triple (tree_ok x dd) (bindc (gets f) k) Q E"
  by (simp add: triple_def)

lemma tree_seq:
  assumes "keeps (tree_ok x dd) m" and "\<And>a. triple (tree_ok x dd) (k a) Q (tree_ok x dd)"
  shows "triple (tree_ok x dd) (bindc m k) Q (tree_ok x dd)"
  by (rule triple_bindc [OF triple_keeps [OF assms(1)] assms(2)])

lemma tree_attempt: "keeps (tree_ok x dd) m \<Longrightarrow> triple (tree_ok x dd) (attempt m) (\<lambda>_. tree_ok x dd) (tree_ok x dd)"
  unfolding keeps_iff_triple [symmetric] by (rule keeps_attempt)

lemma tree_modify_other:
  "(\<And>s. core (h s) = core s) \<Longrightarrow> keeps (tree_ok x dd) (modify h)"
  by (rule keeps_tree_core) (rule leaves_modify)

section \<open>Log files lie below the deployments\<close>

definition deep :: "path \<Rightarrow> path \<Rightarrow> bool" where
  "deep dd p \<longleftrightarrow> length dd + 4 < length p"

lemma needed_length: "q \<in> needed x dd d \<Longrightarrow> length q \<le> length dd + 4"
  by (auto simp: needed_def path_defs)

lemma deep_not_needed: "deep dd p \<Longrightarrow> q \<in> needed x dd d \<Longrightarrow> \<not> prefix p q"
  using needed_length by (force simp: deep_def dest: prefix_length_le)

lemma deep_not_Nil: "deep dd p \<Longrightarrow> p \<noteq> []"
  by (auto simp: deep_def)

lemma keeps_rename_same: "keeps (\<lambda>s. dirs_in D (fs s)) (rename q q)"
  unfolding rename_def by (intro keeps_ext_call keepsI) (auto split: option.splits simp: rename_check_def path_exists_def)

lemma tree_rename_deep:
  assumes "deep dd p" and "q \<noteq> []" shows "keeps (tree_ok x dd) (rename p q)"
  using assms
  by (cases "p = q") (auto intro!: keeps_tree_fs fs_only_ops keeps_rename_same keeps_rename
      dest: deep_not_needed deep_not_Nil)


lemma tree_log_files:
  "p \<noteq> [] \<Longrightarrow> keeps (tree_ok x dd) (open_append p)" "keeps (tree_ok x dd) (append_file p c)"
  "keeps (tree_ok x dd) (file_len p)"
  by (intro keeps_tree_fs fs_only_log_files keeps_open_append keeps_append_file keeps_tree_core core_reads; simp)+

lemma core_registry: "leaves core (try_register did k)" "leaves core (deregister did)"
  by (intro leaves_registry; simp add: core_def)+

lemma tree_open_for_kind: "p \<noteq> [] \<Longrightarrow> keeps (tree_ok x dd) (open_for_kind k p)"
  unfolding open_for_kind_def by (cases "k = LogRun") (simp_all, (intro keeps_intros tree_log_files tree_create_write; simp)+)

lemma tree_pump_new:
  "lt_path t \<noteq> [] \<Longrightarrow> triple (tree_ok x dd) (pump_try_new t)
     (\<lambda>r s. tree_ok x dd s \<and> (r = None \<or> (\<exists>q. r = Some q \<and> lp_target q = t))) (tree_ok x dd)"
  unfolding pump_try_new_def
  apply (rule tree_seq [OF keeps_tree_core [OF core_registry(1)]])
  apply (rule triple_if)
   apply (rule triple_ret, simp)
  apply (rule triple_bindc [OF tree_attempt [OF tree_open_for_kind]], assumption)
  apply (rule triple_bindc [where Q = "\<lambda>_. tree_ok x dd"])
   apply (rule triple_case_option)
    apply (rule triple_ret, assumption)
   apply (rule triple_bindc [OF tree_attempt [OF tree_log_files(3)]])
   apply (rule triple_ret, assumption)
  apply (rule triple_ret, simp)
  done

lemma tree_pump_push:
  assumes "deep dd (lt_path (lp_target q))"
  shows "triple (tree_ok x dd) (pump_push c q) (\<lambda>q' s. tree_ok x dd s \<and> lp_target q' = lp_target q) (tree_ok x dd)"
proof -
  have rot: "keeps (tree_ok x dd) (rotate_and_reopen (lt_path (lp_target q)))"
    unfolding rotate_and_reopen_def Let_def
    using assms deep_not_Nil [OF assms]
    by (intro keeps_intros tree_rename_deep tree_open_for_kind) (simp_all add: with_extension_def)
  have rotate: "triple (tree_ok x dd) (pump_rotate q) (\<lambda>q' s. tree_ok x dd s \<and> lp_target q' = lp_target q) (tree_ok x dd)"
    unfolding pump_rotate_def
    by (rule triple_if, rule triple_bindc [OF tree_attempt [OF rot]]) (rule triple_ret, simp)+
  have persist: "triple (tree_ok x dd) (pump_persist c p) (\<lambda>q' s. tree_ok x dd s \<and> lp_target q' = lp_target p) (tree_ok x dd)" for p
    unfolding pump_persist_def
    apply (rule triple_case_option)
     apply (rule triple_ret, simp)
    apply (rule triple_bindc [OF tree_attempt [OF tree_log_files(2)]])
    apply (rule triple_ret, simp split: sum.split)
    done
  show ?thesis
    unfolding pump_push_def
    apply (rule triple_bindc [OF rotate])
    apply (rule triple_assume)
    apply (rule triple_bindc [OF persist])
    apply (rule triple_assume)
    apply (rule tree_seq [OF tree_modify_other], simp add: core_def)
    apply (rule triple_ret, simp)
    done
qed

lemma tree_pump_drop: "keeps (tree_ok x dd) (pump_drop q)"
  unfolding pump_drop_def by (rule keeps_tree_core [OF core_registry(2)])

definition pump_deep :: "path \<Rightarrow> log_pump option \<Rightarrow> bool" where
  "pump_deep dd p \<longleftrightarrow> (case p of None \<Rightarrow> True | Some q \<Rightarrow> deep dd (lt_path (lp_target q)))"

lemma tree_drain_loop: "pump_deep dd p \<Longrightarrow> keeps (tree_ok x dd) (drain_loop extract ps p)"
proof (induction ps arbitrary: p)
  case Nil
  then show ?case by (simp add: keeps_ret)
next
  case (Cons a ps)
  have push: "keeps (tree_ok x dd) (bindc (pump_push c q) (\<lambda>q'. drain_loop extract ps (Some q')))" if "p = Some q" for q c
    unfolding keeps_iff_triple
    apply (rule triple_bindc [OF tree_pump_push])
     apply (use Cons.prems that in \<open>simp add: pump_deep_def\<close>)
    apply (rule triple_assume)
    apply (unfold keeps_iff_triple [symmetric])
    apply (rule Cons.IH)
    apply (use Cons.prems that in \<open>simp add: pump_deep_def\<close>)
    done
  show ?case
    by (auto split: option.split command_output.split intro!: keeps_ret push Cons.IH simp: pump_deep_def)
qed

lemma tree_drain:
  "pump_deep dd p \<Longrightarrow> keeps (tree_ok x dd) (drain_command_output extract rs p)"
  unfolding drain_command_output_def drop_pump_def
  by (intro keeps_intros tree_drain_loop tree_pump_drop)

definition target_deep :: "path \<Rightarrow> log_target option \<Rightarrow> bool" where
  "target_deep dd t \<longleftrightarrow> (case t of None \<Rightarrow> True | Some t \<Rightarrow> deep dd (lt_path t))"

lemma tree_pump_for:
  assumes "target_deep dd t"
  shows "triple (tree_ok x dd) (pump_for t) (\<lambda>p s. tree_ok x dd s \<and> pump_deep dd p) (tree_ok x dd)"
  unfolding pump_for_def
  apply (rule triple_case_option)
   apply (rule triple_ret, simp add: pump_deep_def)
  apply (rule triple_post [OF tree_pump_new])
   apply (use assms deep_not_Nil in \<open>auto simp: target_deep_def pump_deep_def\<close>)
  done

lemma core_call_streaming: "leaves core (call_streaming_reply link p)"
  by (intro leaves_calls; simp add: core_def)

lemma tree_start:
  assumes "target_deep dd t" shows "keeps (tree_ok x dd) (start x link did cname run env tmo t)"
  unfolding start_def keeps_iff_triple
  apply (rule tree_seq, intro keeps_intros)+
  apply (rule tree_seq [OF keeps_tree_core [OF core_call_streaming]])
  apply (rule triple_bindc [OF tree_pump_for [OF assms]])
  apply (rule triple_assume)
  apply (unfold keeps_iff_triple [symmetric])
  apply (erule tree_drain)
  done

lemma tree_run_build_command:
  assumes "target_deep dd t" shows "keeps (tree_ok x dd) (run_build_command x link cname dir cfg t)"
  unfolding run_build_command_def keeps_iff_triple
  apply (rule tree_seq, intro keeps_intros)
  apply (rule tree_seq [OF keeps_tree_core [OF core_call_streaming]])
  apply (rule triple_bindc [OF tree_pump_for [OF assms]])
  apply (rule triple_assume)
  apply (unfold keeps_iff_triple [symmetric])
  apply (erule tree_drain)
  done

lemma tree_run_log_loop: "deep dd (lt_path (lp_target q)) \<Longrightarrow> keeps (tree_ok x dd) (run_log_loop ps q)"
proof (induction ps arbitrary: q)
  case (Cons a ps)
  have push: "keeps (tree_ok x dd) (bindc (pump_push (ch_data c) q) (\<lambda>q'. if ch_is_final c then ret q' else run_log_loop ps q'))" for c
    unfolding keeps_iff_triple
    apply (rule triple_bindc [OF tree_pump_push [OF Cons.prems]])
    apply (rule triple_assume)
    apply (unfold keeps_iff_triple [symmetric])
    apply (intro keeps_intros Cons.IH)
    apply (simp add: Cons.prems)
    done
  show ?case by (auto split: agent_payload.split intro!: keeps_ret push)
qed (simp add: keeps_ret)

lemma tree_run_log_pump_task:
  assumes "deep dd (lt_path t)" shows "keeps (tree_ok x dd) (run_log_pump_task link cname t)"
  unfolding run_log_pump_task_def keeps_iff_triple
  apply (rule triple_bindc [OF tree_attempt [OF keeps_tree_core [OF core_call_streaming]]])
  apply (simp split: sum.split, intro conjI allI impI)
   apply (rule triple_ret, assumption)
  apply (rule triple_bindc [OF tree_pump_new], rule deep_not_Nil [OF assms])
  apply (rule triple_assume)
  apply (rule triple_case_option)
   apply (rule triple_ret, assumption)
  apply (unfold keeps_iff_triple [symmetric])
  apply (intro keeps_intros tree_pump_drop tree_run_log_loop)
  apply (use assms in auto)
  done


section \<open>Git deployments\<close>

lemma tree_clone_log:
  "target_deep dd t \<Longrightarrow> keeps (tree_ok x dd) (clone_log_start t)" "keeps (tree_ok x dd) (clone_log_stop u)"
proof -
  show "keeps (tree_ok x dd) (clone_log_start t)" if "target_deep dd t"
    unfolding clone_log_start_def
    using that deep_not_Nil
    by (cases t) (auto simp: target_deep_def intro!: keeps_ret keeps_bindc keeps_if keeps_ignore tree_create_write
        keeps_tree_core [OF core_registry(1)])
  show "keeps (tree_ok x dd) (clone_log_stop u)"
    unfolding clone_log_stop_def
    by (cases u) (auto intro: keeps_ret keeps_tree_core [OF core_registry(2)])
qed

lemma tree_fetch_into:
  assumes "dest \<noteq> []" shows "keeps (tree_ok x dd) (fetch_into x url branch dest)"
  unfolding fetch_into_def write_entry_def
  by (intro keeps_intros tree_create_write) (use assms in simp_all)

lemma tree_clone_repo:
  assumes "staging = dd @ [''tmp'', nm]" and "target_deep dd t"
  shows "triple (tree_ok x dd) (clone_repo x i j staging src t)
    (\<lambda>r s. tree_ok x dd s \<and> fst r = staging @ [''_checkout'']) (tree_ok x dd)"
proof -
  have clone: "keeps (tree_ok x dd) (clone_shallow x i j url br (staging @ [''_checkout'']) t)" for url br
    unfolding clone_shallow_def by (intro keeps_intros tree_clone_log tree_fetch_into assms(2)) simp
  have git: "keeps (tree_ok x dd) (io (remove_dir_all ((staging @ [''_checkout'']) @ [''.git''])))"
    using tree_remove(1) [of x dd "[nm, ''_checkout'', ''.git'']"] assms(1) by (intro keeps_io) simp
  show ?thesis
    unfolding clone_repo_def Let_def
    apply (rule tree_seq, intro keeps_io tree_create_write, simp add: assms(1))
    apply (rule tree_seq [OF clone])
    apply (rule tree_seq [OF git])
    apply (rule triple_ret, simp)
    done
qed

lemma tree_timed_clone:
  assumes "staging = dd @ [''tmp'', nm]" and "deep dd (lt_path t)"
  shows "triple (tree_ok x dd) (timed_clone x env staging src t)
    (\<lambda>r s. tree_ok x dd s \<and> fst r = staging @ [''_checkout'']) (tree_ok x dd)"
proof -
  have t: "target_deep dd (Some t)" using assms(2) by (simp add: target_deep_def)
  have clean: "keeps (tree_ok x dd) (remove_dir_all_logged staging)" using tree_remove_quiet(2) assms(1) by simp
  have ign: "keeps (tree_ok x dd) (ignore (clone_repo x i j staging src (Some t)))" for i j
    by (rule keeps_ignore, unfold keeps_iff_triple, rule triple_post [OF tree_clone_repo [OF assms(1) t]]) simp
  show ?thesis
    unfolding timed_clone_def
    apply (rule triple_if)
     apply (rule tree_seq [OF ign])
     apply (rule tree_seq [OF clean])
     apply (rule triple_throw, assumption)
    apply (rule triple_on_error [OF tree_clone_repo [OF assms(1) t]])
     apply (rule triple_keeps [OF clean], assumption)
    apply assumption
    done
qed

lemma log_target_deep: "tree_ok x dd s \<Longrightarrow> deep dd (lt_path (log_target_for s a d k))"
  by (simp add: log_target_for_def deployment_log_path_def deployment_dir_def apps_dir_def deep_def tree_ok_iff)

lemma tree_link: "keeps (tree_ok x dd) (stop_and_remove link cname inst)"
  by (rule keeps_tree_core [OF core_agent_calls(1)])

lemma tree_stop_previous: "keeps (tree_ok x dd) (stop_previous x aid did hid)"
  unfolding stop_previous_def by (intro keeps_intros tree_core tree_link)

lemma tree_start_new: "keeps (tree_ok x dd) (start_new x app did run cname)"
  unfolding start_new_def keeps_iff_triple
  apply (rule tree_gets [where A = "target_deep dd"])
   apply (simp add: target_deep_def log_target_deep)
  apply (rule tree_seq, intro keeps_intros)+
  apply (unfold keeps_iff_triple [symmetric])
  apply (erule tree_start)
  done

lemma tree_activate_with_containers: "keeps (tree_ok x dd) (activate_with_containers x aid did)"
  unfolding activate_with_containers_def
  by (intro keeps_intros tree_core tree_start_new tree_stop_previous tree_activate_deployment
      keeps_tree_core [OF core_agent_calls(8)])

lemma tree_run_build: "keeps (tree_ok x dd) (run_build x app did dir build)"
  unfolding run_build_def keeps_iff_triple
  apply (rule tree_gets [where A = "\<lambda>t. target_deep dd (Some t)"])
   apply (simp add: target_deep_def log_target_deep)
  apply (rule tree_seq, intro keeps_intros)+
  apply (unfold keeps_iff_triple [symmetric])
  apply (erule tree_run_build_command)
  done

lemma keeps_case_mode:
  "(\<And>p. keeps I (m1 p)) \<Longrightarrow> (\<And>b. keeps I (m2 b)) \<Longrightarrow> (\<And>r. keeps I (m3 r))
    \<Longrightarrow> keeps I (case mode of StaticMode p \<Rightarrow> m1 p | BuildMode b \<Rightarrow> m2 b | RunMode r \<Rightarrow> m3 r)"
  by (cases mode) simp_all

lemma tree_execute_git_deployment: "keeps (tree_ok x dd) (execute_git_deployment x env aid did src)"
  unfolding execute_git_deployment_def keeps_iff_triple
  apply (rule tree_seq, intro tree_core)
  apply (rule tree_with_tmp)
  apply (rule tree_gets [where A = "\<lambda>t. deep dd (lt_path t)"], erule log_target_deep)
  apply (rule triple_bindc [OF tree_timed_clone [OF refl]], assumption)
  apply (rule triple_assume)
  apply (simp add: case_prod_beta del: append_assoc)
  apply (unfold keeps_iff_triple [symmetric])
  apply (intro keeps_intros keeps_case_mode tree_run_build tree_remove_quiet tree_finish_git_deployment [OF refl]
      tree_ship tree_activate_with_containers)
  apply (simp add: mark_git_deployment_ready_def tree_set_deployment_status)
  done

lemma tree_flows:
  "keeps (tree_ok x dd) (start_git_deployment x aid)"
  "keeps (tree_ok x dd) (run_git_deployment x env aid did src)"
  "keeps (tree_ok x dd) (fail_git_deployment x aid did err)"
  "keeps (tree_ok x dd) (mark_git_deployment_ready x aid did)"
  unfolding start_git_deployment_def run_git_deployment_def fail_git_deployment_def mark_git_deployment_ready_def
  by (intro keeps_intros tree_create_pending tree_core tree_execute_git_deployment tree_set_deployment_status)+

lemma tree_delete_flows:
  assumes "uuid_ok x"
  shows "keeps (tree_ok x dd) (delete_app_with_containers x aid)"
    "keeps (tree_ok x dd) (delete_deployment_with_containers x aid did)"
  unfolding delete_app_with_containers_def delete_deployment_with_containers_def Let_def
  by (intro keeps_intros tree_core tree_delete_app tree_delete_deployment tree_link
      keeps_tree_core [OF core_agent_calls(5)] assms)+

lemma tree_write_chunks: "keeps (tree_ok x dd) (write_chunks p mx tot cs)"
proof (induction p mx tot cs rule: write_chunks.induct)
  case (2 p mx tot c cs)
  then show ?case
    by (auto simp: Let_def split: sum.split intro!: keeps_throw keeps_bindc keeps_io tree_log_files)
qed (simp add: keeps_ret)

lemma tree_stream_upload: "p \<noteq> [] \<Longrightarrow> keeps (tree_ok x dd) (stream_upload_to_disk p fls)"
proof (induction p fls rule: stream_upload_to_disk.induct)
  case (2 p f fls)
  have "keeps (tree_ok x dd) (stream_upload_to_disk p fls)" if "f = Inr fl" "mf_name fl \<noteq> Some ''file''" for fl
    using 2 that by blast
  moreover have "keeps (tree_ok x dd) (bindc (io (write_file p [])) (\<lambda>_.
       bindc (gets (\<lambda>s. lim_max_upload_bytes (limits s))) (\<lambda>mx. bindc (write_chunks p mx 0 cs) (\<lambda>tot. ret (nm, tot)))))" for cs nm
    by (intro keeps_intros tree_create_write 2(2) tree_write_chunks)
  ultimately show ?case by (auto split: sum.split intro: keeps_throw)
qed (simp add: keeps_throw)

lemma tree_upload_deployment:
  assumes "uuid_ok x" shows "keeps (tree_ok x dd) (upload_deployment x aid mp)"
proof -
  have zp: "with_extension ''zip'' (dd @ [''tmp'', nm]) = dd @ ''tmp'' # [file_stem nm @ ''.zip'']" for nm
    by (simp add: with_extension_def butlast_append)
  show ?thesis
    unfolding upload_deployment_def keeps_iff_triple Let_def
    apply (rule tree_with_tmp)
    apply (unfold zp keeps_iff_triple [symmetric])
    apply (intro keeps_intros tree_remove_quiet tree_create_deployment assms tree_stream_upload)
    apply simp
    done
qed

lemma tree_reconcile: "keeps (tree_ok x dd) (on_agent_connected x)"
proof -
  have start: "keeps (tree_ok x dd) (start x link did cname run env tmo None)" for link did cname run env tmo
    by (rule tree_start) (simp add: target_deep_def)
  show ?thesis
    unfolding on_agent_connected_def fail_pending_deployments_def fail_pending_deployment_def
      reconcile_run_mode_containers_def reconcile_app_def
    by (intro keeps_intros tree_core tree_flows tree_link start keeps_tree_core [OF core_agent_calls(8)])
qed


lemma tree_token_store:
  "keeps (tree_ok x dd) (create_api_token y uid nm ex)" "keeps (tree_ok x dd) (revoke_api_token uid k)"
  "keeps (tree_ok x dd) (create_host y nm)" "keeps (tree_ok x dd) (revoke_host hid)"
  "keeps (tree_ok x dd) (touch_host_last_seen hid peer)" "keeps (tree_ok x dd) (update_host_ip hid ip)"
proof -
  have gen: "keeps (tree_ok x dd) (generate y)"
    by (rule keeps_tree_core) (intro leaves_intros; simp add: core_def)
  show "keeps (tree_ok x dd) (create_api_token y uid nm ex)" "keeps (tree_ok x dd) (revoke_api_token uid k)"
    "keeps (tree_ok x dd) (create_host y nm)" "keeps (tree_ok x dd) (revoke_host hid)"
    "keeps (tree_ok x dd) (touch_host_last_seen hid peer)" "keeps (tree_ok x dd) (update_host_ip hid ip)"
    unfolding token_store_defs by (intro keeps_intros tree_core tree_rows gen)+
qed

section \<open>The tables under the same operations\<close>

lemma leaves_db_flows:
  "leaves db (clone_repo x i j staging src tgt)" "leaves db (start x link did cname run env tmo tgt)"
  "leaves db (run_build_command x link cname dir cfg tgt)" "leaves db (stop_and_remove link cname inst)"
  "leaves db (delete_deployment_dir link did)" "leaves db (spawn_run_log_pump link cname t)"
  "leaves db (remove_dir_all_logged p)" "leaves db (remove_file_logged p)"
  by (intro leaves_intros; simp)+

lemmas db_skips3 = leaves_db_flows [THEN keeps_db_ok_lookup]

lemma leaves_db_write_chunks: "leaves db (write_chunks p mx tot cs)"
proof (induction p mx tot cs rule: write_chunks.induct)
  case (2 p mx tot c cs)
  have "leaves db (io (append_file p c))" for c by (intro leaves_intros) simp
  then show ?case using 2 by (auto simp: Let_def split: sum.split intro!: leaves_throw leaves_bindc)
qed (simp add: leaves_ret)

lemma leaves_db_stream: "leaves db (stream_upload_to_disk p fls)"
proof (induction p fls rule: stream_upload_to_disk.induct)
  case (2 p f fls)
  have "leaves db (io (write_file p []))" by (intro leaves_intros) simp
  then show ?case using 2
    by (auto split: sum.split intro!: leaves_throw leaves_bindc leaves_gets leaves_ret leaves_db_write_chunks)
qed (simp add: leaves_throw)

lemma leaves_db_flow_parts:
  "leaves db (timed_clone x env staging src t)" "leaves db (start_new x app did run cname)"
  "leaves db (run_build x app did dir build)" "leaves db (stop_previous x aid did hid)"
  unfolding timed_clone_def start_new_def run_build_def stop_previous_def
  by (intro leaves_intros leaves_db_flows leaves_db_deployments)+

lemmas db_skips4 = leaves_db_flow_parts [THEN keeps_db_ok_lookup] leaves_db_stream [THEN keeps_db_ok_lookup]

lemmas db_flow = db_ok_calls db_skips2 db_skips3 db_skips4 keeps_case_mode

lemma keeps_db_ok_activate_with_containers: "keeps (\<lambda>s. db_ok (db s)) (activate_with_containers x aid did)"
  unfolding activate_with_containers_def by (intro db_flow keeps_db_ok_activate_deployment)

lemma keeps_db_ok_marks:
  "keeps (\<lambda>s. db_ok (db s)) (mark_git_deployment_ready x aid did)"
  "keeps (\<lambda>s. db_ok (db s)) (fail_git_deployment x aid did err)"
  unfolding mark_git_deployment_ready_def fail_git_deployment_def by (rule keeps_db_ok_set_status; simp)+

lemma keeps_db_ok_run_git_deployment: "keeps (\<lambda>s. db_ok (db s)) (run_git_deployment x env aid did src)"
proof -
  have exec: "keeps (\<lambda>s. db_ok (db s)) (execute_git_deployment x env aid did src)"
    unfolding execute_git_deployment_def
    by (intro db_flow keeps_db_ok_finish_git_deployment keeps_db_ok_activate_with_containers keeps_db_ok_marks)
  show ?thesis
    unfolding run_git_deployment_def by (intro db_flow exec keeps_db_ok_marks)
qed

lemma keeps_db_ok_start_git_deployment: "keeps (\<lambda>s. db_ok (db s)) (start_git_deployment x aid)"
  unfolding start_git_deployment_def by (intro db_flow keeps_db_ok_create_pending)

lemma keeps_db_ok_upload_deployment: "keeps (\<lambda>s. db_ok (db s)) (upload_deployment x aid mp)"
  unfolding upload_deployment_def Let_def by (intro db_flow keeps_db_ok_create_deployment)

lemma keeps_db_ok_delete_app_with_containers: "keeps (\<lambda>s. db_ok (db s)) (delete_app_with_containers x aid)"
  unfolding delete_app_with_containers_def by (intro db_flow keeps_db_ok_delete_app)

lemma keeps_db_ok_on_agent_connected: "keeps (\<lambda>s. db_ok (db s)) (on_agent_connected x)"
  unfolding on_agent_connected_def fail_pending_deployments_def fail_pending_deployment_def
    reconcile_run_mode_containers_def reconcile_app_def
  by (intro db_flow keeps_db_ok_marks)

lemma leaves_db_run_log_loop: "leaves db (run_log_loop ps q)"
  by (induction ps arbitrary: q) (auto split: agent_payload.split intro!: leaves_intros)

lemma keeps_db_ok_run_log_pump_task: "keeps (\<lambda>s. db_ok (db s)) (run_log_pump_task link cname t)"
  unfolding run_log_pump_task_def
  by (rule keeps_leaves) (intro leaves_intros leaves_db_run_log_loop; simp)

lemma triple_db_ok_delete_deployment_with_containers:
  "triple (\<lambda>s. db_ok (db s) \<and> \<not> respelled x (db s) aid did) (delete_deployment_with_containers x aid did)
     (\<lambda>_ s. db_ok (db s)) (\<lambda>s. db_ok (db s))"
  unfolding delete_deployment_with_containers_def Let_def
proof (rule triple_bindc [where Q = "\<lambda>_ s. db_ok (db s) \<and> \<not> respelled x (db s) aid did"])
  let ?J = "\<lambda>d. db_ok d \<and> \<not> respelled x d aid did"
  show "triple (\<lambda>s. ?J (db s)) (get_app_by_id x aid) (\<lambda>_ s. ?J (db s)) (\<lambda>s. db_ok (db s))"
    by (rule triple_conseq [OF triple_skip_db [where J = ?J]]) (intro leaves_intros, auto)
  fix app
  show "triple (\<lambda>s. ?J (db s)) (bindc (attempt (get_deployment x aid did)) (\<lambda>r.
     bindc (delete_deployment x aid did) (\<lambda>_.
     case (case r of Inr d \<Rightarrow> dep_container_name d | Inl _ \<Rightarrow> None) of
       None \<Rightarrow> ret ()
     | Some c \<Rightarrow>
        bindc (gets (\<lambda>s. agent_link_for s (app_host_id app))) (\<lambda>link.
        bindc (stop_and_remove link c False) (\<lambda>_.
        delete_deployment_dir link did)))))
      (\<lambda>_ s. db_ok (db s)) (\<lambda>s. db_ok (db s))"
    apply (rule triple_bindc [where Q = "\<lambda>_ s. ?J (db s)"])
     apply (rule triple_conseq [OF triple_skip_db [where J = ?J]]; (intro leaves_intros; simp)?; auto?)
    apply (rule triple_bindc [OF triple_db_ok_delete_deployment])
    apply (unfold keeps_iff_triple [symmetric], intro db_flow)
    done
qed

end
