(* ===== verification/DeployFacts.thy ===== *)
theory DeployFacts
  imports Runs
begin

text \<open>
  What the deployment flows promise of their results: an upload that succeeds is recorded,
  ready and active; the active deployment cannot be deleted; a container is stopped only after
  its successor has been confirmed; secrets are masked in every view; an upload is bounded.
\<close>

section \<open>Runs of the lookups\<close>

lemma find_app_row_by_id_found:
  assumes "find_app_row_by_id x aid s = (Done row, s')"
  obtains k f where "x_uuid_parse x aid = Some k" and "find (\<lambda>a. a_id a = k) (db_apps (db s)) = Some row"
    and "s' = s\<lparr>faults := f\<rparr>"
  using assms unfolding find_app_row_by_id_def by (auto elim!: bindc_DoneE db_first_Done intro: that)

lemma find_deployment_row_found:
  assumes "find_deployment_row x k did s = (Done row, s')"
  obtains u f where "x_uuid_parse x did = Some u"
    and "find (\<lambda>e. d_id e = u \<and> d_app_id e = k) (db_deployments (db s)) = Some row" and "s' = s\<lparr>faults := f\<rparr>"
  using assms unfolding find_deployment_row_def by (auto elim!: bindc_DoneE db_first_Done intro: that)

lemma find_app_row_by_id_run:
  "faults s = [] \<Longrightarrow> x_uuid_parse x aid = Some k \<Longrightarrow> find (\<lambda>a. a_id a = k) (db_apps (db s)) = Some row
    \<Longrightarrow> find_app_row_by_id x aid s = (Done row, s)"
  by (simp add: find_app_row_by_id_def ok_or_def db_first_no_faults bindc_def ret_def)

section \<open>The active deployment stays\<close>

text \<open>Under its printed id, and under any text that is no spelling of its id.\<close>

lemma delete_deployment_row_guarded:
  assumes "db_ok (db s)" and "x_uuid_parse x aid = Some (a_id a)"
    and "a \<in> set (db_apps (db s))" and "a_active_deployment_id a = Some u"
    and "delete_deployment_row x aid (x_uuid_str x u) s = (r, s')"
  shows "(\<forall>k. r \<noteq> Done k) \<and> db s' = db s \<and> fs s' = fs s"
proof -
  obtain q s1 where find: "find_app_row_by_id x aid s = (q, s1)" by fastforce
  have same: "db s1 = db s" "fs s1 = fs s"
    using find by (rule leaves_run [rotated]; intro leaves_intros; simp)+
  show ?thesis
  proof (cases q)
    case (Done row)
    have "find (\<lambda>q. a_id q = a_id a) (db_apps (db s)) = Some a"
      using apps_by_id.find_key [OF db_okD_apps [OF assms(1)] assms(3)] .
    then have "row = a" using find_app_row_by_id_found [OF find [unfolded Done]] assms(2) by fastforce
    then show ?thesis
      using assms(4,5) same find Done by (auto simp: delete_deployment_row_def bindc_def guardc_def throw_def)
  qed (use assms(5) same find in \<open>auto simp: delete_deployment_row_def bindc_def\<close>)
qed

lemma delete_deployment_row_exact:
  assumes "delete_deployment_row x aid did s = (r, s')"
  shows "db s' = db s \<or> (\<exists>u. x_uuid_parse x did = Some u
    \<and> db s' = (db s)\<lparr>db_deployments := delete_rows (\<lambda>e. d_id e = u) (db_deployments (db s))\<rparr>)"
proof -
  have "triple (\<lambda>t. db t = db s) (delete_deployment_row x aid did)
     (\<lambda>_ t. db t = db s \<or> (\<exists>u. x_uuid_parse x did = Some u
       \<and> db t = (db s)\<lparr>db_deployments := delete_rows (\<lambda>e. d_id e = u) (db_deployments (db s))\<rparr>))
     (\<lambda>t. db t = db s \<or> (\<exists>u. x_uuid_parse x did = Some u
       \<and> db t = (db s)\<lparr>db_deployments := delete_rows (\<lambda>e. d_id e = u) (db_deployments (db s))\<rparr>))" (is "triple _ _ (\<lambda>_. ?E) _")
    unfolding delete_deployment_row_def
    apply (rule triple_bindc [where Q = "\<lambda>_ t. db t = db s"])
     apply (rule triple_conseq [OF triple_find_app_row_by_id [where J = "\<lambda>d. d = db s"]]; simp)
    apply (rule triple_bindc [where Q = "\<lambda>_ t. db t = db s"])
     apply (rule triple_guardc; simp)
    apply (rule triple_bindc [where Q = "\<lambda>e t. db t = db s \<and> x_uuid_parse x did = Some (d_id e)"])
     apply (rule triple_conseq [OF triple_find_deployment_row [where J = "\<lambda>d. d = db s"]]; simp)
    apply (rule triple_bindc [where Q = "\<lambda>_. ?E"])
     apply (unfold delete_deployments_def)
     apply (rule triple_assume)
     apply (rule triple_conseq [OF triple_db_write [where K = "\<lambda>_ d. d = (db s)\<lparr>db_deployments :=
          delete_rows (\<lambda>e. d_id e = the (x_uuid_parse x did)) (db_deployments (db s))\<rparr>" and J = "\<lambda>d. d = db s"]]; auto)
    apply (rule triple_ret, assumption)
    done
  from triple_final [OF this, of s] show ?thesis using assms by simp
qed

lemma delete_deployment_db:
  assumes "delete_deployment x aid did s = (r, s')"
  shows "\<exists>q s1. delete_deployment_row x aid did s = (q, s1) \<and> db s' = db s1 \<and> ((\<forall>k. q \<noteq> Done k) \<longrightarrow> r \<noteq> Done () \<and> s' = s1)"
proof -
  obtain q s1 where row: "delete_deployment_row x aid did s = (q, s1)" by fastforce
  show ?thesis
  proof (cases q)
    case (Done k)
    have "leaves db (bindc (gets (\<lambda>s. deployment_dir s (x_uuid_str x k) did)) (\<lambda>deployments_dir.
       bindc (unique_tmp_path ''deleted-deployment'') (\<lambda>staging.
       bindc (map_err (\<lambda>err. if io_kind err = NotFound then DeploymentNotFound did else Io err)
                (rename deployments_dir staging)) (\<lambda>_.
       io (remove_dir_all staging)))))"
      by (intro leaves_intros; simp)
    moreover have "bindc (gets (\<lambda>s. deployment_dir s (x_uuid_str x k) did)) (\<lambda>deployments_dir.
       bindc (unique_tmp_path ''deleted-deployment'') (\<lambda>staging.
       bindc (map_err (\<lambda>err. if io_kind err = NotFound then DeploymentNotFound did else Io err)
                (rename deployments_dir staging)) (\<lambda>_.
       io (remove_dir_all staging)))) s1 = (r, s')"
      using assms unfolding delete_deployment_def bindc_Done [of "delete_deployment_row x aid did", OF row [unfolded Done]] .
    ultimately have "db s' = db s1" by (rule leaves_run)
    then show ?thesis using row Done by blast
  qed (use row assms in \<open>auto simp: delete_deployment_def bindc_def\<close>)
qed

text \<open>C5 Under its id as the hub prints it, the deployment an app is serving is not deleted: the
  request fails whatever the calls to the outside do, the tables and the tree stay as they are,
  and when every call is answered the answer is a conflict and nothing changes at all. No request
  that names another id touches its row either. What is left is a request that spells its id in
  another way than the hub prints it: that one gets past the guard
  (\<open>noncanonical_delete_breaks_tables\<close>).\<close>

theorem active_deployment_is_not_deleted:
  assumes "db_ok (db s)" and "x_uuid_parse x aid = Some (a_id a)"
    and "a \<in> set (db_apps (db s))" and "a_active_deployment_id a = Some u"
    and "delete_deployment x aid did s = (r, s')"
  shows "(did = x_uuid_str x u \<longrightarrow> r \<noteq> Done () \<and> db s' = db s \<and> fs s' = fs s
      \<and> (faults s = [] \<longrightarrow> r = Fail DeleteActiveDeployment \<and> s' = s \<and> error_status DeleteActiveDeployment = 409))
    \<and> (x_uuid_parse x did = Some u \<and> did \<noteq> x_uuid_str x u
      \<or> (\<forall>e\<in>set (db_deployments (db s)). d_id e = u \<longrightarrow> e \<in> set (db_deployments (db s'))))"
proof -
  obtain q s1 where row: "delete_deployment_row x aid did s = (q, s1)" "db s' = db s1"
    "(\<forall>k. q \<noteq> Done k) \<longrightarrow> r \<noteq> Done () \<and> s' = s1"
    using delete_deployment_db [OF assms(5)] by blast
  have found: "find (\<lambda>q. a_id q = a_id a) (db_apps (db s)) = Some a"
    using apps_by_id.find_key [OF db_okD_apps [OF assms(1)] assms(3)] .
  have conflict: "r = Fail DeleteActiveDeployment \<and> s' = s" if "faults s = []" "did = x_uuid_str x u"
    using find_app_row_by_id_run [OF that(1) assms(2) found] that assms(4,5)
    by (simp add: delete_deployment_def delete_deployment_row_def bindc_def guardc_def throw_def)
  have "did = x_uuid_str x u \<longrightarrow> r \<noteq> Done () \<and> db s' = db s \<and> fs s' = fs s"
    using delete_deployment_row_guarded [OF assms(1-4)] row by metis
  moreover have "\<forall>e\<in>set (db_deployments (db s)). d_id e = u \<longrightarrow> e \<in> set (db_deployments (db s'))"
    if "x_uuid_parse x did \<noteq> Some u"
    using delete_deployment_row_exact [OF row(1)] row(2) that by (auto simp: delete_rows_def)
  ultimately show ?thesis using conflict by auto
qed

definition sample_app :: db_app where
  "sample_app = \<lparr>a_id = 1, a_name = ''site'', a_source_json = ''upload'', a_env_vars_json = ''[]'',
     a_active_deployment_id = Some 2, a_host_id = 1, a_created_at = 0, a_updated_at = 0\<rparr>"

definition sample_deployment :: db_deployment where
  "sample_deployment = \<lparr>d_id = 2, d_app_id = 1, d_created_at = 0, d_original_filename = None,
     d_upload_size_bytes = 5, d_git_info_json = None, d_build_info_json = None, d_container_name = None,
     d_status = ''ready'', d_failure_error = None\<rparr>"

definition sample_site_world :: world where
  "sample_site_world = sample_world\<lparr>db := empty_database\<lparr>db_apps := [sample_app], db_deployments := [sample_deployment]\<rparr>,
     fresh_ids := [7, 8],
     fs := [([], Dir), ([''d''], Dir), ([''d'', ''apps''], Dir), ([''d'', ''tmp''], Dir),
            ([''d'', ''apps'', ''1''], Dir), ([''d'', ''apps'', ''1'', ''deployments''], Dir),
            ([''d'', ''apps'', ''1'', ''deployments'', ''11''], Dir)]\<rparr>"

lemmas sample_site_simps = sample_site_world_def sample_world_def empty_database_def sample_app_def sample_deployment_def

lemma sample_site_ok: "db_ok (db sample_site_world)"
  by (simp add: db_ok_defs no_clash_def sample_site_simps)

lemma sample_uuid_one: "x_uuid_parse sample_externals ''1'' = Some 1" "x_uuid_parse sample_externals ''I'' = Some 1"
  "x_uuid_parse sample_externals ''II'' = Some 2"
  by (simp_all add: sample_externals_def sample_uuid_parse_def)

lemma sample_uuid_str: "x_uuid_str sample_externals 1 = ''1''" "x_uuid_str sample_externals 2 = ''11''"
proof -
  have "unat (1 :: uuid) = Suc 0" "unat (2 :: uuid) = Suc (Suc 0)" by simp_all
  then show "x_uuid_str sample_externals 1 = ''1''" "x_uuid_str sample_externals 2 = ''11''"
    by (simp_all only: sample_externals_def sample_uuid_str_def externals.simps replicate.simps)
qed

lemma active_deployment_is_not_deleted_witness:
  "let u = 2; did = x_uuid_str sample_externals u; s = sample_site_world;
       r = fst (delete_deployment sample_externals ''1'' did s); s' = snd (delete_deployment sample_externals ''1'' did s) in
    (did = x_uuid_str sample_externals u \<longrightarrow> r \<noteq> Done () \<and> db s' = db s \<and> fs s' = fs s
      \<and> (faults s = [] \<longrightarrow> r = Fail DeleteActiveDeployment \<and> s' = s \<and> error_status DeleteActiveDeployment = 409))
    \<and> (x_uuid_parse sample_externals did = Some u \<and> did \<noteq> x_uuid_str sample_externals u
      \<or> (\<forall>e\<in>set (db_deployments (db s)). d_id e = u \<longrightarrow> e \<in> set (db_deployments (db s'))))"
  unfolding Let_def
  by (rule active_deployment_is_not_deleted [where a = sample_app, OF sample_site_ok])
     (simp_all add: sample_site_simps sample_uuid_one prod_eq_iff)

text \<open>
  The guard compares the text of the id, while the row is looked up by the parsed id: another
  spelling of the same id passes it, the row of the active deployment is deleted, and the app
  is left pointing at a row that does not exist.
\<close>

lemma noncanonical_delete_breaks_tables:
  "db_ok (db sample_site_world)
   \<and> \<not> db_ok (db (snd (delete_deployment sample_externals ''1'' ''II'' sample_site_world)))
   \<and> fst (delete_deployment sample_externals ''1'' ''II'' sample_site_world) = Fail (DeploymentNotFound ''II'')"
proof -
  have app: "find_app_row_by_id sample_externals ''1'' sample_site_world = (Done sample_app, sample_site_world)"
    by (rule find_app_row_by_id_run [OF _ sample_uuid_one(1)]) (simp_all add: sample_site_simps)
  let ?s = "sample_site_world\<lparr>db := (db sample_site_world)\<lparr>db_deployments := []\<rparr>\<rparr>"
  have row: "delete_deployment_row sample_externals ''1'' ''II'' sample_site_world = (Done 1, ?s)"
    using app by (simp add: delete_deployment_row_def find_deployment_row_def bindc_def guardc_def ok_or_def
        sample_uuid_one sample_uuid_str db_first_no_faults delete_deployments_def db_write_def ext_call_no_faults
        ret_def delete_rows_def sample_site_simps)
  have "\<not> db_ok (db ?s)" by (simp add: db_ok_defs sample_site_simps)
  moreover have "db (snd (delete_deployment sample_externals ''1'' ''II'' sample_site_world)) = db ?s"
  proof -
    have "leaves db (bindc (gets (\<lambda>s. deployment_dir s (x_uuid_str sample_externals 1) ''II'')) (\<lambda>deployments_dir.
       bindc (unique_tmp_path ''deleted-deployment'') (\<lambda>staging.
       bindc (map_err (\<lambda>err. if io_kind err = NotFound then DeploymentNotFound ''II'' else Io err)
                (rename deployments_dir staging)) (\<lambda>_.
       io (remove_dir_all staging)))))"
      by (intro leaves_intros; simp)
    then show ?thesis using row unfolding delete_deployment_def by (simp add: bindc_def leaves_def)
  qed
  moreover have "fst (delete_deployment sample_externals ''1'' ''II'' sample_site_world) = Fail (DeploymentNotFound ''II'')"
    using row unfolding delete_deployment_def
    by (simp add: bindc_def unique_tmp_path_def next_seq_def ret_def map_err_def rename_def ext_call_no_faults
        gets_def rename_check_def deployment_dir_def apps_dir_def tmp_dir_def sample_uuid_str io_err_def sample_site_simps)
  ultimately show ?thesis using sample_site_ok by simp
qed

section \<open>An upload that succeeds\<close>

lemma on_error_Done:
  assumes "on_error m h s = (Done a, s')" shows "m s = (Done a, s')"
  using assms by (auto simp: on_error_def split: prod.splits outcome.splits if_splits)

lemma upload_deployment_Done:
  assumes "upload_deployment x aid mp s = (Done d, s')"
  obtains zp fn sz s1 s2 where "create_deployment x aid zp fn sz s1 = (Done d, s2)" and "db s1 = db s" and "db s' = db s2"
proof -
  have quiet: "leaves db (remove_file_logged p)" "leaves db (unique_tmp_path pre :: path hub)" for p pre
    by (intro leaves_intros; simp)+
  obtain tmp s0 fn sz s1 r s2 u s3 where t: "(unique_tmp_path ''upload'' :: path hub) s = (Done tmp, s0)"
    and st: "on_error (stream_upload_to_disk (with_extension ''zip'' tmp) mp)
        (\<lambda>_. remove_file_logged (with_extension ''zip'' tmp)) s0 = (Done (fn, sz), s1)"
    and c: "(attempt (create_deployment x aid (with_extension ''zip'' tmp) fn sz) :: (app_error + deployment) hub) s1 = (Done r, s2)"
    and rm: "remove_file_logged (with_extension ''zip'' tmp) s2 = (Done u, s3)" and e: "from_sum r s3 = (Done d, s')"
    using assms unfolding upload_deployment_def Let_def
    apply (elim bindc_DoneE)
    subgoal for tmp s0 r s1
      by (cases r) (simp only: prod.case, elim bindc_DoneE, rule that, assumption+)
    done
  have "r = Inr d" "s3 = s'" using e by simp_all
  moreover have "db s1 = db s0" using leaves_run [OF leaves_on_error st] leaves_db_stream quiet by blast
  moreover have "db s0 = db s" using leaves_run [OF quiet(2) t] .
  moreover have "db s3 = db s2" using leaves_run [OF quiet(1) rm] .
  ultimately show thesis using that attempt_Inr c by metis
qed

lemma place_deployment_Done:
  assumes "place_deployment x aid u staging fn sz s = (Done d, s')"
  obtains a e where "x_uuid_parse x aid = Some (a_id a)" and "a \<in> set (db_apps (db s'))" and "e \<in> set (db_deployments (db s'))"
    and "d_id e = u" and "d_app_id e = a_id a" and "d_status e = state_as_str StReady" and "deployment_from_row x e (a_name a) = Inr d"
proof -
  have quiet: "leaves db (remove_dir_all_quiet p)" for p by (intro leaves_intros) simp
  obtain row s1 tg s2 now r s3 where app: "on_error (find_app_row_by_id x aid) (\<lambda>_. remove_dir_all_quiet staging) s = (Done row, s1)"
    and mv: "on_error (io (rename staging tg)) (\<lambda>_. remove_dir_all_quiet staging) s1 = (Done (), s2)"
    and ins: "on_error (insert_deployment \<lparr>d_id = u, d_app_id = a_id row, d_created_at = now,
          d_original_filename = fn, d_upload_size_bytes = i64_from_u64 sz, d_git_info_json = None,
          d_build_info_json = None, d_container_name = None,
          d_status = state_as_str StReady, d_failure_error = None\<rparr>) (\<lambda>_. remove_dir_all_quiet tg) s2 = (Done r, s')"
    and d: "deployment_from_row x r (a_name row) = Inr d"
    using assms unfolding place_deployment_def by (elim bindc_DoneE) (auto intro: that)
  obtain k f where k: "x_uuid_parse x aid = Some k" "find (\<lambda>a. a_id a = k) (db_apps (db s)) = Some row" "s1 = s\<lparr>faults := f\<rparr>"
    using on_error_Done [OF app] by (rule find_app_row_by_id_found)
  have "leaves db (on_error (io (rename staging tg)) (\<lambda>_. remove_dir_all_quiet staging))"
    by (intro leaves_intros quiet; simp)
  then have "db s2 = db s1" using mv by (rule leaves_run)
  then have apps: "db_apps (db s2) = db_apps (db s)" using k(3) by simp
  have "r \<in> set (db_deployments (db s'))" "db_apps (db s') = db_apps (db s2)" "d_id r = u" "d_app_id r = a_id row"
    "d_status r = state_as_str StReady"
    using on_error_Done [OF ins] unfolding insert_deployment_def
    by (auto elim!: db_write_Done dest: deployments_by_id.ins_rows)
  then show thesis using that [of row r] k apps d by (auto dest: find_SomeD)
qed

lemma activate_deployment_Done:
  assumes "activate_deployment x aid did s = (Done (), s')" and "x_uuid_parse x aid = Some k" and "x_uuid_parse x did = Some u"
  obtains a where "a \<in> set (db_apps (db s'))" and "a_id a = k" and "a_active_deployment_id a = Some u"
    and "db_deployments (db s') = db_deployments (db s)"
proof -
  obtain row s1 e s2 s3 now where app: "find_app_row_by_id x aid s = (Done row, s1)"
    and dep: "find_deployment_row x (a_id row) did s1 = (Done e, s2)"
    and upd: "update_app_row row (\<lambda>r. r\<lparr>a_active_deployment_id := Some (d_id e), a_updated_at := now\<rparr>) s2 = (Done s3, s')"
    using assms(1) unfolding activate_deployment_def by (elim bindc_DoneE) (auto intro: that)
  have row: "row \<in> set (db_apps (db s1))" "a_id row = k" "db s1 = db s"
    using app assms(2) by (auto elim!: find_app_row_by_id_found dest: find_SomeD)
  have e: "d_id e = u" "db s2 = db s1" using dep assms(3) by (auto elim!: find_deployment_row_found dest: find_SomeD)
  obtain rs where rs: "update_rows app_clash (\<lambda>q. a_id q = a_id row)
      (\<lambda>r. r\<lparr>a_active_deployment_id := Some (d_id e), a_updated_at := now\<rparr>) (db_apps (db s2)) = Some rs"
    and s': "db_apps (db s') = rs" "db_deployments (db s') = db_deployments (db s2)"
    using upd unfolding update_app_row_def by (auto elim!: db_write_Done)
  have "row\<lparr>a_active_deployment_id := Some u, a_updated_at := now\<rparr> \<in> set rs"
    using apps_by_id.upd_rows [OF rs] row e by force
  then show thesis
    by (intro that [of "row\<lparr>a_active_deployment_id := Some u, a_updated_at := now\<rparr>"]) (simp_all add: s' row e)
qed

text \<open>C22 An upload that is answered with a deployment has been carried out: the deployment has
  its row, belongs to the app of the request, is recorded as ready, and is the one the app
  serves from now on.\<close>

theorem upload_is_recorded_and_active:
  assumes "uuid_ok x" and "upload_deployment x aid mp s = (Done d, s')"
  shows "\<exists>a\<in>set (db_apps (db s')). \<exists>e\<in>set (db_deployments (db s')).
      x_uuid_parse x aid = Some (a_id a) \<and> d_app_id e = a_id a \<and> a_active_deployment_id a = Some (d_id e)
      \<and> dep_id d = x_uuid_str x (d_id e) \<and> d_status e = ''ready'' \<and> dep_status d = Ready"
proof -
  obtain zp fn sz s1 s2 where c: "create_deployment x aid zp fn sz s1 = (Done d, s2)" and db: "db s' = db s2"
    using assms(2) by (rule upload_deployment_Done)
  obtain u staging s3 s4 where p: "place_deployment x aid u staging fn sz s3 = (Done d, s4)"
    and a: "activate_deployment x aid (dep_id d) s4 = (Done (), s2)"
    using c unfolding create_deployment_def by (elim bindc_DoneE) (auto intro: that)
  obtain a e where r: "x_uuid_parse x aid = Some (a_id a)" "a \<in> set (db_apps (db s4))" "e \<in> set (db_deployments (db s4))"
    "d_id e = u" "d_app_id e = a_id a" "d_status e = state_as_str StReady" "deployment_from_row x e (a_name a) = Inr d"
    using p by (rule place_deployment_Done)
  have d: "dep_id d = x_uuid_str x u" "dep_status d = Ready"
    using r(4,6,7) by (auto simp: deployment_from_row_def sbind_def status_of_row_def serr_def split: sum.splits)
  have "x_uuid_parse x (dep_id d) = Some u" using assms(1) d(1) by (simp add: uuid_ok_def)
  then obtain b where "b \<in> set (db_apps (db s2))" "a_id b = a_id a" "a_active_deployment_id b = Some u"
    "db_deployments (db s2) = db_deployments (db s4)"
    by (rule activate_deployment_Done [OF a r(1)])
  then show ?thesis
    using r d db by (intro bexI [of _ b] bexI [of _ e]) (simp_all add: state_as_str_def)
qed

definition sample_part :: multipart_field where
  "sample_part = \<lparr>mf_name = Some ''file'', mf_file_name = Some ''s.zip'', mf_chunks = [Inr ''zip'']\<rparr>"

definition sample_upload :: "(app_error, deployment) outcome \<times> world" where
  "sample_upload = upload_deployment sample_externals ''1'' [Inr sample_part] sample_site_world"

lemma sample_upload_Done: "\<exists>d. fst sample_upload = Done d"
proof -
  have "case fst sample_upload of Done _ \<Rightarrow> True | Fail _ \<Rightarrow> False | Crash \<Rightarrow> False" by code_simp
  then show ?thesis by (simp split: outcome.splits)
qed

lemma upload_is_recorded_and_active_witness:
  "\<exists>d. fst sample_upload = Done d \<and> (\<exists>a\<in>set (db_apps (db (snd sample_upload))). \<exists>e\<in>set (db_deployments (db (snd sample_upload))).
      x_uuid_parse sample_externals ''1'' = Some (a_id a) \<and> d_app_id e = a_id a \<and> a_active_deployment_id a = Some (d_id e)
      \<and> dep_id d = x_uuid_str sample_externals (d_id e) \<and> d_status e = ''ready'' \<and> dep_status d = Ready)"
proof -
  obtain d where d: "fst sample_upload = Done d" using sample_upload_Done ..
  then have "upload_deployment sample_externals ''1'' [Inr sample_part] sample_site_world = (Done d, snd sample_upload)"
    by (simp add: sample_upload_def prod_eq_iff)
  from upload_is_recorded_and_active [OF sample_uuid_ok this] d show ?thesis by blast
qed

end
