(* ===== verification/UserRoutes.thy ===== *)
theory UserRoutes
  imports Auth
begin

text \<open>
  The account, token, host and login routes: \<open>routes/users.rs\<close>, \<open>routes/hosts.rs\<close>,
  \<open>routes/auth_routes.rs\<close> and \<open>host_stats.rs\<close> of the hub. The extracted user and the parsed
  body are the arguments of a handler.
\<close>

section \<open>Users\<close>

record user_view =
  uv_username :: string
  uv_role :: string

definition user_view_of :: "db_user \<Rightarrow> user_view" where
  "user_view_of user = \<lparr>uv_username = u_username user, uv_role = u_role user\<rparr>"

definition list_users :: "current_user \<Rightarrow> user_view list hub" where
  "list_users current =
     bindc (from_sum (require_admin current)) (\<lambda>_.
     bindc (db_all db_users (\<lambda>_. True)) (\<lambda>users.
     ret (map user_view_of users)))"

definition create_user :: "externals \<Rightarrow> current_user \<Rightarrow> string \<Rightarrow> string \<Rightarrow> string \<Rightarrow> user_view hub" where
  "create_user x current username password role_text =
     bindc (from_sum (require_admin current)) (\<lambda>_.
     bindc (from_sum (validate_username username)) (\<lambda>_.
     bindc (from_sum (validate_password password)) (\<lambda>_.
     bindc (from_sum (role_from_str role_text)) (\<lambda>role.
     bindc (db_first db_users (\<lambda>u. u_username u = username)) (\<lambda>existing.
     bindc (guardc (existing = None) (UserAlreadyExists username)) (\<lambda>_.
     bindc (hash_password x password) (\<lambda>password_hash.
     bindc (gets now_secs) (\<lambda>now.
     bindc (insert_user \<lparr>u_id = 0, u_username = username, u_password_hash = password_hash,
              u_role = role_as_str role, u_created_at = now, u_updated_at = now\<rparr>) (\<lambda>user.
     ret (user_view_of user))))))))))"

text \<open>The fields an update sets: the role, then the password hash.\<close>

definition new_role :: "current_user \<Rightarrow> string \<Rightarrow> string option \<Rightarrow> account_role option hub" where
  "new_role current username role_text =
     (case role_text of
        None \<Rightarrow> ret None
      | Some v \<Rightarrow>
         bindc (from_sum (role_from_str v)) (\<lambda>role.
         bindc (guardc (\<not> (username = cu_username current \<and> role \<noteq> Admin))
                  (Forbidden (''you can'' @ [CHR 0x27] @ ''t change your own role''))) (\<lambda>_.
         ret (Some role))))"

definition new_password_hash :: "externals \<Rightarrow> current_user \<Rightarrow> string \<Rightarrow> string option \<Rightarrow> string option hub" where
  "new_password_hash x current username password =
     (case password of
        None \<Rightarrow> ret None
      | Some pw \<Rightarrow>
         bindc (guardc (username \<noteq> cu_username current)
                  (Forbidden ''use the password change form in Settings for your own account'')) (\<lambda>_.
         bindc (from_sum (validate_password pw)) (\<lambda>_.
         bindc (hash_password x pw) (\<lambda>h. ret (Some h)))))"

definition with_fields :: "account_role option \<Rightarrow> string option \<Rightarrow> int \<Rightarrow> db_user \<Rightarrow> db_user" where
  "with_fields role pw_hash now u =
     u\<lparr>u_role := (case role of Some r \<Rightarrow> role_as_str r | None \<Rightarrow> u_role u),
       u_password_hash := (case pw_hash of Some h \<Rightarrow> h | None \<Rightarrow> u_password_hash u),
       u_updated_at := now\<rparr>"

definition update_user_handler ::
  "externals \<Rightarrow> current_user \<Rightarrow> string \<Rightarrow> string option \<Rightarrow> string option \<Rightarrow> user_view hub" where
  "update_user_handler x current username role_text password =
     bindc (from_sum (require_admin current)) (\<lambda>_.
     bindc (db_first db_users (\<lambda>u. u_username u = username)) (\<lambda>r.
     bindc (ok_or (UserNotFound username) r) (\<lambda>user.
     bindc (new_role current username role_text) (\<lambda>role.
     bindc (new_password_hash x current username password) (\<lambda>pw_hash.
     bindc (gets now_secs) (\<lambda>now.
     bindc (update_user user (with_fields role pw_hash now)) (\<lambda>user'.
     bindc (whenc (role_text \<noteq> None \<or> password \<noteq> None) (revoke_sessions_for username)) (\<lambda>_.
     ret (user_view_of user')))))))))"

definition delete_user :: "current_user \<Rightarrow> string \<Rightarrow> unit hub" where
  "delete_user current username =
     bindc (from_sum (require_admin current)) (\<lambda>_.
     bindc (guardc (username \<noteq> cu_username current)
              (Forbidden (''you can'' @ [CHR 0x27] @ ''t delete your own account''))) (\<lambda>_.
     bindc (db_first db_users (\<lambda>u. u_username u = username)) (\<lambda>r.
     bindc (ok_or (UserNotFound username) r) (\<lambda>user.
     bindc (delete_permissions (\<lambda>p. p_user_id p = u_id user)) (\<lambda>_.
     bindc (delete_users (\<lambda>u. u_username u = username)) (\<lambda>_.
     revoke_sessions_for username))))))"

definition change_own_password :: "externals \<Rightarrow> current_user \<Rightarrow> headers \<Rightarrow> string \<Rightarrow> string \<Rightarrow> unit hub" where
  "change_own_password x current headers current_password new_password =
     bindc (db_first db_users (\<lambda>u. u_username u = cu_username current)) (\<lambda>r.
     bindc (ok_or Unauthenticated r) (\<lambda>user.
     bindc (guardc (verify_password x current_password (u_password_hash user)) InvalidCredentials) (\<lambda>_.
     bindc (from_sum (validate_password new_password)) (\<lambda>_.
     bindc (hash_password x new_password) (\<lambda>h.
     bindc (gets now_secs) (\<lambda>now.
     bindc (update_user user (with_fields None (Some h) now)) (\<lambda>_.
     case cookie_value headers session_cookie of
       Some token \<Rightarrow> revoke_other_sessions_for (cu_username current) token
     | None \<Rightarrow> ret ())))))))"

section \<open>API tokens\<close>

record api_token_view =
  tv_id :: int
  tv_name :: string
  tv_expires_at :: int
  tv_revoked :: bool
  tv_created_at :: int
  tv_updated_at :: int

definition view_of_token :: "db_token \<Rightarrow> api_token_view" where
  "view_of_token t = \<lparr>tv_id = t_id t, tv_name = t_name t, tv_expires_at = t_expires_at t,
     tv_revoked = t_revoked t, tv_created_at = t_created_at t, tv_updated_at = t_updated_at t\<rparr>"

definition list_own_tokens :: "current_user \<Rightarrow> api_token_view list hub" where
  "list_own_tokens current =
     bindc (list_api_tokens (cu_id current)) (\<lambda>tokens. ret (map view_of_token tokens))"

definition create_own_token :: "externals \<Rightarrow> current_user \<Rightarrow> string \<Rightarrow> int \<Rightarrow> (api_token_view \<times> string) hub" where
  "create_own_token x current name expires_at =
     bindc (guardc (trim name \<noteq> []) (InvalidName name)) (\<lambda>_.
     bindc (create_api_token x (cu_id current) (trim name) expires_at) (\<lambda>(row, plaintext_token).
     ret (view_of_token row, plaintext_token)))"

definition revoke_own_token :: "current_user \<Rightarrow> int \<Rightarrow> unit hub" where
  "revoke_own_token current i = revoke_api_token (cu_id current) i"

section \<open>Hosts\<close>

record host_view =
  hv_id :: int
  hv_name :: string
  hv_revoked :: bool
  hv_connected :: bool
  hv_ip :: "string option"
  hv_last_connected_ip :: "string option"
  hv_last_seen_at :: "int option"
  hv_created_at :: int
  hv_updated_at :: int

definition view_of_host :: "world \<Rightarrow> db_host \<Rightarrow> host_view" where
  "view_of_host s h = \<lparr>hv_id = h_id h, hv_name = h_name h, hv_revoked = h_revoked h,
     hv_connected = (h_id h \<in> set (agent_hosts s)), hv_ip = h_ip h,
     hv_last_connected_ip = h_last_connected_ip h, hv_last_seen_at = h_last_seen_at h,
     hv_created_at = h_created_at h, hv_updated_at = h_updated_at h\<rparr>"

definition list_hosts_handler :: "host_view list hub" where
  "list_hosts_handler =
     bindc list_hosts (\<lambda>hosts.
     bindc (gets (\<lambda>s. map (view_of_host s) hosts)) ret)"

definition create_host_handler :: "externals \<Rightarrow> current_user \<Rightarrow> string \<Rightarrow> (host_view \<times> string) hub" where
  "create_host_handler x current name =
     bindc (from_sum (require_admin current)) (\<lambda>_.
     bindc (create_host x (trim name)) (\<lambda>(row, plaintext_token).
     bindc (gets (\<lambda>s. view_of_host s row)) (\<lambda>v.
     ret (v, plaintext_token))))"

definition revoke_host_handler :: "current_user \<Rightarrow> int \<Rightarrow> unit hub" where
  "revoke_host_handler current i =
     bindc (from_sum (require_admin current)) (\<lambda>_. revoke_host i)"

definition update_host_ip_handler :: "current_user \<Rightarrow> int \<Rightarrow> string option \<Rightarrow> host_view hub" where
  "update_host_ip_handler current i ip_text =
     bindc (from_sum (require_admin current)) (\<lambda>_.
     bindc (update_host_ip i (case ip_text of Some t \<Rightarrow> if trim t = [] then None else Some t | None \<Rightarrow> None)) (\<lambda>_.
     bindc list_hosts (\<lambda>hosts.
     bindc (ok_or HostNotFound (find (\<lambda>h. h_id h = i) hosts)) (\<lambda>host.
     bindc (gets (\<lambda>s. view_of_host s host)) ret))))"

definition get_host_stats :: "agent_link \<Rightarrow> host_stats_result hub" where
  "get_host_stats link =
     bindc (call link GetHostStats) (\<lambda>payload.
     case payload of
       HostStatsResult result \<Rightarrow> ret result
     | _ \<Rightarrow> throw (AgentError ''agent replied to GetHostStats with the wrong payload type''))"

definition collect_host_stats :: "agent_link \<Rightarrow> host_stats hub" where
  "collect_host_stats link =
     bindc (get_host_stats link) (\<lambda>result.
     case result of
       HsOk st \<Rightarrow> ret st
     | HsError message \<Rightarrow> throw (AgentError message)
     | HsNone \<Rightarrow> throw AgentUnavailable)"

definition host_stats_endpoint :: "int \<Rightarrow> host_stats hub" where
  "host_stats_endpoint i = bindc (gets (\<lambda>s. agent_link_for s i)) collect_host_stats"

section \<open>Login\<close>

definition login_user :: "externals \<Rightarrow> ip_addr \<Rightarrow> string \<Rightarrow> string \<Rightarrow> db_user hub" where
  "login_user x ip username password =
     bindc (db_first db_users (\<lambda>u. u_username u = username)) (\<lambda>r.
     case r of
       Some user \<Rightarrow>
         (if verify_password x password (u_password_hash user) then ret user
          else bindc (record_failed_login ip) (\<lambda>_. throw InvalidCredentials))
     | None \<Rightarrow> bindc (record_failed_login ip) (\<lambda>_. throw InvalidCredentials))"

definition open_session :: "externals \<Rightarrow> db_user \<Rightarrow> ((string \<times> string) \<times> user_view) hub" where
  "open_session x user =
     bindc (generate_session_token x) (\<lambda>token.
     bindc (gets now_secs) (\<lambda>now.
     bindc (modify (\<lambda>s. s\<lparr>sessions := (sessions s)(token \<mapsto>
              \<lparr>ses_username = u_username user, ses_created_at = now\<rparr>)\<rparr>)) (\<lambda>_.
     ret (session_cookie_header token session_max_age_secs, user_view_of user))))"

definition login :: "externals \<Rightarrow> ip_addr \<Rightarrow> string \<Rightarrow> string \<Rightarrow> ((string \<times> string) \<times> user_view) hub" where
  "login x ip username password =
     bindc (check_login_lockout ip) (\<lambda>_.
     bindc (login_user x ip username password) (\<lambda>user.
     bindc (clear_login_attempts ip) (\<lambda>_.
     open_session x user)))"

definition logout :: "headers \<Rightarrow> (string \<times> string) hub" where
  "logout headers =
     bindc (case cookie_value headers session_cookie of
              Some token \<Rightarrow> modify (\<lambda>s. s\<lparr>sessions := (sessions s)(token := None)\<rparr>)
            | None \<Rightarrow> ret ()) (\<lambda>_.
     ret clear_session_cookie_header)"

definition me :: "current_user \<Rightarrow> user_view" where
  "me current = \<lparr>uv_username = cu_username current, uv_role = role_as_str (cu_role current)\<rparr>"

end
