(* ===== verification/UserSafety.thy ===== *)
theory UserSafety
  imports UserRoutes
begin

text \<open>
  What the account routes guarantee together: an administrator is always left, a change of
  credentials logs the account out, and a login's cookie is accepted on the next request.
\<close>

section \<open>An administrator is always left\<close>

definition has_admin :: "string \<Rightarrow> database \<Rightarrow> bool" where
  "has_admin name d \<longleftrightarrow> no_clash user_clash (db_users d)
     \<and> (\<exists>u\<in>set (db_users d). u_username u = name \<and> u_role u = role_as_str Admin)"

lemma role_as_str_inj [simp]: "role_as_str a = role_as_str b \<longleftrightarrow> a = b"
  by (cases a; cases b) (simp_all add: role_as_str_def)

lemma has_admin_other:
  assumes "has_admin name d" and "db_users d' = db_users d" shows "has_admin name d'"
  using assms by (simp add: has_admin_def)

lemma has_admin_insert:
  assumes "has_admin name d" and "insert_row user_clash r (db_users d) = Some rs"
  shows "has_admin name (d\<lparr>db_users := rs, seq_users := n\<rparr>)"
  using assms users_by_id.ins_inv [OF _ assms(2)] users_by_id.ins_rows [OF assms(2)]
  by (auto simp: has_admin_def)

lemma has_admin_delete:
  assumes "has_admin name d" and "name' \<noteq> name"
  shows "has_admin name (d\<lparr>db_users := delete_rows (\<lambda>u. u_username u = name') (db_users d)\<rparr>)"
  using assms by (auto simp: has_admin_def delete_rows_def no_clash_filter)

lemma has_admin_update:
  assumes "has_admin name d" and upd: "update_rows user_clash (\<lambda>q. u_id q = u_id u) f (db_users d) = Some rs"
    and u: "u \<in> set (db_users d)" and f: "\<And>q. u_username (f q) = u_username q"
    and role: "\<And>q. u_username u = name \<Longrightarrow> u_role q = role_as_str Admin \<Longrightarrow> u_role (f q) = role_as_str Admin"
  shows "has_admin name (d\<lparr>db_users := rs\<rparr>)"
proof -
  obtain a where a: "a \<in> set (db_users d)" "u_username a = name" "u_role a = role_as_str Admin"
    using assms(1) by (auto simp: has_admin_def)
  let ?a = "if u_id a = u_id u then f a else a"
  have "u_id a = u_id u \<Longrightarrow> a = u"
    using users_by_id.key_unique [OF _ a(1) u] assms(1) by (simp add: has_admin_def)
  then have "u_role ?a = role_as_str Admin" "u_username ?a = name" using a role f by auto
  moreover have "?a \<in> set rs" using a(1) users_by_id.upd_rows [OF upd] by auto
  ultimately show ?thesis using users_by_id.upd_inv [OF upd] by (auto simp: has_admin_def)
qed

lemma keeps_has_admin_lookup: "leaves db m \<Longrightarrow> keeps (\<lambda>s. has_admin name (db s)) m"
  by (rule keeps_leaves)

lemma leaves_db_hash: "leaves db (hash_password x pw)" "leaves db (revoke_sessions_for n)"
  "leaves db (db_first tbl P)" "leaves db (new_password_hash x cur n pwo)" "leaves db (new_role cur n rt)"
  "leaves db (revoke_other_sessions_for n k)"
  unfolding hash_password_def revoke_sessions_for_def revoke_other_sessions_for_def new_password_hash_def new_role_def
  by (intro leaves_intros; simp)+

lemma keeps_has_admin_create: "keeps (\<lambda>s. has_admin name (db s)) (create_user x cur n pw rt)"
  unfolding create_user_def
  by (intro keeps_intros leaves_db_hash [THEN keeps_has_admin_lookup])
    (auto simp: insert_user_def Let_def intro!: keeps_db_write has_admin_insert)

lemma keeps_has_admin_delete: "keeps (\<lambda>s. has_admin (cu_username cur) (db s)) (delete_user cur n)"
  unfolding delete_user_def
  apply (rule keeps_bindc, intro keeps_intros)
  apply (simp add: guardc_def keeps_throw)
  apply (intro impI keeps_intros leaves_db_hash [THEN keeps_has_admin_lookup])
   apply (auto simp: delete_defs intro!: keeps_db_write has_admin_delete intro: has_admin_other)
  done

lemma triple_find_user:
  "triple (\<lambda>s. has_admin name (db s)) (bindc (db_first db_users P) (\<lambda>r. ok_or e r))
    (\<lambda>u s. (has_admin name (db s) \<and> u \<in> set (db_users (db s))) \<and> P u) (\<lambda>s. has_admin name (db s))"
  by (rule triple_bindc [OF triple_db_first]) (auto intro!: triple_ok_or dest: find_SomeD [OF sym])

lemma triple_new_role:
  "triple (\<lambda>s. J (db s)) (new_role cur n rt) (\<lambda>r s. J (db s) \<and> (n = cu_username cur \<longrightarrow> r = None \<or> r = Some Admin))
    (\<lambda>s. J (db s))"
  unfolding new_role_def
  apply (cases rt)
   apply (simp add: triple_ret)
  apply simp
  apply (rule triple_bindc [where Q = "\<lambda>_ s. J (db s)"])
   apply (rule triple_from_sum, assumption, assumption)
  apply (simp add: guardc_def triple_ret triple_throw)
  done

lemma triple_leaves_db: "leaves db m \<Longrightarrow> triple (\<lambda>s. J (db s)) m (\<lambda>_ s. J (db s)) (\<lambda>s. J (db s))"
  by (rule triple_keeps [OF keeps_leaves])

lemma triple_update_user:
  assumes f: "\<And>q. u_username (f q) = u_username q"
    and role: "\<And>q. u_username u = name \<Longrightarrow> u_role q = role_as_str Admin \<Longrightarrow> u_role (f q) = role_as_str Admin"
  shows "triple (\<lambda>s. has_admin name (db s) \<and> u \<in> set (db_users (db s))) (update_user u f)
    (\<lambda>_ s. has_admin name (db s)) (\<lambda>s. has_admin name (db s))"
  unfolding update_user_def
  by (rule triple_conseq [OF triple_db_write [where J = "\<lambda>d. has_admin name d \<and> u \<in> set (db_users d)"
        and K = "\<lambda>_. has_admin name"]]) (auto intro: has_admin_update [OF _ _ _ f role])

lemma keeps_has_admin_update_handler:
  "keeps (\<lambda>s. has_admin (cu_username cur) (db s)) (update_user_handler x cur n rt pwo)"
proof -
  let ?K = "\<lambda>d. has_admin (cu_username cur) d"
  let ?J = "\<lambda>u d. ?K d \<and> u \<in> set (db_users d)"
  have upd: "triple (\<lambda>s. ?J u (db s)) (update_user u (with_fields r h now)) (\<lambda>_ s. ?K (db s)) (\<lambda>s. ?K (db s))"
    if "u_username u = n" "n = cu_username cur \<longrightarrow> r = None \<or> r = Some Admin" for u r h now
    by (rule triple_update_user) (use that in \<open>auto simp: with_fields_def\<close>)
  have tail: "triple (\<lambda>s. ?K (db s)) (bindc (whenc b (revoke_sessions_for n)) (\<lambda>_. ret v)) (\<lambda>_ s. ?K (db s)) (\<lambda>s. ?K (db s))"
    for b and v :: user_view
    unfolding keeps_iff_triple [symmetric] by (intro keeps_intros keeps_leaves leaves_db_hash)
  have pw: "triple (\<lambda>s. ?J u (db s)) (new_password_hash x cur n pwo) (\<lambda>_ s. ?J u (db s)) (\<lambda>s. ?K (db s))" for u
    by (rule triple_conseq [OF triple_leaves_db [where J = "?J u", OF leaves_db_hash(4)]]) auto
  have role: "triple (\<lambda>s. ?J u (db s)) (new_role cur n rt)
      (\<lambda>r s. ?J u (db s) \<and> (n = cu_username cur \<longrightarrow> r = None \<or> r = Some Admin)) (\<lambda>s. ?K (db s))" for u
    by (rule triple_conseq [OF triple_new_role [where J = "?J u"]]) auto
  show ?thesis
    unfolding keeps_iff_triple update_user_handler_def
    apply (rule triple_bindc [where Q = "\<lambda>_ s. ?K (db s)"], rule triple_from_sum, assumption, assumption)
    apply (rule triple_bindc [OF triple_db_first])
    apply (rule triple_bindc [where Q = "\<lambda>u s. ?J u (db s) \<and> u_username u = n"])
     apply (rule triple_ok_or, auto dest: find_SomeD find_SomeD [OF sym])[1]
    apply (rule triple_assume)
    apply (rule triple_bindc [OF role], rule triple_assume)
    apply (rule triple_bindc [OF pw])
    apply (rule triple_bindc [where Q = "\<lambda>_ s. ?J u (db s)" for u], rule triple_gets, assumption)
    apply (rule triple_bindc [OF upd tail])
     apply simp_all
    done
qed

lemma has_admin_role:
  assumes "has_admin name d" and upd: "update_rows user_clash P f (db_users d) = Some rs"
    and "\<And>q. u_username (f q) = u_username q" "\<And>q. u_role (f q) = u_role q"
  shows "has_admin name (d\<lparr>db_users := rs\<rparr>)"
proof -
  obtain a where "a \<in> set (db_users d)" "u_username a = name" "u_role a = role_as_str Admin"
    using assms(1) by (auto simp: has_admin_def)
  then have "(if P a then f a else a) \<in> set rs" "u_username (if P a then f a else a) = name"
    "u_role (if P a then f a else a) = role_as_str Admin"
    using users_by_id.upd_rows [OF upd] assms(3,4) by auto
  then show ?thesis using users_by_id.upd_inv [OF upd] unfolding has_admin_def by auto
qed

lemma keeps_has_admin_change_own:
  "keeps (\<lambda>s. has_admin name (db s)) (change_own_password x cur hs old new)"
  unfolding change_own_password_def update_user_def
  by (intro keeps_intros leaves_db_hash [THEN keeps_has_admin_lookup] keeps_db_write)
    (auto intro: has_admin_role simp: with_fields_def)

section \<open>The routes behind authentication\<close>

text \<open>The router of \<open>users.rs\<close> for the routes that write to the table of users.\<close>

datatype user_request =
    CreateUserReq string string string
  | UpdateUserReq string "string option" "string option"
  | DeleteUserReq string
  | ChangeOwnPasswordReq string string

definition run_user_request :: "externals \<Rightarrow> headers \<Rightarrow> user_request \<Rightarrow> unit hub" where
  "run_user_request x headers req =
     bindc (cookie_user headers) (\<lambda>current.
     case req of
       CreateUserReq n pw role \<Rightarrow> bindc (create_user x current n pw role) (\<lambda>_. ret ())
     | UpdateUserReq n role pw \<Rightarrow> bindc (update_user_handler x current n role pw) (\<lambda>_. ret ())
     | DeleteUserReq n \<Rightarrow> delete_user current n
     | ChangeOwnPasswordReq old new \<Rightarrow> change_own_password x current headers old new)"

definition some_admin :: "database \<Rightarrow> bool" where
  "some_admin d \<longleftrightarrow> (\<exists>name. has_admin name d)"

lemma some_adminI: "has_admin name d \<Longrightarrow> some_admin d"
  by (auto simp: some_admin_def)

lemma cookie_user_role:
  "cookie_user hs s = (Done cu, s') \<Longrightarrow>
     \<exists>u\<in>set (db_users (db s)). u_username u = cu_username cu \<and> u_role u = role_as_str (cu_role cu)"
  unfolding cookie_user_def
  by (elim bindc_DoneE resolve_cookie_username_Done load_current_user_Done) (auto dest!: find_SomeD)

lemma not_admin_refused:
  assumes "cu_role cur \<noteq> Admin"
  shows "create_user x cur n pw rt = throw (Forbidden ''admin access required'')"
    "update_user_handler x cur n rto pwo = throw (Forbidden ''admin access required'')"
    "delete_user cur n = throw (Forbidden ''admin access required'')"
  using assms
  by (simp_all add: create_user_def update_user_handler_def delete_user_def require_admin_def from_sum_def
      split: account_role.split)

lemma keeps_some_admin: "keeps (\<lambda>s. some_admin (db s)) (run_user_request x hs req)"
proof (rule keepsI)
  fix s :: world assume some: "some_admin (db s)"
  obtain r s1 where run: "cookie_user hs s = (r, s1)" by fastforce
  have db1: "db s1 = db s" using leaves_db_auth(1) [of hs] run by (metis leaves_def snd_conv)
  show "some_admin (db (snd (run_user_request x hs req s)))"
  proof (cases r)
    case (Done cur)
    let ?k = "case req of
       CreateUserReq n pw role \<Rightarrow> bindc (create_user x cur n pw role) (\<lambda>_. ret ())
     | UpdateUserReq n role pw \<Rightarrow> bindc (update_user_handler x cur n role pw) (\<lambda>_. ret ())
     | DeleteUserReq n \<Rightarrow> delete_user cur n
     | ChangeOwnPasswordReq old new \<Rightarrow> change_own_password x cur hs old new"
    have step: "run_user_request x hs req s = ?k s1"
      using run Done by (simp add: run_user_request_def bindc_def)
    obtain name where name: "has_admin name (db s1)" using some db1 by (auto simp: some_admin_def)
    have "\<exists>n. has_admin n (db s1) \<and> keeps (\<lambda>s. has_admin n (db s)) ?k"
    proof (cases "cu_role cur")
      case Admin
      have "has_admin (cu_username cur) (db s1)"
        using cookie_user_role [of hs s cur s1] run Done Admin name db1 by (auto simp: has_admin_def)
      then show ?thesis
        by (intro exI [of _ "cu_username cur"])
           (auto split: user_request.split intro!: keeps_has_admin_create keeps_has_admin_delete
            keeps_has_admin_update_handler keeps_has_admin_change_own keeps_bindc keeps_ret)
    next
      case Member
      then have "keeps (\<lambda>s. has_admin name (db s)) ?k"
        by (auto split: user_request.split intro!: keeps_has_admin_change_own keeps_throw simp: not_admin_refused)
      with name show ?thesis by blast
    qed
    then show ?thesis unfolding step by (auto dest: keepsD intro: some_adminI)
  qed (use run some db1 in \<open>simp_all add: run_user_request_def bindc_def\<close>)
qed

text \<open>C4 No sequence of account requests, whoever sends them and however each of them
  ends (success, error or a crash half-way), leaves the platform without an administrator:
  usernames stay unique and some row keeps the role.\<close>

theorem an_admin_is_always_left:
  assumes "no_clash user_clash (db_users (db s))" and "u \<in> set (db_users (db s))" and "u_role u = role_as_str Admin"
  shows "\<exists>v\<in>set (db_users (db (snd (forc reqs (\<lambda>(hs, req). ignore (run_user_request x hs req)) s)))). u_role v = role_as_str Admin"
proof -
  let ?m = "forc reqs (\<lambda>(hs, req). ignore (run_user_request x hs req))"
  have "keeps (\<lambda>s. some_admin (db s)) ?m"
    by (intro keeps_intros keeps_some_admin)
  moreover have "some_admin (db s)" using assms by (auto simp: some_admin_def has_admin_def)
  ultimately have "some_admin (db (snd (?m s)))" by (rule keepsD)
  then show ?thesis by (auto simp: some_admin_def has_admin_def)
qed

definition sample_admin_world :: world where
  "sample_admin_world = sample_session_world\<lparr>db := empty_database\<lparr>db_users := [sample_user\<lparr>u_role := ''admin''\<rparr>]\<rparr>\<rparr>"

lemma sample_admin_users: "db_users (db sample_admin_world) = [sample_user\<lparr>u_role := ''admin''\<rparr>]"
  by (simp add: sample_admin_world_def)

lemma an_admin_is_always_left_witness:
  "\<exists>v\<in>set (db_users (db (snd (forc [(sample_headers, DeleteUserReq ''ann''),
        (sample_headers, UpdateUserReq ''ann'' (Some ''member'') None)]
      (\<lambda>(hs, req). ignore (run_user_request sample_externals hs req)) sample_admin_world)))). u_role v = role_as_str Admin"
  by (rule an_admin_is_always_left [where u = "sample_user\<lparr>u_role := ''admin''\<rparr>"])
     (simp_all add: sample_admin_users no_clash_def role_as_str_def)

section \<open>Changed credentials\<close>

lemma revoke_sessions_run:
  "revoke_sessions_for name s = (Done (), s\<lparr>sessions := retain (\<lambda>_ ses. ses_username ses \<noteq> name) (sessions s)\<rparr>)"
  by (simp add: revoke_sessions_for_def modify_def)

lemma no_session_no_user:
  assumes "\<And>token ses. sessions s token = Some ses \<Longrightarrow> ses_username ses \<noteq> name"
    and "cookie_user hs s = (Done cu, s')"
  shows "cu_username cu \<noteq> name"
  using assms(2) unfolding cookie_user_def
  by (elim bindc_DoneE resolve_cookie_username_Done load_current_user_Done) (auto dest!: find_SomeD assms(1))

lemma update_user_handler_Done:
  assumes "update_user_handler x cur name role pw s = (Done v, s')" and "role \<noteq> None \<or> pw \<noteq> None"
  obtains s1 where "s' = s1\<lparr>sessions := retain (\<lambda>_ ses. ses_username ses \<noteq> name) (sessions s1)\<rparr>"
  using assms unfolding update_user_handler_def
  by (auto elim!: bindc_DoneE simp: whenc_def revoke_sessions_run intro: that)

lemma delete_user_Done:
  assumes "delete_user cur name s = (Done (), s')"
  obtains s1 where "s' = s1\<lparr>sessions := retain (\<lambda>_ ses. ses_username ses \<noteq> name) (sessions s1)\<rparr>"
  using assms unfolding delete_user_def
  by (auto elim!: bindc_DoneE simp: revoke_sessions_run intro: that)

text \<open>All of \<open>change_own_password\<close> but its last step.\<close>

definition set_own_password :: "externals \<Rightarrow> current_user \<Rightarrow> string \<Rightarrow> string \<Rightarrow> db_user hub" where
  "set_own_password x current current_password new_password =
     bindc (db_first db_users (\<lambda>u. u_username u = cu_username current)) (\<lambda>r.
     bindc (ok_or Unauthenticated r) (\<lambda>user.
     bindc (guardc (verify_password x current_password (u_password_hash user)) InvalidCredentials) (\<lambda>_.
     bindc (from_sum (validate_password new_password)) (\<lambda>_.
     bindc (hash_password x new_password) (\<lambda>h.
     bindc (gets now_secs) (\<lambda>now.
     update_user user (with_fields None (Some h) now)))))))"

lemma change_own_password_parts:
  "change_own_password x current headers old new =
     bindc (set_own_password x current old new) (\<lambda>_.
     case cookie_value headers session_cookie of
       Some token \<Rightarrow> revoke_other_sessions_for (cu_username current) token
     | None \<Rightarrow> ret ())"
  by (simp add: change_own_password_def set_own_password_def bindc_assoc)

lemma leaves_set_own_password: "leaves sessions (set_own_password x current old new)"
  unfolding set_own_password_def update_user_def by (intro leaves_intros; simp)

lemma change_own_password_Done:
  assumes "change_own_password x current headers old new s = (Done (), s')" and "cookie_value headers session_cookie = Some token"
  shows "sessions s' = retain (\<lambda>t ses. ses_username ses \<noteq> cu_username current \<or> t = token) (sessions s)"
proof -
  obtain u s1 where "set_own_password x current old new s = (Done u, s1)"
    and "revoke_other_sessions_for (cu_username current) token s1 = (Done (), s')"
    using assms by (auto simp: change_own_password_parts elim!: bindc_DoneE)
  then show ?thesis
    using leaves_run [OF leaves_set_own_password] by (auto simp: revoke_other_sessions_for_def modify_def)
qed

lemma cookie_user_session:
  assumes "cookie_user hs s = (Done cu, s')"
  obtains token ses where "cookie_value hs session_cookie = Some token" and "sessions s token = Some ses"
    and "ses_username ses = cu_username cu"
  using assms unfolding cookie_user_def
  by (elim bindc_DoneE resolve_cookie_username_Done load_current_user_Done) (auto dest!: find_SomeD intro: that)

text \<open>C25 An administrator's change of a role or a password, and the deletion of an account,
  log that account out everywhere: when the request succeeds, no cookie that worked before is
  taken for the account any more. Changing one's own password logs the account out everywhere
  else: the session whose cookie the request carried goes on, and no other is taken for the
  account.\<close>

theorem changed_account_is_logged_out:
  shows "((update_user_handler x cur name role pw s = (Done v, s') \<and> (role \<noteq> None \<or> pw \<noteq> None)
       \<or> delete_user cur name s = (Done (), s')) \<and> cookie_user hs s' = (Done cu, s'') \<longrightarrow> cu_username cu \<noteq> name)
    \<and> (change_own_password x current headers old new t = (Done (), t') \<and> cookie_value headers session_cookie = Some token \<longrightarrow>
        sessions t' token = sessions t token
        \<and> (cookie_user hs t' = (Done cu, t'') \<and> cu_username cu = cu_username current \<longrightarrow>
            cookie_value hs session_cookie = Some token))"
proof (intro conjI impI)
  assume a: "(update_user_handler x cur name role pw s = (Done v, s') \<and> (role \<noteq> None \<or> pw \<noteq> None)
       \<or> delete_user cur name s = (Done (), s')) \<and> cookie_user hs s' = (Done cu, s'')"
  then obtain s1 where s1: "s' = s1\<lparr>sessions := retain (\<lambda>_ ses. ses_username ses \<noteq> name) (sessions s1)\<rparr>"
    by (metis update_user_handler_Done delete_user_Done)
  show "cu_username cu \<noteq> name"
    by (rule no_session_no_user [of s', OF _ conjunct2 [OF a]]) (simp add: s1 retain_Some)
next
  assume own: "change_own_password x current headers old new t = (Done (), t') \<and> cookie_value headers session_cookie = Some token"
  note kept = change_own_password_Done [OF conjunct1 [OF own] conjunct2 [OF own]]
  show "sessions t' token = sessions t token" by (simp add: kept retain_def split: option.split)
  assume "cookie_user hs t' = (Done cu, t'') \<and> cu_username cu = cu_username current"
  then show "cookie_value hs session_cookie = Some token"
    using cookie_user_session [of hs t' cu t''] kept by (auto simp: retain_Some)
qed

definition sample_bob :: db_user where
  "sample_bob = sample_user\<lparr>u_id := 2, u_username := ''bob''\<rparr>"

definition sample_two_world :: world where
  "sample_two_world = sample_admin_world\<lparr>db := empty_database\<lparr>db_users := [sample_user\<lparr>u_role := ''admin''\<rparr>, sample_bob]\<rparr>\<rparr>"

lemmas sample_two_simps = sample_two_world_def sample_admin_world_def sample_session_world_def sample_bob_def
  sample_token_simps

lemma sample_delete_bob:
  "delete_user \<lparr>cu_id = 1, cu_username = ''ann'', cu_role = Admin\<rparr> ''bob'' sample_two_world
     = (Done (), sample_admin_world)"
  by (simp add: delete_user_def bindc_def require_admin_def guardc_def ok_or_def ret_def db_first_no_faults
      delete_defs db_write_def ext_call_no_faults delete_rows_def revoke_sessions_run sample_two_simps from_sum_def)
     (simp add: retain_def fun_eq_iff)

lemma sample_after_delete:
  "cookie_user sample_headers sample_admin_world = (Done \<lparr>cu_id = 1, cu_username = ''ann'', cu_role = Admin\<rparr>, sample_admin_world)"
  by (simp add: cookie_user_def resolve_cookie_username_def sample_cookie load_current_user_def bindc_def ok_or_def
      gets_def ret_def db_first_no_faults user_role_def role_from_str_def from_sum_def session_max_age_secs_def
      sample_two_simps)

definition sample_twice_in :: world where
  "sample_twice_in = sample_session_world\<lparr>sessions := [''tok'' \<mapsto> \<lparr>ses_username = ''ann'', ses_created_at = 0\<rparr>,
     ''old'' \<mapsto> \<lparr>ses_username = ''ann'', ses_created_at = 0\<rparr>]\<rparr>"

lemma sample_own_change:
  "fst (change_own_password sample_externals \<lparr>cu_id = 1, cu_username = ''ann'', cu_role = Member\<rparr> sample_headers
     ''pw'' ''correct horse'' sample_twice_in) = Done ()"
proof -
  have "case fst (change_own_password sample_externals \<lparr>cu_id = 1, cu_username = ''ann'', cu_role = Member\<rparr> sample_headers
     ''pw'' ''correct horse'' sample_twice_in) of Done _ \<Rightarrow> True | _ \<Rightarrow> False" by code_simp
  then show ?thesis by (simp split: outcome.splits)
qed

lemma changed_account_is_logged_out_witness:
  "cu_username \<lparr>cu_id = 1, cu_username = ''ann'', cu_role = Admin\<rparr> \<noteq> ''bob''
    \<and> (\<exists>t'. change_own_password sample_externals \<lparr>cu_id = 1, cu_username = ''ann'', cu_role = Member\<rparr> sample_headers
          ''pw'' ''correct horse'' sample_twice_in = (Done (), t') \<and> sessions t' ''tok'' \<noteq> None)"
proof -
  obtain t' where own: "change_own_password sample_externals \<lparr>cu_id = 1, cu_username = ''ann'', cu_role = Member\<rparr> sample_headers
      ''pw'' ''correct horse'' sample_twice_in = (Done (), t')"
    using sample_own_change by (metis fst_conv surj_pair)
  show ?thesis
    using changed_account_is_logged_out [where cur = "\<lparr>cu_id = 1, cu_username = ''ann'', cu_role = Admin\<rparr>" and name = "''bob''"
        and s = sample_two_world and s' = sample_admin_world and hs = sample_headers and s'' = sample_admin_world
        and cu = "\<lparr>cu_id = 1, cu_username = ''ann'', cu_role = Admin\<rparr>"
        and x = sample_externals and current = "\<lparr>cu_id = 1, cu_username = ''ann'', cu_role = Member\<rparr>" and headers = sample_headers
        and old = "''pw''" and new = "''correct horse''" and t = sample_twice_in and t' = t' and token = "''tok''"]
      own sample_delete_bob sample_after_delete sample_cookie
    by (auto simp: sample_twice_in_def)
qed

section \<open>A login's cookie\<close>

lemma trim_id:
  assumes "\<And>w c. w \<in> set white_space \<Longrightarrow> c \<in> set w \<Longrightarrow> c \<notin> set v"
  shows "trim v = v"
proof -
  have no: "w \<in> set white_space \<Longrightarrow> \<not> starts_with w v \<and> \<not> ends_with w v" for w
    using assms [of w "hd w"] white_space_ne [of w] by (auto simp: starts_with_iff ends_with_iff)
  then have "find (\<lambda>w. starts_with w v) white_space = None" "find (\<lambda>w. ends_with w v) white_space = None"
    by (auto simp: find_None_iff)
  then show ?thesis by (simp add: trim_def trim_start.simps [of v] trim_end.simps [of v])
qed

text \<open>The characters of unpadded URL-safe base64.\<close>

definition url_safe :: "char \<Rightarrow> bool" where
  "url_safe c \<longleftrightarrow> c \<in> set ''ABCDEFGHIJKLMNOPQRSTUVWXYZabcdefghijklmnopqrstuvwxyz0123456789-_''"

definition b64_url_ok :: "externals \<Rightarrow> bool" where
  "b64_url_ok x \<longleftrightarrow> (\<forall>v. list_all url_safe (x_b64_url x v))"

lemma split_on_no: "d \<notin> set v \<Longrightarrow> split_on d v = [v]"
  by (induction v) auto

lemma url_safe_facts:
  "list_all (\<lambda>c. url_safe c \<or> c = CHR ''='') ''berth_session=''" "\<not> url_safe CHR '';''"
  "list_all (list_all (\<lambda>c. \<not> url_safe c \<and> c \<noteq> CHR ''='')) white_space"
  by code_simp+

lemma cookie_of_token:
  assumes token: "list_all url_safe token" and hs: "hs ''cookie'' = Some (''berth_session='' @ token)"
  shows "cookie_value hs session_cookie = Some token"
proof -
  define v where "v = ''berth_session='' @ token"
  have safe: "list_all (\<lambda>c. url_safe c \<or> c = CHR ''='') v"
    using token url_safe_facts(1) unfolding v_def list_all_iff by (metis Un_iff set_append)
  have semi: "CHR '';'' \<notin> set v" using safe url_safe_facts(2) by (auto simp: list_all_iff)
  have trim: "trim v = v"
    by (rule trim_id) (use safe url_safe_facts(3) in \<open>unfold list_all_iff, blast\<close>)
  have once: "split_once CHR ''='' v = Some (''berth_session'', token)"
    using split_once_append [of "CHR ''=''" "''berth_session''" token] by (simp add: v_def)
  have pair: "cookie_pair session_cookie v = Some token"
    unfolding cookie_pair_def trim once by (simp add: session_cookie_def)
  show ?thesis unfolding cookie_value_def hs v_def [symmetric] by (simp add: split_on_no [OF semi] pair)
qed

lemma session_cookie_header_inj:
  "session_cookie_header a n = session_cookie_header b n \<longleftrightarrow> a = b"
  by (auto simp: session_cookie_header_def)

lemma login_Done:
  assumes "login x ip username password s = (Done (cookie, v), s')"
  obtains bytes u where "cookie = session_cookie_header (x_b64_url x bytes) session_max_age_secs"
    and "find (\<lambda>u. u_username u = username) (db_users (db s)) = Some u"
    and "x_verify x password (u_password_hash u)" and "v = user_view_of u"
    and "db s' = db s" and "sessions s' (x_b64_url x bytes) = Some \<lparr>ses_username = username, ses_created_at = now_secs s'\<rparr>"
proof -
  obtain s1 s2 s3 u where lock: "check_login_lockout ip s = (Done (), s1)"
    and user: "login_user x ip username password s1 = (Done u, s2)"
    and clear: "clear_login_attempts ip s2 = (Done (), s3)" and ses: "open_session x u s3 = (Done (cookie, v), s')"
    using assms unfolding login_def by (elim bindc_DoneE) auto
  have "s1 = s" using lock by (auto simp: check_login_lockout_run split: option.splits if_splits)
  with user have u: "find (\<lambda>u. u_username u = username) (db_users (db s)) = Some u" "db s2 = db s"
    "x_verify x password (u_password_hash u)"
    unfolding login_user_def
    by (auto elim!: bindc_DoneE db_first_Done split: option.splits if_splits simp: verify_password_def)
  have s3: "db s3 = db s2" using clear by (auto simp: clear_login_attempts_def modify_def)
  obtain bytes where "cookie = session_cookie_header (x_b64_url x bytes) session_max_age_secs"
    "v = user_view_of u" "db s' = db s3"
    "sessions s' (x_b64_url x bytes) = Some \<lparr>ses_username = u_username u, ses_created_at = now_secs s'\<rparr>"
    using ses unfolding open_session_def generate_session_token_def random_bytes_def
    by (auto simp: now_secs_def modify_def ret_def bindc_def gets_def)
  moreover have "u_username u = username" using u(1) by (auto dest: find_SomeD)
  ultimately show thesis using that u s3 by metis
qed

text \<open>C26 The cookie a successful login sets is the cookie the next requests are authenticated
  by: sent back while the session is younger than thirty days and the tables are unchanged, it
  makes the request that of the user whose password was verified, with the role of that row.
  Assumed of the base64 encoder: it writes only the characters of its alphabet.\<close>

theorem login_cookie_is_accepted:
  assumes "b64_url_ok x" and "login x ip username password s = (Done (cookie, v), s')"
    and "cookie = session_cookie_header token session_max_age_secs"
    and "hs ''cookie'' = Some (''berth_session='' @ token)"
    and "sessions s2 = sessions s'" and "db s2 = db s'" and "faults s2 = []"
    and "now_secs s2 - now_secs s' \<le> session_max_age_secs" and "role_from_str (uv_role v) = Inr r"
  shows "\<exists>u\<in>set (db_users (db s)). u_username u = username \<and> x_verify x password (u_password_hash u)
    \<and> cookie_user hs s2 = (Done \<lparr>cu_id = u_id u, cu_username = username, cu_role = r\<rparr>, s2)"
proof -
  obtain bytes u where login: "cookie = session_cookie_header (x_b64_url x bytes) session_max_age_secs"
    "find (\<lambda>u. u_username u = username) (db_users (db s)) = Some u"
    "x_verify x password (u_password_hash u)" "v = user_view_of u" "db s' = db s"
    "sessions s' (x_b64_url x bytes) = Some \<lparr>ses_username = username, ses_created_at = now_secs s'\<rparr>"
    using assms(2) by (rule login_Done)
  have token: "token = x_b64_url x bytes" using login(1) assms(3) by (simp add: session_cookie_header_inj)
  then have "cookie_value hs session_cookie = Some token"
    using assms(1,4) by (intro cookie_of_token) (simp_all add: b64_url_ok_def)
  moreover have "sessions s2 token = Some \<lparr>ses_username = username, ses_created_at = now_secs s'\<rparr>"
    using login(6) assms(5) token by simp
  ultimately have "resolve_cookie_username hs s2 = (Done username, s2)"
    using assms(8) by (simp add: resolve_cookie_username_def ok_or_def ret_def)
  moreover have "u_username u = username" "u \<in> set (db_users (db s))" using login(2) by (auto dest: find_SomeD)
  ultimately show ?thesis
    using login(2-5) assms(6,7,9)
    by (auto intro!: bexI [of _ u] simp: cookie_user_def load_current_user_def bindc_def db_first_no_faults ok_or_def
        user_role_def user_view_of_def from_sum_def ret_def)
qed


definition token_externals :: externals where
  "token_externals = sample_externals\<lparr>x_b64_url := (\<lambda>_. ''tok'')\<rparr>"

lemma sample_login:
  "login token_externals (IpV4 1 2 3 4) ''ann'' ''pw'' sample_token_world
     = (Done (session_cookie_header ''tok'' session_max_age_secs, user_view_of sample_user),
        snd (login token_externals (IpV4 1 2 3 4) ''ann'' ''pw'' sample_token_world))"
  and sample_login_faults: "faults (snd (login token_externals (IpV4 1 2 3 4) ''ann'' ''pw'' sample_token_world)) = []"
  by (simp_all add: login_def login_user_def open_session_def bindc_def check_login_lockout_run db_first_no_faults
      clear_login_attempts_def generate_session_token_def random_bytes_def gets_def modify_def ret_def verify_password_def
      token_externals_def sample_externals_def sample_token_simps)

lemma login_cookie_is_accepted_witness:
  "\<exists>u\<in>set (db_users (db sample_token_world)). u_username u = ''ann'' \<and> x_verify token_externals ''pw'' (u_password_hash u)
    \<and> cookie_user (Map.empty(''cookie'' \<mapsto> ''berth_session=tok'')) (snd (login token_externals (IpV4 1 2 3 4) ''ann'' ''pw'' sample_token_world))
      = (Done \<lparr>cu_id = u_id u, cu_username = ''ann'', cu_role = Member\<rparr>,
         snd (login token_externals (IpV4 1 2 3 4) ''ann'' ''pw'' sample_token_world))"
proof (rule login_cookie_is_accepted [OF _ sample_login, where token = "''tok''"])
  have "list_all url_safe ''tok''" by code_simp
  then show "b64_url_ok token_externals" by (simp add: b64_url_ok_def token_externals_def)
  show "role_from_str (uv_role (user_view_of sample_user)) = Inr Member"
    by (simp add: user_view_of_def sample_user_def role_from_str_def)
qed (simp_all add: session_max_age_secs_def sample_login_faults)

end
