(* ===== verification/AgentFiles.thy ===== *)
theory AgentFiles
  imports Subtree
begin

text \<open>
  The agent's own tree: \<open>layout.rs\<close>, \<open>fs_ops.rs\<close> and \<open>zip_extract.rs\<close> of \<open>berth-agent\<close>. An id is one
  path component, as the hub sends it. What callers rely on is the locale \<open>directory_store\<close>: every
  operation, whatever fails in it, takes one step of a map from ids to contents or none.
\<close>

section \<open>Layout\<close>

definition deployments_dir_in :: "path \<Rightarrow> path" where
  "deployments_dir_in data_dir = data_dir @ [''deployments'']"

definition deployment_dir_in :: "path \<Rightarrow> string \<Rightarrow> path" where
  "deployment_dir_in data_dir did = deployments_dir_in data_dir @ [did]"

definition deployment_files_dir_in :: "path \<Rightarrow> string \<Rightarrow> path" where
  "deployment_files_dir_in data_dir did = deployment_dir_in data_dir did @ [''files'']"

definition tmp_dir_in :: "path \<Rightarrow> path" where
  "tmp_dir_in data_dir = data_dir @ [''tmp'']"

definition upload_staging_dir :: "path \<Rightarrow> string \<Rightarrow> path" where
  "upload_staging_dir data_dir did = tmp_dir_in data_dir @ [''upload-'' @ did]"

definition deleted_staging_dir :: "path \<Rightarrow> string \<Rightarrow> path" where
  "deleted_staging_dir data_dir did = tmp_dir_in data_dir @ [''deleted-deployment-'' @ did]"

section \<open>Operations\<close>

text \<open>\<open>map_err(|err| err.to_string())\<close>.\<close>

definition sio :: "('s, io_error, 'a) comp \<Rightarrow> ('s, string, 'a) comp" where
  "sio m = map_err io_text m"

definition create_deployment_dir_fs :: "path \<Rightarrow> string \<Rightarrow> ('z machine_scheme, string, unit) comp" where
  "create_deployment_dir_fs data_dir did = sio (create_dir_all (deployment_dir_in data_dir did))"

definition delete_deployment_dir_fs :: "path \<Rightarrow> string \<Rightarrow> ('z machine_scheme, string, unit) comp" where
  "delete_deployment_dir_fs data_dir did =
     bindc (sio (create_dir_all (tmp_dir_in data_dir))) (\<lambda>_.
     (let staging = deleted_staging_dir data_dir did in
      bindc (attempt (rename (deployment_dir_in data_dir did) staging)) (\<lambda>r.
      case r of
        Inr _ \<Rightarrow> sio (remove_dir_all staging)
      | Inl e \<Rightarrow> if io_kind e = NotFound then ret () else throw (io_text e))))"

definition list_deployment_dirs_fs :: "path \<Rightarrow> ('z machine_scheme, string, string list) comp" where
  "list_deployment_dirs_fs data_dir =
     bindc (attempt (read_dir (deployments_dir_in data_dir))) (\<lambda>r.
     case r of
       Inr ids \<Rightarrow> ret ids
     | Inl e \<Rightarrow> if io_kind e = NotFound then ret [] else throw (io_text e))"

text \<open>An entry of an archive: its path if enclosed, its content unless a directory, its declared size.\<close>

type_synonym archive_entry = "string list option \<times> string option \<times> u64"

definition enclosed_path_str :: "archive_entry \<Rightarrow> string + path" where
  "enclosed_path_str e =
     (case fst e of
        None \<Rightarrow> Inl ''entry path escapes the destination directory''
      | Some p \<Rightarrow> Inr p)"

fun total_of_entries :: "u64 \<Rightarrow> archive_entry list \<Rightarrow> string + u64" where
  "total_of_entries tot [] = Inr tot"
| "total_of_entries tot (e # es) =
     (case enclosed_path_str e of
        Inl err \<Rightarrow> Inl err
      | Inr _ \<Rightarrow> total_of_entries (sat_add_u64 tot (snd (snd e))) es)"

text \<open>As on the hub, \<open>enclosed_name\<close> gives paths of normal components only, so that joining them to the
  destination is joining the lists.\<close>

definition extract_entry_fs :: "path \<Rightarrow> archive_entry \<Rightarrow> ('z machine_scheme, string, unit) comp" where
  "extract_entry_fs dest e =
     bindc (from_sum (enclosed_path_str e)) (\<lambda>relative_path.
     (let out_path = dest @ relative_path in
      case fst (snd e) of
        None \<Rightarrow> sio (create_dir_all out_path)
      | Some content \<Rightarrow>
         bindc (sio (create_dir_all (parent out_path))) (\<lambda>_.
         bindc (sio (write_file out_path [])) (\<lambda>_.
         sio (write_file out_path content)))))"

definition unpack_zip_fs ::
  "(string \<Rightarrow> string + archive_entry list) \<Rightarrow> string \<Rightarrow> path \<Rightarrow> u64 \<Rightarrow> ('z machine_scheme, string, u64) comp" where
  "unpack_zip_fs zip_read bytes dest max_uncompressed_bytes =
     bindc (from_sum (zip_read bytes)) (\<lambda>archive.
     bindc (from_sum (total_of_entries 0 archive)) (\<lambda>total_size.
     bindc (guardc (total_size \<le> max_uncompressed_bytes)
              ''uncompressed size exceeds the configured limit'') (\<lambda>_.
     bindc (forc archive (extract_entry_fs dest)) (\<lambda>_.
     ret total_size))))"

text \<open>\<open>remove_dir_all(..).ok()\<close>.\<close>

definition remove_quietly :: "path \<Rightarrow> ('z machine_scheme, string, unit) comp" where
  "remove_quietly p = ignore (remove_dir_all p)"

definition extract_and_place ::
  "(string \<Rightarrow> string + archive_entry list) \<Rightarrow> path \<Rightarrow> string \<Rightarrow> path \<Rightarrow> u64 \<Rightarrow> ('z machine_scheme, string, u64) comp" where
  "extract_and_place zip_read data_dir did zip_path max_uncompressed_bytes =
     (let staging = upload_staging_dir data_dir did;
          files_dir = deployment_files_dir_in data_dir did in
      bindc (remove_quietly staging) (\<lambda>_.
      bindc (sio (create_dir_all staging)) (\<lambda>_.
      bindc (sio (read_file zip_path)) (\<lambda>zip_file.
      bindc (on_error (unpack_zip_fs zip_read zip_file staging max_uncompressed_bytes)
               (\<lambda>_. remove_quietly staging)) (\<lambda>size.
      bindc (on_error (sio (rename staging files_dir)) (\<lambda>_. remove_quietly staging)) (\<lambda>_.
      ret size))))))"

section \<open>The contract\<close>

text \<open>
  A store of directories as its callers see it: \<open>view\<close> is the map from the ids in the store to
  their contents. \<open>fits\<close> relates the map before, the outcome and the map after.
\<close>

type_synonym 'c dir_map = "string \<rightharpoonup> 'c"

definition one_step :: "('e, 'a) outcome \<Rightarrow> 'm \<Rightarrow> 'm \<Rightarrow> 'm \<Rightarrow> bool" where
  "one_step r before full after \<longleftrightarrow> after = full \<or> after = before \<and> (\<forall>a. r \<noteq> Done a)"

locale directory_store =
  fixes inv :: "'s \<Rightarrow> bool" and view :: "'s \<Rightarrow> 'c dir_map" and empty_content :: 'c
    and create :: "string \<Rightarrow> ('s, 'e, unit) comp" and delete :: "string \<Rightarrow> ('s, 'e, unit) comp"
    and listing :: "('s, 'e, string list) comp"
  assumes create_step: "inv s \<Longrightarrow> create k s = (r, s') \<Longrightarrow> inv s' \<and>
      one_step r (view s) (if view s k = None then (view s)(k \<mapsto> empty_content) else view s) (view s')"
    and delete_step: "inv s \<Longrightarrow> delete k s = (r, s') \<Longrightarrow> inv s' \<and> one_step r (view s) ((view s)(k := None)) (view s')"
    and listing_step: "inv s \<Longrightarrow> listing s = (q, s') \<Longrightarrow> inv s' \<and> view s' = view s"
    and listing_all: "inv s \<Longrightarrow> listing s = (Done ks, s') \<Longrightarrow> set ks = dom (view s)"
begin

lemma delete_all_step:
  "inv s \<Longrightarrow> forc ks delete s = (r, s')
    \<Longrightarrow> inv s' \<and> (\<exists>gone\<subseteq>set ks. view s' = view s |` (- gone) \<and> (r = Done () \<longrightarrow> gone = set ks))"
proof (induction ks arbitrary: s)
  case Nil
  then show ?case by (auto simp: ret_def restrict_map_def)
next
  case (Cons k ks)
  obtain q s1 where d: "delete k s = (q, s1)" by fastforce
  have s1: "inv s1" "one_step q (view s) ((view s)(k := None)) (view s1)" using delete_step [OF Cons.prems(1) d] by auto
  show ?case
  proof (cases "q = Done ()")
    case True
    then have v: "view s1 = view s |` (- {k})" using s1(2) by (simp add: one_step_def restrict_complement_singleton_eq)
    have "forc ks delete s1 = (r, s')" using Cons.prems(2) d True by (simp add: bindc_def)
    from Cons.IH [OF s1(1) this] obtain gone where "inv s'" "gone \<subseteq> set ks" "view s' = view s1 |` (- gone)"
      "r = Done () \<longrightarrow> gone = set ks" by blast
    then show ?thesis
      by (intro conjI exI [of _ "insert k gone"]) (auto simp: v restrict_map_def fun_eq_iff)
  next
    case False
    then have "s' = s1" "r \<noteq> Done ()" using Cons.prems(2) d by (auto simp: bindc_def split: outcome.splits)
    moreover obtain gone where "gone \<subseteq> set (k # ks)" "view s1 = view s |` (- gone)"
    proof (cases "view s1 = view s")
      case True
      then show ?thesis by (intro that [of "{}"]) (simp_all add: restrict_map_def)
    next
      case False
      then have "view s1 = (view s)(k := None)" using s1(2) by (simp add: one_step_def)
      then show ?thesis by (intro that [of "{k}"]) (simp_all add: restrict_complement_singleton_eq)
    qed
    ultimately show ?thesis using s1(1) by blast
  qed
qed

end

section \<open>The tree keeps it\<close>

definition stored :: "path \<Rightarrow> filesystem \<Rightarrow> (path \<rightharpoonup> node) dir_map" where
  "stored data_dir t did =
     (if path_exists t (deployment_dir_in data_dir did)
      then Some (\<lambda>p. map_of t (deployment_dir_in data_dir did @ p)) else None)"

lemma stored_cong:
  "(\<And>did p. map_of t' (deployment_dir_in data_dir did @ p) = map_of t (deployment_dir_in data_dir did @ p))
    \<Longrightarrow> stored data_dir t' = stored data_dir t"
proof -
  assume eq: "\<And>did p. map_of t' (deployment_dir_in data_dir did @ p) = map_of t (deployment_dir_in data_dir did @ p)"
  have "map_of t' (deployment_dir_in data_dir did) = map_of t (deployment_dir_in data_dir did)" for did
    using eq [of did "[]"] by simp
  then show ?thesis by (simp add: stored_def fun_eq_iff path_exists_def eq)
qed

lemma rename_effect:
  assumes "rename src dst s = (r, s')" and "fs_wf (fs s)" and "src \<noteq> dst" and "dst \<noteq> []"
  shows "fs s' = fs s \<and> (\<forall>a. r \<noteq> Done a)
      \<and> (\<forall>e. r = Fail e \<longrightarrow> io_kind e = NotFound \<longrightarrow> \<not> path_exists (fs s) src \<or> \<not> is_dir (fs s) (parent dst))
    \<or> r = Done () \<and> fs_wf (fs s') \<and> path_exists (fs s) src \<and> is_dir (fs s) (parent dst)
      \<and> (\<forall>q. map_of (fs s') q = (if prefix dst q then map_of (fs s) (src @ drop (length dst) q)
            else if prefix src q then None else map_of (fs s) q))"
  using assms unfolding rename_def
proof (elim ext_call_cases)
  fix f assume "s' = s\<lparr>faults := f\<rparr>" "\<forall>a. r \<noteq> Done a" "r = Crash \<or> (\<exists>m. r = Fail (IoError OtherIo m))"
  then show ?thesis by auto
next
  fix f
  let ?t = "fs s"
  assume run: "(if src = dst \<and> path_exists (fs (s\<lparr>faults := f\<rparr>)) src then (Done (), s\<lparr>faults := f\<rparr>)
     else case rename_check src dst (fs (s\<lparr>faults := f\<rparr>)) of Some e \<Rightarrow> (Fail e, s\<lparr>faults := f\<rparr>)
       | None \<Rightarrow> set_fs (fs_move src dst) (s\<lparr>faults := f\<rparr>)) = (r, s')"
  show ?thesis
  proof (cases "rename_check src dst ?t")
    case None
    then have "r = Done ()" "fs s' = fs_move src dst ?t" using run assms(3) by (auto simp: set_fs_run)
    then show ?thesis
      using wf_move [OF assms(2) None assms(3,4)] rename_checkD(1,2) [OF None]
        map_of_fs_move [OF move_conditions [OF assms(2) None assms(3)]]
      by (simp add: path_exists_def parent_def)
  next
    case (Some e)
    have "io_kind e = NotFound \<Longrightarrow> \<not> path_exists ?t src \<or> \<not> is_dir ?t (parent dst)"
      using Some by (auto simp: rename_check_def parent_check_def io_err_def path_exists_def is_dir_def
          split: option.splits node.splits if_splits)
    then show ?thesis using run Some assms(3) by auto
  qed
qed

lemma sio_run: "sio m s = (r, s') \<Longrightarrow> \<exists>q. m s = (q, s') \<and> (\<forall>a. r = Done a \<longleftrightarrow> q = Done a)"
  by (auto simp: sio_def map_err_def split: prod.splits outcome.splits)

lemma not_prefix_snoc: "a \<noteq> b \<Longrightarrow> \<not> prefix (d @ a # p) (d @ b # q)"
  by simp

lemma deployment_paths [simp]:
  "prefix (deployment_dir_in d did) (deployment_dir_in d did' @ p) \<longleftrightarrow> did = did'"
  "\<not> prefix (tmp_dir_in d @ u) (deployment_dir_in d did @ p)" "\<not> prefix (deployment_dir_in d did @ p) (tmp_dir_in d @ u)"
  "prefix (deployment_dir_in d did @ p) (deployment_dir_in d did') \<longleftrightarrow> did = did' \<and> p = []"
  "\<not> prefix (deployment_dir_in d did @ p) (tmp_dir_in d)"
  by (auto simp: deployment_dir_in_def deployments_dir_in_def tmp_dir_in_def)

lemma stored_create:
  assumes "\<And>q. map_of t' q = (if prefix q (deployment_dir_in d k) then Some Dir else map_of t q)" and "fs_wf t"
    and "\<And>q. prefix q (deployment_dir_in d k) \<Longrightarrow> map_of t q = None \<or> map_of t q = Some Dir"
  shows "stored d t' = (if stored d t k = None then (stored d t)(k \<mapsto> [[] \<mapsto> Dir]) else stored d t)"
proof
  fix j
  have other: "map_of t' (deployment_dir_in d j @ p) = (if j = k \<and> p = [] then Some Dir else map_of t (deployment_dir_in d j @ p))" for p
    using assms(1) by (simp add: prefix_def deployment_dir_in_def)
  show "stored d t' j = (if stored d t k = None then (stored d t)(k \<mapsto> [[] \<mapsto> Dir]) else stored d t) j"
  proof (cases "j = k")
    case False
    then show ?thesis using other [of "[]"] by (simp add: stored_def path_exists_def other fun_eq_iff)
  next
    case True
    show ?thesis
    proof (cases "map_of t (deployment_dir_in d k)")
      case None
      have "map_of t (deployment_dir_in d k @ p) = None" if "p \<noteq> []" for p
        using wf_ancestors [OF assms(2), of "deployment_dir_in d k" "deployment_dir_in d k @ p"] None that
        by (cases "map_of t (deployment_dir_in d k @ p)") (auto simp: is_dir_def strict_prefix_def)
      then show ?thesis
        using True None other [unfolded True] other [unfolded True, of "[]"] by (auto simp: stored_def path_exists_def fun_eq_iff)
    next
      case (Some n)
      then have "n = Dir" using assms(3) [of "deployment_dir_in d k"] by auto
      then show ?thesis
        using True Some other [unfolded True] other [unfolded True, of "[]"] by (auto simp: stored_def path_exists_def fun_eq_iff)
    qed
  qed
qed

text \<open>The agent's directories exist from its start on; the tree stays one.\<close>

definition agent_tree :: "path \<Rightarrow> 'z machine_scheme \<Rightarrow> bool" where
  "agent_tree d s \<longleftrightarrow> dirs_in {d, tmp_dir_in d} (fs s)"

lemma agent_tree_wf: "agent_tree d s \<Longrightarrow> fs_wf (fs s) \<and> is_dir (fs s) (tmp_dir_in d)"
  by (simp add: agent_tree_def dirs_in_def)

lemma keeps_create_all: "keeps (\<lambda>s. dirs_in D (fs s)) (create_dir_all p)"
  unfolding keeps_iff_triple by (rule triple_post [OF triple_create_dir_all]) (simp add: dirs_in_insert)

lemma create_fs_step:
  assumes "agent_tree d s" and "create_deployment_dir_fs d k s = (r, s')"
  shows "agent_tree d s' \<and> one_step r (stored d (fs s))
    (if stored d (fs s) k = None then (stored d (fs s))(k \<mapsto> [[] \<mapsto> Dir]) else stored d (fs s)) (stored d (fs s'))"
proof -
  obtain q where run: "create_dir_all (deployment_dir_in d k) s = (q, s')" and q: "\<forall>a. r = Done a \<longleftrightarrow> q = Done a"
    using assms(2) unfolding create_deployment_dir_fs_def by (auto dest: sio_run)
  have "agent_tree d s'"
    using keeps_run [OF keeps_create_all run] assms(1) unfolding agent_tree_def by blast
  moreover have "one_step r (stored d (fs s))
    (if stored d (fs s) k = None then (stored d (fs s))(k \<mapsto> [[] \<mapsto> Dir]) else stored d (fs s)) (stored d (fs s'))"
    using create_dir_all_effect [OF run] agent_tree_wf [OF assms(1)] q stored_create [of "fs s'" d k "fs s"]
    by (auto simp: one_step_def)
  ultimately show ?thesis ..
qed

lemma remove_dir_all_effect:
  assumes "remove_dir_all p s = (r, s')"
  shows "fs s' = fs s \<and> (\<forall>a. r \<noteq> Done a) \<or> r = Done () \<and> fs s' = fs_prune p (fs s)"
  using assms unfolding remove_dir_all_def
  by (elim ext_call_cases) (auto simp: set_fs_run split: option.splits node.splits)

lemma stored_tmp:
  "stored d (fs_prune (tmp_dir_in d @ u) t) = stored d t"
  by (rule stored_cong) (simp add: map_of_fs_prune)

lemma stored_create_tmp:
  assumes "\<And>q. map_of t' q = (if prefix q (tmp_dir_in d @ u) then Some Dir else map_of t q)"
  shows "stored d t' = stored d t"
  by (rule stored_cong) (simp add: assms)

lemma stored_moved:
  assumes "\<And>q. map_of t' q = (if prefix (tmp_dir_in d @ u) q then map_of t (deployment_dir_in d k @ drop n q)
     else if prefix (deployment_dir_in d k) q then None else map_of t q)"
  shows "stored d t' = (stored d t)(k := None)"
proof
  fix j
  have "map_of t' (deployment_dir_in d j @ p) = (if j = k then None else map_of t (deployment_dir_in d j @ p))" for p
    by (simp add: assms)
  from this this [of "[]"] show "stored d t' j = ((stored d t)(k := None)) j"
    by (auto simp: stored_def path_exists_def)
qed

lemma delete_fs_step:
  assumes tree: "agent_tree d s" and "delete_deployment_dir_fs d k s = (r, s')"
  shows "agent_tree d s' \<and> one_step r (stored d (fs s)) ((stored d (fs s))(k := None)) (stored d (fs s'))"
proof -
  let ?D = "{d, tmp_dir_in d}" let ?src = "deployment_dir_in d k"
  let ?st = "deleted_staging_dir d k"
  have paths: "\<forall>q\<in>?D. \<not> prefix ?src q" "?src \<noteq> ?st" "?src \<noteq> []" "?st \<noteq> []" "\<forall>q\<in>?D. \<not> prefix ?st q"
    by (auto simp: deployment_dir_in_def deployments_dir_in_def tmp_dir_in_def deleted_staging_dir_def)
  have "keeps (\<lambda>s. dirs_in ?D (fs s)) (delete_deployment_dir_fs d k)"
    unfolding delete_deployment_dir_fs_def sio_def Let_def
    by (intro keeps_intros keeps_create_all keeps_rename keeps_remove_dir_all paths)
  from keeps_run [OF this assms(2)] have "agent_tree d s'" using tree unfolding agent_tree_def by blast
  moreover have "one_step r (stored d (fs s)) ((stored d (fs s))(k := None)) (stored d (fs s'))"
  proof -
    obtain q1 s1 where mk: "create_dir_all (tmp_dir_in d) s = (q1, s1)" by fastforce
    have s1: "stored d (fs s1) = stored d (fs s)"
      using create_dir_all_effect [OF mk] stored_create_tmp [of "fs s1" d "[]" "fs s"] by auto
    have tree1: "agent_tree d s1"
      using keeps_run [OF keeps_create_all mk] tree unfolding agent_tree_def by blast
    obtain q2 s2 where mv: "rename ?src ?st s1 = (q2, s2)" by fastforce
    obtain q3 s3 where rm: "remove_dir_all ?st s2 = (q3, s3)" by fastforce
    have s3: "stored d (fs s3) = stored d (fs s2)"
      using remove_dir_all_effect [OF rm] stored_tmp [of d _ "fs s2"] by (auto simp: deleted_staging_dir_def)
    have s2: "stored d (fs s2) = stored d (fs s1) \<and> (\<forall>a. q2 \<noteq> Done a)
          \<and> (\<forall>e. q2 = Fail e \<longrightarrow> io_kind e = NotFound \<longrightarrow> stored d (fs s1) k = None)
        \<or> q2 = Done () \<and> stored d (fs s2) = (stored d (fs s1))(k := None)"
      using rename_effect [OF mv _ paths(2,4)] agent_tree_wf [OF tree1] stored_moved [of "fs s2" d _ "fs s1"]
      by (auto simp: parent_def stored_def [of d "fs s1" k] deleted_staging_dir_def)
    have rest: "delete_deployment_dir_fs d k s = (case q1 of Done _ \<Rightarrow>
          (case q2 of Done _ \<Rightarrow> sio (remove_dir_all ?st) s2 | Crash \<Rightarrow> (Crash, s2)
          | Fail e \<Rightarrow> (if io_kind e = NotFound then ret () else throw (io_text e)) s2)
        | Fail e \<Rightarrow> (Fail (io_text e), s1) | Crash \<Rightarrow> (Crash, s1))"
      unfolding delete_deployment_dir_fs_def Let_def bindc_def attempt_def sio_def map_err_def mk prod.case
      by (simp add: mv split: outcome.split)
    show ?thesis
      using assms(2) s1 s2 s3 rm unfolding rest one_step_def
      by (cases q1; cases q2) (auto simp: sio_def map_err_def ret_def throw_def split: outcome.splits if_splits)
  qed
  ultimately show ?thesis ..
qed

lemma read_dir_cases:
  assumes "read_dir p s = (r, s')"
  shows "fs s' = fs s \<and> (\<forall>names. r = Done names \<longrightarrow> is_dir (fs s) p \<and> names = children (fs s) p)
    \<and> (\<forall>e. r = Fail e \<longrightarrow> io_kind e = NotFound \<longrightarrow> \<not> path_exists (fs s) p)"
  using assms unfolding read_dir_def
  by (elim ext_call_cases) (auto simp: is_dir_def path_exists_def io_err_def split: option.splits node.splits)

lemma dom_stored: "dom (stored d t) = set (children t (deployments_dir_in d))"
  by (auto simp: stored_def set_children deployment_dir_in_def split: if_splits)

lemma list_fs_step:
  assumes "agent_tree d s" and "list_deployment_dirs_fs d s = (r, s')"
  shows "agent_tree d s' \<and> stored d (fs s') = stored d (fs s)"
    and "r = Done ids \<Longrightarrow> set ids = dom (stored d (fs s))"
proof -
  obtain q s1 where rd: "read_dir (deployments_dir_in d) s = (q, s1)" by fastforce
  note eff = read_dir_cases [OF rd]
  have "s' = s1" using assms(2) rd
    by (auto simp: list_deployment_dirs_fs_def bindc_def attempt_def ret_def throw_def split: outcome.splits if_splits)
  then show "agent_tree d s' \<and> stored d (fs s') = stored d (fs s)"
    using eff assms(1) by (simp add: agent_tree_def)
  have gone: "children (fs s) (deployments_dir_in d) = []" if "\<not> path_exists (fs s) (deployments_dir_in d)"
  proof -
    have "\<not> path_exists (fs s) (deployments_dir_in d @ [c])" for c
      using wf_ancestors [of "fs s" "deployments_dir_in d" "deployments_dir_in d @ [c]"] agent_tree_wf [OF assms(1)] that
      by (cases "map_of (fs s) (deployments_dir_in d @ [c])") (auto simp: path_exists_def is_dir_def strict_prefix_def)
    then have "set (children (fs s) (deployments_dir_in d)) = {}" by (simp add: set_children)
    then show ?thesis by simp
  qed
  show "r = Done ids \<Longrightarrow> set ids = dom (stored d (fs s))"
    using assms(2) rd eff gone
    by (auto simp: dom_stored list_deployment_dirs_fs_def bindc_def attempt_def ret_def throw_def
        split: outcome.splits if_splits)
qed

interpretation agent_dirs: directory_store "agent_tree d" "\<lambda>s. stored d (fs s)" "[[] \<mapsto> Dir]"
  "create_deployment_dir_fs d" "delete_deployment_dir_fs d" "list_deployment_dirs_fs d" for d
proof unfold_locales
  show "agent_tree d s' \<and> one_step r (stored d (fs s))
      (if stored d (fs s) k = None then (stored d (fs s))(k \<mapsto> [[] \<mapsto> Dir]) else stored d (fs s)) (stored d (fs s'))"
    if "agent_tree d s" "create_deployment_dir_fs d k s = (r, s')" for s s' :: "'z machine_scheme" and k r
    using that by (rule create_fs_step)
  show "agent_tree d s' \<and> one_step r (stored d (fs s)) ((stored d (fs s))(k := None)) (stored d (fs s'))"
    if "agent_tree d s" "delete_deployment_dir_fs d k s = (r, s')" for s s' :: "'z machine_scheme" and k r
    using that by (rule delete_fs_step)
  show "agent_tree d s' \<and> stored d (fs s') = stored d (fs s)"
    if "agent_tree d s" "list_deployment_dirs_fs d s = (q, s')" for s s' :: "'z machine_scheme" and q
    using that by (rule list_fs_step(1))
  show "set ks = dom (stored d (fs s))"
    if "agent_tree d s" "list_deployment_dirs_fs d s = (Done ks, s')" for s s' :: "'z machine_scheme" and ks
    using list_fs_step(2) [OF that] by simp
qed

section \<open>Placing the content of an archive\<close>

lemma sio_Done: "sio m s = (Done a, s') \<longleftrightarrow> m s = (Done a, s')"
  by (auto simp: sio_def map_err_def split: prod.splits outcome.splits)

lemma extract_entry_subtree:
  assumes "extract_entry_fs dest e s = (Done (), s')" and dest: "is_dir (fs s) dest"
  shows "fst e \<noteq> None \<and> is_dir (fs s') dest \<and> subtree dest (fs s') = put_entry (subtree dest (fs s)) (entry_of e)"
proof -
  obtain p where p: "fst e = Some p" "enclosed_path_str e = Inr p"
    using assms by (cases "fst e") (auto simp: extract_entry_fs_def enclosed_path_str_def from_sum_def bindc_def throw_def)
  show ?thesis
  proof (cases "fst (snd e)")
    case None
    then have mk: "create_dir_all (dest @ p) s = (Done (), s')"
      using assms p by (simp add: extract_entry_fs_def from_sum_def sio_Done Let_def)
    show ?thesis using made_entry [OF mk dest p(1) None] p by simp
  next
    case (Some c)
    obtain s1 s2 where run: "create_dir_all (parent (dest @ p)) s = (Done (), s1)"
      "write_file (dest @ p) [] s1 = (Done (), s2)" "write_file (dest @ p) c s2 = (Done (), s')"
      using assms p Some by (auto simp: extract_entry_fs_def from_sum_def sio_Done Let_def elim!: bindc_DoneE)
    show ?thesis using written_entry [OF run dest p(1) Some] p by simp
  qed
qed

lemma extract_all_subtree:
  "forc es (extract_entry_fs dest) s = (Done (), s') \<Longrightarrow> is_dir (fs s) dest
    \<Longrightarrow> is_dir (fs s') dest \<and> subtree dest (fs s') = foldl put_entry (subtree dest (fs s)) (map entry_of es)"
  by (induction es arbitrary: s) (auto simp: ret_def elim!: bindc_DoneE dest!: extract_entry_subtree)

lemma unpack_zip_fs_Done:
  assumes "unpack_zip_fs zip_read bytes dest mx s = (Done n, s')" and "is_dir (fs s) dest"
  obtains es where "zip_read bytes = Inr es" and "total_of_entries 0 es = Inr n" and "n \<le> mx"
    and "subtree dest (fs s') = foldl put_entry (subtree dest (fs s)) (map entry_of es)"
  using assms unfolding unpack_zip_fs_def
  by (auto elim!: bindc_DoneE simp: from_sum_def guardc_def ret_def throw_def
        dest!: extract_all_subtree intro: that split: sum.splits if_splits)

text \<open>Work below \<open>tmp\<close> keeps the store as it is.\<close>

definition storing :: "path \<Rightarrow> (path \<rightharpoonup> node) dir_map \<Rightarrow> 'z machine_scheme \<Rightarrow> bool" where
  "storing d v s \<longleftrightarrow> agent_tree d s \<and> stored d (fs s) = v"

lemma storing_keeps:
  fixes m :: "('z machine_scheme, 'e, 'a) comp"
  assumes "keeps (\<lambda>s. dirs_in {d, tmp_dir_in d} (fs s)) m" and "\<And>s r s'. m s = (r, s') \<Longrightarrow> stored d (fs s') = stored d (fs s)"
  shows "keeps (storing d v) m"
proof (rule keepsI)
  fix s :: "'z machine_scheme" assume "storing d v s" then show "storing d v (snd (m s))"
    using keepsD [OF assms(1)] assms(2) [of s "fst (m s)" "snd (m s)"] by (auto simp: storing_def agent_tree_def)
qed

lemma storing_create: "keeps (storing d v) (create_dir_all (tmp_dir_in d @ u))"
  by (rule storing_keeps [OF keeps_create_all]) (use create_dir_all_effect stored_create_tmp in \<open>fastforce\<close>)

lemma storing_remove: "u \<noteq> [] \<Longrightarrow> keeps (storing d v) (remove_dir_all (tmp_dir_in d @ u))"
proof (rule storing_keeps)
  assume "u \<noteq> []"
  then show "keeps (\<lambda>s. dirs_in {d, tmp_dir_in d} (fs s)) (remove_dir_all (tmp_dir_in d @ u))"
    by (intro keeps_remove_dir_all) (auto simp: tmp_dir_in_def)
qed (use remove_dir_all_effect stored_tmp in fastforce)

lemma storing_write: "keeps (storing d v) (write_file (tmp_dir_in d @ u) c)"
proof (rule storing_keeps)
  show "keeps (\<lambda>s. dirs_in {d, tmp_dir_in d} (fs s)) (write_file (tmp_dir_in d @ u) c)"
    by (intro keeps_write_file) (simp add: tmp_dir_in_def)
  have neq: "deployment_dir_in d k @ p \<noteq> tmp_dir_in d @ u" for k p
    by (simp add: deployment_dir_in_def deployments_dir_in_def tmp_dir_in_def)
  show "stored d (fs s') = stored d (fs s)" if "write_file (tmp_dir_in d @ u) c s = (r, s')" for s s' :: "'z machine_scheme" and r
    using write_file_effect [OF that] by (auto intro!: stored_cong simp: map_of_fs_put neq)
qed

lemma staging_path: "upload_staging_dir d k @ r = tmp_dir_in d @ (''upload-'' @ k) # r"
  by (simp add: upload_staging_dir_def)

lemma parent_tmp: "parent (tmp_dir_in d @ r) = (if r = [] then d else tmp_dir_in d @ butlast r)"
  by (simp add: parent_def tmp_dir_in_def butlast_append)

lemma storing_unpack: "keeps (storing d v) (unpack_zip_fs zip_read bytes (upload_staging_dir d k) mx)"
proof -
  have "keeps (storing d v) (extract_entry_fs (upload_staging_dir d k) e)" for e
    unfolding extract_entry_fs_def Let_def sio_def staging_path parent_tmp
    by (intro keeps_intros storing_write) (simp_all add: storing_create del: append_Cons butlast.simps)
  then show ?thesis unfolding unpack_zip_fs_def by (intro keeps_intros)
qed

lemma storing_prepare:
  "keeps (storing d v) (remove_dir_all (upload_staging_dir d k))" "keeps (storing d v) (create_dir_all (upload_staging_dir d k))"
  unfolding upload_staging_dir_def by (intro storing_remove storing_create; simp)+

text \<open>The content with its \<open>files\<close> replaced.\<close>

definition with_files :: "(path \<rightharpoonup> node) \<Rightarrow> (path \<rightharpoonup> node) \<Rightarrow> (path \<rightharpoonup> node)" where
  "with_files content files = (\<lambda>p. case p of [] \<Rightarrow> content [] | c # q \<Rightarrow> if c = ''files'' then files q else content p)"

lemma stored_placed:
  assumes "\<And>q. map_of t' q = (if prefix (deployment_files_dir_in d k) q
        then map_of t (upload_staging_dir d k @ drop (length (deployment_files_dir_in d k)) q)
      else if prefix (upload_staging_dir d k) q then None else map_of t q)"
    and "stored d t k = Some content"
  shows "stored d t' = (stored d t)(k \<mapsto> with_files content (subtree (upload_staging_dir d k) t))"
proof
  fix j
  have other: "map_of t' (deployment_dir_in d j @ p) = map_of t (deployment_dir_in d j @ p)"
    if "j \<noteq> k \<or> p = [] \<or> hd p \<noteq> ''files''" for p
    using that by (cases p) (auto simp: assms(1) deployment_files_dir_in_def deployment_dir_in_def deployments_dir_in_def
        upload_staging_dir_def tmp_dir_in_def)
  have files: "map_of t' (deployment_dir_in d k @ ''files'' # p) = map_of t (upload_staging_dir d k @ p)" for p
    by (simp add: assms(1) deployment_files_dir_in_def)
  show "stored d t' j = ((stored d t)(k \<mapsto> with_files content (subtree (upload_staging_dir d k) t))) j"
  proof (cases "j = k")
    case False
    then show ?thesis using other other [of "[]"] by (simp add: stored_def path_exists_def)
  next
    case True
    have "content p = map_of t (deployment_dir_in d k @ p)" for p
      using assms(2) by (auto simp: stored_def split: if_splits)
    from this this [of "[]"] have "stored d t' k = Some (with_files content (subtree (upload_staging_dir d k) t))"
      using assms(2) other [unfolded True] other [unfolded True, of "[]"] files
      by (auto simp: stored_def path_exists_def with_files_def subtree_def fun_eq_iff split: list.splits if_splits)
    then show ?thesis using True by simp
  qed
qed

lemma rename_staging_step:
  assumes "storing d v s" and "sio (rename (upload_staging_dir d k) (deployment_files_dir_in d k)) s = (r, s')"
  shows "agent_tree d s' \<and> (storing d v s' \<and> (\<forall>a. r \<noteq> Done a)
    \<or> (\<exists>content. r = Done () \<and> v k = Some content
        \<and> stored d (fs s') = v(k \<mapsto> with_files content (subtree (upload_staging_dir d k) (fs s)))))"
proof -
  let ?src = "upload_staging_dir d k" let ?dst = "deployment_files_dir_in d k"
  have paths: "?src \<noteq> ?dst" "?src \<noteq> []" "?dst \<noteq> []" "\<forall>q\<in>{d, tmp_dir_in d}. \<not> prefix ?src q"
    by (auto simp: upload_staging_dir_def tmp_dir_in_def deployment_files_dir_in_def deployment_dir_in_def deployments_dir_in_def)
  obtain q where run: "rename ?src ?dst s = (q, s')" and q: "\<forall>a. r = Done a \<longleftrightarrow> q = Done a"
    using assms(2) by (auto dest: sio_run)
  have tree: "agent_tree d s" and v: "stored d (fs s) = v" using assms(1) by (simp_all add: storing_def)
  have tree': "agent_tree d s'"
    using keeps_run [OF keeps_rename [OF paths(4,1,2,3)] run] tree unfolding agent_tree_def by blast
  have "parent ?dst = deployment_dir_in d k" by (simp add: parent_def deployment_files_dir_in_def)
  then consider "fs s' = fs s" "\<forall>a. q \<noteq> Done a" | "q = Done ()" "is_dir (fs s) (deployment_dir_in d k)"
      "\<forall>p. map_of (fs s') p = (if prefix ?dst p then map_of (fs s) (?src @ drop (length ?dst) p)
          else if prefix ?src p then None else map_of (fs s) p)"
    using rename_effect [OF run _ paths(1,3)] agent_tree_wf [OF tree] by auto
  then show ?thesis
  proof cases
    case 1
    then show ?thesis using tree' v q by (simp add: storing_def)
  next
    case 2
    obtain content where c: "v k = Some content" using 2(2) v by (auto simp: stored_def path_exists_def is_dir_def)
    then have "stored d (fs s') = v(k \<mapsto> with_files content (subtree ?src (fs s)))"
      using stored_placed [of "fs s'" d k "fs s" content] 2(3) v by auto
    then show ?thesis using tree' c 2(1) q by simp
  qed
qed

lemma create_all_fresh:
  assumes "create_dir_all p s = (Done u, s')" and "fs_wf (fs s)" and "\<not> path_exists (fs s) p"
  shows "subtree p (fs s') = [[] \<mapsto> Dir]" and "is_dir (fs s') p"
proof -
  have eff: "map_of (fs s') q = (if prefix q p then Some Dir else map_of (fs s) q)" for q
    using create_dir_all_effect [OF assms(1)] by simp
  have "map_of (fs s) (p @ r) = None" if "r \<noteq> []" for r
    using wf_ancestors [OF assms(2), of p "p @ r"] assms(3) that
    by (cases "map_of (fs s) (p @ r)") (auto simp: is_dir_def path_exists_def strict_prefix_def)
  then show "subtree p (fs s') = [[] \<mapsto> Dir]" by (auto simp: subtree_def eff fun_eq_iff)
  show "is_dir (fs s') p" by (simp add: is_dir_def eff)
qed

text \<open>
  The staging directory is clean once it has been made: left over from an earlier upload it is
  removed first. The code ignores that the removal may fail; then what is left of the earlier
  upload stays under the entries of this one.
\<close>

definition staging_base :: "path \<Rightarrow> string \<Rightarrow> 'z machine_scheme \<Rightarrow> (path \<rightharpoonup> node) \<Rightarrow> bool" where
  "staging_base d k s base \<longleftrightarrow> base = [[] \<mapsto> Dir]
     \<or> faults s \<noteq> [] \<and> path_exists (fs s) (upload_staging_dir d k) \<and> base \<subseteq>\<^sub>m subtree (upload_staging_dir d k) (fs s)"

lemma create_all_there:
  assumes "create_dir_all p s = (Done u, s')" and "fs_wf (fs s)" and "path_exists (fs s) p"
  shows "subtree p (fs s') = subtree p (fs s)"
proof -
  have eff: "map_of (fs s') q = (if prefix q p then Some Dir else map_of (fs s) q)"
    "prefix q p \<Longrightarrow> map_of (fs s) q = None \<or> map_of (fs s) q = Some Dir" for q
    using create_dir_all_effect [OF assms(1)] by auto
  have "map_of (fs s) p = Some Dir" using eff(2) [of p] assms(3) by (auto simp: path_exists_def)
  then show ?thesis by (auto simp: subtree_def eff(1) fun_eq_iff)
qed

lemma staging_cleared:
  assumes "remove_quietly (upload_staging_dir d k) s = (Done u, s1)"
    and "create_dir_all (upload_staging_dir d k) s1 = (Done u', s2)" and "fs_wf (fs s)"
  shows "staging_base d k s (subtree (upload_staging_dir d k) (fs s2))" and "is_dir (fs s2) (upload_staging_dir d k)"
proof -
  let ?p = "upload_staging_dir d k"
  obtain q where rm: "remove_dir_all ?p s = (q, s1)"
    using assms(1) by (auto simp: remove_quietly_def ignore_def split: prod.splits if_splits)
  have no_file: "\<forall>c. map_of (fs s1) ?p \<noteq> Some (File c)"
    using create_dir_all_effect [OF assms(2)] by auto
  show "is_dir (fs s2) ?p" using create_dir_all_effect [OF assms(2)] by (simp add: is_dir_def)
  have fresh: "subtree ?p (fs s2) = [[] \<mapsto> Dir]" if "\<not> path_exists (fs s1) ?p" "fs_wf (fs s1)"
    using create_all_fresh(1) [OF assms(2) that(2,1)] .
  consider "fs s1 = fs_prune ?p (fs s)" | "fs s1 = fs s" "\<not> path_exists (fs s) ?p"
    | "fs s1 = fs s" "path_exists (fs s) ?p" "\<forall>a. q \<noteq> Done a"
    using remove_dir_all_effect [OF rm] by blast
  then show "staging_base d k s (subtree ?p (fs s2))"
  proof cases
    case 1
    then show ?thesis
      using fresh wf_prune [OF assms(3)] by (simp add: staging_base_def path_exists_def map_of_fs_prune)
  next
    case 2
    then show ?thesis using fresh assms(3) by (simp add: staging_base_def)
  next
    case 3
    have "faults s \<noteq> []"
    proof
      assume "faults s = []"
      then show False
        using rm 3 no_file by (auto simp: remove_dir_all_def ext_call_def set_fs_run path_exists_def split: node.splits)
    qed
    then show ?thesis
      using 3 create_all_there [OF assms(2)] assms(3) by (simp add: staging_base_def)
  qed
qed

lemma storing_remove_quietly: "keeps (storing d v) (remove_quietly (upload_staging_dir d k))"
  unfolding remove_quietly_def by (intro keeps_intros storing_prepare)

definition staged :: "(string \<Rightarrow> string + archive_entry list) \<Rightarrow> path \<Rightarrow> string \<Rightarrow> path \<Rightarrow> u64 \<Rightarrow> ('z machine_scheme, string, u64) comp" where
  "staged zip_read d k zip_path mx =
     (let staging = upload_staging_dir d k in
      bindc (remove_quietly staging) (\<lambda>_.
      bindc (sio (create_dir_all staging)) (\<lambda>_.
      bindc (sio (read_file zip_path)) (\<lambda>zip_file.
      on_error (unpack_zip_fs zip_read zip_file staging mx) (\<lambda>_. remove_quietly staging)))))"

lemma extract_and_place_staged:
  "extract_and_place zip_read d k zip_path mx =
     bindc (staged zip_read d k zip_path mx) (\<lambda>size.
     bindc (on_error (sio (rename (upload_staging_dir d k) (deployment_files_dir_in d k))) (\<lambda>_. remove_quietly (upload_staging_dir d k))) (\<lambda>_.
     ret size))"
  by (simp add: extract_and_place_def staged_def Let_def bindc_assoc)

lemma storing_read: "keeps (storing d v) (read_file p)"
  unfolding read_file_def
  by (intro keeps_ext_call keepsI) (auto simp: storing_def agent_tree_def split: option.splits node.splits)

lemma storing_staged: "keeps (storing d v) (staged zip_read d k zip_path mx)"
  unfolding staged_def Let_def sio_def
  by (intro keeps_intros storing_remove_quietly storing_prepare storing_unpack storing_read)

lemma read_file_Done:
  "read_file p s = (Done c, s') \<Longrightarrow> map_of (fs s) p = Some (File c) \<and> fs s' = fs s"
  unfolding read_file_def by (elim ext_call_cases) (auto split: option.splits node.splits)

lemma on_error_eq_Done: "on_error m h s = (Done a, s') \<longleftrightarrow> m s = (Done a, s')"
  by (auto simp: on_error_def split: prod.splits outcome.splits if_splits)

lemma staged_Done:
  assumes "staged zip_read d k zip_path mx s = (Done n, s')" and "agent_tree d s"
    and "\<not> prefix (upload_staging_dir d k) zip_path"
  shows "\<exists>bytes es base. map_of (fs s) zip_path = Some (File bytes) \<and> zip_read bytes = Inr es
    \<and> total_of_entries 0 es = Inr n \<and> n \<le> mx \<and> staging_base d k s base
    \<and> subtree (upload_staging_dir d k) (fs s') = foldl put_entry base (map entry_of es)"
proof -
  let ?st = "upload_staging_dir d k"
  obtain s1 s2 s3 bytes where run: "remove_quietly ?st s = (Done (), s1)" "create_dir_all ?st s1 = (Done (), s2)"
    "read_file zip_path s2 = (Done bytes, s3)" "unpack_zip_fs zip_read bytes ?st mx s3 = (Done n, s')"
    using assms(1) by (auto simp: staged_def Let_def sio_Done on_error_eq_Done elim!: bindc_DoneE)
  note clear = staging_cleared [OF run(1,2) conjunct1 [OF agent_tree_wf [OF assms(2)]]]
  note rd = read_file_Done [OF run(3)]
  obtain es where "zip_read bytes = Inr es" "total_of_entries 0 es = Inr n" "n \<le> mx" "subtree ?st (fs s') = foldl put_entry (subtree ?st (fs s3)) (map entry_of es)"
    using unpack_zip_fs_Done [OF run(4)] clear(2) rd by metis
  moreover have "map_of (fs s) zip_path = Some (File bytes)"
  proof -
    have "fs s1 = fs s \<or> fs s1 = fs_prune ?st (fs s)"
      using run(1) remove_dir_all_effect by (fastforce simp: remove_quietly_def ignore_def split: prod.splits if_splits)
    then have "map_of (fs s1) zip_path = map_of (fs s) zip_path"
      using assms(3) by (auto simp: map_of_fs_prune)
    then show ?thesis using create_dir_all_effect [OF run(2)] rd by (auto split: if_splits)
  qed
  ultimately show ?thesis using clear(1) rd by auto
qed

lemma extract_and_place_step:
  assumes "storing d v s" and "extract_and_place zip_read d k zip_path mx s = (r, s')"
    and "\<not> prefix (upload_staging_dir d k) zip_path"
  shows "agent_tree d s' \<and> (storing d v s' \<and> (\<forall>n. r \<noteq> Done n)
    \<or> (\<exists>content n bytes es base. r = Done n \<and> n \<le> mx \<and> v k = Some content
        \<and> map_of (fs s) zip_path = Some (File bytes) \<and> zip_read bytes = Inr es \<and> total_of_entries 0 es = Inr n
        \<and> staging_base d k s base
        \<and> stored d (fs s') = v(k \<mapsto> with_files content (foldl put_entry base (map entry_of es)))))"
proof -
  let ?st = "upload_staging_dir d k"
  obtain q s1 where st: "staged zip_read d k zip_path mx s = (q, s1)" by fastforce
  have s1: "storing d v s1" using keeps_run [OF storing_staged st] assms(1) .
  show ?thesis
  proof (cases q)
    case (Done n)
    obtain q2 s2 where mv: "sio (rename ?st (deployment_files_dir_in d k)) s1 = (q2, s2)" by fastforce
    note step = rename_staging_step [OF s1 mv]
    note placed = staged_Done [OF st [unfolded Done] _ assms(3)]
    show ?thesis
    proof (cases q2)
      case (Done u)
      have "r = Done n" "s' = s2"
        using assms(2) st mv \<open>q = Done n\<close> Done by (auto simp: extract_and_place_staged bindc_def on_error_def ret_def)
      then show ?thesis
        using step Done placed assms(1) by (fastforce simp: storing_def)
    next
      case (Fail e)
      obtain q3 s3 where rm: "remove_quietly ?st s2 = (q3, s3)" by fastforce
      have "storing d v s3" using keeps_run [OF storing_remove_quietly rm] step Fail by auto
      moreover have "s' = s3" "\<forall>n. r \<noteq> Done n"
        using assms(2) st mv \<open>q = Done n\<close> Fail rm by (auto simp: extract_and_place_staged bindc_def on_error_def split: if_splits)
      ultimately show ?thesis by (simp add: storing_def)
    next
      case Crash
      then show ?thesis
        using assms(2) st mv \<open>q = Done n\<close> step by (auto simp: extract_and_place_staged bindc_def on_error_def storing_def)
    qed
  qed (use assms(2) st s1 in \<open>auto simp: extract_and_place_staged bindc_def storing_def\<close>)
qed

section \<open>Properties\<close>


definition sample_agent_fs :: machine where
  "sample_agent_fs = \<lparr>fs = [([], Dir), ([''zip''], File ''z''), ([''a''], Dir), ([''a'', ''tmp''], Dir), ([''a'', ''deployments''], Dir),
     ([''a'', ''deployments'', ''1''], Dir)], faults = []\<rparr>"

lemma sample_agent_tree: "agent_tree [''a''] sample_agent_fs"
  by (simp add: agent_tree_def dirs_in_def fs_wf_def is_dir_def tmp_dir_in_def sample_agent_fs_def)

definition sample_zip_read :: "string \<Rightarrow> string + archive_entry list" where
  "sample_zip_read bytes = Inr [(Some [''site''], None, 0), (Some [''site'', ''index.html''], Some ''hi'', 2)]"

lemma sample_upload_placed:
  "fst (extract_and_place sample_zip_read [''a''] ''1'' [''zip''] 5 sample_agent_fs) = Done 2"
  by code_simp


end
