(* ===== verification/AgentContainers.thy ===== *)
theory AgentContainers
  imports AgentFiles Proto
begin

text \<open>
  The agent's containers: \<open>berth-agent/src/containers.rs\<close>. The container engine behind \<open>bollard\<close> is
  the record \<open>engine\<close> of functions on its own state; what the code relies on of it is
  \<open>engine_ok\<close>. A log sink is the computation that forwards one chunk.
\<close>

section \<open>The engine\<close>

datatype docker_error = ServerError nat string | WaitError string int | OtherDocker string

record inspect =
  in_running :: "bool option"
  in_networks :: "(string \<rightharpoonup> string option) option"

record container_body =
  cb_image :: string
  cb_working_dir :: string
  cb_cmd :: "string list"
  cb_env :: "string list"
  cb_binds :: "string list"
  cb_unless_stopped :: bool
  cb_network :: "string option"
  cb_memory :: "int option"
  cb_nano_cpus :: "int option"

datatype waited = Exited | WaitFailed docker_error | TimedOut

record cpu_stats =
  cpu_usage_present :: bool
  cpu_total :: "u64 option"
  cpu_system :: "u64 option"
  cpu_online :: "32 word option"

record stats_response =
  st_cpu :: "cpu_stats option"
  st_precpu :: "cpu_stats option"
  st_memory :: "(u64 option \<times> u64 option) option"

record 'd engine =
  e_text :: "docker_error \<Rightarrow> string"
  e_inspect_network :: "string \<Rightarrow> 'd \<Rightarrow> (docker_error + unit) \<times> 'd"
  e_create_network :: "string \<Rightarrow> 'd \<Rightarrow> (docker_error + unit) \<times> 'd"
  e_inspect_image :: "string \<Rightarrow> 'd \<Rightarrow> (docker_error + unit) \<times> 'd"
  e_create_image :: "string \<Rightarrow> 'd \<Rightarrow> (docker_error + unit) \<times> 'd"
  e_inspect_container :: "string \<Rightarrow> 'd \<Rightarrow> (docker_error + inspect) \<times> 'd"
  e_create_container :: "string \<Rightarrow> container_body \<Rightarrow> 'd \<Rightarrow> (docker_error + unit) \<times> 'd"
  e_start_container :: "string \<Rightarrow> 'd \<Rightarrow> (docker_error + unit) \<times> 'd"
  e_stop_container :: "string \<Rightarrow> 'd \<Rightarrow> (docker_error + unit) \<times> 'd"
  e_remove_container :: "string \<Rightarrow> 'd \<Rightarrow> (docker_error + unit) \<times> 'd"
  e_wait_container :: "string \<Rightarrow> u64 \<Rightarrow> 'd \<Rightarrow> waited \<times> 'd"
  e_logs :: "string \<Rightarrow> bool \<Rightarrow> 'd \<Rightarrow> (string + string) list \<times> 'd"
  e_stats :: "string \<Rightarrow> 'd \<Rightarrow> (docker_error + stats_response option) \<times> 'd"
  e_cpu_ratio :: "u64 \<Rightarrow> u64 \<Rightarrow> 32 word \<Rightarrow> 64 word"

text \<open>The agent: its machine, the engine, what it has sent to the hub, the clean-ups it has scheduled.\<close>

record 'd agent = machine +
  docker :: 'd
  outbox :: "(u64 \<times> agent_payload) list"
  cleanups :: "string list"

type_synonym ('d, 'e, 'a) agent_comp = "('d agent, 'e, 'a) comp"

text \<open>A request to the engine; like any call to the outside it may fail or be the agent's last.\<close>

definition engine_call :: "('d \<Rightarrow> (docker_error + 'a) \<times> 'd) \<Rightarrow> ('d, docker_error, 'a) agent_comp" where
  "engine_call f = ext_call OtherDocker (\<lambda>s.
     case f (docker s) of (r, d) \<Rightarrow>
       (case r of Inl e \<Rightarrow> Fail e | Inr a \<Rightarrow> Done a, s\<lparr>docker := d\<rparr>))"

section \<open>Names and limits\<close>

definition env_strings :: "env_var list \<Rightarrow> string list" where
  "env_strings env_vars = map (\<lambda>v. ev_key v @ ''='' @ env_var_value_as_str (ev_value v)) env_vars"

definition network_name :: string where "network_name = ''berth-run''"

definition default_memory_bytes :: int where "default_memory_bytes = 512 * 1024 * 1024"

definition default_nano_cpus :: int where "default_nano_cpus = 1000000000"

definition install_container_name :: "string \<Rightarrow> string" where
  "install_container_name parent_name = parent_name @ ''-install''"

definition build_container_name :: "string \<Rightarrow> string" where
  "build_container_name parent_name = parent_name @ ''-build''"

definition bind_mount :: "string \<Rightarrow> string" where
  "bind_mount checkout_dir = checkout_dir @ '':/app''"

section \<open>Operations\<close>

datatype start_error = SeUnavailable string | SeStartFailed string | SeCommandFailed string

definition has_status :: "nat \<Rightarrow> docker_error \<Rightarrow> bool" where
  "has_status status err = (case err of ServerError c _ \<Rightarrow> c = status | _ \<Rightarrow> False)"

definition ensure_network :: "'d engine \<Rightarrow> ('d, string, unit) agent_comp" where
  "ensure_network e =
     bindc (attempt (engine_call (e_inspect_network e network_name))) (\<lambda>r.
     case r of
       Inr _ \<Rightarrow> ret ()
     | Inl err \<Rightarrow>
        (if has_status 404 err then
           bindc (attempt (engine_call (e_create_network e network_name))) (\<lambda>r'.
           case r' of
             Inr _ \<Rightarrow> ret ()
           | Inl err' \<Rightarrow> if has_status 409 err' then ret () else throw (e_text e err'))
         else throw (e_text e err)))"

definition ensure_image :: "'d engine \<Rightarrow> string \<Rightarrow> ('d, string, unit) agent_comp" where
  "ensure_image e img =
     bindc (attempt (engine_call (e_inspect_image e img))) (\<lambda>r.
     case r of
       Inr _ \<Rightarrow> ret ()
     | Inl _ \<Rightarrow> map_err (e_text e) (engine_call (e_create_image e img)))"

definition container_exists :: "'d engine \<Rightarrow> string \<Rightarrow> ('d, string, bool) agent_comp" where
  "container_exists e name =
     bindc (attempt (engine_call (e_inspect_container e name))) (\<lambda>r.
     case r of
       Inr _ \<Rightarrow> ret True
     | Inl err \<Rightarrow> if has_status 404 err then ret False else throw (e_text e err))"

definition container_running :: "'d engine \<Rightarrow> string \<Rightarrow> ('d, string, bool) agent_comp" where
  "container_running e name =
     bindc (attempt (engine_call (e_inspect_container e name))) (\<lambda>r.
     case r of
       Inr inspect \<Rightarrow> ret (case in_running inspect of Some b \<Rightarrow> b | None \<Rightarrow> False)
     | Inl err \<Rightarrow> if has_status 404 err then ret False else throw (e_text e err))"

definition run_body :: "string \<Rightarrow> string \<Rightarrow> string \<Rightarrow> env_var list \<Rightarrow> container_body" where
  "run_body img checkout_dir start_command env_vars =
     \<lparr>cb_image = img, cb_working_dir = ''/app'', cb_cmd = [''sh'', ''-c'', start_command],
      cb_env = env_strings env_vars, cb_binds = [bind_mount checkout_dir], cb_unless_stopped = True,
      cb_network = Some network_name, cb_memory = Some default_memory_bytes, cb_nano_cpus = Some default_nano_cpus\<rparr>"

definition command_body :: "string \<Rightarrow> string \<Rightarrow> string \<Rightarrow> env_var list \<Rightarrow> container_body" where
  "command_body img checkout_dir command env_vars =
     \<lparr>cb_image = img, cb_working_dir = ''/app'', cb_cmd = [''sh'', ''-c'', command],
      cb_env = env_strings env_vars, cb_binds = [bind_mount checkout_dir], cb_unless_stopped = False,
      cb_network = None, cb_memory = None, cb_nano_cpus = None\<rparr>"

text \<open>\<open>container_logs\<close> is the stream of chunks; \<open>forward_logs\<close> stops at the first error.\<close>

definition container_logs :: "'d engine \<Rightarrow> string \<Rightarrow> bool \<Rightarrow> ('d, 'e, (string + string) list) agent_comp" where
  "container_logs e name follow = (\<lambda>s. case e_logs e name follow (docker s) of (cs, d) \<Rightarrow> (Done cs, s\<lparr>docker := d\<rparr>))"

type_synonym ('d, 'e) log_sink = "string \<Rightarrow> ('d, 'e, unit) agent_comp"

fun forward_logs :: "(string + string) list \<Rightarrow> ('d, 'e) log_sink \<Rightarrow> ('d, 'e, unit) agent_comp" where
  "forward_logs [] sink = ret ()"
| "forward_logs (Inl err # cs) sink = ret ()"
| "forward_logs (Inr chunk # cs) sink = bindc (sink chunk) (\<lambda>_. forward_logs cs sink)"

definition schedule_cleanup :: "string \<Rightarrow> ('d, 'e, unit) agent_comp" where
  "schedule_cleanup name = modify (\<lambda>s. s\<lparr>cleanups := cleanups s @ [name]\<rparr>)"

text \<open>The body of the scheduled task, after its grace period.\<close>

definition cleanup_task :: "'d engine \<Rightarrow> string \<Rightarrow> ('d, 'e, unit) agent_comp" where
  "cleanup_task e name = ignore (engine_call (e_remove_container e name))"

record command_exec =
  ce_image :: string
  ce_command :: string
  ce_env_vars :: "env_var list"
  ce_timeout :: u64

definition wait_result :: "'d engine \<Rightarrow> string \<Rightarrow> u64 \<Rightarrow> waited \<Rightarrow> ('d, start_error, start_error + unit) agent_comp" where
  "wait_result e name timeout w =
     (case w of
        Exited \<Rightarrow> ret (Inr ())
      | WaitFailed err \<Rightarrow>
         (case err of
            WaitError m exit_code \<Rightarrow> ret (Inl (SeCommandFailed (''command exited '' @ show_int exit_code @ '': '' @ m)))
          | _ \<Rightarrow> ret (Inl (SeStartFailed (e_text e err))))
      | TimedOut \<Rightarrow>
         bindc (ignore (engine_call (e_stop_container e name))) (\<lambda>_.
         ret (Inl (SeCommandFailed (''command timed out after '' @ show_nat (unat timeout) @ ''s'')))))"

definition run_command_to_completion ::
  "'d engine \<Rightarrow> string \<Rightarrow> string \<Rightarrow> command_exec \<Rightarrow> ('d, start_error) log_sink option \<Rightarrow> ('d, start_error, unit) agent_comp" where
  "run_command_to_completion e name checkout_dir exec log_sink =
     bindc (map_err SeStartFailed (ensure_image e (ce_image exec))) (\<lambda>_.
     bindc (map_err (\<lambda>err. SeStartFailed (e_text e err))
       (engine_call (e_create_container e name (command_body (ce_image exec) checkout_dir (ce_command exec) (ce_env_vars exec))))) (\<lambda>_.
     bindc (map_err (\<lambda>err. SeStartFailed (e_text e err)) (engine_call (e_start_container e name))) (\<lambda>_.
     bindc (\<lambda>s. case e_wait_container e name (ce_timeout exec) (docker s) of (w, d) \<Rightarrow> (Done w, s\<lparr>docker := d\<rparr>)) (\<lambda>w.
     bindc (wait_result e name (ce_timeout exec) w) (\<lambda>result.
     bindc (case log_sink of
              Some sink \<Rightarrow> bindc (container_logs e name True) (\<lambda>cs. forward_logs cs sink)
            | None \<Rightarrow> ret ()) (\<lambda>_.
     bindc (schedule_cleanup name) (\<lambda>_.
     from_sum result)))))))"

definition run_build_command_container ::
  "'d engine \<Rightarrow> string \<Rightarrow> string \<Rightarrow> command_exec \<Rightarrow> ('d, start_error) log_sink option \<Rightarrow> ('d, start_error, unit) agent_comp" where
  "run_build_command_container e parent_name checkout_dir exec log_sink =
     run_command_to_completion e (build_container_name parent_name) checkout_dir exec log_sink"

record run_container_config =
  rcc_image :: string
  rcc_install_command :: "string option"
  rcc_start_command :: string
  rcc_env_vars :: "env_var list"
  rcc_install_timeout :: u64

definition start_container ::
  "'d engine \<Rightarrow> string \<Rightarrow> string \<Rightarrow> run_container_config \<Rightarrow> ('d, start_error) log_sink option \<Rightarrow> ('d, start_error, unit) agent_comp" where
  "start_container e name checkout_dir config log_sink =
     bindc (map_err SeUnavailable (container_running e name)) (\<lambda>running.
     if running then ret ()
     else
     bindc (map_err SeUnavailable (container_exists e name)) (\<lambda>exists.
     if exists then map_err (\<lambda>err. SeStartFailed (e_text e err)) (engine_call (e_start_container e name))
     else
     bindc (map_err SeStartFailed (ensure_image e (rcc_image config))) (\<lambda>_.
     bindc (case rcc_install_command config of
              Some install_command \<Rightarrow>
                run_command_to_completion e (install_container_name name) checkout_dir
                  \<lparr>ce_image = rcc_image config, ce_command = install_command, ce_env_vars = rcc_env_vars config,
                   ce_timeout = rcc_install_timeout config\<rparr> log_sink
            | None \<Rightarrow> ret ()) (\<lambda>_.
     bindc (map_err (\<lambda>err. SeStartFailed (e_text e err))
       (engine_call (e_create_container e name
          (run_body (rcc_image config) checkout_dir (rcc_start_command config) (rcc_env_vars config))))) (\<lambda>_.
     map_err (\<lambda>err. SeStartFailed (e_text e err)) (engine_call (e_start_container e name)))))))"

definition stop_and_remove_container :: "'d engine \<Rightarrow> string \<Rightarrow> ('d, string, unit) agent_comp" where
  "stop_and_remove_container e name =
     bindc (attempt (engine_call (e_stop_container e name))) (\<lambda>r.
     case r of
       Inl err \<Rightarrow> if has_status 404 err then ret () else throw (e_text e err)
     | Inr _ \<Rightarrow>
        bindc (attempt (engine_call (e_remove_container e name))) (\<lambda>r'.
        case r' of
          Inr _ \<Rightarrow> ret ()
        | Inl err \<Rightarrow> if has_status 404 err then ret () else throw (e_text e err)))"

definition container_ip :: "'d engine \<Rightarrow> string \<Rightarrow> ('d, string, string option) agent_comp" where
  "container_ip e name =
     bindc (map_err (e_text e) (engine_call (e_inspect_container e name))) (\<lambda>inspect.
     ret (case in_networks inspect of
            None \<Rightarrow> None
          | Some networks \<Rightarrow>
             (case networks network_name of
                Some (Some ip) \<Rightarrow> if ip = [] then None else Some ip
              | _ \<Rightarrow> None)))"

text \<open>The floating-point expression \<open>(cpu_delta / system_delta) * online_cpus * 100.0\<close> is \<open>e_cpu_ratio\<close>.\<close>

definition cpu_percent :: "'d engine \<Rightarrow> cpu_stats option \<Rightarrow> cpu_stats option \<Rightarrow> 64 word" where
  "cpu_percent e cpu precpu =
     (case (cpu, precpu) of
        (Some c, Some p) \<Rightarrow>
          (if \<not> (cpu_usage_present c \<and> cpu_usage_present p) then 0
           else case (cpu_total c, cpu_total p, cpu_system c, cpu_system p, cpu_online c) of
             (Some tot, Some pretot, Some system, Some presystem, Some online_cpus) \<Rightarrow>
               (let system_delta = sat_sub_u64 system presystem in
                if system_delta = 0 then 0 else e_cpu_ratio e (sat_sub_u64 tot pretot) system_delta online_cpus)
           | _ \<Rightarrow> 0)
      | _ \<Rightarrow> 0)"

definition memory_usage :: "(u64 option \<times> u64 option) option \<Rightarrow> u64 \<times> u64" where
  "memory_usage mem =
     (case mem of
        None \<Rightarrow> (0, 0)
      | Some (usage, limit) \<Rightarrow> (case usage of Some u \<Rightarrow> u | None \<Rightarrow> 0, case limit of Some l \<Rightarrow> l | None \<Rightarrow> 0))"

definition container_stats_of :: "'d engine \<Rightarrow> string \<Rightarrow> ('d, string, container_stats) agent_comp" where
  "container_stats_of e name =
     bindc (map_err (e_text e) (engine_call (e_stats e name))) (\<lambda>r.
     bindc (ok_or (''no stats for '' @ name) r) (\<lambda>response.
     (let (usage, limit) = memory_usage (st_memory response) in
      ret \<lparr>cs_cpu_percent = cpu_percent e (st_cpu response) (st_precpu response),
           cs_memory_usage_bytes = usage, cs_memory_limit_bytes = limit\<rparr>)))"

section \<open>What is relied on\<close>

text \<open>
  The documented behaviour of the engine, on its containers and whether each of them runs: a
  request that fails changes no container; a successful one does what it says; the engine
  answers 404 to an inspection only if there is no such container; waiting and reading logs or
  images concern no other container.
\<close>

definition engine_ok :: "'d engine \<Rightarrow> ('d \<Rightarrow> string \<rightharpoonup> bool) \<Rightarrow> bool" where
  "engine_ok e view \<longleftrightarrow>
     (\<forall>n d r d'. e_inspect_container e n d = (r, d') \<longrightarrow> view d' = view d
         \<and> (\<forall>i. r = Inr i \<longrightarrow> view d n = Some (in_running i = Some True))
         \<and> (\<forall>m. r = Inl (ServerError 404 m) \<longrightarrow> view d n = None))
     \<and> (\<forall>n b d r d'. e_create_container e n b d = (r, d') \<longrightarrow>
         (if r = Inr () then view d n = None \<and> view d' = (view d)(n \<mapsto> False) else view d' = view d))
     \<and> (\<forall>n d r d'. e_start_container e n d = (r, d') \<longrightarrow>
         (if r = Inr () then view d n \<noteq> None \<and> view d' = (view d)(n \<mapsto> True) else view d' = view d))
     \<and> (\<forall>n d r d'. e_stop_container e n d = (r, d') \<longrightarrow>
         (if r = Inr () then view d' = (view d)(n \<mapsto> False)
          else view d' = view d \<and> (\<forall>m. r = Inl (ServerError 404 m) \<longrightarrow> view d n = None)))
     \<and> (\<forall>n d r d'. e_remove_container e n d = (r, d') \<longrightarrow>
         (if r = Inr () then view d' = (view d)(n := None)
          else view d' = view d \<and> (\<forall>m. r = Inl (ServerError 404 m) \<longrightarrow> view d n = None)))
     \<and> (\<forall>n d. view (snd (e_inspect_image e n d)) = view d \<and> view (snd (e_create_image e n d)) = view d)
     \<and> (\<forall>n f d. view (snd (e_logs e n f d)) = view d)
     \<and> (\<forall>n t d m. m \<noteq> n \<longrightarrow> view (snd (e_wait_container e n t d)) m = view d m)"

section \<open>Facts\<close>

lemma engine_call_cases:
  assumes "engine_call f s = (r, s')"
  obtains "docker s' = docker s" and "\<forall>a. r \<noteq> Done a" and "\<forall>c m. r \<noteq> Fail (ServerError c m)"
  | e d where "f (docker s) = (Inl e, d)" and "r = Fail e" and "docker s' = d"
  | a d where "f (docker s) = (Inr a, d)" and "r = Done a" and "docker s' = d"
  using assms unfolding engine_call_def
  by (elim ext_call_cases) (auto split: prod.splits sum.splits)

lemma wpc_engine_call:
  assumes "\<And>r d. f (docker s) = (r, d) \<Longrightarrow> Q (case r of Inl e \<Rightarrow> Fail e | Inr a \<Rightarrow> Done a) d"
    and "\<And>r. (\<forall>a. r \<noteq> Done a) \<Longrightarrow> (\<forall>c m. r \<noteq> Fail (ServerError c m)) \<Longrightarrow> Q r (docker s)"
  shows "wpc (engine_call f) (\<lambda>r s'. Q r (docker s')) s"
proof -
  obtain r s' where run: "engine_call f s = (r, s')" by fastforce
  have "Q r (docker s')"
    using run
  proof (cases rule: engine_call_cases)
    case 1
    then show ?thesis using assms(2) by simp
  next
    case (2 e d)
    then show ?thesis using assms(1) [OF 2(1)] by simp
  next
    case (3 a d)
    then show ?thesis using assms(1) [OF 3(1)] by simp
  qed
  then show ?thesis by (simp add: wpc_def run)
qed

lemma engine_okD:
  assumes "engine_ok e view"
  shows "e_inspect_container e n d = (q, d') \<Longrightarrow> view d' = view d
        \<and> (\<forall>i. q = Inr i \<longrightarrow> view d n = Some (in_running i = Some True)) \<and> (\<forall>m. q = Inl (ServerError 404 m) \<longrightarrow> view d n = None)"
    and "e_create_container e n b d = (r, d') \<Longrightarrow>
        (if r = Inr () then view d n = None \<and> view d' = (view d)(n \<mapsto> False) else view d' = view d)"
    and "e_start_container e n d = (r, d') \<Longrightarrow>
        (if r = Inr () then view d n \<noteq> None \<and> view d' = (view d)(n \<mapsto> True) else view d' = view d)"
    and "e_stop_container e n d = (r, d') \<Longrightarrow>
        (if r = Inr () then view d' = (view d)(n \<mapsto> False)
         else view d' = view d \<and> (\<forall>m. r = Inl (ServerError 404 m) \<longrightarrow> view d n = None))"
    and "e_remove_container e n d = (r, d') \<Longrightarrow>
        (if r = Inr () then view d' = (view d)(n := None)
         else view d' = view d \<and> (\<forall>m. r = Inl (ServerError 404 m) \<longrightarrow> view d n = None))"
    and "e_inspect_image e n d = (r, d') \<Longrightarrow> view d' = view d" and "e_create_image e n d = (r, d') \<Longrightarrow> view d' = view d"
    and "view (snd (e_logs e n f d)) = view d" and "m \<noteq> n \<Longrightarrow> view (snd (e_wait_container e n t d)) m = view d m"
proof -
  note laws = assms [unfolded engine_ok_def]
  show "e_inspect_container e n d = (q, d') \<Longrightarrow> view d' = view d
        \<and> (\<forall>i. q = Inr i \<longrightarrow> view d n = Some (in_running i = Some True)) \<and> (\<forall>m. q = Inl (ServerError 404 m) \<longrightarrow> view d n = None)"
    using laws [THEN conjunct1] by blast
  note laws = laws [THEN conjunct2]
  show "e_create_container e n b d = (r, d') \<Longrightarrow>
        (if r = Inr () then view d n = None \<and> view d' = (view d)(n \<mapsto> False) else view d' = view d)"
    using laws [THEN conjunct1] by blast
  note laws = laws [THEN conjunct2]
  show "e_start_container e n d = (r, d') \<Longrightarrow>
        (if r = Inr () then view d n \<noteq> None \<and> view d' = (view d)(n \<mapsto> True) else view d' = view d)"
    using laws [THEN conjunct1] by blast
  note laws = laws [THEN conjunct2]
  show "e_stop_container e n d = (r, d') \<Longrightarrow>
        (if r = Inr () then view d' = (view d)(n \<mapsto> False)
         else view d' = view d \<and> (\<forall>m. r = Inl (ServerError 404 m) \<longrightarrow> view d n = None))"
    using laws [THEN conjunct1] by blast
  note laws = laws [THEN conjunct2]
  show "e_remove_container e n d = (r, d') \<Longrightarrow>
        (if r = Inr () then view d' = (view d)(n := None)
         else view d' = view d \<and> (\<forall>m. r = Inl (ServerError 404 m) \<longrightarrow> view d n = None))"
    using laws [THEN conjunct1] by blast
  note laws = laws [THEN conjunct2]
  show "e_inspect_image e n d = (r, d') \<Longrightarrow> view d' = view d" "e_create_image e n d = (r, d') \<Longrightarrow> view d' = view d"
    using laws [THEN conjunct1] by (metis snd_conv)+
  note laws = laws [THEN conjunct2]
  show "view (snd (e_logs e n f d)) = view d" "m \<noteq> n \<Longrightarrow> view (snd (e_wait_container e n t d)) m = view d m"
    using laws by blast+
qed

lemma wpc_inspect:
  "engine_ok e view \<Longrightarrow> wpc (engine_call (e_inspect_container e n)) (\<lambda>r s'. view (docker s') = view (docker s) \<and> (\<forall>i. r = Done i \<longrightarrow> view (docker s) n = Some (in_running i = Some True)) \<and> (\<forall>m. r = Fail (ServerError 404 m) \<longrightarrow> view (docker s) n = None)) s"
  by (rule wpc_engine_call [where Q = "\<lambda>r d. view d = view (docker s) \<and> (\<forall>i. r = Done i \<longrightarrow> view (docker s) n = Some (in_running i = Some True)) \<and> (\<forall>m. r = Fail (ServerError 404 m) \<longrightarrow> view (docker s) n = None)"])
     (drule (1) engine_okD(1), auto split: sum.split if_splits)

lemma wpc_create:
  "engine_ok e view \<Longrightarrow> wpc (engine_call (e_create_container e n b)) (\<lambda>r s'. if r = Done () then view (docker s) n = None \<and> view (docker s') = (view (docker s))(n \<mapsto> False) else view (docker s') = view (docker s)) s"
  by (rule wpc_engine_call [where Q = "\<lambda>r d. if r = Done () then view (docker s) n = None \<and> view d = (view (docker s))(n \<mapsto> False) else view d = view (docker s)"])
     (drule (1) engine_okD(2), auto split: sum.split if_splits)

lemma wpc_start:
  "engine_ok e view \<Longrightarrow> wpc (engine_call (e_start_container e n)) (\<lambda>r s'. if r = Done () then view (docker s) n \<noteq> None \<and> view (docker s') = (view (docker s))(n \<mapsto> True) else view (docker s') = view (docker s)) s"
  by (rule wpc_engine_call [where Q = "\<lambda>r d. if r = Done () then view (docker s) n \<noteq> None \<and> view d = (view (docker s))(n \<mapsto> True) else view d = view (docker s)"])
     (drule (1) engine_okD(3), auto split: sum.split if_splits)

lemma wpc_stop:
  "engine_ok e view \<Longrightarrow> wpc (engine_call (e_stop_container e n)) (\<lambda>r s'. if r = Done () then view (docker s') = (view (docker s))(n \<mapsto> False) else view (docker s') = view (docker s) \<and> (\<forall>m. r = Fail (ServerError 404 m) \<longrightarrow> view (docker s) n = None)) s"
  by (rule wpc_engine_call [where Q = "\<lambda>r d. if r = Done () then view d = (view (docker s))(n \<mapsto> False) else view d = view (docker s) \<and> (\<forall>m. r = Fail (ServerError 404 m) \<longrightarrow> view (docker s) n = None)"])
     (drule (1) engine_okD(4), auto split: sum.split if_splits)

lemma wpc_remove:
  "engine_ok e view \<Longrightarrow> wpc (engine_call (e_remove_container e n)) (\<lambda>r s'. if r = Done () then view (docker s') = (view (docker s))(n := None) else view (docker s') = view (docker s) \<and> (\<forall>m. r = Fail (ServerError 404 m) \<longrightarrow> view (docker s) n = None)) s"
  by (rule wpc_engine_call [where Q = "\<lambda>r d. if r = Done () then view d = (view (docker s))(n := None) else view d = view (docker s) \<and> (\<forall>m. r = Fail (ServerError 404 m) \<longrightarrow> view (docker s) n = None)"])
     (drule (1) engine_okD(5), auto split: sum.split if_splits)

lemma wpc_inspect_image:
  "engine_ok e view \<Longrightarrow> wpc (engine_call (e_inspect_image e n)) (\<lambda>r s'. view (docker s') = view (docker s)) s"
  by (rule wpc_engine_call [where Q = "\<lambda>r d. view d = view (docker s)"])
     (drule (1) engine_okD(6), auto split: sum.split if_splits)

lemma wpc_create_image:
  "engine_ok e view \<Longrightarrow> wpc (engine_call (e_create_image e n)) (\<lambda>r s'. view (docker s') = view (docker s)) s"
  by (rule wpc_engine_call [where Q = "\<lambda>r d. view d = view (docker s)"])
     (drule (1) engine_okD(7), auto split: sum.split if_splits)

text \<open>The operations, in the same terms.\<close>

lemma wpc_running:
  "engine_ok e view \<Longrightarrow> wpc (container_running e n) (\<lambda>r s'. view (docker s') = view (docker s)
    \<and> (case r of Done b \<Rightarrow> b \<longleftrightarrow> view (docker s) n = Some True | _ \<Rightarrow> True)) s"
  unfolding container_running_def
  by (simp, rule wpc_mono [OF wpc_inspect])
     (auto simp: has_status_def split: outcome.split option.splits docker_error.split)

lemma wpc_exists:
  "engine_ok e view \<Longrightarrow> wpc (container_exists e n) (\<lambda>r s'. view (docker s') = view (docker s)
    \<and> (case r of Done b \<Rightarrow> b \<longleftrightarrow> view (docker s) n \<noteq> None | _ \<Rightarrow> True)) s"
  unfolding container_exists_def
  by (simp, rule wpc_mono [OF wpc_inspect])
     (auto simp: has_status_def split: outcome.split option.splits docker_error.split)

lemma wpc_image:
  "engine_ok e view \<Longrightarrow> wpc (ensure_image e n) (\<lambda>r s'. view (docker s') = view (docker s)) s"
  unfolding ensure_image_def
  by (simp, rule wpc_mono [OF wpc_inspect_image])
     (auto split: outcome.split intro: wpc_mono [OF wpc_create_image])

text \<open>A sink that does not use the engine, and the containers a one-shot command leaves alone.\<close>

definition quiet_sink :: "('d, 'e) log_sink option \<Rightarrow> bool" where
  "quiet_sink sink \<longleftrightarrow> (\<forall>f. sink = Some f \<longrightarrow> (\<forall>c. leaves docker (f c)))"

lemma leaves_forward: "(\<And>c. leaves docker (f c)) \<Longrightarrow> leaves docker (forward_logs cs f)"
  by (induction cs f rule: forward_logs.induct) (auto intro: leaves_intros)

definition spares :: "('d \<Rightarrow> string \<rightharpoonup> bool) \<Rightarrow> string set \<Rightarrow> ('d, 'e, 'a) agent_comp \<Rightarrow> bool" where
  "spares view ns m \<longleftrightarrow> (\<forall>n. n \<notin> ns \<longrightarrow> leaves (\<lambda>s. view (docker s) n) m)"

lemma spares_bindc: "spares view ns m \<Longrightarrow> (\<And>a. spares view ns (k a)) \<Longrightarrow> spares view ns (bindc m k)"
  and spares_map_err: "spares view ns m \<Longrightarrow> spares view ns (map_err f m)"
  and spares_ignore: "spares view ns m \<Longrightarrow> spares view ns (ignore m)"
  and spares_ret: "spares view ns (ret a)"
  and spares_from_sum: "spares view ns (from_sum r)"
  by (auto simp: spares_def from_sum_def intro!: leaves_intros split: sum.split)

lemma spares_wpc:
  assumes "\<And>s. wpc m (\<lambda>r s'. \<forall>n. n \<notin> ns \<longrightarrow> view (docker s') n = view (docker s) n) s"
  shows "spares view ns m"
  using assms unfolding spares_def leaves_def wpc_iff by blast

lemma spares_docker: "leaves docker m \<Longrightarrow> spares view ns m"
  by (simp add: spares_def leaves_def)

lemmas spares_intros = spares_bindc spares_map_err spares_ignore spares_ret spares_from_sum

lemma spares_engine:
  assumes "engine_ok e view"
  shows "spares view {} (ensure_image e img)" "spares view {n} (engine_call (e_create_container e n b))"
    "spares view {n} (engine_call (e_start_container e n))" "spares view {n} (engine_call (e_stop_container e n))"
    "spares view {n} (engine_call (e_remove_container e n))"
proof -
  show "spares view {} (ensure_image e img)"
    by (rule spares_wpc, rule wpc_mono [OF wpc_image [OF assms]], simp)
  show "spares view {n} (engine_call (e_create_container e n b))"
    by (rule spares_wpc, rule wpc_mono [OF wpc_create [OF assms]], simp split: if_splits)
  show "spares view {n} (engine_call (e_start_container e n))"
    by (rule spares_wpc, rule wpc_mono [OF wpc_start [OF assms]], simp split: if_splits)
  show "spares view {n} (engine_call (e_stop_container e n))"
    by (rule spares_wpc, rule wpc_mono [OF wpc_stop [OF assms]], simp split: if_splits)
  show "spares view {n} (engine_call (e_remove_container e n))"
    by (rule spares_wpc, rule wpc_mono [OF wpc_remove [OF assms]], simp split: if_splits)
qed

lemma spares_mono: "spares view ms m \<Longrightarrow> ms \<subseteq> ns \<Longrightarrow> spares view ns m"
  by (auto simp: spares_def)

lemma spares_run_command:
  assumes ok: "engine_ok e view" and sink: "quiet_sink sink"
  shows "spares view {n} (run_command_to_completion e n dir exec sink)"
proof -
  have wait: "spares view {n} (\<lambda>s. case e_wait_container e n t (docker s) of (w, d) \<Rightarrow> (Done w, s\<lparr>docker := d\<rparr>))" for t
    using engine_okD(9) [OF ok] by (auto simp: spares_def leaves_def split: prod.splits) (metis snd_conv)
  have logs: "spares view {n} (container_logs e n f)" for f
    using engine_okD(8) [OF ok] by (auto simp: spares_def leaves_def container_logs_def split: prod.splits) (metis snd_conv)
  have result: "spares view {n} (wait_result e n t w)" for t w
    unfolding wait_result_def
    by (auto intro!: spares_intros spares_engine [OF ok] split: waited.split docker_error.split)
  have fwd: "spares view {n} (forward_logs cs f)" if "sink = Some f" for cs f
    using sink that by (intro spares_docker leaves_forward) (simp add: quiet_sink_def)
  have cleanup: "spares view {n} (schedule_cleanup n)"
    by (simp add: spares_def leaves_def schedule_cleanup_def modify_def)
  show ?thesis
    unfolding run_command_to_completion_def
    by (intro spares_intros wait result cleanup spares_mono [OF spares_engine(1) [OF ok]] spares_engine [OF ok])
       (auto split: option.split intro!: spares_intros logs fwd)
qed

lemma wpc_spares: "spares view ns m \<Longrightarrow> wpc m (\<lambda>_ s'. \<forall>n. n \<notin> ns \<longrightarrow> view (docker s') n = view (docker s) n) s"
  by (simp add: spares_def leaves_def wpc_iff)

lemma spares_install:
  assumes "engine_ok e view" and "quiet_sink sink"
  shows "spares view {install_container_name name}
    (case cmd of Some c \<Rightarrow> run_command_to_completion e (install_container_name name) dir (exec c) sink | None \<Rightarrow> ret ())"
  by (cases cmd) (auto intro: spares_ret spares_run_command [OF assms])

lemma install_name_other: "install_container_name name \<noteq> name"
  by (simp add: install_container_name_def)

text \<open>What starting a container leaves behind, whatever the outcome.\<close>

definition start_effect :: "('d \<Rightarrow> string \<rightharpoonup> bool) \<Rightarrow> string \<Rightarrow> 'd agent \<Rightarrow> (start_error, unit) outcome \<Rightarrow> 'd agent \<Rightarrow> bool" where
  "start_effect view name s r s' \<longleftrightarrow>
     (\<forall>n. n \<notin> {name, install_container_name name} \<longrightarrow> view (docker s') n = view (docker s) n)
     \<and> (if r = Done () then view (docker s') name = Some True
        else view (docker s') name = view (docker s) name \<or> view (docker s) name = None \<and> view (docker s') name = Some False)"

lemma wpc_create_and_start:
  assumes ok: "engine_ok e view" and "view (docker s) name = None"
    and "\<forall>n. n \<notin> {install_container_name name} \<longrightarrow> view (docker s) n = view (docker s0) n"
  shows "wpc (bindc (map_err f (engine_call (e_create_container e name b))) (\<lambda>_. map_err g (engine_call (e_start_container e name))))
    (start_effect view name s0) s"
proof -
  have "view (docker s0) name = None" using assms(2,3) install_name_other [of name] by (metis singletonD)
  then show ?thesis
    using assms(3)
    by (simp, intro wpc_mono [OF wpc_create [OF ok]])
       (auto simp: start_effect_def assms(2) split: outcome.split intro!: wpc_mono [OF wpc_start [OF ok]])
qed

lemma wpc_start_fresh:
  assumes ok: "engine_ok e view" and sink: "quiet_sink sink" and none: "view (docker s) name = None"
    and same: "view (docker s) = view (docker s0)"
  shows "wpc (bindc (map_err SeStartFailed (ensure_image e img)) (\<lambda>_.
     bindc (case cmd of Some c \<Rightarrow> run_command_to_completion e (install_container_name name) dir (exec c) sink | None \<Rightarrow> ret ()) (\<lambda>_.
     bindc (map_err f (engine_call (e_create_container e name b))) (\<lambda>_. map_err g (engine_call (e_start_container e name))))))
   (start_effect view name s0) s"
  unfolding wpc_bindc [of "map_err SeStartFailed _"] wpc_map_err
proof (rule wpc_mono [OF wpc_image [OF ok]], goal_cases)
  case (1 r s1)
  show ?case
  proof (cases r)
    case (Done u)
    let ?install = "case cmd of Some c \<Rightarrow> run_command_to_completion e (install_container_name name) dir (exec c) sink | None \<Rightarrow> ret ()"
    show ?thesis
      unfolding Done outcome.case wpc_bindc [of ?install]
    proof (rule wpc_mono [OF wpc_spares [OF spares_install [OF ok sink]]], goal_cases)
      case (1 q s2)
      then have s2: "\<forall>n. n \<notin> {install_container_name name} \<longrightarrow> view (docker s2) n = view (docker s0) n"
        using same \<open>view (docker s1) = view (docker s)\<close> by simp
      moreover have "view (docker s2) name = None"
        using s2 none same install_name_other [of name] by (metis singletonD)
      ultimately have "wpc (bindc (map_err f (engine_call (e_create_container e name b))) (\<lambda>_. map_err g (engine_call (e_start_container e name))))
          (start_effect view name s0) s2"
        by (intro wpc_create_and_start [OF ok])
      then show ?case
        using none same s2 \<open>view (docker s2) name = None\<close>
        by (cases q) (simp_all add: start_effect_def del: wpc_bindc wpc_map_err)
    qed
  qed (use 1 same in \<open>auto simp: start_effect_def\<close>)
qed

lemma wpc_start_container:
  assumes ok: "engine_ok e view" and sink: "quiet_sink sink"
  shows "wpc (start_container e name dir config sink) (start_effect view name s) s"
  unfolding start_container_def wpc_bindc [of "map_err SeUnavailable _"] wpc_map_err
proof (rule wpc_mono [OF wpc_running [OF ok]], goal_cases)
  case (1 r s1)
  show ?case
  proof (cases "r = Done False")
    case True
    show ?thesis
      unfolding True outcome.case if_False wpc_bindc [of "map_err SeUnavailable _"] wpc_map_err
    proof (rule wpc_mono [OF wpc_exists [OF ok]], goal_cases)
      case (1 q s2)
      then have s2: "view (docker s2) = view (docker s)" using \<open>view (docker s1) = view (docker s) \<and> _\<close> by simp
      show ?case
      proof (cases q)
        case (Done b)
        show ?thesis
        proof (cases b)
          case True
          then show ?thesis
            unfolding Done outcome.case if_P [OF True] wpc_map_err
            by (intro wpc_mono [OF wpc_start [OF ok]]) (auto simp: s2 start_effect_def split: outcome.split if_splits)
        next
          case False
          then have "view (docker s2) name = None" using 1 Done s2 by auto
          then show ?thesis
            unfolding Done outcome.case if_not_P [OF False] by (intro wpc_start_fresh [OF ok sink] s2)
        qed
      qed (use s2 in \<open>simp_all add: start_effect_def\<close>)
    qed
  qed (use 1 in \<open>auto simp: start_effect_def split: outcome.splits\<close>)
qed

text \<open>A command is reported to have run only if the wait for its container saw it exit.\<close>

definition can_exit :: "'d engine \<Rightarrow> string \<Rightarrow> u64 \<Rightarrow> bool" where
  "can_exit e n timeout \<longleftrightarrow> (\<exists>d. fst (e_wait_container e n timeout d) = Exited)"

lemma can_exitI: "e_wait_container e n timeout d = (Exited, d') \<Longrightarrow> can_exit e n timeout"
  unfolding can_exit_def by (rule exI [of _ d]) simp

lemma run_command_exits:
  "run_command_to_completion e n dir exec sink s = (Done (), s') \<Longrightarrow> can_exit e n (ce_timeout exec)"
  unfolding run_command_to_completion_def
  by (elim bindc_DoneE)
     (auto simp: wait_result_def from_sum_def ret_def throw_def
        split: prod.splits waited.splits docker_error.splits elim!: bindc_DoneE intro: can_exitI)

lemma wpc_install_blocked:
  assumes "engine_ok e view" and "quiet_sink sink" and "\<not> can_exit e (install_container_name name) (ce_timeout exec)"
  shows "wpc (run_command_to_completion e (install_container_name name) dir exec sink)
    (\<lambda>r s'. (\<forall>u. r \<noteq> Done u) \<and> view (docker s') name = view (docker s) name) s"
proof -
  have "view (docker s') name = view (docker s) name"
    if "run_command_to_completion e (install_container_name name) dir exec sink s = (r, s')" for r s'
    using wpcD [OF wpc_spares [OF spares_run_command [OF assms(1,2)]] that] install_name_other [of name] by (metis singletonD)
  moreover have "r \<noteq> Done u"
    if "run_command_to_completion e (install_container_name name) dir exec sink s = (r, s')" for r s' u
    using run_command_exits [of e "install_container_name name" dir exec sink s s'] that assms(3) by auto
  ultimately show ?thesis by (simp add: wpc_iff) (metis prod.collapse)
qed

lemma wpc_start_blocked:
  assumes ok: "engine_ok e view" and sink: "quiet_sink sink" and none: "view (docker s) name = None"
    and cmd: "rcc_install_command config = Some c"
    and never: "\<not> can_exit e (install_container_name name) (rcc_install_timeout config)"
  shows "wpc (start_container e name dir config sink) (\<lambda>r s'. (\<forall>u. r \<noteq> Done u) \<and> view (docker s') name = None) s"
  unfolding start_container_def wpc_bindc [of "map_err SeUnavailable _"] wpc_map_err
proof (rule wpc_mono [OF wpc_running [OF ok]], goal_cases)
  case (1 r s1)
  then have s1: "view (docker s1) name = None" "\<And>b. r = Done b \<Longrightarrow> \<not> b" using none by auto
  have exists: "wpc (container_exists e name) (\<lambda>q s2. (\<forall>b. q = Done b \<longrightarrow> \<not> b) \<and> view (docker s2) name = None) s1"
    by (rule wpc_mono [OF wpc_exists [OF ok]]) (use s1 in auto)
  have img: "wpc (ensure_image e (rcc_image config)) (\<lambda>q s3. view (docker s3) name = None) s2"
    if "view (docker s2) name = None" for s2
    by (rule wpc_mono [OF wpc_image [OF ok]]) (use that in simp)
  have install: "wpc (run_command_to_completion e (install_container_name name) dir
      \<lparr>ce_image = rcc_image config, ce_command = c, ce_env_vars = rcc_env_vars config, ce_timeout = rcc_install_timeout config\<rparr> sink)
      (\<lambda>q s4. (\<forall>u. q \<noteq> Done u) \<and> view (docker s4) name = None) s3" if "view (docker s3) name = None" for s3
    by (rule wpc_mono [OF wpc_install_blocked [OF ok sink]]) (use that never in simp_all)
  show ?case
  proof (cases r)
    case (Done b)
    show ?thesis
      unfolding Done outcome.case if_not_P [OF s1(2) [OF Done]] wpc_bindc [of "map_err SeUnavailable _"] wpc_map_err
    proof (rule wpc_mono [OF exists], goal_cases)
      case (1 q s2)
      show ?case
      proof (cases q)
        case (Done b')
        then have "\<not> b'" using 1 by simp
        show ?thesis
          unfolding Done outcome.case if_not_P [OF \<open>\<not> b'\<close>] cmd option.case wpc_bindc [of "map_err SeStartFailed _"] wpc_map_err
        proof (rule wpc_mono [OF img], use 1 in simp, goal_cases)
          case (1 q3 s3)
          show ?case
          proof (cases q3)
            case (Done u)
            show ?thesis
              unfolding Done outcome.case wpc_bindc [of "run_command_to_completion _ _ _ _ _"]
              by (rule wpc_mono [OF install]) (use 1 in \<open>auto split: outcome.split\<close>)
          qed (use 1 in simp_all)
        qed
      qed (use 1 in simp_all)
    qed
  qed (use s1 in simp_all)
qed

lemma wpc_stop_and_remove:
  assumes ok: "engine_ok e view"
  shows "wpc (stop_and_remove_container e name) (\<lambda>r s'.
    (\<forall>n. n \<noteq> name \<longrightarrow> view (docker s') n = view (docker s) n)
    \<and> (if r = Done () then view (docker s') name = None
       else view (docker s') name = view (docker s) name \<or> view (docker s') name = Some False)) s"
  unfolding stop_and_remove_container_def wpc_bindc wpc_attempt
proof (rule wpc_mono [OF wpc_stop [OF ok]], goal_cases)
  case (1 r s1)
  show ?case
  proof (cases r)
    case (Done u)
    then have s1: "view (docker s1) = (view (docker s))(name \<mapsto> False)" using 1 by simp
    show ?thesis
      unfolding Done outcome.case sum.case wpc_bindc wpc_attempt
      by (rule wpc_mono [OF wpc_remove [OF ok]])
         (auto simp: s1 has_status_def split: outcome.split docker_error.split)
  qed (use 1 in \<open>auto simp: has_status_def split: docker_error.splits\<close>)
qed

section \<open>Properties\<close>

text \<open>C12 A run-mode container is up when the agent says so, and never up when it says it
  failed: a start that succeeds leaves the container running; one that does not - the image, the
  install command, the creation or the start itself failed, or the agent died - leaves it as it
  was or newly created and stopped; a removal that succeeds leaves no such container. The install
  command comes first: as long as it has not been seen to exit properly - it fails, is refused, or
  runs into its time limit - the start of a new container fails and nothing of its name is
  created, let alone started. No other container is touched, the install container apart. Assumed
  of the engine is \<open>engine_ok\<close>.\<close>

theorem containers_run_exactly_when_reported:
  assumes "engine_ok e view" and "quiet_sink sink"
    and "start_container e name dir config sink s = (r, s')" and "stop_and_remove_container e name t = (q, t')"
  shows "(if r = Done () then view (docker s') name = Some True
      else view (docker s') name = view (docker s) name \<or> view (docker s) name = None \<and> view (docker s') name = Some False)
    \<and> (view (docker s) name = None \<and> rcc_install_command config = Some c
        \<and> \<not> can_exit e (install_container_name name) (rcc_install_timeout config)
        \<longrightarrow> r \<noteq> Done () \<and> view (docker s') name = None)
    \<and> (q = Done () \<longrightarrow> view (docker t') name = None)
    \<and> (\<forall>n. n \<notin> {name, install_container_name name} \<longrightarrow> view (docker s') n = view (docker s) n)
    \<and> (\<forall>n. n \<noteq> name \<longrightarrow> view (docker t') n = view (docker t) n)"
  using wpcD [OF wpc_start_container [OF assms(1,2)] assms(3)] wpcD [OF wpc_stop_and_remove [OF assms(1)] assms(4)]
    wpcD [OF wpc_start_blocked [OF assms(1,2)] assms(3)]
  by (auto simp: start_effect_def split: if_splits)

text \<open>An engine that keeps its containers in a map.\<close>

definition sample_engine :: "(string \<rightharpoonup> bool) engine" where
  "sample_engine = \<lparr>
     e_text = (\<lambda>err. ''engine error''),
     e_inspect_network = (\<lambda>n d. (Inr (), d)),
     e_create_network = (\<lambda>n d. (Inr (), d)),
     e_inspect_image = (\<lambda>n d. (Inr (), d)),
     e_create_image = (\<lambda>n d. (Inr (), d)),
     e_inspect_container = (\<lambda>n d. (case d n of
         None \<Rightarrow> Inl (ServerError 404 ''no such container'')
       | Some b \<Rightarrow> Inr \<lparr>in_running = Some b, in_networks = Some [network_name \<mapsto> Some ''10.0.0.2'']\<rparr>, d)),
     e_create_container = (\<lambda>n b d. if d n = None then (Inr (), d(n \<mapsto> False)) else (Inl (ServerError 409 ''in use''), d)),
     e_start_container = (\<lambda>n d. if d n = None then (Inl (ServerError 404 ''no such container''), d) else (Inr (), d(n \<mapsto> True))),
     e_stop_container = (\<lambda>n d. if d n = None then (Inl (ServerError 404 ''no such container''), d) else (Inr (), d(n \<mapsto> False))),
     e_remove_container = (\<lambda>n d. if d n = None then (Inl (ServerError 404 ''no such container''), d) else (Inr (), d(n := None))),
     e_wait_container = (\<lambda>n t d. (Exited, d)),
     e_logs = (\<lambda>n f d. ([Inr ''out''], d)),
     e_stats = (\<lambda>n d. (Inr None, d)),
     e_cpu_ratio = (\<lambda>a b n. 0)\<rparr>"

lemma sample_engine_ok: "engine_ok sample_engine (\<lambda>d. d)"
  unfolding engine_ok_def by (simp add: sample_engine_def split: option.split)

definition sample_agent :: "(string \<rightharpoonup> bool) agent" where
  "sample_agent = \<lparr>fs = fs sample_agent_fs, faults = [], docker = Map.empty, outbox = [], cleanups = []\<rparr>"

definition sample_config :: run_container_config where
  "sample_config = \<lparr>rcc_image = ''img'', rcc_install_command = Some ''make'', rcc_start_command = ''run'', rcc_env_vars = [], rcc_install_timeout = 5\<rparr>"

text \<open>An engine on which no install command ends in time.\<close>

definition sample_slow_engine :: "(string \<rightharpoonup> bool) engine" where
  "sample_slow_engine = sample_engine\<lparr>e_wait_container := (\<lambda>n t d. (TimedOut, d))\<rparr>"

lemma sample_slow_engine_ok: "engine_ok sample_slow_engine (\<lambda>d. d)"
  using sample_engine_ok unfolding engine_ok_def by (simp add: sample_slow_engine_def)

lemma containers_run_exactly_when_reported_witness:
  "(\<exists>s'. start_container sample_engine ''c'' ''/x'' sample_config None sample_agent = (Done (), s') \<and> docker s' ''c'' = Some True)
    \<and> (\<exists>r s'. start_container sample_slow_engine ''c'' ''/x'' sample_config None sample_agent = (r, s')
        \<and> r \<noteq> Done () \<and> docker s' ''c'' = None)"
proof -
  have q: "quiet_sink None" by (simp add: quiet_sink_def)
  have "fst (start_container sample_engine ''c'' ''/x'' sample_config None sample_agent) = Done ()" by code_simp
  then obtain s' u t' r2 s2 u2 t2 where run: "start_container sample_engine ''c'' ''/x'' sample_config None sample_agent = (Done (), s')"
    "stop_and_remove_container sample_engine ''c'' sample_agent = (u, t')"
    "start_container sample_slow_engine ''c'' ''/x'' sample_config None sample_agent = (r2, s2)"
    "stop_and_remove_container sample_slow_engine ''c'' sample_agent = (u2, t2)"
    by (metis fst_conv surj_pair)
  have "\<not> can_exit sample_slow_engine (install_container_name ''c'') 5"
    by (simp add: can_exit_def sample_slow_engine_def)
  then show ?thesis
    using containers_run_exactly_when_reported [OF sample_engine_ok q run(1,2)] run(1,3)
      containers_run_exactly_when_reported [OF sample_slow_engine_ok q run(3,4), of "''make''"]
    by (auto simp: sample_agent_def sample_config_def)
qed

end
