(* ===== verification/AgentHandlers.thy ===== *)
theory AgentHandlers
  imports AgentContainers AgentCalls
begin

text \<open>
  The agent's side of the protocol: \<open>handlers.rs\<close> and the dispatch of \<open>main.rs\<close>. A reply is an
  entry of the agent's outbox under the request's id. The parsers of the JSON fields, the zip
  reader and the host's statistics are the fields of \<open>agent_externals\<close>. A chunked upload is the
  list of the chunks routed to its task.
\<close>

section \<open>Replies\<close>

record agent_externals =
  ax_run_parse :: "string \<Rightarrow> string + run_config"
  ax_env_parse :: "string \<Rightarrow> string + env_var list"
  ax_zip_read :: "string \<Rightarrow> string + archive_entry list"
  ax_host_stats :: "path \<Rightarrow> string + host_stats"

definition agent_error_msg :: "agent_error_kind \<Rightarrow> string \<Rightarrow> agent_error" where
  "agent_error_msg kind message = \<lparr>ae_kind = kind_to_i32 kind, ae_message = message\<rparr>"

definition command_result_ok :: command_result where
  "command_result_ok = CrOk"

definition command_result_err :: "agent_error_kind \<Rightarrow> string \<Rightarrow> command_result" where
  "command_result_err kind message = CrError (agent_error_msg kind message)"

definition start_error_to_command_result :: "start_error \<Rightarrow> command_result" where
  "start_error_to_command_result err =
     (case err of
        SeUnavailable msg \<Rightarrow> command_result_err KUnavailable msg
      | SeStartFailed msg \<Rightarrow> command_result_err KStartFailed msg
      | SeCommandFailed msg \<Rightarrow> command_result_err KCommandFailed msg)"

definition send :: "u64 \<Rightarrow> agent_payload \<Rightarrow> ('d, 'e, unit) agent_comp" where
  "send request_id payload = modify (\<lambda>s. s\<lparr>outbox := outbox s @ [(request_id, payload)]\<rparr>)"

definition send_final :: "u64 \<Rightarrow> (command_output \<Rightarrow> agent_payload) \<Rightarrow> command_result \<Rightarrow> ('d, 'e, unit) agent_comp" where
  "send_final request_id wrap result = send request_id (wrap (CoResult result))"

definition log_forwarder :: "u64 \<Rightarrow> (command_output \<Rightarrow> agent_payload) \<Rightarrow> ('d, start_error) log_sink" where
  "log_forwarder request_id wrap bytes = send request_id (wrap (CoLog \<lparr>ch_data = bytes, ch_is_final = False\<rparr>))"

definition stream_command ::
  "u64 \<Rightarrow> (command_output \<Rightarrow> agent_payload) \<Rightarrow> (('d, start_error) log_sink option \<Rightarrow> ('d, start_error, unit) agent_comp)
    \<Rightarrow> ('d, 'e, unit) agent_comp" where
  "stream_command request_id wrap run =
     bindc (attempt (run (Some (log_forwarder request_id wrap)))) (\<lambda>result.
     send_final request_id wrap
       (case result of Inr _ \<Rightarrow> command_result_ok | Inl err \<Rightarrow> start_error_to_command_result err))"

section \<open>Containers\<close>

definition handle_start_run_container ::
  "'d engine \<Rightarrow> agent_externals \<Rightarrow> path \<Rightarrow> start_run_container_request \<Rightarrow> u64 \<Rightarrow> ('d, 'e, unit) agent_comp" where
  "handle_start_run_container e x dir req request_id =
     (case ax_run_parse x (sr_run_config_json req) of
        Inl err \<Rightarrow> send_final request_id StartRunContainerResult (command_result_err KStartFailed err)
      | Inr run \<Rightarrow>
         (case ax_env_parse x (sr_env_vars_json req) of
            Inl err \<Rightarrow> send_final request_id StartRunContainerResult (command_result_err KStartFailed err)
          | Inr env_vars \<Rightarrow>
              stream_command request_id StartRunContainerResult
                (start_container e (sr_container_name req)
                   (path_display (deployment_files_dir_in dir (sr_deployment_id req)))
                   \<lparr>rcc_image = image_tag (rc_image run), rcc_install_command = rc_install_command run,
                    rcc_start_command = rc_start_command run, rcc_env_vars = env_vars,
                    rcc_install_timeout = sr_install_timeout_secs req\<rparr>)))"

definition handle_run_build_command ::
  "'d engine \<Rightarrow> agent_externals \<Rightarrow> run_build_command_request \<Rightarrow> u64 \<Rightarrow> ('d, 'e, unit) agent_comp" where
  "handle_run_build_command e x req request_id =
     (case ax_env_parse x (rb_env_vars_json req) of
        Inl err \<Rightarrow> send_final request_id RunBuildCommandResult (command_result_err KStartFailed err)
      | Inr env_vars \<Rightarrow>
          stream_command request_id RunBuildCommandResult
            (run_build_command_container e (rb_container_name req) (rb_checkout_dir req)
               \<lparr>ce_image = rb_image req, ce_command = rb_command req, ce_env_vars = env_vars,
                ce_timeout = rb_timeout_secs req\<rparr>))"

text \<open>A result that is turned into a value of the reply.\<close>

definition reply_of :: "('e1 \<Rightarrow> 'b) \<Rightarrow> ('a \<Rightarrow> 'b) \<Rightarrow> ('s, 'e1, 'a) comp \<Rightarrow> ('s, 'e, 'b) comp" where
  "reply_of on_err on_ok m = bindc (attempt m) (\<lambda>r. ret (case r of Inl err \<Rightarrow> on_err err | Inr a \<Rightarrow> on_ok a))"

definition handle_stop_and_remove :: "'d engine \<Rightarrow> string \<Rightarrow> bool \<Rightarrow> ('d, 'e, command_result) agent_comp" where
  "handle_stop_and_remove e name is_install =
     (let name = if is_install then install_container_name name else name in
      reply_of (command_result_err KUnavailable) (\<lambda>_. command_result_ok) (stop_and_remove_container e name))"

definition handle_is_running :: "'d engine \<Rightarrow> string \<Rightarrow> ('d, 'e, is_running_result) agent_comp" where
  "handle_is_running e name =
     reply_of (\<lambda>msg. IrError (agent_error_msg KUnavailable msg)) IrOk (container_running e name)"

definition handle_container_stats :: "'d engine \<Rightarrow> string \<Rightarrow> ('d, 'e, container_stats_result) agent_comp" where
  "handle_container_stats e name =
     reply_of (\<lambda>msg. CsError (agent_error_msg KUnavailable msg)) CsOk (container_stats_of e name)"

definition handle_host_stats :: "agent_externals \<Rightarrow> path \<Rightarrow> host_stats_result" where
  "handle_host_stats x dir = (case ax_host_stats x dir of Inr st \<Rightarrow> HsOk st | Inl err \<Rightarrow> HsError err)"

fun send_log_chunks :: "u64 \<Rightarrow> (string + string) list \<Rightarrow> ('d, 'e, unit) agent_comp" where
  "send_log_chunks request_id [] = ret ()"
| "send_log_chunks request_id (Inl err # cs) = ret ()"
| "send_log_chunks request_id (Inr chunk # cs) =
     bindc (send request_id (StreamContainerLogsChunk \<lparr>ch_data = chunk, ch_is_final = False\<rparr>)) (\<lambda>_.
     send_log_chunks request_id cs)"

definition handle_stream_logs :: "'d engine \<Rightarrow> string \<Rightarrow> bool \<Rightarrow> u64 \<Rightarrow> ('d, 'e, unit) agent_comp" where
  "handle_stream_logs e name follow request_id =
     bindc (container_logs e name follow) (\<lambda>source.
     bindc (send_log_chunks request_id source) (\<lambda>_.
     send request_id (StreamContainerLogsChunk \<lparr>ch_data = [], ch_is_final = True\<rparr>)))"

section \<open>Directories and uploads\<close>

definition handle_create_dir :: "path \<Rightarrow> string \<Rightarrow> ('d, 'e, command_result) agent_comp" where
  "handle_create_dir dir did =
     reply_of (command_result_err KUnavailable) (\<lambda>_. command_result_ok) (create_deployment_dir_fs dir did)"

definition handle_delete_dir :: "path \<Rightarrow> string \<Rightarrow> ('d, 'e, command_result) agent_comp" where
  "handle_delete_dir dir did =
     reply_of (command_result_err KUnavailable) (\<lambda>_. command_result_ok) (delete_deployment_dir_fs dir did)"

definition handle_list_dirs :: "path \<Rightarrow> ('d, 'e, list_dirs_result) agent_comp" where
  "handle_list_dirs dir =
     reply_of (\<lambda>msg. LdError (agent_error_msg KUnavailable msg)) LdOk (list_deployment_dirs_fs dir)"

fun receive_chunks :: "path \<Rightarrow> chunk list \<Rightarrow> ('z machine_scheme, string, unit) comp" where
  "receive_chunks zip_path [] = throw ''hub closed the upload stream before sending a final chunk''"
| "receive_chunks zip_path (c # cs) =
     bindc (sio (append_file zip_path (ch_data c))) (\<lambda>_.
     if ch_is_final c then ret () else receive_chunks zip_path cs)"

definition receive_zip :: "path \<Rightarrow> chunk list \<Rightarrow> ('z machine_scheme, string, unit) comp" where
  "receive_zip zip_path cs =
     bindc (sio (write_file zip_path [])) (\<lambda>_. receive_chunks zip_path cs)"

definition upload_zip_path :: "path \<Rightarrow> string \<Rightarrow> path" where
  "upload_zip_path dir did = tmp_dir_in dir @ [''upload-'' @ did @ ''.zip'']"

definition handle_upload ::
  "agent_externals \<Rightarrow> path \<Rightarrow> string \<Rightarrow> u64 \<Rightarrow> chunk list \<Rightarrow> u64 \<Rightarrow> ('d, 'e, unit) agent_comp" where
  "handle_upload x dir did max_uncompressed_bytes cs request_id =
     (let zip_path = upload_zip_path dir did in
      bindc (attempt
        (bindc (receive_zip zip_path cs) (\<lambda>_.
         extract_and_place (ax_zip_read x) dir did zip_path max_uncompressed_bytes))) (\<lambda>result.
      bindc (ignore (remove_file zip_path)) (\<lambda>_.
      send request_id (UploadZipAndExtractResult
        (case result of Inr n \<Rightarrow> UpSize n | Inl msg \<Rightarrow> UpError (agent_error_msg KCommandFailed msg))))))"

section \<open>Dispatch\<close>

definition handle_request ::
  "'d engine \<Rightarrow> agent_externals \<Rightarrow> path \<Rightarrow> u64 \<Rightarrow> hub_payload \<Rightarrow> ('d, 'e, unit) agent_comp" where
  "handle_request e x dir request_id payload =
     (case payload of
        GetHostStats \<Rightarrow> send request_id (HostStatsResult (handle_host_stats x dir))
      | StartRunContainer req \<Rightarrow> handle_start_run_container e x dir req request_id
      | RunBuildCommand req \<Rightarrow> handle_run_build_command e x req request_id
      | StreamContainerLogs name follow \<Rightarrow> handle_stream_logs e name follow request_id
      | StopAndRemoveContainer name is_install \<Rightarrow>
          bindc (handle_stop_and_remove e name is_install) (\<lambda>r. send request_id (StopAndRemoveContainerResult r))
      | IsContainerRunning name \<Rightarrow>
          bindc (handle_is_running e name) (\<lambda>r. send request_id (IsContainerRunningResult r))
      | ContainerStatsReq name \<Rightarrow>
          bindc (handle_container_stats e name) (\<lambda>r. send request_id (ContainerStatsResult r))
      | CreateDeploymentDir did \<Rightarrow>
          bindc (handle_create_dir dir did) (\<lambda>r. send request_id (CreateDeploymentDirResult r))
      | DeleteDeploymentDir did \<Rightarrow>
          bindc (handle_delete_dir dir did) (\<lambda>r. send request_id (DeleteDeploymentDirResult r))
      | ListDeploymentDirs \<Rightarrow>
          bindc (handle_list_dirs dir) (\<lambda>r. send request_id (ListDeploymentDirsResult r))
      | UploadZipAndExtract did mx c \<Rightarrow> ret ()
      | RelayHttpRequest r \<Rightarrow> ret ()
      | EchoUpload c \<Rightarrow> ret ()
      | EchoStreamRequest n \<Rightarrow> ret ())"

text \<open>
  The uploads in flight: for each request the id and the limit its first message named and the
  chunks routed to its task, in order. \<open>finish_upload\<close> is the end of the task.
\<close>

record upload_task =
  ut_deployment_id :: string
  ut_max_uncompressed_bytes :: u64
  ut_chunks :: "chunk list"

type_synonym in_flight_uploads = "u64 \<rightharpoonup> upload_task"

definition route_upload_chunk ::
  "u64 \<Rightarrow> string \<times> u64 \<times> chunk option \<Rightarrow> in_flight_uploads \<Rightarrow> in_flight_uploads" where
  "route_upload_chunk request_id req in_flight =
     (case req of (did, mx, c) \<Rightarrow>
       (case in_flight request_id of
          Some task \<Rightarrow>
            (case c of
               Some chunk \<Rightarrow> in_flight(request_id \<mapsto> task\<lparr>ut_chunks := ut_chunks task @ [chunk]\<rparr>)
             | None \<Rightarrow> in_flight)
        | None \<Rightarrow>
            in_flight(request_id \<mapsto> \<lparr>ut_deployment_id = did, ut_max_uncompressed_bytes = mx,
              ut_chunks = (case c of Some chunk \<Rightarrow> [chunk] | None \<Rightarrow> [])\<rparr>)))"

definition finish_upload :: "u64 \<Rightarrow> in_flight_uploads \<Rightarrow> in_flight_uploads" where
  "finish_upload request_id in_flight = in_flight(request_id := None)"

definition run_upload_task ::
  "agent_externals \<Rightarrow> path \<Rightarrow> u64 \<Rightarrow> upload_task \<Rightarrow> ('d, 'e, unit) agent_comp" where
  "run_upload_task x dir request_id task =
     handle_upload x dir (ut_deployment_id task) (ut_max_uncompressed_bytes task) (ut_chunks task) request_id"

end
