(* ===== verification/Http.thy ===== *)
theory Http
  imports Proto
begin

text \<open>
  HTTP messages as \<open>routes/apps.rs\<close> of the hub and \<open>relay.rs\<close> of the agent see them, and what both
  use of the crates \<open>http\<close>, \<open>hyper\<close> and \<open>tower-http\<close>: the fields of \<open>http_lib\<close>. Header names are
  the lower-case text of a \<open>HeaderName\<close>, values their bytes; a header map is its iteration order.
\<close>

type_synonym header_map = "(string \<times> string) list"

text \<open>A body is the frames it yields, each one data or the error that ends it.\<close>

record http_request =
  hq_method :: string
  hq_path_and_query :: "string option"
  hq_authority :: "string option"
  hq_headers :: header_map
  hq_body :: "(string + string) list"

text \<open>
  The answer to a browser: \<open>hp_body\<close> the data it is sent, \<open>hp_pump\<close> the agent's further replies
  when the connection is handed to a byte pump.
\<close>

record http_response =
  hp_status :: nat
  hp_headers :: header_map
  hp_body :: "string list"
  hp_pump :: "agent_payload list option"

record http_lib =
  hl_to_str :: "string \<Rightarrow> string option"
  hl_header_check :: "string \<Rightarrow> string \<Rightarrow> string + unit"
  hl_status_ok :: "nat \<Rightarrow> bool"
  hl_parse_uri :: "string \<Rightarrow> string + string"
  hl_parse_method :: "string \<Rightarrow> string + string"

definition not_found_response :: http_response where
  "not_found_response = \<lparr>hp_status = 404, hp_headers = [], hp_body = [], hp_pump = None\<rparr>"

definition internal_error_response :: http_response where
  "internal_error_response = \<lparr>hp_status = 500, hp_headers = [], hp_body = [], hp_pump = None\<rparr>"

definition bad_gateway :: http_response where
  "bad_gateway = \<lparr>hp_status = 502, hp_headers = [], hp_body = [], hp_pump = None\<rparr>"

text \<open>The headers both sides put in a head: those whose value is text.\<close>

fun header_fields :: "http_lib \<Rightarrow> header_map \<Rightarrow> http_header list" where
  "header_fields lib [] = []"
| "header_fields lib ((n, v) # hs) =
     (case hl_to_str lib v of
        Some text \<Rightarrow> \<lparr>hh_name = n, hh_value = text\<rparr> # header_fields lib hs
      | None \<Rightarrow> header_fields lib hs)"

text \<open>A builder given every header in turn reports the first it cannot take.\<close>

fun build_headers :: "http_lib \<Rightarrow> http_header list \<Rightarrow> string + header_map" where
  "build_headers lib [] = Inr []"
| "build_headers lib (h # hs) =
     (case hl_header_check lib (hh_name h) (hh_value h) of
        Inl err \<Rightarrow> Inl err
      | Inr _ \<Rightarrow>
         (case build_headers lib hs of
            Inl err \<Rightarrow> Inl err
          | Inr m \<Rightarrow> Inr ((hh_name h, hh_value h) # m)))"

definition switching_protocols :: nat where "switching_protocols = 101"

definition token_is_upgrade :: "string \<Rightarrow> bool" where
  "token_is_upgrade value = list_ex (\<lambda>token. eq_ignore_ascii_case (trim token) ''upgrade'') (split_on CHR '','' value)"

text \<open>The hub's test reads the first \<open>Connection\<close> header, the agent's reads all of them.\<close>

definition is_upgrade_request :: "http_lib \<Rightarrow> header_map \<Rightarrow> bool" where
  "is_upgrade_request lib headers \<longleftrightarrow>
     list_ex (\<lambda>(n, v). n = ''upgrade'') headers
     \<and> (case find (\<lambda>(n, v). n = ''connection'') headers of
          None \<Rightarrow> False
        | Some (n, v) \<Rightarrow> (case hl_to_str lib v of None \<Rightarrow> False | Some value \<Rightarrow> token_is_upgrade value))"

definition is_upgrade_head :: "http_header list \<Rightarrow> bool" where
  "is_upgrade_head headers \<longleftrightarrow>
     list_ex (\<lambda>h. eq_ignore_ascii_case (hh_name h) ''upgrade'') headers
     \<and> list_ex (\<lambda>h. eq_ignore_ascii_case (hh_name h) ''connection'' \<and> token_is_upgrade (hh_value h)) headers"

text \<open>What a browser that sends ordinary headers relies on.\<close>

definition plain_headers :: "http_lib \<Rightarrow> header_map \<Rightarrow> bool" where
  "plain_headers lib headers \<longleftrightarrow>
     (\<forall>(n, v)\<in>set headers. hl_to_str lib v = Some v \<and> hl_header_check lib n v = Inr () \<and> to_lowercase n = n)"

lemma header_fields_plain:
  "plain_headers lib hs \<Longrightarrow> header_fields lib hs = map (\<lambda>(n, v). \<lparr>hh_name = n, hh_value = v\<rparr>) hs"
  by (induction lib hs rule: header_fields.induct) (auto simp: plain_headers_def)

lemma build_header_fields: "plain_headers lib hs \<Longrightarrow> build_headers lib (header_fields lib hs) = Inr hs"
  by (induction lib hs rule: header_fields.induct) (auto simp: plain_headers_def)

text \<open>With one \<open>Connection\<close> header at most, both sides agree on what an upgrade is.\<close>

lemma upgrade_tests_agree:
  assumes "plain_headers lib hs" and "length (filter (\<lambda>(n, v). n = ''connection'') hs) \<le> 1"
  shows "is_upgrade_head (header_fields lib hs) \<longleftrightarrow> is_upgrade_request lib hs"
proof -
  have low: "to_lowercase n = n" if "(n, v) \<in> set hs" for n v
    using assms(1) that by (auto simp: plain_headers_def)
  have "to_lowercase ''upgrade'' = ''upgrade''" "to_lowercase ''connection'' = ''connection''"
    by (simp_all add: to_lowercase_id is_ascii_uppercase_def)
  then have name: "eq_ignore_ascii_case n ''upgrade'' \<longleftrightarrow> n = ''upgrade''"
    "eq_ignore_ascii_case n ''connection'' \<longleftrightarrow> n = ''connection''" if "(n, v) \<in> set hs" for n v
    using low [OF that] by (simp_all add: eq_ignore_ascii_case_def)
  have one: "(\<exists>(n, v)\<in>set hs. n = ''connection'' \<and> token_is_upgrade v)
      \<longleftrightarrow> (case find (\<lambda>(n, v). n = ''connection'') hs of None \<Rightarrow> False | Some (n, v) \<Rightarrow> token_is_upgrade v)"
    using assms(2)
  proof (induction hs)
    case (Cons h hs)
    obtain n v where h: "h = (n, v)" by fastforce
    show ?case
    proof (cases "n = ''connection''")
      case True
      then have "filter (\<lambda>(n, v). n = ''connection'') hs = []" using Cons.prems h by simp
      then have "\<not> (\<exists>(n, v)\<in>set hs. n = ''connection'' \<and> token_is_upgrade v)"
        by (auto simp: filter_empty_conv)
      then show ?thesis using True by (auto simp: h)
    qed (use Cons h in auto)
  qed simp
  have val: "hl_to_str lib v = Some v" if "find (\<lambda>(n, v). n = ''connection'') hs = Some (n, v)" for n v
    using assms(1) find_SomeD [OF that] by (auto simp: plain_headers_def)
  have "is_upgrade_head (header_fields lib hs) \<longleftrightarrow>
      list_ex (\<lambda>(n, v). n = ''upgrade'') hs \<and> (\<exists>(n, v)\<in>set hs. n = ''connection'' \<and> token_is_upgrade v)"
    using name unfolding header_fields_plain [OF assms(1)] is_upgrade_head_def list_ex_iff
    by (auto simp: Bex_def) (metis name(2))+
  also have "\<dots> \<longleftrightarrow> is_upgrade_request lib hs"
    unfolding is_upgrade_request_def one using val by (auto split: option.splits)
  finally show ?thesis .
qed

end
