(* ===== verification/Relay.thy ===== *)
theory Relay
  imports AgentHandlers Http
begin

text \<open>
  The agent's end of a relayed request: \<open>relay.rs\<close>. A task is the head that started it and the
  chunks routed to it. The container's HTTP server is reached through \<open>relay_client\<close>, a function
  on the engine's state; a connection that switched protocols is the reads the container makes
  possible and the number of writes it accepts.
\<close>

section \<open>The client\<close>

record outgoing =
  og_method :: string
  og_uri :: string
  og_headers :: header_map
  og_body :: "string list"

record container_response =
  cr_status :: nat
  cr_headers :: header_map
  cr_body :: "(string + string option) list"
  cr_upgraded :: "string + nat \<times> string list"

record 'd relay_client =
  rc_http :: http_lib
  rc_request :: "outgoing \<Rightarrow> 'd \<Rightarrow> (string + container_response) \<times> 'd"
  rc_deliver :: "string list \<Rightarrow> 'd \<Rightarrow> 'd"

definition unavailable :: "string \<Rightarrow> agent_error" where
  "unavailable message = agent_error_msg KUnavailable message"

definition http_call :: "'d relay_client \<Rightarrow> outgoing \<Rightarrow> ('d, agent_error, container_response) agent_comp" where
  "http_call c request = map_err unavailable (ext_call (\<lambda>m. m) (\<lambda>s.
     case rc_request c request (docker s) of (r, d) \<Rightarrow>
       (case r of Inl e \<Rightarrow> Fail e | Inr a \<Rightarrow> Done a, s\<lparr>docker := d\<rparr>)))"

section \<open>Requests and responses\<close>

text \<open>The frames of the request body: every chunk up to the final one.\<close>

fun request_body :: "chunk list \<Rightarrow> string list" where
  "request_body [] = []"
| "request_body (c # cs) = ch_data c # (if ch_is_final c then [] else request_body cs)"

definition send_response :: "u64 \<Rightarrow> relay_response \<Rightarrow> ('d, 'e, unit) agent_comp" where
  "send_response request_id part = send request_id (RelayHttpResponse part)"

definition response_head_payload :: "http_lib \<Rightarrow> container_response \<Rightarrow> relay_response" where
  "response_head_payload lib response =
     RsHead \<lparr>rs_status = of_nat (cr_status response), rs_headers = header_fields lib (cr_headers response)\<rparr>"

fun body_data :: "(string + string option) list \<Rightarrow> string list" where
  "body_data [] = []"
| "body_data (Inl err # rest) = []"
| "body_data (Inr None # rest) = body_data rest"
| "body_data (Inr (Some data) # rest) = data # body_data rest"

text \<open>Data as chunks that are not final, then the empty final chunk.\<close>

definition send_chunks :: "u64 \<Rightarrow> string list \<Rightarrow> ('d, 'e, unit) agent_comp" where
  "send_chunks request_id datas =
     bindc (forc datas (\<lambda>data. send_response request_id (RsBody \<lparr>ch_data = data, ch_is_final = False\<rparr>))) (\<lambda>_.
     send_response request_id (RsBody \<lparr>ch_data = [], ch_is_final = True\<rparr>))"

definition stream_response_body :: "u64 \<Rightarrow> container_response \<Rightarrow> ('d, 'e, unit) agent_comp" where
  "stream_response_body request_id response = send_chunks request_id (body_data (cr_body response))"

text \<open>What reaches a peer that accepts a number of writes: data up to the final chunk, empty data skipped.\<close>

fun pump_writes :: "nat \<Rightarrow> chunk list \<Rightarrow> string list" where
  "pump_writes n [] = []"
| "pump_writes n (c # cs) =
     (if ch_data c = [] then (if ch_is_final c then [] else pump_writes n cs)
      else case n of
        0 \<Rightarrow> []
      | Suc m \<Rightarrow> ch_data c # (if ch_is_final c then [] else pump_writes m cs))"

definition pump_upgraded_connection ::
  "'d relay_client \<Rightarrow> container_response \<Rightarrow> chunk list \<Rightarrow> u64 \<Rightarrow> ('d, agent_error, unit) agent_comp" where
  "pump_upgraded_connection c response cs request_id =
     bindc (map_err unavailable (from_sum (cr_upgraded response))) (\<lambda>(accepted, reads).
     bindc (send_chunks request_id reads) (\<lambda>_.
     modify (\<lambda>s. s\<lparr>docker := rc_deliver c (pump_writes accepted cs) (docker s)\<rparr>)))"

definition proxy_upgrade ::
  "'d relay_client \<Rightarrow> string \<Rightarrow> string \<Rightarrow> relay_request_head \<Rightarrow> chunk list \<Rightarrow> u64 \<Rightarrow> ('d, agent_error, unit) agent_comp" where
  "proxy_upgrade c uri verb head cs request_id =
     bindc (map_err unavailable (from_sum (build_headers (rc_http c) (rq_headers head)))) (\<lambda>headers.
     bindc (http_call c \<lparr>og_method = verb, og_uri = uri, og_headers = headers, og_body = []\<rparr>) (\<lambda>response.
     bindc (send_response request_id (response_head_payload (rc_http c) response)) (\<lambda>_.
     if cr_status response \<noteq> switching_protocols then stream_response_body request_id response
     else pump_upgraded_connection c response cs request_id)))"

definition proxy_to_ip ::
  "'d relay_client \<Rightarrow> string \<Rightarrow> relay_request_head \<Rightarrow> chunk list \<Rightarrow> u64 \<Rightarrow> ('d, agent_error, unit) agent_comp" where
  "proxy_to_ip c ip head cs request_id =
     bindc (map_err unavailable (from_sum (hl_parse_uri (rc_http c)
       (''http://'' @ ip @ '':'' @ show_nat (unat (rq_container_port head)) @ rq_path head)))) (\<lambda>uri.
     bindc (map_err unavailable (from_sum (hl_parse_method (rc_http c) (rq_method head)))) (\<lambda>verb.
     if is_upgrade_head (rq_headers head) then proxy_upgrade c uri verb head cs request_id
     else
       bindc (map_err unavailable (from_sum (build_headers (rc_http c) (rq_headers head)))) (\<lambda>headers.
       bindc (http_call c \<lparr>og_method = verb, og_uri = uri, og_headers = headers, og_body = request_body cs\<rparr>) (\<lambda>response.
       bindc (send_response request_id (response_head_payload (rc_http c) response)) (\<lambda>_.
       stream_response_body request_id response)))))"

definition proxy ::
  "'d engine \<Rightarrow> 'd relay_client \<Rightarrow> relay_request_head \<Rightarrow> chunk list \<Rightarrow> u64 \<Rightarrow> ('d, agent_error, unit) agent_comp" where
  "proxy e c head cs request_id =
     bindc (map_err unavailable (container_ip e (rq_container_name head))) (\<lambda>r.
     bindc (ok_or (unavailable (''container '' @ rq_container_name head @ '' has no IP yet'')) r) (\<lambda>ip.
     proxy_to_ip c ip head cs request_id))"

definition serve_relayed_request ::
  "'d engine \<Rightarrow> 'd relay_client \<Rightarrow> u64 \<Rightarrow> relay_request_head \<Rightarrow> chunk list \<Rightarrow> ('d, 'e, unit) agent_comp" where
  "serve_relayed_request e c request_id head cs =
     bindc (attempt (proxy e c head cs request_id)) (\<lambda>r.
     case r of
       Inr _ \<Rightarrow> ret ()
     | Inl err \<Rightarrow> send_response request_id (RsError err))"

section \<open>Routing\<close>

record relay_task =
  rt_head :: relay_request_head
  rt_chunks :: "chunk list"

type_synonym in_flight_relays = "u64 \<rightharpoonup> relay_task"

definition route_relay_message :: "u64 \<Rightarrow> relay_request \<Rightarrow> in_flight_relays \<Rightarrow> in_flight_relays" where
  "route_relay_message request_id message in_flight =
     (case message of
        RqHead head \<Rightarrow> in_flight(request_id \<mapsto> \<lparr>rt_head = head, rt_chunks = []\<rparr>)
      | RqBody chunk \<Rightarrow>
         (case in_flight request_id of
            Some task \<Rightarrow> in_flight(request_id \<mapsto> task\<lparr>rt_chunks := rt_chunks task @ [chunk]\<rparr>)
          | None \<Rightarrow> in_flight)
      | RqNone \<Rightarrow> in_flight)"

text \<open>The end of a task.\<close>

definition finish_relay :: "u64 \<Rightarrow> in_flight_relays \<Rightarrow> in_flight_relays" where
  "finish_relay request_id in_flight = in_flight(request_id := None)"

section \<open>Facts\<close>

lemma route_body_chunks:
  assumes "in_flight i = Some task"
  shows "fold (\<lambda>c. route_relay_message i (RqBody c)) cs in_flight i = Some (task\<lparr>rt_chunks := rt_chunks task @ cs\<rparr>)"
  using assms
proof (induction cs arbitrary: in_flight task)
  case (Cons c cs)
  have "route_relay_message i (RqBody c) in_flight i = Some (task\<lparr>rt_chunks := rt_chunks task @ [c]\<rparr>)"
    using Cons.prems by (simp add: route_relay_message_def)
  then show ?case by (simp add: Cons.IH [where task = "task\<lparr>rt_chunks := rt_chunks task @ [c]\<rparr>"])
qed simp

lemma request_body_chunks:
  "request_body (map (\<lambda>d. \<lparr>ch_data = d, ch_is_final = False\<rparr>) ds @ [\<lparr>ch_data = [], ch_is_final = True\<rparr>]) = ds @ [[]]"
  by (induction ds) simp_all

lemma send_response_run [comp_simps]:
  "send_response i part s = (Done (), s\<lparr>outbox := outbox s @ [(i, RelayHttpResponse part)]\<rparr>)"
  by (simp add: send_response_def send_def modify_def)

definition chunk_replies :: "string list \<Rightarrow> agent_payload list" where
  "chunk_replies ds = map (\<lambda>d. RelayHttpResponse (RsBody \<lparr>ch_data = d, ch_is_final = False\<rparr>)) ds
     @ [RelayHttpResponse (RsBody \<lparr>ch_data = [], ch_is_final = True\<rparr>)]"

lemma send_data_run:
  "forc ds (\<lambda>d. send_response i (RsBody \<lparr>ch_data = d, ch_is_final = False\<rparr>)) s
    = (Done (), s\<lparr>outbox := outbox s @ map (\<lambda>d. (i, RelayHttpResponse (RsBody \<lparr>ch_data = d, ch_is_final = False\<rparr>))) ds\<rparr>)"
  by (induction ds arbitrary: s) (simp_all add: comp_simps)

lemma send_chunks_run: "send_chunks i ds s = (Done (), s\<lparr>outbox := outbox s @ map (Pair i) (chunk_replies ds)\<rparr>)"
  unfolding send_chunks_def chunk_replies_def by (simp add: bindc_def send_response_run send_data_run o_def)

text \<open>The answer to an ordinary request, when the container is up and the client is not disturbed.\<close>

lemma proxy_run:
  assumes "faults a = []" and "e_inspect_container e (rq_container_name head) (docker a) = (Inr inspect, d1)"
    and "in_networks inspect = Some nets" and "nets network_name = Some (Some ip)" and "ip \<noteq> []"
    and "hl_parse_uri (rc_http c) (''http://'' @ ip @ '':'' @ show_nat (unat (rq_container_port head)) @ rq_path head) = Inr uri"
    and "hl_parse_method (rc_http c) (rq_method head) = Inr verb" and "\<not> is_upgrade_head (rq_headers head)"
    and "build_headers (rc_http c) (rq_headers head) = Inr headers"
    and "rc_request c \<lparr>og_method = verb, og_uri = uri, og_headers = headers, og_body = request_body cs\<rparr> d1 = (Inr response, d2)"
  shows "serve_relayed_request e c i head cs a = (Done (),
    a\<lparr>docker := d2, outbox := outbox a @ map (Pair i)
        (RelayHttpResponse (response_head_payload (rc_http c) response) # chunk_replies (body_data (cr_body response)))\<rparr>)"
proof -
  have ip: "container_ip e (rq_container_name head) a = (Done (Some ip), a\<lparr>docker := d1\<rparr>)"
    using assms(1-5) by (simp add: container_ip_def bindc_def map_err_def engine_call_def ext_call_def ret_def)
  have call: "http_call c \<lparr>og_method = verb, og_uri = uri, og_headers = headers, og_body = request_body cs\<rparr> (a\<lparr>docker := d1\<rparr>)
      = (Done response, a\<lparr>docker := d2\<rparr>)"
    using assms(1,10) by (simp add: http_call_def map_err_def ext_call_def)
  have "proxy e c head cs i a = proxy_to_ip c ip head cs i (a\<lparr>docker := d1\<rparr>)"
    by (simp add: proxy_def bindc_def map_err_def ip ok_or_def ret_def)
  also have "\<dots> = (Done (), a\<lparr>docker := d2, outbox := outbox a @ map (Pair i)
        (RelayHttpResponse (response_head_payload (rc_http c) response) # chunk_replies (body_data (cr_body response)))\<rparr>)"
    using assms(6-9) call
    by (simp add: proxy_to_ip_def bindc_def map_err_def from_sum_def ret_def send_response_run stream_response_body_def send_chunks_run)
  finally show ?thesis by (simp add: serve_relayed_request_def bindc_def attempt_def ret_def)
qed

end
