(* ===== verification/AgentMain.thy ===== *)
theory AgentMain
  imports Relay
begin

text \<open>
  The agent's process: the certificate pin of \<open>hub_tls.rs\<close>, and from \<open>main.rs\<close> a session with the
  hub - dialling it, opening the session, sending each message to its task - and the loop that
  reconnects. What the agent meets when it dials is a \<open>hub_peer\<close>. The work of the tasks a session
  starts is \<open>handle_request\<close>, \<open>run_upload_task\<close> and \<open>serve_relayed_request\<close>.
\<close>

section \<open>The certificate pin\<close>

definition pin_path :: "path \<Rightarrow> path" where
  "pin_path dir = dir @ [''hub-tls-fingerprint.txt'']"

text \<open>\<open>fs::read_to_string(..).ok()\<close>: whatever the reason, a file that cannot be read is no pin.\<close>

definition expected_fingerprint :: "path \<Rightarrow> string option \<Rightarrow> ('d, 'e, string option) agent_comp" where
  "expected_fingerprint dir configured =
     (case configured of
        Some pinned \<Rightarrow> ret (Some (to_lowercase (trim pinned)))
      | None \<Rightarrow>
         bindc (attempt (read_to_string (pin_path dir))) (\<lambda>r.
         ret (case r of Inl _ \<Rightarrow> None | Inr contents \<Rightarrow> Some (trim contents))))"

definition persist_fingerprint :: "path \<Rightarrow> string \<Rightarrow> ('d, io_error, unit) agent_comp" where
  "persist_fingerprint dir fingerprint = write_file (pin_path dir) fingerprint"

definition hex_digits :: string where "hex_digits = ''0123456789abcdef''"

definition hex_byte :: "char \<Rightarrow> string" where
  "hex_byte c = [hex_digits ! (code c div 16), hex_digits ! (code c mod 16)]"

definition hex_sha256 :: "(string \<Rightarrow> string) \<Rightarrow> string \<Rightarrow> string" where
  "hex_sha256 sha256 der = concat (map hex_byte (sha256 der))"

text \<open>An error, or the fingerprint the verifier captured.\<close>

definition verify_server_cert :: "(string \<Rightarrow> string) \<Rightarrow> string option \<Rightarrow> string \<Rightarrow> string + string" where
  "verify_server_cert sha256 expected end_entity =
     (let actual = hex_sha256 sha256 end_entity in
      case expected of
        Some e \<Rightarrow>
          (if e \<noteq> actual
           then Inl (''hub certificate fingerprint mismatch (expected '' @ e @ '', got '' @ actual @ '')'')
           else Inr actual)
      | None \<Rightarrow> Inr actual)"

section \<open>A session\<close>

text \<open>The maps and the requests handed to tasks of their own.\<close>

record session_state =
  in_flight_uploads :: in_flight_uploads
  in_flight_relays :: in_flight_relays
  requests :: "(u64 \<times> hub_payload) list"

definition session_new :: session_state where
  "session_new = \<lparr>in_flight_uploads = Map.empty, in_flight_relays = Map.empty, requests = []\<rparr>"

definition receive_message :: "u64 \<times> hub_payload option \<Rightarrow> session_state \<Rightarrow> session_state" where
  "receive_message message st =
     (case message of
        (request_id, None) \<Rightarrow> st
      | (request_id, Some payload) \<Rightarrow>
         (case payload of
            UploadZipAndExtract did mx c \<Rightarrow>
              st\<lparr>in_flight_uploads := route_upload_chunk request_id (did, mx, c) (in_flight_uploads st)\<rparr>
          | RelayHttpRequest req \<Rightarrow>
              st\<lparr>in_flight_relays := route_relay_message request_id req (in_flight_relays st)\<rparr>
          | _ \<Rightarrow> st\<lparr>requests := requests st @ [(request_id, payload)]\<rparr>))"

text \<open>
  What answers when the agent dials: the certificate presented, if the connection gets that far;
  whether it then completes; the answer to the ping; the session's messages and how it ends.
\<close>

record hub_peer =
  pe_certificate :: "string + string"
  pe_connected :: "string + unit"
  pe_ping :: "string + string"
  pe_session :: "string + (u64 \<times> hub_payload option) list \<times> (string + unit)"

record agent_config =
  ac_data_dir :: path
  ac_hub_addr :: string
  ac_agent_token :: string
  ac_hub_tls_fingerprint :: "string option"

text \<open>The agent's crates: SHA-256, and whether a text is a valid metadata value.\<close>

record agent_lib =
  al_sha256 :: "string \<Rightarrow> string"
  al_metadata_ok :: "string \<Rightarrow> bool"

definition dial_hub ::
  "agent_lib \<Rightarrow> agent_config \<Rightarrow> path \<Rightarrow> hub_peer \<Rightarrow> ('d, string, (u64 \<times> hub_payload option) list \<times> (string + unit)) agent_comp" where
  "dial_hub lib config dir peer =
     bindc (expected_fingerprint dir (ac_hub_tls_fingerprint config)) (\<lambda>pinned_fingerprint.
     bindc (from_sum (pe_certificate peer)) (\<lambda>certificate.
     bindc (from_sum (verify_server_cert (al_sha256 lib) pinned_fingerprint certificate)) (\<lambda>fingerprint.
     bindc (from_sum (pe_connected peer)) (\<lambda>_.
     bindc (whenc (pinned_fingerprint = None)
       (map_err (\<lambda>_. ''failed to persist the hub'' @ [CHR 0x27] @ ''s TLS certificate fingerprint'') (persist_fingerprint dir fingerprint))) (\<lambda>_.
     bindc (from_sum (pe_ping peer)) (\<lambda>_.
     bindc (guardc (al_metadata_ok lib (''Bearer '' @ ac_agent_token config))
              (''agent_token isn'' @ [CHR 0x27] @ ''t a valid gRPC metadata value'')) (\<lambda>_.
     from_sum (pe_session peer))))))))"

definition initial_reconnect_delay :: nat where "initial_reconnect_delay = 1"

definition max_reconnect_delay :: nat where "max_reconnect_delay = 30"

text \<open>The result of the session with what it started, and the delay it leaves.\<close>

definition run_session ::
  "agent_lib \<Rightarrow> agent_config \<Rightarrow> path \<Rightarrow> hub_peer \<Rightarrow> nat \<Rightarrow> ('d, string, (string + session_state \<times> (string + unit)) \<times> nat) agent_comp" where
  "run_session lib config dir peer reconnect_delay =
     bindc (attempt (dial_hub lib config dir peer)) (\<lambda>r.
     ret (case r of
       Inl err \<Rightarrow> (Inl err, reconnect_delay)
     | Inr (messages, finish) \<Rightarrow> (Inr (fold receive_message messages session_new, finish), initial_reconnect_delay)))"

definition next_delay :: "nat \<Rightarrow> nat" where
  "next_delay reconnect_delay = min (reconnect_delay * 2) max_reconnect_delay"

text \<open>
  The loop of \<open>main\<close> for a number of attempts: at each time the hub is some peer and the attempt
  takes some seconds. The log says when each attempt was made and whether a session opened.
\<close>

primrec reconnect_loop ::
  "agent_lib \<Rightarrow> agent_config \<Rightarrow> path \<Rightarrow> (nat \<Rightarrow> hub_peer) \<Rightarrow> (nat \<Rightarrow> nat) \<Rightarrow> nat \<Rightarrow> nat \<Rightarrow> nat
    \<Rightarrow> ('d, string, (nat \<times> bool) list) agent_comp" where
  "reconnect_loop lib config dir hub_at lasts 0 now reconnect_delay = ret []"
| "reconnect_loop lib config dir hub_at lasts (Suc n) now reconnect_delay =
     bindc (run_session lib config dir (hub_at now) reconnect_delay) (\<lambda>(r, delay).
     bindc (reconnect_loop lib config dir hub_at lasts n (now + lasts now + delay) (next_delay delay)) (\<lambda>log.
     ret ((now, case r of Inl _ \<Rightarrow> False | Inr _ \<Rightarrow> True) # log)))"

end
