(* ===== verification/Startup.thy ===== *)
theory Startup
  imports UserSafety Consistency AgentMain
begin

text \<open>
  From a stopped process to a running hub: the configuration files (\<open>berth-config\<close>), the
  migrations (\<open>berth-db/src/lib.rs\<close>), the certificate of the agent link (\<open>agent_tls.rs\<close>), a fresh
  \<open>AppState\<close> and the sequence of \<open>main.rs\<close> up to the point where it listens. An error is the text of its
  outermost context. What TOML files parse to, the self-signed certificate made from random
  bytes and SHA-256 are parameters; the database opened is the one the state carries.
\<close>

section \<open>Configuration\<close>

datatype tls_config = TlsOff | TlsManual (tls_cert_path: path) (tls_key_path: path)

text \<open>A hub's configuration as written, where a field with a default may be left out.\<close>

record hub_toml =
  ht_data_dir :: path
  ht_admin_username :: string
  ht_admin_password :: string
  ht_base_domain :: string
  ht_max_upload_bytes :: "u64 option"
  ht_max_uncompressed_bytes :: "u64 option"
  ht_git_fetch_timeout_secs :: "u64 option"
  ht_install_timeout_secs :: "u64 option"
  ht_build_timeout_secs :: "u64 option"
  ht_api_token_max_expiry_days :: "int option"
  ht_enable_mcp :: "bool option"
  ht_tls :: "tls_config option"
  ht_http_port :: "u16 option"
  ht_https_port :: "u16 option"

record berth_config =
  bc_data_dir :: path
  bc_admin_username :: string
  bc_admin_password :: string
  bc_limits :: app_state_limits
  bc_tls :: tls_config
  bc_http_port :: u16
  bc_https_port :: u16

definition default_max_upload_bytes :: u64 where "default_max_upload_bytes = 200 * 1024 * 1024"

definition default_max_uncompressed_bytes :: u64 where "default_max_uncompressed_bytes = 1024 * 1024 * 1024"

definition default_git_fetch_timeout_secs :: u64 where "default_git_fetch_timeout_secs = 60"

definition default_install_timeout_secs :: u64 where "default_install_timeout_secs = 300"

definition default_build_timeout_secs :: u64 where "default_build_timeout_secs = 300"

definition default_api_token_max_expiry_days :: int where "default_api_token_max_expiry_days = 30"

definition default_http_port :: u16 where "default_http_port = 80"

definition default_https_port :: u16 where "default_https_port = 443"

definition or_default :: "'a \<Rightarrow> 'a option \<Rightarrow> 'a" where
  "or_default d r = (case r of Some a \<Rightarrow> a | None \<Rightarrow> d)"

definition berth_config_of :: "hub_toml \<Rightarrow> berth_config" where
  "berth_config_of t =
     \<lparr>bc_data_dir = ht_data_dir t, bc_admin_username = ht_admin_username t, bc_admin_password = ht_admin_password t,
      bc_limits = \<lparr>lim_max_upload_bytes = or_default default_max_upload_bytes (ht_max_upload_bytes t),
        lim_max_uncompressed_bytes = or_default default_max_uncompressed_bytes (ht_max_uncompressed_bytes t),
        lim_base_domain = ht_base_domain t,
        lim_git_fetch_timeout_secs = or_default default_git_fetch_timeout_secs (ht_git_fetch_timeout_secs t),
        lim_install_timeout_secs = or_default default_install_timeout_secs (ht_install_timeout_secs t),
        lim_build_timeout_secs = or_default default_build_timeout_secs (ht_build_timeout_secs t),
        lim_api_token_max_expiry_days = or_default default_api_token_max_expiry_days (ht_api_token_max_expiry_days t),
        lim_enable_mcp = or_default False (ht_enable_mcp t)\<rparr>,
      bc_tls = or_default TlsOff (ht_tls t),
      bc_http_port = or_default default_http_port (ht_http_port t),
      bc_https_port = or_default default_https_port (ht_https_port t)\<rparr>"

definition load_config :: "(string \<Rightarrow> string + 'c) \<Rightarrow> path \<Rightarrow> ('z machine_scheme, string, 'c) comp" where
  "load_config parse p =
     bindc (map_err (\<lambda>_. ''failed to read config file at '' @ path_display p) (read_to_string p)) (\<lambda>contents.
     map_err (\<lambda>_. ''failed to parse config file at '' @ path_display p) (from_sum (parse contents)))"

definition load_berth_config ::
  "(string \<Rightarrow> string + hub_toml) \<Rightarrow> path option \<Rightarrow> ('z machine_scheme, string, berth_config) comp" where
  "load_berth_config parse env =
     bindc (load_config parse (or_default [''berth.toml''] env)) (\<lambda>t. ret (berth_config_of t))"

record agent_toml =
  at_data_dir :: path
  at_agent_token :: string
  at_hub_addr :: "string option"
  at_hub_tls_fingerprint :: "string option"

definition agent_grpc_port :: u16 where "agent_grpc_port = 50051"

definition default_hub_addr :: string where
  "default_hub_addr = ''127.0.0.1:'' @ show_nat (unat agent_grpc_port)"

definition agent_config_of :: "agent_toml \<Rightarrow> agent_config" where
  "agent_config_of t =
     \<lparr>ac_data_dir = at_data_dir t, ac_hub_addr = or_default default_hub_addr (at_hub_addr t),
      ac_agent_token = at_agent_token t, ac_hub_tls_fingerprint = at_hub_tls_fingerprint t\<rparr>"

definition load_agent_config ::
  "(string \<Rightarrow> string + agent_toml) \<Rightarrow> path option \<Rightarrow> ('z machine_scheme, string, agent_config) comp" where
  "load_agent_config parse env =
     bindc (load_config parse (or_default [''berth-agent.toml''] env)) (\<lambda>t. ret (agent_config_of t))"

section \<open>Migrations\<close>

text \<open>The connection's record of what was applied: id, name and statements, in order.\<close>

type_synonym migration = "u64 \<times> string"

record migrated = machine +
  applied_migrations :: "(u64 \<times> string \<times> string) list"

definition apply_migration :: "u64 \<Rightarrow> string \<Rightarrow> string \<Rightarrow> (migrated, string, unit) comp" where
  "apply_migration i name sql =
     ext_call (\<lambda>m. m) (modify (\<lambda>s. s\<lparr>applied_migrations := applied_migrations s @ [(i, name, sql)]\<rparr>))"

definition apply_entry :: "path \<Rightarrow> migration \<Rightarrow> (migrated, string, unit) comp" where
  "apply_entry dir entry =
     bindc (map_err io_text (read_to_string (dir @ [''migrations'', snd entry]))) (\<lambda>sql.
     apply_migration (fst entry) (snd entry) sql)"

definition apply_migrations :: "(string + migration list) \<Rightarrow> path \<Rightarrow> (migrated, string, unit) comp" where
  "apply_migrations history dir =
     bindc (from_sum history) (\<lambda>entries.
     bindc (ext_call (\<lambda>m. m) (ret ())) (\<lambda>_.
     bindc (ext_call (\<lambda>m. m) (gets (\<lambda>s. map fst (applied_migrations s)))) (\<lambda>applied_ids.
     (let pending = filter (\<lambda>entry. fst entry \<notin> set applied_ids) entries in
      forc pending (apply_entry dir)))))"

section \<open>The certificate of the agent link\<close>

record agent_tls =
  tls_identity :: "string \<times> string"
  tls_fingerprint_hex :: string

text \<open>The crates: SHA-256, and the certificate and key made from random bytes (DER, PEM, PEM).\<close>

record hub_lib =
  hl_sha256 :: "string \<Rightarrow> string"
  hl_self_signed :: "string \<Rightarrow> string + string \<times> string \<times> string"

definition hub_hex_sha256 :: "(string \<Rightarrow> string) \<Rightarrow> string \<Rightarrow> string" where
  "hub_hex_sha256 sha256 der = foldl (\<lambda>hex byte. hex @ hex_byte byte) [] (sha256 der)"

definition tls_dir :: "path \<Rightarrow> path" where "tls_dir dir = dir @ [''agent-tls'']"

definition tls_cert :: "path \<Rightarrow> path" where "tls_cert dir = dir @ [''cert.pem'']"

definition tls_key :: "path \<Rightarrow> path" where "tls_key dir = dir @ [''key.pem'']"

definition tls_fingerprint :: "path \<Rightarrow> path" where "tls_fingerprint dir = dir @ [''fingerprint.txt'']"

definition read_all :: "path \<Rightarrow> (world, 'e, (string \<times> string \<times> string) option) comp" where
  "read_all dir =
     bindc (attempt (read_to_string (tls_cert dir))) (\<lambda>cert.
     case cert of Inl _ \<Rightarrow> ret None | Inr cert \<Rightarrow>
     bindc (attempt (read_to_string (tls_key dir))) (\<lambda>key.
     case key of Inl _ \<Rightarrow> ret None | Inr key \<Rightarrow>
     bindc (attempt (read_to_string (tls_fingerprint dir))) (\<lambda>fingerprint.
     case fingerprint of Inl _ \<Rightarrow> ret None | Inr fingerprint \<Rightarrow> ret (Some (cert, key, trim fingerprint)))))"

definition generate_and_persist :: "hub_lib \<Rightarrow> path \<Rightarrow> (world, string, string \<times> string \<times> string) comp" where
  "generate_and_persist lib dir =
     bindc (map_err (\<lambda>_. ''failed to create agent-tls dir'') (create_dir_all dir)) (\<lambda>_.
     bindc (random_bytes 32) (\<lambda>seed.
     bindc (map_err (\<lambda>_. ''failed to generate self-signed hub<->agent certificate'') (from_sum (hl_self_signed lib seed))) (\<lambda>made.
     case made of (der, cert_pem, key_pem) \<Rightarrow>
     (let fingerprint_hex = hub_hex_sha256 (hl_sha256 lib) der in
      bindc (map_err (\<lambda>_. ''failed to write hub<->agent cert'') (write_file (tls_cert dir) cert_pem)) (\<lambda>_.
      bindc (map_err (\<lambda>_. ''failed to write hub<->agent key'') (write_file (tls_key dir) key_pem)) (\<lambda>_.
      bindc (map_err (\<lambda>_. ''failed to write hub<->agent cert fingerprint'') (write_file (tls_fingerprint dir) fingerprint_hex)) (\<lambda>_.
      ret (cert_pem, key_pem, fingerprint_hex))))))))"

definition load_or_generate_tls :: "hub_lib \<Rightarrow> path \<Rightarrow> (world, string, agent_tls) comp" where
  "load_or_generate_tls lib dir =
     bindc (read_all (tls_dir dir)) (\<lambda>existing.
     bindc (case existing of Some e \<Rightarrow> ret e | None \<Rightarrow> generate_and_persist lib (tls_dir dir)) (\<lambda>(cert_pem, key_pem, fingerprint_hex).
     ret \<lparr>tls_identity = (cert_pem, key_pem), tls_fingerprint_hex = fingerprint_hex\<rparr>))"

section \<open>Start-up\<close>

text \<open>\<open>AppState::new\<close>: what a process keeps in memory starts empty.\<close>

definition app_state_new :: "path \<Rightarrow> app_state_limits \<Rightarrow> string \<Rightarrow> world \<Rightarrow> world" where
  "app_state_new dir lims key s =
     s\<lparr>data_dir := dir, limits := lims, secrets_key := key, id_seq := 0, sessions := Map.empty,
       login_attempts_map := Map.empty, log_registry := Map.empty, agent_hosts := []\<rparr>"

text \<open>A database error is passed on with its own text, an \<open>AppError\<close> with its display text.\<close>

definition error_text :: "app_error \<Rightarrow> string" where
  "error_text e = (case e of Db m \<Rightarrow> m | _ \<Rightarrow> display e)"

definition bootstrap_admin :: "externals \<Rightarrow> string \<Rightarrow> string \<Rightarrow> (world, string, unit) comp" where
  "bootstrap_admin x admin_username admin_password =
     bindc (map_err error_text (db_first db_users (\<lambda>u. u_role u = role_as_str Admin))) (\<lambda>found.
     if found \<noteq> None then ret ()
     else
       bindc (map_err (\<lambda>_. ''invalid admin_username in config: '' @ admin_username) (from_sum (validate_username admin_username))) (\<lambda>_.
       bindc (map_err (\<lambda>_. ''invalid admin_password in config'') (from_sum (validate_password admin_password))) (\<lambda>_.
       bindc (map_err error_text (hash_password x admin_password)) (\<lambda>password_hash.
       bindc (gets now_secs) (\<lambda>now.
       bindc (map_err error_text (insert_user \<lparr>u_id = 0, u_username = admin_username, u_password_hash = password_hash,
         u_role = role_as_str Admin, u_created_at = now, u_updated_at = now\<rparr>)) (\<lambda>_.
       ret ()))))))"

text \<open>Paths are absolute and there are no links, so an existing path is canonical.\<close>

definition canonicalize :: "path \<Rightarrow> ('z machine_scheme, io_error, path) comp" where
  "canonicalize p = io_call (\<lambda>s. if path_exists (fs s) p then (Done p, s) else (Fail (io_err NotFound), s))"

definition context_of :: "string \<Rightarrow> ('s, 'e, 'a) comp \<Rightarrow> ('s, string, 'a) comp" where
  "context_of text m = map_err (\<lambda>_. text) m"

definition open_data_dir :: "hub_lib \<Rightarrow> berth_config \<Rightarrow> (world, string, path \<times> agent_tls \<times> string) comp" where
  "open_data_dir lib config =
     bindc (context_of (''failed to create data dir at '' @ path_display (bc_data_dir config)) (create_dir_all (bc_data_dir config))) (\<lambda>_.
     bindc (context_of (''failed to resolve data dir at '' @ path_display (bc_data_dir config)) (canonicalize (bc_data_dir config))) (\<lambda>dir.
     bindc (context_of ''failed to load or generate the hub<->agent TLS certificate'' (load_or_generate_tls lib dir)) (\<lambda>tls.
     bindc (context_of ''failed to load or generate the secrets encryption key'' (load_or_generate dir)) (\<lambda>key.
     bindc (ext_call (\<lambda>_. ''failed to open database'') (ret ())) (\<lambda>_.
     bindc (ext_call (\<lambda>_. ''failed to apply pending database migrations'') (ret ())) (\<lambda>_.
     ret (dir, tls, key)))))))"

definition prepare_state :: "externals \<Rightarrow> berth_config \<Rightarrow> (world, string, unit) comp" where
  "prepare_state x config =
     bindc (context_of ''failed to bootstrap admin user'' (bootstrap_admin x (bc_admin_username config) (bc_admin_password config))) (\<lambda>_.
     bindc (gets apps_dir) (\<lambda>dir.
     bindc (context_of ''failed to create apps dir under data dir'' (create_dir_all dir)) (\<lambda>_.
     bindc (context_of ''failed to sweep tmp directory on startup'' sweep_tmp_dir) (\<lambda>_.
     context_of ''failed to sweep orphaned app/deployment directories on startup'' (sweep_orphaned_dirs x)))))"

definition start_hub :: "externals \<Rightarrow> hub_lib \<Rightarrow> berth_config \<Rightarrow> (world, string, agent_tls) comp" where
  "start_hub x lib config =
     bindc (open_data_dir lib config) (\<lambda>(dir, tls, key).
     bindc (modify (app_state_new dir (bc_limits config) key)) (\<lambda>_.
     bindc (prepare_state x config) (\<lambda>_. ret tls)))"

definition listening_port :: "berth_config \<Rightarrow> u16" where
  "listening_port config = (case bc_tls config of TlsOff \<Rightarrow> bc_http_port config | TlsManual _ _ \<Rightarrow> bc_https_port config)"

section \<open>What opening the data directory leaves alone\<close>

lemma leaves_ext_ret: "(\<And>s f. g (s\<lparr>faults := f\<rparr>) = g s) \<Longrightarrow> leaves g (ext_call mk (ret a))"
  by (auto simp: leaves_def ext_call_def ret_def Let_def split: list.split fault.split)

lemma fs_only_canonicalize: "fs_only (canonicalize p)"
  unfolding canonicalize_def by (rule fs_only_ext_call) (auto intro: fs_keep)

lemma leaves_tls:
  assumes "\<And>s t f. g (s\<lparr>fs := t, faults := f\<rparr>) = g s" and "\<And>s n. g (s\<lparr>random_pos := n\<rparr>) = g s"
  shows "leaves g (read_all dir)" "leaves g (generate_and_persist lib dir)" "leaves g (load_or_generate dir)"
  unfolding read_all_def generate_and_persist_def load_or_generate_def read_to_string_def Let_def
  by (intro leaves_intros assms | simp split: sum.split prod.split | intro conjI impI allI leaves_intros assms)+

lemma open_data_dir_leaves:
  assumes "\<And>s t f. g (s\<lparr>fs := t, faults := f\<rparr>) = g s" and "\<And>s n. g (s\<lparr>random_pos := n\<rparr>) = g s"
  shows "leaves g (open_data_dir lib config)"
proof -
  have "g (s\<lparr>faults := f\<rparr>) = g s" for s :: world and f using assms(1) [where s = s and t = "fs s" and f = f] by simp
  then show ?thesis
    unfolding open_data_dir_def context_of_def load_or_generate_tls_def
    by (intro leaves_intros leaves_tls leaves_ext_ret fs_only_leaves [OF fs_only_canonicalize] assms
        | simp split: option.split prod.split | intro conjI impI allI leaves_tls assms leaves_intros)+
qed

lemma keeps_dirs_read: "keeps (\<lambda>s. dirs_in D (fs s)) (read_to_string p)" "keeps (\<lambda>s. dirs_in D (fs s)) (canonicalize p)"
  unfolding read_to_string_def canonicalize_def
  by (intro keeps_intros keeps_read_file keeps_ext_call keepsI; simp split: option.split node.split)+

lemma keeps_dirs_tls:
  "keeps (\<lambda>s. dirs_in D (fs s)) (read_all (tls_dir dir))" "keeps (\<lambda>s. dirs_in D (fs s)) (generate_and_persist lib (tls_dir dir))"
  "keeps (\<lambda>s. dirs_in D (fs s)) (load_or_generate dir)"
  unfolding read_all_def generate_and_persist_def load_or_generate_def Let_def
  by (intro keeps_intros keeps_dirs_read keeps_read_file keeps_create_all keeps_write_file
      keeps_leaves [OF leaves_random_bytes]; simp split: sum.split prod.split add: keeps_intros keeps_dirs_read keeps_write_file tls_cert_def tls_key_def tls_fingerprint_def)+

lemma open_data_dir_keeps: "keeps (\<lambda>s. dirs_in D (fs s)) (open_data_dir lib config)"
  unfolding open_data_dir_def context_of_def load_or_generate_tls_def
  by (intro keeps_intros keeps_dirs_tls keeps_create_all keeps_dirs_read keeps_leaves [OF leaves_ext_ret]
      | simp split: option.split prod.split add: keeps_intros keeps_dirs_tls)+

lemma canonicalize_Done: "canonicalize p s = (Done q, s') \<Longrightarrow> q = p"
  unfolding canonicalize_def by (elim ext_call_cases) (auto split: if_splits)

lemma open_data_dir_Done: "open_data_dir lib config s = (Done (dir, tls, key), s') \<Longrightarrow> dir = bc_data_dir config"
  by (auto simp: open_data_dir_def context_of_def ret_def map_err_def elim!: bindc_DoneE dest!: canonicalize_Done split: prod.splits outcome.splits)

end
