(* ===== verification/Lifecycle.thy ===== *)
theory Lifecycle
  imports DeployFacts Startup
begin

text \<open>
  The hub as a transition system. A step is one run of an operation that writes to the tables or
  to the file tree, to its end, to an error or to a crash in the middle (the fault script decides),
  a restart of the hub on what is on disk, or a step of the environment, which leaves the tables
  and the tree alone. A request may name a deployment by any text. One kind of request breaks the
  tables, deleting the deployment an app is serving under another spelling of its id than the
  printed one (\<open>respelled\<close>, \<open>noncanonical_delete_breaks_tables\<close>), and the invariant says so.
\<close>

section \<open>Steps\<close>

definition same_store :: "world \<Rightarrow> world \<Rightarrow> bool" where
  "same_store s t \<longleftrightarrow> data_dir t = data_dir s \<and> db t = db s \<and> fs t = fs s
     \<and> distinct (fresh_ids t) \<and> used_ids (db s) \<inter> set (fresh_ids t) = {}"

inductive hub_step :: "externals \<Rightarrow> world \<Rightarrow> world \<Rightarrow> bool" for x where
  environment: "same_store s t \<Longrightarrow> hub_step x s t"
| app_created: "hub_step x s (snd (create_app x nm src vs creator hid s))"
| app_updated: "hub_step x s (snd (update_app x aid nmo vso hido s))"
| permissions_updated: "hub_step x s (snd (update_app_permissions x aid ps s))"
| app_deleted: "hub_step x s (snd (delete_app_with_containers x aid s))"
| uploaded: "hub_step x s (snd (upload_deployment x aid mp s))"
| git_started: "hub_step x s (snd (start_git_deployment x aid s))"
| git_run: "hub_step x s (snd (run_git_deployment x env aid did gs s))"
| activated: "hub_step x s (snd (activate_with_containers x aid did s))"
| deployment_deleted: "hub_step x s (snd (delete_deployment_with_containers x aid did s))"
| agent_connected: "hub_step x s (snd (on_agent_connected x s))"
| run_log: "hub_step x s (snd (run_log_pump_task link cname (log_target_for s aid did LogRun) s))"
| tmp_swept: "hub_step x s (snd (sweep_tmp_dir s))"
| dirs_swept: "hub_step x s (snd (sweep_orphaned_dirs x s))"
| user_request: "hub_step x s (snd (run_user_request x hs req s))"
| token_created: "hub_step x s (snd (create_own_token x cur nm ex s))"
| token_revoked: "hub_step x s (snd (revoke_own_token cur i s))"
| host_created: "hub_step x s (snd (create_host_handler x cur nm s))"
| host_revoked: "hub_step x s (snd (revoke_host_handler cur i s))"
| host_ip_updated: "hub_step x s (snd (update_host_ip_handler cur i ip s))"
| restarted: "bc_data_dir config = data_dir s \<Longrightarrow> hub_step x s (snd (start_hub x lib config s))"
| host_seen: "hub_step x s (snd (touch_host_last_seen i peer s))"

inductive hub_reaches :: "externals \<Rightarrow> world \<Rightarrow> world \<Rightarrow> bool" for x s where
  here: "hub_reaches x s s"
| there: "hub_reaches x s t \<Longrightarrow> hub_step x t u \<Longrightarrow> hub_reaches x s u"

inductive_cases hub_stepE: "hub_step x s t"

section \<open>The invariant\<close>

definition consistent :: "externals \<Rightarrow> world \<Rightarrow> bool" where
  "consistent x s \<longleftrightarrow> db_ok (db s) \<and> tree_ok x (data_dir s) s"

text \<open>The invariant kept, in place.\<close>

definition stays :: "externals \<Rightarrow> world \<Rightarrow> world \<Rightarrow> bool" where
  "stays x s t \<longleftrightarrow> consistent x t \<and> data_dir t = data_dir s"

lemma consistent_keeps:
  assumes "consistent x s" and "keeps (\<lambda>s. db_ok (db s)) m" and "keeps (tree_ok x (data_dir s)) m"
  shows "stays x s (snd (m s))"
proof -
  have "tree_ok x (data_dir s) (snd (m s))" using assms(1,3) by (simp add: consistent_def keepsD)
  moreover from this have "data_dir (snd (m s)) = data_dir s" by (simp add: tree_ok_iff)
  ultimately show ?thesis using assms(1,2) by (simp add: stays_def consistent_def keeps_def)
qed

lemma same_store_consistent: "consistent x s \<Longrightarrow> same_store s t \<Longrightarrow> stays x s t"
  by (simp add: stays_def consistent_def same_store_def tree_ok_iff)

lemma core_sessions:
  "leaves core (revoke_sessions_for n)" "leaves core (revoke_other_sessions_for n k)"
  "leaves core (cookie_user hs)" "leaves core (hash_password x pw)"
  "leaves core (new_role cur n rt)" "leaves core (new_password_hash x cur n pwo)"
  unfolding revoke_sessions_for_def revoke_other_sessions_for_def cookie_user_def resolve_cookie_username_def
    load_current_user_def hash_password_def new_role_def new_password_hash_def
  by (intro leaves_intros; simp add: core_def)+

lemma tree_user_request: "keeps (tree_ok x dd) (run_user_request y hs req)"
  unfolding run_user_request_def create_user_def update_user_handler_def delete_user_def change_own_password_def
  by (cases req; simp; intro keeps_intros tree_core tree_rows core_sessions [THEN keeps_tree_core])

lemma keeps_db_ok_delete_permissions: "keeps (\<lambda>s. db_ok (db s)) (delete_permissions P)"
  unfolding delete_permissions_def
  by (rule keeps_db_write) (auto intro: db_ok_delete_permissions)

lemma keeps_db_ok_user_request: "keeps (\<lambda>s. db_ok (db s)) (run_user_request y hs req)"
  unfolding run_user_request_def create_user_def update_user_handler_def delete_user_def change_own_password_def
  by (cases req; simp; intro db_ok_steps keeps_db_ok_plain keeps_db_ok_delete_permissions
      leaves_db_hash [THEN keeps_db_ok_lookup] leaves_db_auth [THEN keeps_db_ok_lookup])

lemma tree_host_requests:
  "keeps (tree_ok x dd) (create_own_token y cur nm ex)" "keeps (tree_ok x dd) (revoke_own_token cur i)"
  "keeps (tree_ok x dd) (create_host_handler y cur nm)" "keeps (tree_ok x dd) (revoke_host_handler cur i)"
  "keeps (tree_ok x dd) (update_host_ip_handler cur i ip)"
  unfolding create_own_token_def revoke_own_token_def create_host_handler_def revoke_host_handler_def
    update_host_ip_handler_def list_hosts_def
  by (intro keeps_intros tree_core tree_token_store)+

lemma keeps_db_ok_host_requests:
  "keeps (\<lambda>s. db_ok (db s)) (create_own_token y cur nm ex)" "keeps (\<lambda>s. db_ok (db s)) (revoke_own_token cur i)"
  "keeps (\<lambda>s. db_ok (db s)) (create_host_handler y cur nm)" "keeps (\<lambda>s. db_ok (db s)) (revoke_host_handler cur i)"
  "keeps (\<lambda>s. db_ok (db s)) (update_host_ip_handler cur i ip)"
  unfolding create_own_token_def revoke_own_token_def create_host_handler_def revoke_host_handler_def
    update_host_ip_handler_def list_hosts_def
  by (intro db_ok_steps keeps_db_ok_token_store)+

lemma keeps_db_ok_sweep_dirs: "keeps (\<lambda>s. db_ok (db s)) (sweep_orphaned_dirs x)" "keeps (\<lambda>s. db_ok (db s)) sweep_tmp_dir"
  unfolding sweep_orphaned_dirs_def sweep_orphaned_deployment_dirs_def sweep_tmp_dir_def
  by (intro keeps_leaves leaves_intros; simp)+

lemma sweep_dirs_sweeping:
  assumes "uuid_ok x" and "consistent x s"
  shows "sweeping x (data_dir s) (db s) (fs s) (snd (sweep_orphaned_dirs x s))"
proof -
  have "swept x (data_dir s) (db s) (fs s) (\<lambda>_. True) s"
    using assms(2) by (simp add: sweeping_def consistent_def)
  note run = sweep_run [OF assms(1), of "db s" "data_dir s" "fs s"] this
  have "db_ok (db s)" using assms(2) by (simp add: consistent_def)
  note run = run(1) [OF this] run(2)
  show ?thesis
  proof (cases "sweep_orphaned_dirs x s")
    case (Pair r s')
    then show ?thesis
      using triple_Done [OF run] triple_Fail [OF run] triple_Crash [OF run] by (cases r) auto
  qed
qed

lemma consistent_sweep:
  assumes "uuid_ok x" and "consistent x s" shows "stays x s (snd (sweep_orphaned_dirs x s))"
  using sweep_dirs_sweeping [OF assms] assms(2) by (auto simp: stays_def consistent_def sweeping_def tree_ok_iff)

text \<open>A start keeps it up to any point: the data directory is opened, a fresh state prepared.\<close>

lemma keeps_stays:
  "(\<And>s. consistent x s \<Longrightarrow> stays x s (snd (m s))) \<Longrightarrow> keeps (\<lambda>s. consistent x s \<and> data_dir s = dd) m"
  by (auto simp: keeps_def stays_def)

lemma leaves_core_hash: "leaves core (hash_password y pw)" "leaves core (db_first db_users Q)"
  unfolding hash_password_def by (intro core_basic leaves_intros; simp add: core_def)+

lemma keeps_bootstrap_admin:
  "keeps (\<lambda>s. db_ok (db s)) (bootstrap_admin y u p)" "keeps (tree_ok x dd) (bootstrap_admin y u p)"
proof -
  have quiet: "keeps (\<lambda>s. db_ok (db s)) (hash_password y u)" "keeps (\<lambda>s. db_ok (db s)) (db_first db_users Q)" for y u Q
    by (intro keeps_leaves leaves_db_hash leaves_intros; simp)+
  show "keeps (\<lambda>s. db_ok (db s)) (bootstrap_admin y u p)"
    unfolding bootstrap_admin_def
    by (intro keeps_bindc keeps_map_err keeps_if keeps_ret keeps_from_sum keeps_gets keeps_db_ok_plain quiet)
  show "keeps (tree_ok x dd) (bootstrap_admin y u p)"
    unfolding bootstrap_admin_def
    by (intro keeps_bindc keeps_map_err keeps_if keeps_ret keeps_from_sum keeps_gets tree_rows leaves_core_hash [THEN keeps_tree_core])
qed

lemma keeps_prepare_parts:
  "keeps (\<lambda>s. consistent x s \<and> data_dir s = dd) (bootstrap_admin y u p)"
  "keeps (\<lambda>s. consistent x s \<and> data_dir s = dd) (create_dir_all q)"
  "keeps (\<lambda>s. consistent x s \<and> data_dir s = dd) sweep_tmp_dir"
proof -
  have made: "keeps (\<lambda>s. db_ok (db s)) (create_dir_all q)" by (intro keeps_leaves leaves_intros) simp
  show "keeps (\<lambda>s. consistent x s \<and> data_dir s = dd) (bootstrap_admin y u p)"
    by (intro keeps_stays consistent_keeps keeps_bootstrap_admin)
  show "keeps (\<lambda>s. consistent x s \<and> data_dir s = dd) (create_dir_all q)"
    by (intro keeps_stays consistent_keeps tree_create_write made)
  show "keeps (\<lambda>s. consistent x s \<and> data_dir s = dd) sweep_tmp_dir"
    by (intro keeps_stays consistent_keeps tree_sweep_tmp_dir keeps_db_ok_sweep_dirs)
qed

lemma keeps_prepare_state:
  assumes "uuid_ok x" shows "keeps (\<lambda>s. consistent x s \<and> data_dir s = dd) (prepare_state x config)"
  unfolding prepare_state_def context_of_def
  by (intro keeps_intros keeps_prepare_parts keeps_stays consistent_sweep assms)

lemma open_data_dir_consistent:
  assumes "open_data_dir lib config s = (r, s')" and "db_ok (db s)" and "distinct (fresh_ids s)"
    and "used_ids (db s) \<inter> set (fresh_ids s) = {}" and "dirs_in (needed x dd (db s)) (fs s)"
  shows "db s' = db s \<and> fresh_ids s' = fresh_ids s \<and> data_dir s' = data_dir s \<and> dirs_in (needed x dd (db s)) (fs s')"
  using leaves_run [OF open_data_dir_leaves [of db] assms(1)] leaves_run [OF open_data_dir_leaves [of fresh_ids] assms(1)]
    leaves_run [OF open_data_dir_leaves [of data_dir] assms(1)] keeps_run [OF open_data_dir_keeps assms(1)] assms(5) by simp

lemma start_consistent:
  assumes "start_hub x lib config s = (r, s')" and "uuid_ok x" and "db_ok (db s)" and "distinct (fresh_ids s)"
    and "used_ids (db s) \<inter> set (fresh_ids s) = {}" and "dirs_in (needed x (bc_data_dir config) (db s)) (fs s)"
  shows "db_ok (db s') \<and> distinct (fresh_ids s') \<and> used_ids (db s') \<inter> set (fresh_ids s') = {}
    \<and> dirs_in (needed x (bc_data_dir config) (db s')) (fs s') \<and> (data_dir s' = data_dir s \<or> data_dir s' = bc_data_dir config)"
proof -
  obtain q s1 where run: "open_data_dir lib config s = (q, s1)" by fastforce
  note s1 = open_data_dir_consistent [OF run assms(3-6)]
  show ?thesis
  proof (cases q)
    case (Done a)
    obtain dir tls key where a: "a = (dir, tls, key)" by (cases a)
    then have dir: "dir = bc_data_dir config" using open_data_dir_Done run Done by blast
    obtain q2 s2 where prep: "prepare_state x config (app_state_new dir (bc_limits config) key s1) = (q2, s2)" by fastforce
    have "consistent x (app_state_new dir (bc_limits config) key s1)"
      using s1 assms by (simp add: consistent_def tree_ok_iff app_state_new_def dir)
    then have "consistent x s2 \<and> data_dir s2 = dir"
      using keeps_run [OF keeps_prepare_state [OF assms(2)] prep, of dir] by (simp add: app_state_new_def)
    moreover have "s' = s2" using assms(1) run Done a prep by (cases q2) (simp_all add: start_hub_def bindc_def modify_def ret_def)
    ultimately show ?thesis by (auto simp: consistent_def tree_ok_iff dir)
  qed (use assms(1) run s1 assms(3-6) in \<open>simp_all add: start_hub_def bindc_def\<close>)
qed

lemmas db_ok_steps_of = keeps_db_ok_create_app keeps_db_ok_update_app_op keeps_db_ok_update_app_permissions
  keeps_db_ok_delete_app_with_containers keeps_db_ok_upload_deployment keeps_db_ok_start_git_deployment
  keeps_db_ok_run_git_deployment keeps_db_ok_activate_with_containers
  keeps_db_ok_on_agent_connected keeps_db_ok_run_log_pump_task keeps_db_ok_sweep_dirs(2) keeps_db_ok_user_request
  keeps_db_ok_host_requests keeps_db_ok_token_store(5)

lemmas tree_steps_of = tree_create_app tree_update_app tree_update_app_permissions tree_delete_flows
  tree_upload_deployment tree_flows(1,2) tree_activate_with_containers tree_reconcile tree_sweep_tmp_dir
  tree_user_request tree_host_requests tree_token_store(5)

lemma consistent_delete_deployment:
  assumes "uuid_ok x" and "consistent x s" and "\<not> respelled x (db s) aid did"
  shows "stays x s (snd (delete_deployment_with_containers x aid did s))"
proof -
  have "tree_ok x (data_dir s) (snd (delete_deployment_with_containers x aid did s))"
    using assms(1,2) by (intro keepsD [OF tree_delete_flows(2)]) (simp_all add: consistent_def)
  moreover from this have "data_dir (snd (delete_deployment_with_containers x aid did s)) = data_dir s"
    by (simp add: tree_ok_iff)
  moreover have "db_ok (db (snd (delete_deployment_with_containers x aid did s)))"
    using triple_final [OF triple_db_ok_delete_deployment_with_containers, of s x aid did] assms(2,3)
    by (simp add: consistent_def)
  ultimately show ?thesis by (simp add: stays_def consistent_def)
qed

lemma hub_step_consistent:
  assumes "hub_step x s t" and "uuid_ok x" and "consistent x s"
  shows "stays x s t \<or> (\<exists>aid did. respelled x (db s) aid did \<and> t = snd (delete_deployment_with_containers x aid did s))"
  using assms(1)
proof cases
  case (run_log link cname aid did)
  have "deep (data_dir s) (lt_path (log_target_for s aid did LogRun))"
    by (rule log_target_deep [where x = x]) (use assms(3) in \<open>simp add: consistent_def\<close>)
  then have "stays x s t" unfolding run_log
    by (intro consistent_keeps [OF assms(3)] keeps_db_ok_run_log_pump_task tree_run_log_pump_task)
  then show ?thesis ..
next
  case (deployment_deleted aid did)
  then show ?thesis using consistent_delete_deployment [OF assms(2,3)] by blast
next
  case dirs_swept
  then show ?thesis using consistent_sweep [OF assms(2,3)] by simp
next
  case (restarted config lib)
  then have "stays x s t"
    using start_consistent [of x lib config s "fst (start_hub x lib config s)" t] assms(2,3)
    by (auto simp: stays_def consistent_def tree_ok_iff)
  then show ?thesis ..
qed (use assms(2,3) in \<open>auto intro: same_store_consistent intro!: disjI1 consistent_keeps db_ok_steps_of tree_steps_of\<close>)


lemma sample_world_start:
  "db_ok (db sample_world)" "distinct (fresh_ids sample_world)" "used_ids (db sample_world) \<inter> set (fresh_ids sample_world) = {}"
  "dirs_in (needed sample_externals (data_dir sample_world) (db sample_world)) (fs sample_world)"
proof -
  show "db_ok (db sample_world)" by (simp add: sample_world_def empty_database_ok)
  show "distinct (fresh_ids sample_world)" by (simp add: sample_world_def)
  show "used_ids (db sample_world) \<inter> set (fresh_ids sample_world) = {}"
    by (simp add: sample_world_def used_ids_def empty_database_def)
  have "fs_wf (fs sample_world) \<and> is_dir (fs sample_world) []"
    by (simp add: fs_wf_def is_dir_def sample_world_def)
  then show "dirs_in (needed sample_externals (data_dir sample_world) (db sample_world)) (fs sample_world)"
    by (simp add: sample_world_def needed_def dirs_in_def empty_database_def)
qed

definition sample_run_world :: world where
  "sample_run_world = snd (sweep_orphaned_dirs sample_externals
     (snd (create_app sample_externals ''site'' Upload [] None 1
       (snd (create_host_handler sample_externals \<lparr>cu_id = 1, cu_username = ''ann'', cu_role = Admin\<rparr> ''h1'' sample_world)))))"

lemma sample_run_reached: "hub_reaches sample_externals sample_world sample_run_world"
  unfolding sample_run_world_def by (rule there [OF there [OF there [OF here host_created] app_created] dirs_swept])


section \<open>The sweep at start-up\<close>

text \<open>C10 The sweep at start-up removes what a crash can leave behind and nothing else. Wherever it
  ends, the tables are as they were, every directory the rows need is there, and every path of the
  tree is unchanged or gone, gone only at or below a root that belongs to no row: a directory
  under the apps whose name is an id that is no app's, or one under an app's deployments whose
  name is an id that is no deployment of that app. Directories with any other name stay. When it
  succeeds, all of those roots are gone and the rest of the tree is what it was.\<close>

theorem start_up_sweep_is_exact:
  assumes "uuid_ok x" and "db_ok (db s)" and "tree_ok x (data_dir s) s" and "sweep_orphaned_dirs x s = (r, s')"
  shows "db s' = db s \<and> tree_ok x (data_dir s) s'
    \<and> (\<forall>q. map_of (fs s') q = map_of (fs s) q
        \<or> map_of (fs s') q = None \<and> (\<exists>p. orphan_root x (data_dir s) (db s) p \<and> prefix p q))
    \<and> (r = Done () \<longrightarrow> (\<forall>q. map_of (fs s') q =
        (if \<exists>p. orphan_root x (data_dir s) (db s) p \<and> prefix p q then None else map_of (fs s) q)))"
proof -
  have con: "consistent x s" using assms(2,3) by (simp add: consistent_def)
  have sw: "sweeping x (data_dir s) (db s) (fs s) s'"
    using sweep_dirs_sweeping [OF assms(1) con] assms(4) by simp
  have start: "swept x (data_dir s) (db s) (fs s) (\<lambda>_. True) s" using assms(3) by (simp add: sweeping_def)
  have gone: "map_of (fs s') q = None" if "r = Done ()" "orphan_root x (data_dir s) (db s) p" "prefix p q" for p q
  proof -
    have "kept_app x (db s) (data_dir s @ [''apps'']) n (fs s')" for n
      using triple_Done [OF sweep_run [OF assms(1,2)] start] assms(4) that(1) by simp
    moreover have wf: "fs_wf (fs s')" using sw by (simp add: sweeping_def tree_ok_iff dirs_in_def)
    ultimately have "\<not> path_exists (fs s') p" using that(2) by (rule swept_orphan_root)
    then have "map_of (fs s') p = None" by (simp add: path_exists_def)
    then show ?thesis
      using wf_ancestors [OF wf, of p q] that(3)
      by (cases "map_of (fs s') q"; cases "p = q") (auto simp: strict_prefix_def is_dir_def)
  qed
  show ?thesis
    using sw gone unfolding sweeping_def intact_def by auto
qed

text \<open>A tree with an app and a deployment that have rows, an app and a deployment that have none, and
  directories under both that are named by no id.\<close>

definition sample_swept_world :: world where
  "sample_swept_world = sample_site_world\<lparr>fs :=
     [([], Dir), ([''d''], Dir), ([''d'', ''apps''], Dir), ([''d'', ''tmp''], Dir),
      ([''d'', ''apps'', ''1''], Dir), ([''d'', ''apps'', ''1'', ''deployments''], Dir),
      ([''d'', ''apps'', ''1'', ''deployments'', ''11''], Dir),
      ([''d'', ''apps'', ''1'', ''deployments'', ''11'', ''index.html''], File []),
      ([''d'', ''apps'', ''1'', ''deployments'', ''111''], Dir),
      ([''d'', ''apps'', ''1'', ''deployments'', ''111'', ''old''], File []),
      ([''d'', ''apps'', ''1'', ''deployments'', ''notes''], Dir),
      ([''d'', ''apps'', ''1111''], Dir), ([''d'', ''apps'', ''1111'', ''deployments''], Dir),
      ([''d'', ''apps'', ''backup''], Dir)]\<rparr>"

lemma sample_swept_start: "db_ok (db sample_swept_world)"
  "tree_ok sample_externals (data_dir sample_swept_world) sample_swept_world"
proof -
  show "db_ok (db sample_swept_world)" using sample_site_ok by (simp add: sample_swept_world_def)
  show "tree_ok sample_externals (data_dir sample_swept_world) sample_swept_world"
    by (simp add: tree_ok_iff dirs_in_def fs_wf_def is_dir_def needed_def path_defs used_ids_def sample_uuid_str
        sample_swept_world_def sample_site_simps)
qed

lemma sample_sweep_Done: "fst (sweep_orphaned_dirs sample_externals sample_swept_world) = Done ()"
  by code_simp

lemma start_up_sweep_is_exact_witness:
  "let s = sample_swept_world; s' = snd (sweep_orphaned_dirs sample_externals s); r = fst (sweep_orphaned_dirs sample_externals s);
       x = sample_externals in
    (db s' = db s \<and> tree_ok x (data_dir s) s'
    \<and> (\<forall>q. map_of (fs s') q = map_of (fs s) q
        \<or> map_of (fs s') q = None \<and> (\<exists>p. orphan_root x (data_dir s) (db s) p \<and> prefix p q))
    \<and> (r = Done () \<longrightarrow> (\<forall>q. map_of (fs s') q =
        (if \<exists>p. orphan_root x (data_dir s) (db s) p \<and> prefix p q then None else map_of (fs s) q))))
    \<and> r = Done ()"
  unfolding Let_def
  by (intro conjI start_up_sweep_is_exact [OF sample_uuid_ok sample_swept_start] sample_sweep_Done)
     (simp add: prod_eq_iff)

end
