(* ===== verification/AccessFacts.thy ===== *)
theory AccessFacts
  imports DeployFacts
begin

text \<open>
  What the app routes let out: who gets past the access check, and that no view carries a
  stored secret.
\<close>

section \<open>Apps as they are loaded\<close>

lemma permissions_from_rows_set:
  assumes "permissions_from_rows names rows = Inr ps" and "g \<in> set ps"
  shows "\<exists>row\<in>set rows. names (p_user_id row) = Some (perm_username g)
    \<and> p_level row = (case perm_level g of Read \<Rightarrow> ''read'' | Write \<Rightarrow> ''write'')"
  using assms
proof (induction rows arbitrary: ps)
  case Nil
  then show ?case by simp
next
  case (Cons row rows)
  then show ?case
    by (fastforce simp: sbind_def serr_def db_level_from_str_def level_of_db_def split: option.splits sum.splits if_splits)
qed

lemma load_permissions_Done:
  assumes "load_permissions row s = (Done ps, s')"
  shows "\<forall>g\<in>set ps. \<exists>p\<in>set (db_permissions (db s)). p_app_id p = a_id row
      \<and> (\<exists>u\<in>set (db_users (db s)). u_id u = p_user_id p \<and> u_username u = perm_username g)
      \<and> p_level p = (case perm_level g of Read \<Rightarrow> ''read'' | Write \<Rightarrow> ''write'')"
proof -
  obtain rows users s1 where rows: "db_all db_permissions (\<lambda>p. p_app_id p = a_id row) s = (Done rows, s1)"
    and users: "db_all db_users (\<lambda>u. u_id u \<in> set (map p_user_id rows)) s1 = (Done users, s')"
    and ps: "permissions_from_rows (map_of (map (\<lambda>u. (u_id u, u_username u)) users)) rows = Inr ps"
    using assms unfolding load_permissions_def by (elim bindc_DoneE) auto
  have r: "rows = filter (\<lambda>p. p_app_id p = a_id row) (db_permissions (db s))" "db s1 = db s"
    using rows unfolding db_all_def db_read_def by (auto elim!: ext_call_Done simp: gets_def)
  have u: "users = filter (\<lambda>u. u_id u \<in> set (map p_user_id rows)) (db_users (db s))"
    using users r(2) unfolding db_all_def db_read_def by (auto elim!: ext_call_Done simp: gets_def)
  show ?thesis
  proof
    fix g assume "g \<in> set ps"
    then obtain p where "p \<in> set rows" "map_of (map (\<lambda>u. (u_id u, u_username u)) users) (p_user_id p) = Some (perm_username g)"
      "p_level p = (case perm_level g of Read \<Rightarrow> ''read'' | Write \<Rightarrow> ''write'')"
      using permissions_from_rows_set [OF ps] by blast
    moreover from this obtain u where "u \<in> set users" "u_id u = p_user_id p" "u_username u = perm_username g"
      by (auto dest!: map_of_SomeD)
    ultimately show "\<exists>p\<in>set (db_permissions (db s)). p_app_id p = a_id row
      \<and> (\<exists>u\<in>set (db_users (db s)). u_id u = p_user_id p \<and> u_username u = perm_username g)
      \<and> p_level p = (case perm_level g of Read \<Rightarrow> ''read'' | Write \<Rightarrow> ''write'')"
      by (intro bexI [of _ p] conjI bexI [of _ u]) (simp_all add: r u)
  qed
qed

lemma app_from_row_Inr:
  assumes "app_from_row x row ps = Inr app" shows "app_permissions app = ps" "app_id app = x_uuid_str x (a_id row)"
  using assms by (auto simp: app_from_row_def sbind_def serr_def split: sum.splits)

section \<open>The access check\<close>

text \<open>Who may: an administrator, or a user with a row that grants the level the method needs.\<close>

definition may_access :: "current_user \<Rightarrow> http_method \<Rightarrow> uuid \<Rightarrow> database \<Rightarrow> bool" where
  "may_access user method a d \<longleftrightarrow> cu_role user = Admin
     \<or> (\<exists>p\<in>set (db_permissions d). p_app_id p = a
          \<and> (\<exists>u\<in>set (db_users d). u_id u = p_user_id p \<and> u_username u = cu_username user)
          \<and> (p_level p = ''write'' \<or> p_level p = ''read'' \<and> method \<in> {GET, HEAD}))"

lemma access_check_Done:
  assumes "get_app_by_id x aid s = (Done app, s1)" and "check_app_permission user app (required_level method) = Inr ()"
  shows "\<exists>row\<in>set (db_apps (db s)). x_uuid_parse x aid = Some (a_id row) \<and> may_access user method (a_id row) (db s)"
proof -
  obtain row s0 ps where row: "find_app_row_by_id x aid s = (Done row, s0)" and ps: "load_permissions row s0 = (Done ps, s1)"
    and app: "app_from_row x row ps = Inr app"
    using assms(1) unfolding get_app_by_id_def app_from_row_with_permissions_def by (elim bindc_DoneE) auto
  have r: "row \<in> set (db_apps (db s))" "x_uuid_parse x aid = Some (a_id row)" "db s0 = db s"
    using row by (auto elim!: find_app_row_by_id_found dest: find_SomeD)
  have "cu_role user = Admin \<or> (\<exists>g\<in>set ps. perm_username g = cu_username user \<and> (perm_level g = Write \<or> method \<in> {GET, HEAD}))"
    using assms(2) app_from_row_Inr(1) [OF app]
    by (auto simp: check_app_permission_def has_permission_iff required_level_def split: account_role.splits if_splits)
  then have "may_access user method (a_id row) (db s)"
    using load_permissions_Done [OF ps] r(3) unfolding may_access_def
    by (fastforce split: permission_level.splits)
  with r show ?thesis by blast
qed

text \<open>C2 An app's routes run only for those entitled to them: either the app in the path exists
  and the user is an administrator or holds a stored permission on it that covers the method
  (write covers all, read only GET and HEAD), or the handler does not run at all - what is
  answered and what is left behind do not depend on it.\<close>

theorem app_access_is_enforced:
  "(\<exists>aid. params ''app_id'' = Some aid \<and> (\<exists>row\<in>set (db_apps (db s)). x_uuid_parse x aid = Some (a_id row)
        \<and> may_access user method (a_id row) (db s)))
   \<or> (\<forall>run'. enforce_app_access x params user method run' s = enforce_app_access x params user method run s)"
proof (cases "params ''app_id''")
  case None
  then show ?thesis by (simp add: enforce_app_access_def ok_or_def)
next
  case (Some aid)
  show ?thesis
  proof (cases "\<exists>app s1. get_app_by_id x aid s = (Done app, s1) \<and> check_app_permission user app (required_level method) = Inr ()")
    case True
    then show ?thesis using access_check_Done Some by blast
  next
    case False
    then show ?thesis
      by (auto simp: enforce_app_access_def Some ok_or_def bindc_def from_sum_def throw_def split: prod.splits outcome.splits sum.splits)
  qed
qed

section \<open>Secrets\<close>

text \<open>A view without a secret: every secret variable shows the mask.\<close>

definition masked :: "app_view \<Rightarrow> bool" where
  "masked v \<longleftrightarrow> (\<forall>e\<in>set (av_env_vars v). \<forall>t. ev_value e = Secret t \<longrightarrow> t = secret_mask)"

lemma mask_secrets_masked: "e \<in> set (mask_secrets vs) \<Longrightarrow> ev_value e = Secret t \<Longrightarrow> t = secret_mask"
  by (auto simp: mask_secrets_def split: env_var_value.splits)

lemma view_of_app_Done: "view_of_app x app s = (Done v, s') \<Longrightarrow> masked v"
  unfolding view_of_app_def by (auto elim!: bindc_DoneE simp: masked_def dest: mask_secrets_masked)

lemma mapc_Done: "(\<And>a s b s'. f a s = (Done b, s') \<Longrightarrow> P b) \<Longrightarrow> mapc f xs s = (Done ys, s') \<Longrightarrow> \<forall>y\<in>set ys. P y"
  by (induction xs arbitrary: s ys) (auto elim!: bindc_DoneE)

text \<open>C28 No stored secret leaves the hub: every app view that a handler returns shows the fixed
  mask in place of each secret value, after creating, reading, updating or listing.\<close>

theorem secrets_are_masked:
  assumes "m \<in> {create_app_handler x user name host src vars, get_app_handler x aid,
      update_app_handler x aid new_name new_vars new_host, update_app_permissions_endpoint x aid ps}"
    and "m s = (Done v, s')" and "list_apps_handler x user t = (Done vs, t')"
  shows "masked v \<and> (\<forall>w\<in>set vs. masked w)"
proof -
  have "masked v"
    using assms(1,2) unfolding create_app_handler_def get_app_handler_def update_app_handler_def
      update_app_permissions_endpoint_def
    by (auto elim!: bindc_DoneE dest: view_of_app_Done)
  moreover have "\<forall>w\<in>set vs. masked w"
    using assms(3) unfolding list_apps_handler_def
    by (elim bindc_DoneE) (rule mapc_Done [OF view_of_app_Done])
  ultimately show ?thesis ..
qed

definition secret_externals :: externals where
  "secret_externals = sample_externals\<lparr>x_env_parse := (\<lambda>_. Inr [\<lparr>ev_key = ''K'', ev_value = Secret ''v''\<rparr>])\<rparr>"

definition sample_ann :: current_user where
  "sample_ann = \<lparr>cu_id = 1, cu_username = ''ann'', cu_role = Admin\<rparr>"

lemma sample_views:
  "\<exists>v. get_app_handler secret_externals ''1'' sample_site_world = (Done v, snd (get_app_handler secret_externals ''1'' sample_site_world))"
  "\<exists>vs. list_apps_handler secret_externals sample_ann sample_site_world
      = (Done vs, snd (list_apps_handler secret_externals sample_ann sample_site_world))"
proof -
  have "case fst (get_app_handler secret_externals ''1'' sample_site_world) of Done _ \<Rightarrow> True | Fail _ \<Rightarrow> False | Crash \<Rightarrow> False"
    "case fst (list_apps_handler secret_externals sample_ann sample_site_world) of Done _ \<Rightarrow> True | Fail _ \<Rightarrow> False | Crash \<Rightarrow> False"
    by code_simp+
  then show "\<exists>v. get_app_handler secret_externals ''1'' sample_site_world = (Done v, snd (get_app_handler secret_externals ''1'' sample_site_world))"
    "\<exists>vs. list_apps_handler secret_externals sample_ann sample_site_world
      = (Done vs, snd (list_apps_handler secret_externals sample_ann sample_site_world))"
    by (auto split: outcome.splits simp: prod_eq_iff)
qed

lemma secrets_are_masked_witness:
  "\<exists>v vs. fst (get_app_handler secret_externals ''1'' sample_site_world) = Done v \<and> masked v
     \<and> fst (list_apps_handler secret_externals sample_ann sample_site_world) = Done vs \<and> (\<forall>w\<in>set vs. masked w)"
proof -
  obtain v vs where v: "get_app_handler secret_externals ''1'' sample_site_world = (Done v, snd (get_app_handler secret_externals ''1'' sample_site_world))"
    and vs: "list_apps_handler secret_externals sample_ann sample_site_world
      = (Done vs, snd (list_apps_handler secret_externals sample_ann sample_site_world))"
    using sample_views by blast
  have "masked v \<and> (\<forall>w\<in>set vs. masked w)"
    by (rule secrets_are_masked [where m = "get_app_handler secret_externals ''1''" and x = secret_externals
          and aid = "''1''", OF _ v vs]) simp
  moreover have "fst (get_app_handler secret_externals ''1'' sample_site_world) = Done v"
    "fst (list_apps_handler secret_externals sample_ann sample_site_world) = Done vs"
    by (subst v, simp) (subst vs, simp)
  ultimately show ?thesis by blast
qed

end
