(* ===== verification/FlowFacts.thy ===== *)
theory FlowFacts
  imports DeployFacts
begin

text \<open>
  The order of an activation - the previous container is stopped only after its successor has
  been confirmed - and the bound on an upload.
\<close>

section \<open>Requests sent\<close>

text \<open>\<open>sends m M\<close>: whatever the outcome of \<open>m\<close>, the requests it sends are one of the lists in \<open>M\<close>.\<close>

definition sends :: "'a hub \<Rightarrow> (int \<times> hub_payload list) list set \<Rightarrow> bool" where
  "sends m M \<longleftrightarrow> (\<forall>s. \<exists>ms\<in>M. rpc_log (snd (m s)) = rpc_log s @ ms)"

lemma sendsD: "sends m M \<Longrightarrow> m s = (r, s') \<Longrightarrow> \<exists>ms\<in>M. rpc_log s' = rpc_log s @ ms"
  unfolding sends_def by (metis snd_conv)

lemma sends_none: "leaves rpc_log m \<Longrightarrow> sends m {[]}"
  by (simp add: sends_def leaves_def)

lemma sends_before:
  assumes "leaves rpc_log m" and "\<And>a. sends (k a) M" and "[] \<in> M"
  shows "sends (bindc m k) M"
  unfolding sends_def
proof
  fix s
  show "\<exists>ms\<in>M. rpc_log (snd (bindc m k s)) = rpc_log s @ ms"
  proof (cases "m s")
    case (Pair r s')
    then have "rpc_log s' = rpc_log s" using assms(1) by (rule leaves_run [rotated])
    then show ?thesis
      using Pair assms(2) [unfolded sends_def, rule_format, of _ s'] assms(3) by (cases r) (auto simp: bindc_def)
  qed
qed

lemma sends_after:
  assumes "sends m M" and "\<And>a. leaves rpc_log (k a)"
  shows "sends (bindc m k) M"
  unfolding sends_def
proof
  fix s
  show "\<exists>ms\<in>M. rpc_log (snd (bindc m k s)) = rpc_log s @ ms"
  proof (cases "m s")
    case (Pair r s')
    then show ?thesis
      using sendsD [OF assms(1) Pair] assms(2) by (cases r) (auto simp: bindc_def leaves_def)
  qed
qed

lemma sends_ext_call:
  assumes "\<And>s. rpc_log (snd (body s)) = rpc_log s @ m"
  shows "sends (ext_call mk body) {[], m}"
  unfolding sends_def
proof
  fix s :: world
  show "\<exists>ms\<in>{[], m}. rpc_log (snd (ext_call mk body s)) = rpc_log s @ ms"
    using assms by (cases "faults s") (auto simp: ext_call_def Let_def split: fault.split)
qed

lemma rpc_log_next_answer: "rpc_log (snd (next_answer (s\<lparr>rpc_log := l\<rparr>))) = l"
  using snd_next_answer [of "s\<lparr>rpc_log := l\<rparr>"] by auto

lemma sends_calls:
  "sends (call_streaming_reply link p) ({[]} \<union> {[(h, [p])] |h. link = Some h})"
  "sends (call link p) ({[]} \<union> {[(h, [p])] |h. link = Some h})"
proof -
  have none: "sends (throw e) {[]}" for e by (rule sends_none) (rule leaves_throw)
  have eq: "{[]} \<union> {[(h', [p])] |h'. Some h = Some h'} = {[], [(h, [p])]}" for h by auto
  show "sends (call_streaming_reply link p) ({[]} \<union> {[(h, [p])] |h. link = Some h})"
  proof (cases link)
    case None then show ?thesis using none by (simp add: call_streaming_reply_def)
  next
    case (Some h)
    show ?thesis unfolding Some eq call_streaming_reply_def option.case
      by (rule sends_ext_call) (simp add: split_beta rpc_log_next_answer)
  qed
  show "sends (call link p) ({[]} \<union> {[(h, [p])] |h. link = Some h})"
  proof (cases link)
    case None then show ?thesis using none by (simp add: call_def call_streamed_def)
  next
    case (Some h)
    show ?thesis unfolding Some eq call_def call_streamed_def option.case
      by (rule sends_ext_call)
         (use rpc_log_next_answer in \<open>auto split: prod.splits option.splits list.splits, (metis snd_conv)+\<close>)
  qed
qed

lemma leaves_rpc_log:
  "leaves rpc_log (pump_for tgt)" "leaves rpc_log (drain_command_output start_output ps pump)"
  "leaves rpc_log (get_app_by_id x aid)" "leaves rpc_log (get_deployment x aid did)"
  "leaves rpc_log (active_deployment_id x aid)" "leaves rpc_log (spawn t)"
  "leaves rpc_log (activate_deployment x aid did)" "leaves rpc_log (from_sum v)" "leaves rpc_log (ok_or e w)"
  "leaves rpc_log (gets f)" "leaves rpc_log (map_err g (from_sum u))" "leaves rpc_log (throw z)" "leaves rpc_log (ret y)"
  unfolding pump_for_def drain_command_output_def drop_pump_def activate_deployment_def
  by (intro leaves_intros; simp)+

lemma sends_start:
  "sends (start x link did cname run env tmo tgt) ({[]} \<union> {[(h, [StartRunContainer req])] |h req. link = Some h})"
proof -
  let ?M = "{[]} \<union> {[(h, [StartRunContainer req])] |h req. link = Some h}"
  have call: "sends (call_streaming_reply link (StartRunContainer req)) ?M" for req
    using sends_calls(1) [of link "StartRunContainer req"] unfolding sends_def by blast
  show ?thesis
    unfolding start_def
    by (intro sends_before sends_after [OF call] leaves_bindc leaves_rpc_log) auto
qed

lemma sends_stop_and_remove:
  "sends (stop_and_remove link cname b) ({[]} \<union> {[(h, [StopAndRemoveContainer cname b])] |h. link = Some h})"
  unfolding stop_and_remove_def
  by (rule sends_after [OF sends_calls(2)]) (auto split: agent_payload.split intro!: leaves_rpc_log)

definition start_requests :: "(int \<times> hub_payload list) list set" where
  "start_requests = {[]} \<union> {[(h, [StartRunContainer req])] |h req. True}"

definition stop_requests :: "(int \<times> hub_payload list) list set" where
  "stop_requests = {[]} \<union> {[(h, [StopAndRemoveContainer c False])] |h c. True}"

lemma requests_Nil [simp]: "[] \<in> start_requests" "[] \<in> stop_requests"
  by (simp_all add: start_requests_def stop_requests_def)

lemma sends_mono: "sends m M \<Longrightarrow> M \<subseteq> N \<Longrightarrow> sends m N"
  unfolding sends_def by blast

lemma sends_ignore: "sends m M \<Longrightarrow> sends (ignore m) M"
  unfolding sends_def ignore_def by (auto split: prod.splits) (metis snd_conv)+

lemma sends_ret: "[] \<in> M \<Longrightarrow> sends (ret a) M"
  by (rule sends_mono [OF sends_none [OF leaves_rpc_log(13)]]) simp

lemma sends_start_new: "sends (start_new x app did run cname) start_requests"
proof -
  have start: "sends (start x link did cname run env tmo tgt) start_requests" for link env tmo tgt
    by (rule sends_mono [OF sends_start]) (auto simp: start_requests_def)
  show ?thesis unfolding start_new_def by (intro sends_before leaves_rpc_log start requests_Nil)
qed

lemma sends_stop_previous: "sends (stop_previous x aid did hid) stop_requests"
proof -
  have stop: "sends (ignore (stop_and_remove link c False) :: unit hub) stop_requests" for link c
    by (rule sends_ignore [OF sends_mono [OF sends_stop_and_remove]]) (auto simp: stop_requests_def)
  have att: "leaves rpc_log (attempt (get_deployment x aid d) :: (app_error + deployment) hub)" for d
    by (intro leaves_attempt leaves_rpc_log)
  have rest: "sends (case r of Inl _ \<Rightarrow> ret () | Inr d \<Rightarrow>
       (case dep_container_name d of None \<Rightarrow> ret ()
        | Some cname \<Rightarrow> bindc (gets (\<lambda>s. agent_link_for s hid)) (\<lambda>link. ignore (stop_and_remove link cname False))))
      stop_requests" for r :: "app_error + deployment"
    by (auto split: sum.split option.split intro!: sends_ret sends_before leaves_rpc_log stop)
  show ?thesis
    unfolding stop_previous_def
    by (rule sends_before [OF leaves_rpc_log(5)])
       (auto split: option.split intro!: sends_ret sends_before att rest)
qed

text \<open>The agent's answer to the first request of a run confirms a start.\<close>

definition start_confirmed :: "world \<Rightarrow> bool" where
  "start_confirmed s \<longleftrightarrow> (\<exists>ps rest. agent_script s = Some ps # rest \<and> StartRunContainerResult (CoResult CrOk) \<in> set ps)"

lemma start_new_Done:
  assumes "start_new x app did run cname s = (Done u, s')"
  shows "start_confirmed s \<and> (\<exists>h req. rpc_log s' = rpc_log s @ [(h, [StartRunContainer req])])"
  using assms unfolding start_new_def start_confirmed_def
  by (auto elim!: bindc_DoneE elim!: start_Done)

lemma leaves_reads_of_activation:
  "leaves agent_script (get_app_by_id x aid)" "leaves agent_script (get_deployment x aid did)"
  by (intro leaves_intros; simp)+

lemma start_then_rest:
  assumes run: "bindc (start_new x app did run cname) (\<lambda>_. K) s = (r, s')" and K: "sends K stop_requests"
  shows "\<exists>ms. rpc_log s' = rpc_log s @ ms
    \<and> (ms = [] \<or> (\<exists>h req. ms = [(h, [StartRunContainer req])])
        \<or> start_confirmed s \<and> (\<exists>h req k c. ms = [(h, [StartRunContainer req]), (k, [StopAndRemoveContainer c False])]))
    \<and> (start_confirmed s \<or> r \<noteq> Done () \<and> db s' = db s)"
proof -
  obtain rs s3 where st: "start_new x app did run cname s = (rs, s3)" by fastforce
  show ?thesis
  proof (cases rs)
    case (Done u)
    obtain h req where c: "start_confirmed s" "rpc_log s3 = rpc_log s @ [(h, [StartRunContainer req])]"
      using start_new_Done st Done by blast
    have "K s3 = (r, s')" using run st Done by (simp add: bindc_def)
    from sendsD [OF K this] obtain ms where "ms \<in> stop_requests" "rpc_log s' = rpc_log s3 @ ms" by blast
    then show ?thesis
      using c by (intro exI [of _ "(h, [StartRunContainer req]) # ms"]) (auto simp: stop_requests_def)
  qed (use run st sendsD [OF sends_start_new st] leaves_run [OF leaves_db_flow_parts(2) st]
       in \<open>auto simp: bindc_def start_requests_def\<close>)
qed

text \<open>C21 When a run-mode deployment is activated, the hub first asks the agent to start its
  container; the previous deployment's container is asked to stop, and the tables are switched
  over, only if the agent has confirmed the start. If it has not, at most the start request has
  gone out, the tables are as they were and the activation fails.\<close>

theorem previous_stops_only_after_start:
  assumes "activate_with_containers x aid did s = (r, s')"
    and "get_app_by_id x aid s = (Done app, s1)" and "app_run_config app = Some run"
  shows "\<exists>ms. rpc_log s' = rpc_log s @ ms
    \<and> (ms = [] \<or> (\<exists>h req. ms = [(h, [StartRunContainer req])])
        \<or> start_confirmed s \<and> (\<exists>h req k c. ms = [(h, [StartRunContainer req]), (k, [StopAndRemoveContainer c False])]))
    \<and> (start_confirmed s \<or> r \<noteq> Done () \<and> db s' = db s)"
proof -
  have s1: "rpc_log s1 = rpc_log s" "db s1 = db s" "agent_script s1 = agent_script s"
    using assms(2) by (auto elim!: leaves_run [rotated] intro: leaves_rpc_log leaves_db_lookups leaves_reads_of_activation)
  define T where "T = (\<lambda>cname. bindc (gets (\<lambda>s. agent_link_for s (app_host_id app))) (\<lambda>link.
          bindc (gets (\<lambda>s. log_target_for s (app_id app) did LogRun)) (\<lambda>target.
          bindc (spawn_run_log_pump link cname target) (\<lambda>_.
          stop_previous x aid did (app_host_id app)))))"
  have run: "bindc (bindc (get_deployment x aid did) (\<lambda>deployment.
          bindc (ok_or (ContainerStartFailed ''run-mode deployment has no container_name'') (dep_container_name deployment)) (\<lambda>cname.
          bindc (start_new x app did run cname) (\<lambda>_. T cname)))) (\<lambda>_. activate_deployment x aid did) s1 = (r, s')"
    using assms unfolding activate_with_containers_def T_def by (simp add: bindc_def)
  have T: "sends (bindc (T cname) (\<lambda>_. activate_deployment x aid did)) stop_requests" for cname
    unfolding T_def spawn_run_log_pump_def
    by (intro sends_after sends_before sends_stop_previous leaves_rpc_log requests_Nil)
  obtain rd s2 where d: "get_deployment x aid did s1 = (rd, s2)" by fastforce
  have s2: "rpc_log s2 = rpc_log s" "db s2 = db s" "agent_script s2 = agent_script s"
    using leaves_run [OF leaves_rpc_log(4) d] leaves_run [OF leaves_db_deployments(2) d]
      leaves_run [OF leaves_reads_of_activation(2) d] s1 by auto
  show ?thesis
  proof (cases "\<exists>deployment cname. rd = Done deployment \<and> dep_container_name deployment = Some cname")
    case False
    then have "s' = s2" "r \<noteq> Done ()"
      using run d by (auto simp: bindc_def ok_or_def throw_def split: outcome.splits option.splits)
    then show ?thesis using s2 by auto
  next
    case True
    then obtain deployment cname where rd: "rd = Done deployment" "dep_container_name deployment = Some cname" by blast
    have "bindc (start_new x app did run cname) (\<lambda>_. bindc (T cname) (\<lambda>_. activate_deployment x aid did)) s2 = (r, s')"
      using run by (simp add: bindc_assoc ok_or_def rd(2) bindc_Done [where m = "get_deployment x aid did", OF d [unfolded rd(1)]])
    from start_then_rest [OF this T] show ?thesis using s2 by (simp add: start_confirmed_def)
  qed
qed

definition sample_run_site_world :: world where
  "sample_run_site_world = sample_site_world\<lparr>agent_hosts := [1],
     agent_script := [Some [StartRunContainerResult (CoResult CrOk)], Some [StopAndRemoveContainerResult CrOk]],
     db := empty_database\<lparr>db_apps := [sample_app\<lparr>a_source_json := ''run''\<rparr>],
       db_deployments := [sample_deployment\<lparr>d_container_name := Some ''old''\<rparr>,
         sample_deployment\<lparr>d_id := 3, d_container_name := Some ''new''\<rparr>]\<rparr>\<rparr>"

definition sample_activation :: "(app_error, unit) outcome \<times> world" where
  "sample_activation = activate_with_containers sample_externals ''1'' ''111'' sample_run_site_world"

lemma sample_activation_runs:
  "length (rpc_log (snd sample_activation)) = 2" "fst sample_activation = Done ()"
  "case fst (get_app_by_id sample_externals ''1'' sample_run_site_world) of Done a \<Rightarrow> app_run_config a \<noteq> None | Fail _ \<Rightarrow> False | Crash \<Rightarrow> False"
  by code_simp+

lemma previous_stops_only_after_start_witness:
  "length (rpc_log (snd sample_activation)) = 2 \<and>
   (\<exists>ms. rpc_log (snd sample_activation) = rpc_log sample_run_site_world @ ms
    \<and> (ms = [] \<or> (\<exists>h req. ms = [(h, [StartRunContainer req])])
        \<or> start_confirmed sample_run_site_world
          \<and> (\<exists>h req k c. ms = [(h, [StartRunContainer req]), (k, [StopAndRemoveContainer c False])]))
    \<and> (start_confirmed sample_run_site_world
        \<or> fst sample_activation \<noteq> Done () \<and> db (snd sample_activation) = db sample_run_site_world))"
proof -
  obtain a run where "fst (get_app_by_id sample_externals ''1'' sample_run_site_world) = Done a" "app_run_config a = Some run"
    using sample_activation_runs(3) by (auto split: outcome.splits)
  then have "get_app_by_id sample_externals ''1'' sample_run_site_world
      = (Done a, snd (get_app_by_id sample_externals ''1'' sample_run_site_world))" "app_run_config a = Some run"
    by (simp_all add: prod_eq_iff)
  from previous_stops_only_after_start [OF _ this, of "''111''" "fst sample_activation" "snd sample_activation"]
  show ?thesis using sample_activation_runs(1) by (simp add: sample_activation_def)
qed

section \<open>The bound on an upload\<close>

lemma triple_ex: "(\<And>d. triple (P d) m Q E) \<Longrightarrow> triple (\<lambda>s. \<exists>d. P d s) m Q E"
  by (rule tripleI) (auto dest: triple_Done triple_Fail triple_Crash)

lemma triple_append_file:
  "triple (\<lambda>s. map_of (fs s) p = Some (File c)) (append_file p chunk)
     (\<lambda>_ s. map_of (fs s) p = Some (File (c @ chunk)))
     (\<lambda>s. \<exists>k\<le>length chunk. map_of (fs s) p = Some (File (c @ take k chunk)))"
  by (rule tripleI) (auto dest!: append_file_effect)

definition holds_bytes :: "path \<Rightarrow> u64 \<Rightarrow> u64 \<Rightarrow> world \<Rightarrow> bool" where
  "holds_bytes p mx tot s \<longleftrightarrow> tot \<le> mx \<and> (\<exists>c. map_of (fs s) p = Some (File c) \<and> length c = unat tot)"

lemma triple_write_chunks:
  assumes "\<And>chunk. Inr chunk \<in> set cs \<Longrightarrow> unat mx + length chunk < 2 ^ 64"
  shows "triple (holds_bytes p mx tot) (write_chunks p mx tot cs) (\<lambda>t. holds_bytes p mx t) (\<lambda>s. \<exists>t. holds_bytes p mx t s)"
  using assms
proof (induction p mx tot cs rule: write_chunks.induct)
  case (1 p mx tot)
  then show ?case by (simp add: triple_ret)
next
  case (2 p mx tot c cs)
  show ?case
  proof (cases c)
    case (Inl e)
    then show ?thesis by (auto intro: triple_throw)
  next
    case (Inr chunk)
    let ?t = "tot + of_nat (length chunk)"
    have app: "triple (holds_bytes p mx tot) (io (append_file p chunk)) (\<lambda>_. holds_bytes p mx ?t) (\<lambda>s. \<exists>t. holds_bytes p mx t s)"
      if le: "\<not> mx < ?t"
    proof (rule triple_io)
      have len: "tot \<le> mx \<Longrightarrow> unat ?t = unat tot + length chunk"
        using 2(2) [of chunk] Inr by (simp add: unat_word_ariths unsigned_of_nat word_le_nat_alt take_bit_nat_eq_self)
      have "triple (\<lambda>s. tot \<le> mx \<and> map_of (fs s) p = Some (File d) \<and> length d = unat tot) (append_file p chunk)
          (\<lambda>_. holds_bytes p mx ?t) (\<lambda>s. \<exists>t. holds_bytes p mx t s)" for d
      proof (cases "tot \<le> mx \<and> length d = unat tot")
        case True
        have part: "\<exists>t. t \<le> mx \<and> unat tot + k = unat t" if "k \<le> length chunk" for k
        proof -
          have "unat tot + k < 2 ^ 64" "unat tot + k \<le> unat mx"
            using that True len le 2(2) [of chunk] Inr by (auto simp: not_less word_le_nat_alt)
          then show ?thesis
            by (intro exI [of _ "of_nat (unat tot + k)"])
               (simp add: word_le_nat_alt unsigned_of_nat take_bit_nat_eq_self del: of_nat_add)
        qed
        show ?thesis
          by (rule triple_conseq [OF triple_append_file [of p d chunk]])
             (use True len le part in \<open>auto simp: holds_bytes_def not_less min_absorb2\<close>)
      qed (auto simp: triple_def)
      then have "triple (\<lambda>s. \<exists>d. tot \<le> mx \<and> map_of (fs s) p = Some (File d) \<and> length d = unat tot) (append_file p chunk)
          (\<lambda>_. holds_bytes p mx ?t) (\<lambda>s. \<exists>t. holds_bytes p mx t s)"
        by (rule triple_ex)
      then show "triple (holds_bytes p mx tot) (append_file p chunk) (\<lambda>_. holds_bytes p mx ?t) (\<lambda>s. \<exists>t. holds_bytes p mx t s)"
        by (rule triple_pre) (auto simp: holds_bytes_def)
    qed
    show ?thesis
      using 2 Inr by (auto simp: Let_def intro: triple_throw triple_bindc [OF app])
  qed
qed

lemma triple_new_file:
  "triple (\<lambda>s. fs s = t) (io (write_file p [])) (\<lambda>_. holds_bytes p mx 0) (\<lambda>s. fs s = t \<or> (\<exists>u. holds_bytes p mx u s))"
  unfolding write_file_def
  by (rule triple_io, rule triple_ext_call)
     (auto simp: triple_def set_fs_run map_of_fs_put holds_bytes_def split: option.splits node.splits)

definition chunks_fit :: "u64 \<Rightarrow> multipart \<Rightarrow> bool" where
  "chunks_fit mx mp \<longleftrightarrow> (\<forall>f chunk. Inr f \<in> set mp \<longrightarrow> Inr chunk \<in> set (mf_chunks f) \<longrightarrow> unat mx + length chunk < 2 ^ 64)"

lemma triple_stream_upload:
  assumes "chunks_fit mx mp"
  shows "triple (\<lambda>s. fs s = t \<and> lim_max_upload_bytes (limits s) = mx) (stream_upload_to_disk p mp)
    (\<lambda>r. holds_bytes p mx (snd r)) (\<lambda>s. fs s = t \<or> (\<exists>u. holds_bytes p mx u s))"
  using assms
proof (induction p mp rule: stream_upload_to_disk.induct)
  case (1 p)
  then show ?case by (auto intro: triple_throw)
next
  case (2 p f fls)
  let ?P = "\<lambda>s. fs s = t \<and> lim_max_upload_bytes (limits s) = mx"
  let ?E = "\<lambda>s. fs s = t \<or> (\<exists>u. holds_bytes p mx u s)"
  have new: "triple ?P (io (write_file p [])) (\<lambda>_ s. holds_bytes p mx 0 s \<and> lim_max_upload_bytes (limits s) = mx) ?E"
  proof -
    have "leaves limits (io (write_file p []))" by (intro leaves_intros) simp
    then show ?thesis
      by (rule triple_conseq [OF triple_both [OF triple_new_file [of t p mx] triple_keeps [OF keeps_leaves
            [where J = "\<lambda>l. lim_max_upload_bytes l = mx"]]]]) auto
  qed
  have chunks: "triple (holds_bytes p mx 0) (write_chunks p mx 0 (mf_chunks fl)) (\<lambda>u. holds_bytes p mx u) ?E"
    if "f = Inr fl" for fl
    by (rule triple_conseq [OF triple_write_chunks]) (use 2(2) that in \<open>auto simp: chunks_fit_def\<close>)
  have body: "triple ?P (bindc (io (write_file p [])) (\<lambda>_.
            bindc (gets (\<lambda>s. lim_max_upload_bytes (limits s))) (\<lambda>max_upload.
            bindc (write_chunks p max_upload 0 (mf_chunks fl)) (\<lambda>tot.
            ret (mf_file_name fl, tot))))) (\<lambda>r. holds_bytes p mx (snd r)) ?E" if "f = Inr fl" for fl
    apply (rule triple_bindc [OF new])
    apply (rule triple_bindc [where Q = "\<lambda>m s. holds_bytes p mx 0 s \<and> m = mx"])
     apply (rule triple_gets, simp)
    apply (rule triple_assume, simp)
    apply (rule triple_bindc [OF chunks [OF that]])
    apply (rule triple_ret, simp)
    done
  have "chunks_fit mx fls" using 2(2) by (auto simp: chunks_fit_def)
  then show ?case using 2(1) body by (cases f) (auto intro: triple_throw)
qed

text \<open>C29 An upload never puts more bytes on the disk than the configured limit: whatever the
  request holds and however receiving it ends, the file for it is either untouched or at most
  as long as the limit, and a size that is reported is the length of the file. (The chunks are
  assumed short enough for the 64-bit counter not to wrap.)\<close>

theorem upload_stays_within_limit:
  assumes "stream_upload_to_disk p mp s = (r, s')" and "chunks_fit (lim_max_upload_bytes (limits s)) mp"
    and "map_of (fs s) p = None"
  shows "(\<forall>c. map_of (fs s') p = Some (File c) \<longrightarrow> length c \<le> unat (lim_max_upload_bytes (limits s)))
    \<and> (\<forall>name size. r = Done (name, size) \<longrightarrow> (\<exists>c. map_of (fs s') p = Some (File c) \<and> length c = unat size))"
proof -
  note run = triple_stream_upload [OF assms(2), of "fs s" p]
  have "fs s' = fs s \<or> (\<exists>u. holds_bytes p (lim_max_upload_bytes (limits s)) u s')"
    using triple_Done [OF run, of s] triple_Fail [OF run, of s] triple_Crash [OF run, of s] assms(1) by (cases r) auto
  moreover have "\<forall>a. r = Done a \<longrightarrow> holds_bytes p (lim_max_upload_bytes (limits s)) (snd a) s'"
    using triple_Done [OF run, of s] assms(1) by auto
  ultimately show ?thesis using assms(3) by (auto simp: holds_bytes_def word_le_nat_alt)
qed

lemma upload_stays_within_limit_witness:
  "let r = fst (stream_upload_to_disk [''d'', ''u''] [Inr sample_part] sample_site_world);
       s' = snd (stream_upload_to_disk [''d'', ''u''] [Inr sample_part] sample_site_world) in
   (\<forall>c. map_of (fs s') [''d'', ''u''] = Some (File c) \<longrightarrow> length c \<le> unat (lim_max_upload_bytes (limits sample_site_world)))
   \<and> (\<forall>name size. r = Done (name, size) \<longrightarrow> (\<exists>c. map_of (fs s') [''d'', ''u''] = Some (File c) \<and> length c = unat size))"
  unfolding Let_def
  by (rule upload_stays_within_limit [where mp = "[Inr sample_part]" and p = "[''d'', ''u'']" and s = sample_site_world, OF prod.collapse [symmetric]])
     (simp_all add: chunks_fit_def sample_part_def sample_site_simps sample_limits_def)

end
