(* ===== verification/AgentLink.thy ===== *)
theory AgentLink
  imports Sample
begin

text \<open>
  One agent connection in detail: \<open>agent_link.rs\<close>. The three mutex-protected fields of \<open>Inner\<close>
  are the components \<open>pending\<close>, \<open>streams\<close> and \<open>outbound\<close>; a channel is named by the id of the
  request that opened it, its sender lives exactly as long as its id is in one of the maps, and
  what it holds is the inbox of the call. The channel behind \<open>outbound\<close> is bounded: what it holds
  is \<open>outbox\<close>, what the transport has taken from it is \<open>wire\<close>, and a call waits while it is full. Callers, the session's reader and its end interleave:
  every step below is one critical section of the code, so the runs are the interleavings the
  scheduler may choose. The rest of the model talks to an agent through \<open>call_streamed\<close> and
  \<open>call_streaming_reply\<close> of \<open>World\<close>; the theory ends with the refinement between the two.
\<close>

section \<open>State\<close>

datatype call_kind = OneShot | StreamingReply

datatype call_pc =
    Registered "hub_payload list"
  | Sending "hub_payload list"
  | Waiting
  | Returned "app_error + agent_payload"
  | StreamClosed

text \<open>\<open>cl_since\<close> and \<open>cl_read\<close> are history: what had arrived at registration, what was read.\<close>

record call_state =
  cl_kind :: call_kind
  cl_pc :: call_pc
  cl_inbox :: "agent_payload list"
  cl_since :: nat
  cl_read :: "agent_payload list"

record link =
  next_request_id :: u64
  pending :: "u64 set"
  streams :: "u64 set"
  outbound :: bool
  session_rx :: bool
  outbox :: "(u64 \<times> hub_payload) list"
  wire :: "(u64 \<times> hub_payload) list"
  arrived :: "(u64 \<times> agent_payload) list"
  calls :: "u64 \<rightharpoonup> call_state"
  ended :: nat

definition link_new :: link where
  "link_new = \<lparr>next_request_id = 1, pending = {}, streams = {}, outbound = False, session_rx = False,
     outbox = [], wire = [], arrived = [], calls = Map.empty, ended = 0\<rparr>"

definition set_outbound :: "link \<Rightarrow> link" where
  "set_outbound l = l\<lparr>outbound := True, session_rx := True, outbox := []\<rparr>"

section \<open>Critical sections\<close>

definition set_call :: "u64 \<Rightarrow> (call_state \<Rightarrow> call_state) \<Rightarrow> link \<Rightarrow> link" where
  "set_call i f l = l\<lparr>calls := (calls l)(i := map_option f (calls l i))\<rparr>"

definition forget :: "u64 \<Rightarrow> link \<Rightarrow> link" where
  "forget i l = l\<lparr>pending := pending l - {i}, streams := streams l - {i}\<rparr>"

definition goto :: "u64 \<Rightarrow> call_pc \<Rightarrow> link \<Rightarrow> link" where
  "goto i pc l = set_call i (\<lambda>c. c\<lparr>cl_pc := pc\<rparr>) l"

text \<open>\<open>next_request_id\<close> and the insertion of the channel's sender.\<close>

definition register :: "call_kind \<Rightarrow> hub_payload list \<Rightarrow> link \<Rightarrow> link" where
  "register kind payloads l =
     (let i = next_request_id l;
          l' = l\<lparr>next_request_id := i + 1, calls := (calls l)(i \<mapsto>
            \<lparr>cl_kind = kind, cl_pc = Registered payloads, cl_inbox = [], cl_since = length (arrived l), cl_read = []\<rparr>)\<rparr> in
      case kind of
        OneShot \<Rightarrow> l'\<lparr>pending := insert i (pending l)\<rparr>
      | StreamingReply \<Rightarrow> l'\<lparr>streams := insert i (streams l)\<rparr>)"

definition take_outbound :: "u64 \<Rightarrow> hub_payload list \<Rightarrow> link \<Rightarrow> link" where
  "take_outbound i payloads l =
     (if outbound l then goto i (Sending payloads) l
      else goto i (Returned (Inl AgentUnavailable)) (forget i l))"

text \<open>\<open>send\<close> waits for room in the channel, with no time-out; a dropped receiver ends the wait.\<close>

definition outbound_capacity :: nat where
  "outbound_capacity = 16"

definition send_next :: "u64 \<Rightarrow> hub_payload list \<Rightarrow> link \<Rightarrow> link" where
  "send_next i payloads l =
     (case payloads of
        [] \<Rightarrow> goto i Waiting l
      | p # ps \<Rightarrow>
         (if \<not> session_rx l then goto i (Returned (Inl AgentUnavailable)) (forget i l)
          else if length (outbox l) < outbound_capacity then goto i (Sending ps) (l\<lparr>outbox := outbox l @ [(i, p)]\<rparr>)
          else l))"

text \<open>The session's response stream takes the next message off the channel.\<close>

definition transmit :: "link \<Rightarrow> link" where
  "transmit l =
     (case outbox l of
        [] \<Rightarrow> l
      | m # ms \<Rightarrow> l\<lparr>wire := wire l @ [m], outbox := ms\<rparr>)"

text \<open>What a waiting caller sees: a reply, a closed channel, or nothing yet.\<close>

definition poll :: "u64 \<Rightarrow> call_state \<Rightarrow> link \<Rightarrow> link" where
  "poll i c l =
     (case (cl_kind c, cl_inbox c) of
        (OneShot, p # ps) \<Rightarrow> goto i (Returned (Inr p)) l
      | (OneShot, []) \<Rightarrow> if i \<in> pending l then l else goto i (Returned (Inl AgentUnavailable)) l
      | (StreamingReply, p # ps) \<Rightarrow> set_call i (\<lambda>c. c\<lparr>cl_inbox := ps, cl_read := cl_read c @ [p]\<rparr>) l
      | (StreamingReply, []) \<Rightarrow> if i \<in> streams l then l else goto i StreamClosed l)"

definition time_out :: "u64 \<Rightarrow> link \<Rightarrow> link" where
  "time_out i l = goto i (Returned (Inl AgentTimeout)) (l\<lparr>pending := pending l - {i}\<rparr>)"

definition end_stream :: "u64 \<Rightarrow> link \<Rightarrow> link" where
  "end_stream i l = l\<lparr>streams := streams l - {i}\<rparr>"

text \<open>\<open>resolve\<close>: a message of the agent, routed by its request id.\<close>

definition deliver :: "u64 \<Rightarrow> agent_payload \<Rightarrow> link \<Rightarrow> link" where
  "deliver i p l = set_call i (\<lambda>c. c\<lparr>cl_inbox := cl_inbox c @ [p]\<rparr>) l"

definition resolve :: "u64 \<Rightarrow> agent_payload option \<Rightarrow> link \<Rightarrow> link" where
  "resolve i payload l =
     (case payload of
        None \<Rightarrow> l
      | Some p \<Rightarrow>
         (let l' = l\<lparr>arrived := arrived l @ [(i, p)]\<rparr> in
          if i \<in> streams l then deliver i p l'
          else if i \<in> pending l then deliver i p (l'\<lparr>pending := pending l - {i}\<rparr>)
          else l'))"

text \<open>\<open>fail_all_pending\<close>: three critical sections, one after the other.\<close>

definition clear_pending :: "link \<Rightarrow> link" where
  "clear_pending l = l\<lparr>pending := {}, ended := 1\<rparr>"

definition clear_streams :: "link \<Rightarrow> link" where
  "clear_streams l = l\<lparr>streams := {}, ended := 2\<rparr>"

definition clear_outbound :: "link \<Rightarrow> link" where
  "clear_outbound l = l\<lparr>outbound := False, ended := 3\<rparr>"

definition fail_all_pending :: "link \<Rightarrow> link" where
  "fail_all_pending l = clear_outbound (clear_streams (clear_pending l))"

definition stream_channel_capacity :: nat where
  "stream_channel_capacity = 16"

text \<open>A message for a stream whose channel is full is not taken off the connection yet.\<close>

definition has_room :: "link \<Rightarrow> u64 \<Rightarrow> bool" where
  "has_room l i \<longleftrightarrow> (case calls l i of
     Some c \<Rightarrow> i \<in> streams l \<longrightarrow> length (cl_inbox c) < stream_channel_capacity
   | None \<Rightarrow> True)"

section \<open>Runs\<close>

text \<open>
  The steps of all parties. Ids do not repeat: a link serves fewer than \<open>2 ^ 64\<close> requests. The
  session's reader stops before it calls \<open>fail_all_pending\<close>; the transport may drop the receiving
  end of \<open>outbound\<close> at any time.
\<close>

inductive link_step :: "link \<Rightarrow> link \<Rightarrow> bool" where
  connection_accepted: "ended l = 0 \<Longrightarrow> \<not> outbound l \<Longrightarrow> link_step l (set_outbound l)"
| begin_call: "calls l (next_request_id l) = None \<Longrightarrow> link_step l (register kind payloads l)"
| outbound_taken: "calls l i = Some c \<Longrightarrow> cl_pc c = Registered payloads \<Longrightarrow> link_step l (take_outbound i payloads l)"
| payload_sent: "calls l i = Some c \<Longrightarrow> cl_pc c = Sending payloads \<Longrightarrow> link_step l (send_next i payloads l)"
| polled: "calls l i = Some c \<Longrightarrow> cl_pc c = Waiting \<Longrightarrow> link_step l (poll i c l)"
| timed_out: "calls l i = Some c \<Longrightarrow> cl_pc c = Waiting \<Longrightarrow> cl_kind c = OneShot \<Longrightarrow> cl_inbox c = []
    \<Longrightarrow> i \<in> pending l \<Longrightarrow> link_step l (time_out i l)"
| stream_ended: "link_step l (end_stream i l)"
| message_arrived: "ended l = 0 \<Longrightarrow> has_room l i \<Longrightarrow> link_step l (resolve i payload l)"
| message_taken: "session_rx l \<Longrightarrow> link_step l (transmit l)"
| transport_dropped: "link_step l (l\<lparr>session_rx := False, outbox := []\<rparr>)"
| session_over: "ended l = 0 \<Longrightarrow> link_step l (clear_pending l)"
| streams_cleared: "ended l = 1 \<Longrightarrow> link_step l (clear_streams l)"
| outbound_cleared: "ended l = 2 \<Longrightarrow> link_step l (clear_outbound l)"

inductive link_run :: "link \<Rightarrow> link \<Rightarrow> bool" for l where
  run_here: "link_run l l"
| run_step: "link_run l m \<Longrightarrow> link_step m n \<Longrightarrow> link_run l n"

inductive_cases link_stepE [elim]: "link_step l m"

lemmas link_defs = set_call_def forget_def goto_def register_def take_outbound_def send_next_def outbound_capacity_def
  transmit_def poll_def
  time_out_def end_stream_def deliver_def resolve_def clear_pending_def clear_streams_def clear_outbound_def Let_def

section \<open>The invariant\<close>

text \<open>The replies that arrived under an id since it was registered.\<close>

definition replies :: "link \<Rightarrow> u64 \<Rightarrow> call_state \<Rightarrow> agent_payload list" where
  "replies l i c = map snd (filter (\<lambda>m. fst m = i) (drop (cl_since c) (arrived l)))"

definition one_shot_ok :: "link \<Rightarrow> u64 \<Rightarrow> call_state \<Rightarrow> bool" where
  "one_shot_ok l i c \<longleftrightarrow>
     (i \<in> pending l \<longrightarrow> replies l i c = [] \<and> cl_inbox c = [] \<and> (\<forall>r. cl_pc c \<noteq> Returned r))
     \<and> (cl_inbox c = [] \<or> (\<exists>p rest. cl_inbox c = [p] \<and> replies l i c = p # rest))
     \<and> (\<forall>p. cl_pc c = Returned (Inr p) \<longrightarrow> (\<exists>rest. replies l i c = p # rest))
     \<and> (\<forall>e. cl_pc c = Returned (Inl e) \<longrightarrow> e = AgentUnavailable \<or> e = AgentTimeout)
     \<and> cl_pc c \<noteq> StreamClosed"

definition stream_ok :: "link \<Rightarrow> u64 \<Rightarrow> call_state \<Rightarrow> bool" where
  "stream_ok l i c \<longleftrightarrow>
     (\<exists>rest. replies l i c = cl_read c @ cl_inbox c @ rest \<and> (i \<in> streams l \<longrightarrow> rest = []))
     \<and> (\<forall>r. cl_pc c = Returned r \<longrightarrow> r = Inl AgentUnavailable)"

definition link_ok :: "link \<Rightarrow> bool" where
  "link_ok l \<longleftrightarrow>
     (\<forall>i\<in>pending l. \<exists>c. calls l i = Some c \<and> cl_kind c = OneShot)
     \<and> (\<forall>i\<in>streams l. \<exists>c. calls l i = Some c \<and> cl_kind c = StreamingReply)
     \<and> (\<forall>i c. calls l i = Some c \<longrightarrow> cl_since c \<le> length (arrived l)
          \<and> (case cl_kind c of OneShot \<Rightarrow> one_shot_ok l i c | StreamingReply \<Rightarrow> stream_ok l i c))"

lemma link_ok_new: "link_ok link_new"
  by (simp add: link_ok_def link_new_def)

lemma replies_other [simp]: "replies (l\<lparr>calls := cs\<rparr>) i c = replies l i c" "replies (l\<lparr>pending := ps\<rparr>) i c = replies l i c"
  "replies (l\<lparr>streams := ss\<rparr>) i c = replies l i c" "replies (l\<lparr>wire := w\<rparr>) i c = replies l i c"
  "replies (l\<lparr>next_request_id := n\<rparr>) i c = replies l i c" "replies (l\<lparr>ended := e\<rparr>) i c = replies l i c"
  "replies (l\<lparr>outbound := b\<rparr>) i c = replies l i c" "replies (l\<lparr>session_rx := b\<rparr>) i c = replies l i c"
  "replies (l\<lparr>outbox := w\<rparr>) i c = replies l i c"
  by (simp_all add: replies_def)

lemma replies_upd [simp]: "replies l i (c\<lparr>cl_pc := pc\<rparr>) = replies l i c" "replies l i (c\<lparr>cl_inbox := q\<rparr>) = replies l i c"
  "replies l i (c\<lparr>cl_read := q\<rparr>) = replies l i c"
  by (simp_all add: replies_def)

lemma replies_arrived:
  "cl_since c \<le> length (arrived l) \<Longrightarrow>
    replies (l\<lparr>arrived := arrived l @ [(j, p)]\<rparr>) i c = replies l i c @ (if j = i then [p] else [])"
  by (simp add: replies_def)

definition call_ok :: "link \<Rightarrow> u64 \<Rightarrow> call_state \<Rightarrow> bool" where
  "call_ok l i c \<longleftrightarrow> cl_since c \<le> length (arrived l)
     \<and> (case cl_kind c of OneShot \<Rightarrow> one_shot_ok l i c | StreamingReply \<Rightarrow> stream_ok l i c)"

lemma link_okI:
  assumes "\<And>i. i \<in> pending l \<Longrightarrow> \<exists>c. calls l i = Some c \<and> cl_kind c = OneShot"
    and "\<And>i. i \<in> streams l \<Longrightarrow> \<exists>c. calls l i = Some c \<and> cl_kind c = StreamingReply"
    and "\<And>i c. calls l i = Some c \<Longrightarrow> call_ok l i c"
  shows "link_ok l"
  using assms by (simp add: link_ok_def call_ok_def)

lemma link_okD:
  assumes "link_ok l"
  shows "i \<in> pending l \<Longrightarrow> \<exists>c. calls l i = Some c \<and> cl_kind c = OneShot"
    and "i \<in> streams l \<Longrightarrow> \<exists>c. calls l i = Some c \<and> cl_kind c = StreamingReply"
    and "calls l i = Some c \<Longrightarrow> call_ok l i c"
  using assms by (simp_all add: link_ok_def call_ok_def)

text \<open>Shrinking the maps keeps the invariant; so does a change of one call that keeps its own part.\<close>

lemma call_ok_shrink:
  assumes "call_ok l i c" and "arrived m = arrived l" and "pending m \<subseteq> pending l" and "streams m \<subseteq> streams l"
  shows "call_ok m i c"
  using assms subsetD [OF assms(3), of i] subsetD [OF assms(4), of i]
  by (auto simp: call_ok_def one_shot_ok_def stream_ok_def replies_def split: call_kind.splits)

lemma link_ok_shrink:
  assumes ok: "link_ok l" and "ps \<subseteq> pending l" and "ss \<subseteq> streams l"
  shows "link_ok (l\<lparr>pending := ps, streams := ss\<rparr>)"
  using assms link_okD(1,2) [OF ok] call_ok_shrink [OF link_okD(3) [OF ok]]
  by (intro link_okI) (auto dest: subsetD)

lemma link_ok_set_call:
  assumes ok: "link_ok l" and c: "calls l i = Some c" and kind: "cl_kind (f c) = cl_kind c" and "call_ok l i (f c)"
  shows "link_ok (set_call i f l)"
proof (rule link_okI)
  show "\<exists>c. calls (set_call i f l) j = Some c \<and> cl_kind c = OneShot" if "j \<in> pending (set_call i f l)" for j
    using link_okD(1) [OF ok, of j] that c kind by (auto simp: set_call_def)
  show "\<exists>c. calls (set_call i f l) j = Some c \<and> cl_kind c = StreamingReply" if "j \<in> streams (set_call i f l)" for j
    using link_okD(2) [OF ok, of j] that c kind by (auto simp: set_call_def)
  show "call_ok (set_call i f l) j d" if "calls (set_call i f l) j = Some d" for j d
    using link_okD(3) [OF ok, of j d] that c assms(4)
    by (auto simp: set_call_def call_ok_def one_shot_ok_def stream_ok_def split: if_splits call_kind.splits)
qed

lemma link_ok_goto:
  assumes "link_ok l" and "calls l i = Some c" and "call_ok l i (c\<lparr>cl_pc := pc\<rparr>)"
  shows "link_ok (goto i pc l)"
  unfolding goto_def using assms by (intro link_ok_set_call) auto

lemma link_ok_fields:
  assumes "link_ok l"
  shows "link_ok (l\<lparr>wire := w\<rparr>)" "link_ok (l\<lparr>ended := e\<rparr>)" "link_ok (l\<lparr>outbound := b\<rparr>)" "link_ok (l\<lparr>session_rx := b\<rparr>)"
    "link_ok (l\<lparr>outbox := w\<rparr>)"
proof -
  have "call_ok (l\<lparr>wire := w\<rparr>) = call_ok l" "call_ok (l\<lparr>ended := e\<rparr>) = call_ok l"
    "call_ok (l\<lparr>outbound := b\<rparr>) = call_ok l" "call_ok (l\<lparr>session_rx := b\<rparr>) = call_ok l"
    "call_ok (l\<lparr>outbox := w\<rparr>) = call_ok l"
    by (simp_all add: fun_eq_iff call_ok_def one_shot_ok_def stream_ok_def split: call_kind.split)
  then show "link_ok (l\<lparr>wire := w\<rparr>)" "link_ok (l\<lparr>ended := e\<rparr>)" "link_ok (l\<lparr>outbound := b\<rparr>)"
    "link_ok (l\<lparr>session_rx := b\<rparr>)" "link_ok (l\<lparr>outbox := w\<rparr>)"
    by (auto intro!: link_okI dest: link_okD [OF assms])
qed

lemma link_ok_register:
  assumes "link_ok l" and "calls l (next_request_id l) = None"
  shows "link_ok (register kind payloads l)"
proof (rule link_okI)
  let ?m = "register kind payloads l"
  show "\<exists>c. calls ?m i = Some c \<and> cl_kind c = OneShot" if "i \<in> pending ?m" for i
    using that assms link_okD(1) [OF assms(1), of i] by (auto simp: register_def Let_def split: call_kind.splits)
  show "\<exists>c. calls ?m i = Some c \<and> cl_kind c = StreamingReply" if "i \<in> streams ?m" for i
    using that assms link_okD(2) [OF assms(1), of i] by (auto simp: register_def Let_def split: call_kind.splits)
  show "call_ok ?m i c" if "calls ?m i = Some c" for i c
    using that assms link_okD(3) [OF assms(1), of i c]
    by (cases kind)
       (auto simp: register_def Let_def call_ok_def one_shot_ok_def stream_ok_def replies_def split: if_splits call_kind.splits)
qed

lemma call_ok_arrived:
  assumes "call_ok l i c" and "j \<noteq> i \<or> (i \<notin> pending l \<and> i \<notin> streams l)"
  shows "call_ok (l\<lparr>arrived := arrived l @ [(j, p)]\<rparr>) i c"
  using assms
  by (auto simp: call_ok_def one_shot_ok_def stream_ok_def replies_arrived split: call_kind.splits)

lemma call_ok_cong:
  assumes "arrived m = arrived l" and "i \<in> pending m \<longleftrightarrow> i \<in> pending l" and "i \<in> streams m \<longleftrightarrow> i \<in> streams l"
  shows "call_ok m i c \<longleftrightarrow> call_ok l i c"
  using assms by (auto simp: call_ok_def one_shot_ok_def stream_ok_def replies_def split: call_kind.split)

lemma calls_deliver [simp]:
  "calls (deliver i p l) = (calls l)(i := map_option (\<lambda>c. c\<lparr>cl_inbox := cl_inbox c @ [p]\<rparr>) (calls l i))"
  "pending (deliver i p l) = pending l" "streams (deliver i p l) = streams l" "arrived (deliver i p l) = arrived l"
  by (simp_all add: deliver_def set_call_def)

text \<open>Delivering to one call keeps the others as they are.\<close>

lemma link_ok_deliver:
  assumes ok: "link_ok l" and c: "calls l i = Some c"
    and m: "pending m = pending l - {i} \<or> pending m = pending l" "streams m = streams l" "calls m = calls l"
      "arrived m = arrived l @ [(i, p)]"
    and this_one: "call_ok m i (c\<lparr>cl_inbox := cl_inbox c @ [p]\<rparr>)"
  shows "link_ok (deliver i p m)"
proof (rule link_okI)
  let ?d = "deliver i p m"
  have keep: "call_ok ?d j d \<longleftrightarrow> call_ok m j d" for j d by (rule call_ok_cong) simp_all
  show "\<exists>c. calls ?d j = Some c \<and> cl_kind c = OneShot" if "j \<in> pending ?d" for j
    using link_okD(1) [OF ok, of j] that c m by auto
  show "\<exists>c. calls ?d j = Some c \<and> cl_kind c = StreamingReply" if "j \<in> streams ?d" for j
    using link_okD(2) [OF ok, of j] that c m by auto
  show "call_ok ?d j d" if d: "calls ?d j = Some d" for j d
  proof (cases "j = i")
    case True
    then show ?thesis using d c m this_one by (auto simp: keep)
  next
    case False
    then have "call_ok (l\<lparr>arrived := arrived l @ [(i, p)]\<rparr>) j d"
      using d m by (intro call_ok_arrived link_okD(3) [OF ok]) auto
    moreover have "call_ok m j d \<longleftrightarrow> call_ok (l\<lparr>arrived := arrived l @ [(i, p)]\<rparr>) j d"
      using m False by (intro call_ok_cong) auto
    ultimately show ?thesis by (simp add: keep)
  qed
qed

lemma link_ok_resolve:
  assumes ok: "link_ok l" shows "link_ok (resolve i payload l)"
proof (cases payload)
  case None
  then show ?thesis using ok by (simp add: resolve_def)
next
  case (Some p)
  let ?l = "l\<lparr>arrived := arrived l @ [(i, p)]\<rparr>"
  consider (stream) "i \<in> streams l" | (one) "i \<notin> streams l" "i \<in> pending l" | (none) "i \<notin> streams l" "i \<notin> pending l"
    by blast
  then show ?thesis
  proof cases
    case stream
    then obtain c where c: "calls l i = Some c" "cl_kind c = StreamingReply" using link_okD(2) [OF ok] by blast
    have "call_ok ?l i (c\<lparr>cl_inbox := cl_inbox c @ [p]\<rparr>)"
      using link_okD(3) [OF ok c(1)] c(2) stream by (auto simp: call_ok_def stream_ok_def replies_arrived)
    from link_ok_deliver [OF ok c(1) _ _ _ _ this] show ?thesis using stream Some by (simp add: resolve_def)
  next
    case one
    then obtain c where c: "calls l i = Some c" "cl_kind c = OneShot" using link_okD(1) [OF ok] by blast
    let ?m = "?l\<lparr>pending := pending l - {i}\<rparr>"
    have "call_ok ?m i (c\<lparr>cl_inbox := cl_inbox c @ [p]\<rparr>)"
      using link_okD(3) [OF ok c(1)] c(2) one by (auto simp: call_ok_def one_shot_ok_def replies_arrived)
    from link_ok_deliver [OF ok c(1) _ _ _ _ this] show ?thesis using one Some by (simp add: resolve_def)
  next
    case none
    have "call_ok ?l j c" if "calls l j = Some c" for j c
      using none by (intro call_ok_arrived link_okD(3) [OF ok that]) auto
    then show ?thesis
      using none link_okD(1,2) [OF ok] Some by (intro link_okI) (auto simp: resolve_def)
  qed
qed

lemma link_ok_forget: "link_ok l \<Longrightarrow> link_ok (forget i l)"
  unfolding forget_def by (rule link_ok_shrink) auto

lemma calls_forget [simp]: "calls (forget i l) = calls l" "pending (forget i l) = pending l - {i}"
  "streams (forget i l) = streams l - {i}" "arrived (forget i l) = arrived l" "replies (forget i l) = replies l"
  by (simp_all add: forget_def replies_def fun_eq_iff)

text \<open>A call that gives up without a reply, once its sender is out of the maps.\<close>

lemma call_ok_give_up:
  assumes "call_ok l i c" and "i \<notin> pending l" and "e = AgentUnavailable \<or> e = AgentTimeout \<and> cl_kind c = OneShot"
  shows "call_ok l i (c\<lparr>cl_pc := Returned (Inl e)\<rparr>)"
  using assms by (auto simp: call_ok_def one_shot_ok_def stream_ok_def split: call_kind.splits)

lemma call_ok_move:
  assumes "call_ok l i c" and "\<And>r. pc \<noteq> Returned r" and "pc \<noteq> StreamClosed \<or> cl_kind c = StreamingReply"
  shows "call_ok l i (c\<lparr>cl_pc := pc\<rparr>)"
  using assms by (auto simp: call_ok_def one_shot_ok_def stream_ok_def split: call_kind.splits)

lemma call_ok_forget: "call_ok l i c \<Longrightarrow> call_ok (forget i l) i c"
  by (auto simp: call_ok_def one_shot_ok_def stream_ok_def split: call_kind.splits)

lemma link_ok_refuse:
  assumes "link_ok l" and "calls l i = Some c"
  shows "link_ok (goto i (Returned (Inl AgentUnavailable)) (forget i l))"
proof (rule link_ok_goto [OF link_ok_forget [OF assms(1)]])
  show "calls (forget i l) i = Some c" by (simp add: assms(2))
  show "call_ok (forget i l) i (c\<lparr>cl_pc := Returned (Inl AgentUnavailable)\<rparr>)"
    by (rule call_ok_give_up [OF call_ok_forget [OF link_okD(3) [OF assms]]]) auto
qed

lemma link_step_ok: "link_step l m \<Longrightarrow> link_ok l \<Longrightarrow> link_ok m"
proof (induction rule: link_step.induct)
  case (connection_accepted l)
  then show ?case using link_ok_fields(3,4,5) by (simp add: set_outbound_def)
next
  case (begin_call l kind payloads)
  then show ?case by (intro link_ok_register)
next
  case (outbound_taken l i c payloads)
  note c = link_okD(3) [OF outbound_taken(3,1)]
  show ?case
    using outbound_taken link_ok_refuse link_ok_goto [OF outbound_taken(3,1) call_ok_move [OF c]]
    by (auto simp: take_outbound_def)
next
  case (payload_sent l i c payloads)
  note c = link_okD(3) [OF payload_sent(3,1)]
  have wire: "call_ok (l\<lparr>outbox := w\<rparr>) i c" "calls (l\<lparr>outbox := w\<rparr>) i = Some c" for w
    using link_okD(3) [OF link_ok_fields(5) [OF payload_sent(3)]] payload_sent(1) by simp_all
  show ?case
    using payload_sent link_ok_refuse link_ok_goto [OF payload_sent(3,1) call_ok_move [OF c]]
      link_ok_goto [OF link_ok_fields(5) [OF payload_sent(3)] wire(2) call_ok_move [OF wire(1)]]
    by (auto simp: send_next_def split: list.splits)
next
  case (polled l i c)
  note c = link_okD(3) [OF polled(3,1)]
  show ?case
  proof (cases "cl_kind c")
    case OneShot
    have "call_ok l i (c\<lparr>cl_pc := Returned (Inr p)\<rparr>)" if "cl_inbox c = p # ps" for p ps
      using c OneShot that by (auto simp: call_ok_def one_shot_ok_def)
    then show ?thesis
      using OneShot polled link_ok_goto [OF polled(3,1)] call_ok_give_up [OF c]
      by (auto simp: poll_def split: list.splits)
  next
    case StreamingReply
    have "call_ok l i (c\<lparr>cl_inbox := ps, cl_read := cl_read c @ [p]\<rparr>)" if "cl_inbox c = p # ps" for p ps
      using c StreamingReply that by (auto simp: call_ok_def stream_ok_def replies_def)
    then have "link_ok (set_call i (\<lambda>c. c\<lparr>cl_inbox := ps, cl_read := cl_read c @ [p]\<rparr>) l)" if "cl_inbox c = p # ps" for p ps
      using that by (intro link_ok_set_call [OF polled(3,1)]) auto
    then show ?thesis
      using StreamingReply polled link_ok_goto [OF polled(3,1) call_ok_move [OF c]]
      by (auto simp: poll_def split: list.splits)
  qed
next
  case (timed_out l i c)
  have ok: "link_ok (l\<lparr>pending := pending l - {i}\<rparr>)"
    using link_ok_shrink [OF timed_out(6), of "pending l - {i}" "streams l"] by simp
  have "call_ok (l\<lparr>pending := pending l - {i}\<rparr>) i c" using link_okD(3) [OF ok] timed_out(1) by simp
  then show ?case
    unfolding time_out_def using timed_out by (intro link_ok_goto [OF ok]) (auto intro: call_ok_give_up)
next
  case (stream_ended l i)
  then show ?case using link_ok_shrink [of l "pending l" "streams l - {i}"] by (simp add: end_stream_def)
next
  case (message_arrived l i payload)
  then show ?case by (intro link_ok_resolve)
next
  case (message_taken l)
  then show ?case using link_ok_fields(1,5) by (auto simp: transmit_def split: list.splits)
next
  case (transport_dropped l)
  then show ?case using link_ok_fields(4,5) by simp
next
  case (session_over l)
  then show ?case
    using link_ok_fields(2) [OF link_ok_shrink [of l "{}" "streams l"], of 1] by (simp add: clear_pending_def)
next
  case (streams_cleared l)
  then show ?case
    using link_ok_fields(2) [OF link_ok_shrink [of l "pending l" "{}"], of 2] by (simp add: clear_streams_def)
next
  case (outbound_cleared l)
  then show ?case
    using link_ok_fields(2,3) by (simp add: clear_outbound_def)
qed

lemma link_run_ok: "link_run l m \<Longrightarrow> link_ok l \<Longrightarrow> link_ok m"
  by (induction rule: link_run.induct) (auto intro: link_step_ok)

text \<open>C6 What the rest of the model assumes of an agent connection holds of its
  implementation, however callers, the reader and the end of the session interleave: a call
  that has returned has returned what \<open>call_streamed\<close> returns for some answer of the agent -
  and an answer with replies is a list of messages that arrived under the call's own id, after
  it was registered and in their order; a reply to another call is never handed over.\<close>

theorem link_refines_call_streamed:
  assumes "link_run link_new l" and "calls l i = Some c" and "cl_kind c = OneShot" and "cl_pc c = Returned r"
  shows "\<exists>answer. (\<forall>ps. answer = Some ps \<and> ps \<noteq> [] \<longrightarrow> ps = replies l i c)
    \<and> fst (call_streamed (Some h) payloads (s\<lparr>agent_script := answer # script, faults := []\<rparr>))
        = (case r of Inr p \<Rightarrow> Done p | Inl e \<Rightarrow> Fail e)"
proof -
  have ok: "one_shot_ok l i c"
    using link_okD(3) [OF link_run_ok [OF assms(1) link_ok_new] assms(2)] assms(3) by (simp add: call_ok_def)
  note run = call_streamed_def ext_call_def next_answer_def
  show ?thesis
  proof (cases r)
    case (Inl e)
    then have "e = AgentUnavailable \<or> e = AgentTimeout" using ok assms(4) by (simp add: one_shot_ok_def)
    then show ?thesis
    proof
      assume "e = AgentUnavailable"
      then show ?thesis using Inl by (intro exI [of _ "Some []"]) (simp add: run)
    next
      assume "e = AgentTimeout"
      then show ?thesis using Inl by (intro exI [of _ None]) (simp add: run)
    qed
  next
    case (Inr p)
    then obtain rest where "replies l i c = p # rest" using ok assms(4) by (auto simp: one_shot_ok_def)
    then show ?thesis using Inr by (intro exI [of _ "Some (replies l i c)"]) (simp add: run)
  qed
qed

text \<open>One request after another on a fresh connection: registered, sent, answered, read.\<close>

definition asked :: "hub_payload \<Rightarrow> link" where
  "asked q = send_next 1 [] (send_next 1 [q] (take_outbound 1 [q] (register OneShot [q] (set_outbound link_new))))"

definition answered :: "hub_payload \<Rightarrow> agent_payload \<Rightarrow> link" where
  "answered q p = (let l = resolve 1 (Some p) (asked q) in poll 1 (the (calls l 1)) l)"

lemma run_asked: "link_run link_new (asked q)"
proof -
  let ?a = "register OneShot [q] (set_outbound link_new)"
  have "link_run link_new (set_outbound link_new)"
    by (rule run_step [OF run_here connection_accepted]) (simp_all add: link_new_def)
  then have "link_run link_new ?a"
    by (rule run_step) (rule begin_call, simp add: link_new_def set_outbound_def)
  then have "link_run link_new (take_outbound 1 [q] ?a)"
    by (rule run_step) (rule outbound_taken, (simp add: link_defs set_outbound_def link_new_def)+)
  then have "link_run link_new (send_next 1 [q] (take_outbound 1 [q] ?a))"
    by (rule run_step) (rule payload_sent, (simp add: link_defs set_outbound_def link_new_def)+)
  then show ?thesis
    unfolding asked_def by (rule run_step) (rule payload_sent, (simp add: link_defs set_outbound_def link_new_def)+)
qed

lemma calls_asked: "asked q = \<lparr>next_request_id = 2, pending = {1}, streams = {}, outbound = True, session_rx = True,
    outbox = [(1, q)], wire = [], arrived = [], calls = [1 \<mapsto> \<lparr>cl_kind = OneShot, cl_pc = Waiting, cl_inbox = [], cl_since = 0, cl_read = []\<rparr>],
    ended = 0\<rparr>"
  unfolding asked_def by (simp add: link_defs set_outbound_def link_new_def)

lemma run_answered: "link_run link_new (answered q p)"
proof -
  have "link_run link_new (resolve 1 (Some p) (asked q))"
    by (rule run_step [OF run_asked message_arrived]) (simp_all add: calls_asked has_room_def)
  then show ?thesis
    unfolding answered_def Let_def
    by (rule run_step) (rule polled, simp_all add: calls_asked link_defs)
qed

lemma calls_answered: "calls (answered q p) 1 =
    Some \<lparr>cl_kind = OneShot, cl_pc = Returned (Inr p), cl_inbox = [p], cl_since = 0, cl_read = []\<rparr>"
  by (simp add: answered_def calls_asked link_defs)

lemma link_refines_call_streamed_witness:
  "\<exists>answer. (\<forall>ps. answer = Some ps \<and> ps \<noteq> [] \<longrightarrow> ps = replies (answered GetHostStats (EchoUploadResult 3)) 1
        \<lparr>cl_kind = OneShot, cl_pc = Returned (Inr (EchoUploadResult 3)), cl_inbox = [EchoUploadResult 3], cl_since = 0, cl_read = []\<rparr>)
    \<and> fst (call_streamed (Some 1) [GetHostStats] (sample_world\<lparr>agent_script := answer # [], faults := []\<rparr>))
        = Done (EchoUploadResult 3)"
  using link_refines_call_streamed [OF run_answered calls_answered, where r = "Inr (EchoUploadResult 3)" and h = 1
      and payloads = "[GetHostStats]" and s = sample_world and script = "[]"]
  by simp

section \<open>A call ends\<close>

text \<open>The caller's own next step, with its time-out firing whenever nothing has come.\<close>

definition own_step :: "u64 \<Rightarrow> link \<Rightarrow> link" where
  "own_step i l =
     (case calls l i of
        None \<Rightarrow> l
      | Some c \<Rightarrow>
         (case cl_pc c of
            Registered payloads \<Rightarrow> take_outbound i payloads l
          | Sending payloads \<Rightarrow> send_next i payloads l
          | Waiting \<Rightarrow> if cl_kind c = OneShot \<and> cl_inbox c = [] \<and> i \<in> pending l then time_out i l else poll i c l
          | _ \<Rightarrow> l))"

text \<open>A call waits while the channel of the session is full and the session's receiver is alive.\<close>

definition waits_for_room :: "u64 \<Rightarrow> link \<Rightarrow> bool" where
  "waits_for_room i l \<longleftrightarrow> session_rx l \<and> outbound_capacity \<le> length (outbox l)
     \<and> (\<exists>c p ps. calls l i = Some c \<and> cl_pc c = Sending (p # ps))"

text \<open>
  A run in which a call gets \<open>n\<close> turns: a turn is a step of its own that does not find the channel
  full. In between all parties step as they like, the call itself included.
\<close>

inductive turns :: "u64 \<Rightarrow> nat \<Rightarrow> link \<Rightarrow> link \<Rightarrow> bool" for i where
  no_turn: "turns i 0 l l"
| other_step: "turns i n l m \<Longrightarrow> link_step m m' \<Longrightarrow> turns i n l m'"
| own_turn: "turns i n l m \<Longrightarrow> \<not> waits_for_room i m \<Longrightarrow> turns i (Suc n) l (own_step i m)"

fun steps_left :: "call_pc \<Rightarrow> nat" where
  "steps_left (Registered payloads) = length payloads + 3"
| "steps_left (Sending payloads) = length payloads + 2"
| "steps_left Waiting = 1"
| "steps_left _ = 0"

lemma own_step_link_step:
  "calls l i = Some c \<Longrightarrow> steps_left (cl_pc c) \<noteq> 0 \<Longrightarrow> link_step l (own_step i l)"
  by (cases "cl_pc c") (auto simp: own_step_def intro: link_step.intros)

lemma own_step_over: "calls l i = Some c \<Longrightarrow> steps_left (cl_pc c) = 0 \<Longrightarrow> own_step i l = l"
  by (cases "cl_pc c") (auto simp: own_step_def)

lemma own_step_decreases:
  assumes "calls l i = Some c" and "cl_kind c = OneShot" and "\<not> waits_for_room i l" and "steps_left (cl_pc c) \<noteq> 0"
  shows "\<exists>d. calls (own_step i l) i = Some d \<and> cl_kind d = OneShot \<and> steps_left (cl_pc d) < steps_left (cl_pc c)"
  using assms
  by (cases "cl_pc c") (auto simp: own_step_def waits_for_room_def link_defs split: list.splits)

text \<open>No step of anyone takes a call backwards.\<close>

definition ahead :: "u64 \<Rightarrow> link \<Rightarrow> link \<Rightarrow> bool" where
  "ahead i l m \<longleftrightarrow> (\<forall>c. calls l i = Some c \<longrightarrow>
     (\<exists>d. calls m i = Some d \<and> cl_kind d = cl_kind c \<and> steps_left (cl_pc d) \<le> steps_left (cl_pc c)))"

lemma link_step_ahead: "link_step l m \<Longrightarrow> ahead i l m"
proof (induction rule: link_step.induct)
  case (begin_call l kind payloads)
  then show ?case by (cases kind) (auto simp: ahead_def register_def Let_def)
qed (auto simp: ahead_def set_outbound_def link_defs split: list.splits option.splits call_kind.splits)

lemma turns_ahead:
  assumes "turns i n l m" and "calls l i = Some c" and "cl_kind c = OneShot"
  shows "\<exists>d. calls m i = Some d \<and> cl_kind d = OneShot \<and> (steps_left (cl_pc d) = 0 \<or> steps_left (cl_pc d) + n \<le> steps_left (cl_pc c))"
  using assms
proof (induction rule: turns.induct)
  case (other_step n l m m')
  then show ?case using link_step_ahead [OF other_step.hyps(2), of i] by (fastforce simp: ahead_def)
next
  case (own_turn n l m)
  then obtain d where d: "calls m i = Some d" "cl_kind d = OneShot"
    "steps_left (cl_pc d) = 0 \<or> steps_left (cl_pc d) + n \<le> steps_left (cl_pc c)" by blast
  show ?case
  proof (cases "steps_left (cl_pc d) = 0")
    case True
    then show ?thesis using d own_step_over [OF d(1)] by simp
  next
    case False
    then show ?thesis using own_step_decreases [OF d(1,2) own_turn.hyps(2)] d(3) by fastforce
  qed
qed auto

lemma turns_run: "turns i n l m \<Longrightarrow> calls l i = Some c \<Longrightarrow> link_run link_new l \<Longrightarrow> link_run link_new m \<and> (\<exists>d. calls m i = Some d)"
proof (induction rule: turns.induct)
  case (other_step n l m m')
  then show ?case using link_step_ahead [OF other_step.hyps(2), of i] by (fastforce simp: ahead_def intro: run_step)
next
  case (own_turn n l m)
  then obtain d where d: "calls m i = Some d" "link_run link_new m" by blast
  then show ?case
  proof (cases "steps_left (cl_pc d) = 0")
    case True
    then show ?thesis using d own_step_over [OF d(1)] by simp
  next
    case False
    note step = own_step_link_step [OF d(1) False]
    then show ?thesis using link_step_ahead [OF step, of i] d by (auto simp: ahead_def intro: run_step)
  qed
qed auto

lemma outbox_bounded: "link_run link_new l \<Longrightarrow> length (outbox l) \<le> outbound_capacity"
proof (induction rule: link_run.induct)
  case (run_step m n)
  from run_step.hyps(2) run_step.IH show ?case
  proof (induction rule: link_step.induct)
    case (begin_call l kind payloads)
    then show ?case by (cases kind) (auto simp: link_defs)
  qed (auto simp: set_outbound_def link_defs split: list.splits call_kind.splits option.splits)
qed (simp add: link_new_def)

text \<open>A call that finds the channel full waits; one message taken off by the session gives it its turn.\<close>

lemma full_channel_waits: "waits_for_room i l \<Longrightarrow> own_step i l = l"
  by (auto simp: waits_for_room_def own_step_def send_next_def)

lemma transmit_gives_turn: "link_run link_new l \<Longrightarrow> \<not> waits_for_room i (transmit l)"
  using outbox_bounded [of l] by (auto simp: waits_for_room_def transmit_def outbound_capacity_def split: list.splits)

lemma turns_available:
  "calls l i = Some c \<Longrightarrow> link_run link_new l \<Longrightarrow> \<exists>m. turns i n l m"
proof (induction n)
  case (Suc n)
  then obtain m where m: "turns i n l m" by blast
  have run: "link_run link_new m" using turns_run [OF m Suc.prems] by blast
  show ?case
  proof (cases "waits_for_room i m")
    case True
    then have "turns i n l (transmit m)" by (intro other_step [OF m] message_taken) (simp add: waits_for_room_def)
    from own_turn [OF this transmit_gives_turn [OF run]] show ?thesis by blast
  next
    case False
    from own_turn [OF m this] show ?thesis by blast
  qed
qed (auto intro: no_turn)

text \<open>C24 What it takes for a call to an agent to return. From every state the connection can be in -
  whatever other callers, the reader, the writer and the end of the session have done and go on
  doing in between - a call that waits for one reply has returned after one turn per payload it
  has left to send and at most three more, the last of which may be its time-out. A turn is a
  step of the call that does not find the session's channel of sixteen messages full; as the
  time-out covers only the wait for the reply, a call that finds it full waits, for as long as
  the session takes nothing off it. One message taken off gives the call its turn, so the turns
  can always be had.\<close>

theorem one_shot_calls_return:
  assumes "link_run link_new l" and "calls l i = Some c" and "cl_kind c = OneShot"
  shows "(\<forall>n m. turns i n l m \<and> steps_left (cl_pc c) \<le> n \<longrightarrow> (\<exists>d r. calls m i = Some d \<and> cl_pc d = Returned r))
    \<and> (\<forall>n. \<exists>m. turns i n l m) \<and> \<not> waits_for_room i (transmit l)"
proof (intro conjI allI impI)
  show "\<not> waits_for_room i (transmit l)" by (rule transmit_gives_turn [OF assms(1)])
  show "\<exists>m. turns i n l m" for n by (rule turns_available [OF assms(2,1)])
  fix n m
  assume "turns i n l m \<and> steps_left (cl_pc c) \<le> n"
  then have run: "turns i n l m" and "steps_left (cl_pc c) \<le> n" by simp_all
  then obtain d where d: "calls m i = Some d" "cl_kind d = OneShot" "steps_left (cl_pc d) = 0"
    using turns_ahead [OF run assms(2,3)] by fastforce
  have "cl_pc d \<noteq> StreamClosed"
    using link_okD(3) [OF link_run_ok [OF _ link_ok_new] d(1)] turns_run [OF run assms(2,1)] d(2)
    by (simp add: call_ok_def one_shot_ok_def)
  then show "\<exists>d r. calls m i = Some d \<and> cl_pc d = Returned r"
    using d by (cases "cl_pc d") auto
qed

lemma turns_asked: "turns 1 1 (asked q) (own_step 1 (asked q))"
  using own_turn [OF no_turn, of 1 "asked q"] by (simp add: waits_for_room_def calls_asked)

lemma one_shot_calls_return_witness:
  "\<exists>d r. calls (own_step 1 (asked GetHostStats)) 1 = Some d \<and> cl_pc d = Returned r"
  using one_shot_calls_return [OF run_asked, of GetHostStats 1] turns_asked [of GetHostStats] by (auto simp: calls_asked)

text \<open>
  A session that takes nothing holds up its callers for ever: a call that has more to send than the
  channel holds has neither a step of its own nor a time-out. Only the receiver's end helps it.
\<close>

lemma waiting_for_room_has_no_time_out:
  assumes "waits_for_room i l" and "link_step l m"
  shows "waits_for_room i m \<or> m = transmit l \<or> outbox m = []"
  using assms(2,1)
proof (induction rule: link_step.induct)
  case (begin_call l kind payloads)
  then show ?case by (cases kind) (auto simp: waits_for_room_def register_def Let_def)
qed (auto simp: waits_for_room_def set_outbound_def link_defs split: list.splits option.splits call_kind.splits if_splits)

lemma sending_run:
  assumes "link_run link_new l" and "calls l i = Some c" and "cl_pc c = Sending (ps @ qs)" and "session_rx l"
    and "length (outbox l) + length ps \<le> outbound_capacity"
  shows "\<exists>m d. link_run link_new m \<and> calls m i = Some d \<and> cl_pc d = Sending qs \<and> session_rx m
    \<and> length (outbox m) = length (outbox l) + length ps \<and> cl_kind d = cl_kind c"
  using assms
proof (induction ps arbitrary: l c)
  case Nil
  then show ?case by auto
next
  case (Cons p ps)
  have run: "link_run link_new (send_next i ((p # ps) @ qs) l)"
    using Cons.prems by (intro run_step [OF Cons.prems(1) payload_sent]) auto
  have "\<exists>m d. link_run link_new m \<and> calls m i = Some d \<and> cl_pc d = Sending qs \<and> session_rx m
    \<and> length (outbox m) = Suc (length (outbox l)) + length ps \<and> cl_kind d = cl_kind c"
    using Cons.IH [OF run, of "c\<lparr>cl_pc := Sending (ps @ qs)\<rparr>"] Cons.prems by (simp add: link_defs)
  then show ?case by simp
qed

lemma call_can_wait_for_room:
  "\<exists>l c. link_run link_new l \<and> calls l 1 = Some c \<and> cl_kind c = OneShot \<and> waits_for_room 1 l"
proof -
  let ?qs = "replicate 16 GetHostStats @ [GetHostStats]"
  let ?a = "register OneShot ?qs (set_outbound link_new)"
  let ?b = "take_outbound 1 ?qs ?a"
  have "link_run link_new (set_outbound link_new)"
    by (rule run_step [OF run_here connection_accepted]) (simp_all add: link_new_def)
  then have "link_run link_new ?a"
    by (rule run_step) (rule begin_call, simp add: link_new_def set_outbound_def)
  then have run: "link_run link_new ?b"
    by (rule run_step) (rule outbound_taken, (simp add: link_defs set_outbound_def link_new_def)+)
  let ?c = "\<lparr>cl_kind = OneShot, cl_pc = Sending ?qs, cl_inbox = [], cl_since = 0, cl_read = []\<rparr>"
  have "calls ?b 1 = Some ?c" "session_rx ?b" "outbox ?b = []"
    by (simp_all add: link_defs set_outbound_def link_new_def)
  then show ?thesis
    using sending_run [OF run, of 1 ?c "replicate 16 GetHostStats" "[GetHostStats]"] by (auto simp: waits_for_room_def outbound_capacity_def)
qed

section \<open>The end of a session\<close>

text \<open>
  \<open>fail_all_pending\<close> empties the maps before it takes \<open>outbound\<close> away. A streaming call that
  registers in between, and whose send the transport still takes, is missed: its sender stays in
  \<open>streams\<close>, no message can come any more, and a streaming call has no time-out.
\<close>

definition stranded :: "u64 \<Rightarrow> link \<Rightarrow> bool" where
  "stranded i l \<longleftrightarrow> ended l = 3 \<and> i \<in> streams l
     \<and> (\<exists>c. calls l i = Some c \<and> cl_kind c = StreamingReply \<and> cl_pc c = Waiting \<and> cl_inbox c = [])"

lemma stranded_stays: "link_step l m \<Longrightarrow> stranded i l \<Longrightarrow> m = end_stream i l \<or> stranded i m"
proof (induction rule: link_step.induct)
  case (begin_call l kind payloads)
  then show ?case by (cases kind) (auto simp: stranded_def register_def Let_def)
next
  case (stream_ended l j)
  then show ?case by (auto simp: stranded_def end_stream_def)
next
  case (outbound_taken l j c payloads)
  then show ?case by (auto simp: stranded_def take_outbound_def set_call_def goto_def forget_def)
next
  case (payload_sent l j c payloads)
  then show ?case by (auto simp: stranded_def send_next_def set_call_def goto_def forget_def split: list.splits)
next
  case (polled l j c)
  then show ?case
    by (auto simp: stranded_def poll_def set_call_def goto_def forget_def split: list.splits call_kind.splits)
next
  case (timed_out l j c)
  then show ?case by (auto simp: stranded_def time_out_def set_call_def goto_def)
next
  case (message_taken l)
  then show ?case by (auto simp: stranded_def transmit_def split: list.splits)
qed (auto simp: stranded_def)

lemma streaming_call_can_hang: "\<exists>l. link_run link_new l \<and> stranded 1 l"
proof -
  let ?a = "clear_streams (clear_pending (set_outbound link_new))"
  let ?b = "take_outbound 1 [q] (register StreamingReply [q] ?a)"
  have "link_run link_new (set_outbound link_new)"
    by (rule run_step [OF run_here connection_accepted]) (simp_all add: link_new_def)
  then have "link_run link_new (clear_pending (set_outbound link_new))"
    by (rule run_step) (rule session_over, simp add: set_outbound_def link_new_def)
  then have "link_run link_new ?a"
    by (rule run_step) (rule streams_cleared, simp add: clear_pending_def)
  then have "link_run link_new (register StreamingReply [q] ?a)"
    by (rule run_step) (rule begin_call, simp add: link_defs set_outbound_def link_new_def)
  then have "link_run link_new ?b"
    by (rule run_step) (rule outbound_taken, (simp add: link_defs set_outbound_def link_new_def)+)
  then have "link_run link_new (send_next 1 [q] ?b)"
    by (rule run_step) (rule payload_sent, (simp add: link_defs set_outbound_def link_new_def)+)
  then have "link_run link_new (send_next 1 [] (send_next 1 [q] ?b))"
    by (rule run_step) (rule payload_sent, (simp add: link_defs set_outbound_def link_new_def)+)
  then have "link_run link_new (clear_outbound (send_next 1 [] (send_next 1 [q] ?b)))"
    by (rule run_step) (rule outbound_cleared, simp add: link_defs set_outbound_def link_new_def)
  moreover have "stranded 1 (clear_outbound (send_next 1 [] (send_next 1 [q] ?b)))"
    by (simp add: stranded_def link_defs set_outbound_def link_new_def)
  ultimately show ?thesis by blast
qed

end
