(* ===== verification/AgentSession.thy ===== *)
theory AgentSession
  imports TokenStore
begin

text \<open>
  The registry of connected agents (\<open>AgentRegistry\<close> of \<open>agent_link.rs\<close>) and the session an agent
  opens (\<open>grpc.rs\<close>). A link of the registry is known by its host; a gRPC status is a \<open>status\<close>.
\<close>

section \<open>The registry\<close>

definition connect :: "int \<Rightarrow> (world, 'e, unit option) comp" where
  "connect host_id s =
     (if host_id \<in> set (agent_hosts s) then (Done None, s)
      else (Done (Some ()), s\<lparr>agent_hosts := agent_hosts s @ [host_id]\<rparr>))"

definition disconnect :: "int \<Rightarrow> (world, 'e, unit) comp" where
  "disconnect host_id = modify (\<lambda>s. s\<lparr>agent_hosts := filter (\<lambda>h. h \<noteq> host_id) (agent_hosts s)\<rparr>)"

definition is_connected :: "world \<Rightarrow> int \<Rightarrow> bool" where
  "is_connected s host_id \<longleftrightarrow> host_id \<in> set (agent_hosts s)"

section \<open>A session\<close>

datatype status = StUnauthenticated string | StInternal string | StAlreadyExists string

definition authenticate :: "externals \<Rightarrow> string option \<Rightarrow> (world, status, db_host) comp" where
  "authenticate x metadata =
     bindc (ok_or (StUnauthenticated ''missing authorization metadata'') metadata) (\<lambda>header.
     bindc (ok_or (StUnauthenticated ''malformed authorization metadata'') (strip_prefix ''Bearer '' header)) (\<lambda>bearer.
     bindc (ok_or (StUnauthenticated ''malformed agent token'') (parse_bearer_value bearer)) (\<lambda>(token_id, secret).
     bindc (map_err (\<lambda>_. StInternal ''failed to authenticate agent'') (find_host_by_token x token_id secret)) (\<lambda>host.
     ok_or (StUnauthenticated ''unknown or revoked agent token'') host))))"

text \<open>The signal to \<open>main.rs\<close> is a channel of one: a signal already there stays.\<close>

definition agent_session :: "externals \<Rightarrow> string option \<Rightarrow> string option \<Rightarrow> (world, status, unit) comp" where
  "agent_session x metadata peer_ip =
     bindc (authenticate x metadata) (\<lambda>host.
     bindc (connect (h_id host)) (\<lambda>agent_link.
     bindc (ok_or (StAlreadyExists ''this host already has an active session'') agent_link) (\<lambda>_.
     bindc (modify (\<lambda>s. s\<lparr>connect_signal := True\<rparr>)) (\<lambda>_.
     bindc (ignore (touch_host_last_seen (h_id host) peer_ip)) (\<lambda>_.
     spawn (AgentSession (h_id host)))))))"

text \<open>The end of the spawned reader; what it does to the link is \<open>fail_all_pending\<close>.\<close>

definition session_end :: "int \<Rightarrow> (world, 'e, unit) comp" where
  "session_end host_id = disconnect host_id"

section \<open>Facts\<close>

lemma leaves_ignore_touch: "leaves agent_hosts (ignore (touch_host_last_seen hid peer))"
  by (intro leaves_intros; simp)

lemma connect_Done:
  assumes "connect h s = (Done (Some ()), s')"
  shows "h \<notin> set (agent_hosts s) \<and> s' = s\<lparr>agent_hosts := agent_hosts s @ [h]\<rparr>"
  using assms by (simp add: connect_def split: if_splits)

lemma agent_session_run:
  assumes "agent_session x metadata peer s = (r, s')"
  shows "agent_hosts s' = agent_hosts s \<and> r \<noteq> Done () \<or>
    (\<exists>bearer token_id secret host. metadata = Some (''Bearer '' @ bearer) \<and> parse_bearer_value bearer = Some (token_id, secret)
       \<and> find (\<lambda>h. h_token_id h = token_id) (db_hosts (db s)) = Some host \<and> \<not> h_revoked host
       \<and> verify_secret x secret (h_token_hash host) \<and> h_id host \<notin> set (agent_hosts s)
       \<and> agent_hosts s' = agent_hosts s @ [h_id host])"
proof -
  let ?rest = "\<lambda>host. bindc (connect (h_id host)) (\<lambda>agent_link.
     bindc (ok_or (StAlreadyExists ''this host already has an active session'') agent_link) (\<lambda>_.
     bindc (modify (\<lambda>s. s\<lparr>connect_signal := True\<rparr>)) (\<lambda>_.
     bindc (ignore (touch_host_last_seen (h_id host) peer)) (\<lambda>_.
     spawn (AgentSession (h_id host))))))"
  have keep: "leaves agent_hosts (authenticate x metadata)"
    unfolding authenticate_def by (intro leaves_intros; simp)
  obtain q s1 where a: "authenticate x metadata s = (q, s1)" by fastforce
  then have s1: "agent_hosts s1 = agent_hosts s" using keep by (rule leaves_run [rotated])
  show ?thesis
  proof (cases q)
    case (Done host)
    have auth: "\<exists>bearer token_id secret. metadata = Some (''Bearer '' @ bearer) \<and> parse_bearer_value bearer = Some (token_id, secret)
       \<and> find (\<lambda>h. h_token_id h = token_id) (db_hosts (db s)) = Some host \<and> \<not> h_revoked host
       \<and> verify_secret x secret (h_token_hash host)"
      using a Done unfolding authenticate_def
      by (auto elim!: bindc_DoneE simp: map_err_Done strip_prefix_Some dest!: find_host_by_token_Some)
    show ?thesis
    proof (cases "h_id host \<in> set (agent_hosts s1)")
      case True
      then have "?rest host s1 = (Fail (StAlreadyExists ''this host already has an active session''), s1)"
        by (simp add: connect_def bindc_def ok_or_def throw_def)
      then show ?thesis using assms a Done s1 by (auto simp: agent_session_def bindc_Done)
    next
      case False
      let ?s = "s1\<lparr>agent_hosts := agent_hosts s1 @ [h_id host], connect_signal := True\<rparr>"
      have tail: "leaves agent_hosts (bindc (ignore (touch_host_last_seen (h_id host) peer)) (\<lambda>_. spawn (AgentSession (h_id host))))"
        by (intro leaves_intros leaves_ignore_touch; simp)
      have "agent_session x metadata peer s = bindc (ignore (touch_host_last_seen (h_id host) peer)) (\<lambda>_. spawn (AgentSession (h_id host))) ?s"
        using a Done False by (simp add: agent_session_def bindc_Done connect_def ok_or_def modify_def ret_def bindc_def)
      then have "agent_hosts s' = agent_hosts ?s" using leaves_run [OF tail] assms by metis
      then show ?thesis using auth False s1 by auto
    qed
  qed (use a assms s1 in \<open>auto simp: agent_session_def bindc_def\<close>)
qed

section \<open>Properties\<close>

text \<open>C23 At most one agent per host is connected, and only one that proves itself: whatever the
  metadata of a session request and however the request ends (success, error, a crash on the
  way), the registry stays as it is, or gains one host that was not in it - a host whose row is
  not revoked and whose stored hash verifies the secret presented with its token.\<close>

theorem only_authenticated_agents_connect:
  assumes "agent_session x metadata peer s = (r, s')" and "distinct (agent_hosts s)"
  shows "distinct (agent_hosts s') \<and> (r = Done () \<longrightarrow> agent_hosts s' \<noteq> agent_hosts s)
    \<and> (\<forall>h\<in>set (agent_hosts s') - set (agent_hosts s). \<exists>bearer token_id secret. \<exists>host\<in>set (db_hosts (db s)).
          metadata = Some (''Bearer '' @ bearer) \<and> parse_bearer_value bearer = Some (token_id, secret)
          \<and> h_id host = h \<and> h_token_id host = token_id \<and> \<not> h_revoked host \<and> x_verify x secret (h_token_hash host))"
  using agent_session_run [OF assms(1)] assms(2) by (auto simp: verify_secret_def dest!: find_SomeD)

definition sample_host :: db_host where
  "sample_host = \<lparr>h_id = 1, h_name = ''one'', h_token_id = ''T'', h_token_hash = ''hsec'', h_revoked = False,
     h_last_seen_at = None, h_ip = None, h_last_connected_ip = None, h_created_at = 0, h_updated_at = 0\<rparr>"

definition sample_host_world :: world where
  "sample_host_world = sample_world\<lparr>db := empty_database\<lparr>db_hosts := [sample_host], seq_hosts := 1\<rparr>\<rparr>"

definition sample_bearer :: string where
  "sample_bearer = ''Bearer '' @ format_token ''T'' ''sec''"

lemma sample_session: "fst (agent_session sample_externals (Some sample_bearer) (Some ''1.2.3.4'') sample_host_world) = Done ()"
  by code_simp

lemma only_authenticated_agents_connect_witness:
  "\<exists>s'. agent_session sample_externals (Some sample_bearer) (Some ''1.2.3.4'') sample_host_world = (Done (), s')
     \<and> distinct (agent_hosts s') \<and> agent_hosts s' \<noteq> []"
proof -
  obtain s' where run: "agent_session sample_externals (Some sample_bearer) (Some ''1.2.3.4'') sample_host_world = (Done (), s')"
    using sample_session by (metis prod.collapse)
  then show ?thesis
    using only_authenticated_agents_connect [OF run] by (simp add: sample_host_world_def sample_world_def)
qed

text \<open>C27 Revoking a host shuts its agent out: once \<open>revoke_host\<close> has returned, no session
  request - whatever it presents - registers that host, in any later state whose host rows are
  the ones the revocation left.\<close>

theorem revoked_host_cannot_connect:
  assumes "db_ok (db s)" and "revoke_host h s = (Done (), s1)"
    and "db_hosts (db s2) = db_hosts (db s1)" and "agent_session x metadata peer s2 = (r, s3)"
    and "h \<notin> set (agent_hosts s2)"
  shows "h \<notin> set (agent_hosts s3) \<and> (\<exists>host\<in>set (db_hosts (db s2)). h_id host = h \<and> h_revoked host)"
proof -
  obtain host where find: "find (\<lambda>r. h_id r = h) (db_hosts (db s)) = Some host"
    and upd: "update_rows host_clash (\<lambda>q. h_id q = h_id host)
        (\<lambda>r. r\<lparr>h_revoked := True, h_updated_at := now_secs s\<rparr>) (db_hosts (db s)) = Some (db_hosts (db s1))"
    using assms(2) unfolding revoke_host_def update_host_def
    by (auto elim!: bindc_DoneE db_first_Done db_write_Done simp: now_secs_def)
  let ?new = "host\<lparr>h_revoked := True, h_updated_at := now_secs s\<rparr>"
  have host: "host \<in> set (db_hosts (db s))" "h_id host = h" using find_SomeD [OF find] by auto
  have inv: "no_clash host_clash (db_hosts (db s))" using assms(1) by (simp add: db_ok_def keys_ok_def)
  have new: "?new \<in> set (db_hosts (db s2))"
    using find_SomeD [OF hosts_by_id.find_upd_key [OF inv upd host(1)]] assms(3) by simp
  have "no_clash host_clash (db_hosts (db s2))" using hosts_by_id.upd_inv [OF upd] assms(3) by simp
  then have "q = ?new" if "q \<in> set (db_hosts (db s2))" "h_id q = h" for q
    by (rule hosts_by_id.key_unique [OF _ that(1) new]) (simp add: host that)
  then have "h_revoked q" if "q \<in> set (db_hosts (db s2))" "h_id q = h" for q
    using that by fastforce
  then have "h \<notin> set (agent_hosts s3)"
    using agent_session_run [OF assms(4)] assms(5) by (auto dest!: find_SomeD)
  moreover have "h_id ?new = h" "h_revoked ?new" by (simp_all add: host)
  ultimately show ?thesis using new by blast
qed

lemma sample_revoke_host: "fst (revoke_host 1 sample_host_world) = Done ()"
  by code_simp

lemma revoked_host_cannot_connect_witness:
  "\<exists>host\<in>set (db_hosts (db (snd (revoke_host 1 sample_host_world)))). h_id host = 1 \<and> h_revoked host"
proof -
  let ?t = "snd (revoke_host 1 sample_host_world)"
  have run: "revoke_host 1 sample_host_world = (Done (), ?t)" using sample_revoke_host by (simp add: prod_eq_iff)
  have "leaves agent_hosts (revoke_host 1)" by (intro leaves_intros; simp)
  then have "1 \<notin> set (agent_hosts ?t)"
    using leaves_run [where m = "revoke_host 1", OF _ run, of agent_hosts] by (simp add: sample_host_world_def sample_world_def)
  moreover have "db_ok (db sample_host_world)"
    by (simp add: db_ok_defs no_clash_def sample_host_world_def sample_world_def empty_database_def sample_host_def)
  moreover obtain r s3 where "agent_session sample_externals (Some sample_bearer) None ?t = (r, s3)" by fastforce
  ultimately show ?thesis using revoked_host_cannot_connect [OF _ run refl] by blast
qed

text \<open>
  The handler registers the host before its last call to the database and only then hands the
  connection to the task that will deregister it. A handler dropped at that call - the agent
  hangs up while it runs - leaves the host registered without a task, and every later session
  of the host is refused.
\<close>

definition sample_dropped_world :: world where
  "sample_dropped_world = snd (agent_session sample_externals (Some sample_bearer) None (sample_host_world\<lparr>faults := [Proceed, CrashNow]\<rparr>))"

lemma dropped_session_blocks_the_host:
  "agent_hosts sample_dropped_world = [1] \<and> length (spawned sample_dropped_world) = 0"
  "\<forall>s'. agent_hosts s' = [1] \<longrightarrow> fst (agent_session x metadata peer s') = Done () \<longrightarrow>
     (\<exists>host\<in>set (db_hosts (db s')). h_id host \<noteq> 1)"
proof -
  show "agent_hosts sample_dropped_world = [1] \<and> length (spawned sample_dropped_world) = 0"
    by code_simp
  show "\<forall>s'. agent_hosts s' = [1] \<longrightarrow> fst (agent_session x metadata peer s') = Done () \<longrightarrow>
     (\<exists>host\<in>set (db_hosts (db s')). h_id host \<noteq> 1)"
  proof (intro allI impI)
    fix s' :: world
    assume "agent_hosts s' = [1]" and ok: "fst (agent_session x metadata peer s') = Done ()"
    moreover obtain t where "agent_session x metadata peer s' = (Done (), t)" using ok by (metis prod.collapse)
    ultimately show "\<exists>host\<in>set (db_hosts (db s')). h_id host \<noteq> 1"
      using agent_session_run by (fastforce dest!: find_SomeD)
  qed
qed

end
