(* ===== verification/LogFacts.thy ===== *)
theory LogFacts
  imports AgentCalls
begin

text \<open>
  The run log over the life of a pump: the detached task of \<open>agent_containers.rs\<close>
  (\<open>run_log_pump_task\<close>) from any state, with whatever failures of the file system on the way.
  Shown are a bound on the two files it writes, \<open>run.log\<close> and \<open>run.log.1\<close>, and that without
  failures the backlog they hold is the most recent output. The task is one step of the hub here:
  nobody else writes the two files while it runs, which the registry of pumps is there for.
\<close>

section \<open>What one pump does to the log\<close>

definition within :: "nat \<Rightarrow> path \<Rightarrow> filesystem \<Rightarrow> bool" where
  "within n p t \<longleftrightarrow> (\<forall>c. map_of t p = Some (File c) \<longrightarrow> length c \<le> n)"

definition logs_within :: "nat \<Rightarrow> path \<Rightarrow> world \<Rightarrow> bool" where
  "logs_within n dir s \<longleftrightarrow> within n (dir @ [''run.log'']) (fs s) \<and> within n (dir @ [''run.log.1'']) (fs s)"

definition chunks_within :: "nat \<Rightarrow> agent_payload list \<Rightarrow> bool" where
  "chunks_within n ps \<longleftrightarrow> (\<forall>c. StreamContainerLogsChunk c \<in> set ps \<longrightarrow> length (ch_data c) \<le> n)"

text \<open>
  A pump that keeps to the limit: the file may be longer than its count by an excess \<open>e\<close> at
  most, and every failure still to come may add one chunk of \<open>b\<close> bytes to the difference.
\<close>

definition on_run_log :: "path \<Rightarrow> log_pump \<Rightarrow> bool" where
  "on_run_log dir pump \<longleftrightarrow> lt_kind (lp_target pump) = LogRun \<and> lt_path (lp_target pump) = dir @ [''run.log'']
     \<and> (\<forall>p. lp_file pump = Some p \<longrightarrow> p = dir @ [''run.log''])"

definition pump_fits :: "nat \<Rightarrow> nat \<Rightarrow> path \<Rightarrow> log_pump \<Rightarrow> world \<Rightarrow> bool" where
  "pump_fits e b dir pump s \<longleftrightarrow> dirs_in {} (fs s) \<and> on_run_log dir pump \<and> b * failures (faults s) \<le> e
     \<and> (lp_file pump \<noteq> None \<longrightarrow>
          (\<exists>c. map_of (fs s) (dir @ [''run.log'']) = Some (File c)
             \<and> length c + b * failures (faults s) \<le> unat (lp_bytes_written pump) + e))"

lemma open_append_effect:
  assumes "open_append p s = (r, s')"
  shows "failures (faults s') \<le> failures (faults s)
    \<and> (r = Done () \<and> (\<exists>c. map_of (fs s') = (map_of (fs s))(p \<mapsto> File c) \<and> (c = [] \<or> map_of (fs s) p = Some (File c)))
       \<or> r \<noteq> Done () \<and> fs s' = fs s)"
  using assms unfolding open_append_def
  by (cases rule: ext_call_budget)
     (auto simp: set_fs_run map_of_fs_put fun_eq_iff split: option.splits node.splits)

lemma file_len_effect:
  assumes "file_len p s = (r, s')" and "map_of (fs s) p = Some (File c)"
  shows "fs s' = fs s \<and> (r = Done (of_nat (length c)) \<and> failures (faults s') = failures (faults s)
    \<or> r = Crash \<and> failures (faults s') = failures (faults s)
    \<or> (\<exists>e. r = Fail e) \<and> failures (faults s) = Suc (failures (faults s')))"
  using assms(1) unfolding file_len_def
  by (cases rule: ext_call_budget) (auto simp: assms(2))

lemma rename_log_effect:
  assumes "rename src dst s = (r, s')" and "src \<noteq> dst"
  shows "failures (faults s') \<le> failures (faults s)
    \<and> (r = Done () \<and> rename_check src dst (fs s) = None \<and> fs s' = fs_move src dst (fs s) \<or> r \<noteq> Done () \<and> fs s' = fs s)"
  using assms(1) unfolding rename_def
  by (cases rule: ext_call_budget) (auto simp: set_fs_run assms(2) split: option.splits)

lemma moved_log:
  assumes "rename_check (dir @ [''run.log'']) (dir @ [''run.log.1'']) t = None" and "fs_wf t"
  shows "map_of (fs_move (dir @ [''run.log'']) (dir @ [''run.log.1'']) t) (dir @ [''run.log'']) = None"
    and "map_of (fs_move (dir @ [''run.log'']) (dir @ [''run.log.1'']) t) (dir @ [''run.log.1''])
      = map_of t (dir @ [''run.log''])"
proof -
  have "dir @ [''run.log''] \<noteq> dir @ [''run.log.1'']" by simp
  note look = map_of_fs_move [OF move_conditions [OF assms(2,1) this]]
  show "map_of (fs_move (dir @ [''run.log'']) (dir @ [''run.log.1'']) t) (dir @ [''run.log'']) = None"
    and "map_of (fs_move (dir @ [''run.log'']) (dir @ [''run.log.1'']) t) (dir @ [''run.log.1''])
      = map_of t (dir @ [''run.log''])"
    unfolding look by simp_all
qed

lemma logs_within_same: "fs s' = fs s \<Longrightarrow> logs_within n dir s' \<longleftrightarrow> logs_within n dir s"
  by (simp add: logs_within_def)

lemma io_run:
  assumes "m s = (q, s1)"
  obtains q' where "io m s = (q', s1)" and "\<And>a. q' = Done a \<longleftrightarrow> q = Done a"
  by (cases q) (auto simp: io_def map_err_def assms intro: that)

lemma bindc_stops: "m s = (q, s1) \<Longrightarrow> \<forall>a. q \<noteq> Done a \<Longrightarrow> snd (bindc m k s) = s1"
  by (cases q) (simp_all add: bindc_def)

lemma rotate_within:
  assumes "rotate_and_reopen (dir @ [''run.log'']) s = (r, s')" and "dirs_in {} (fs s)" and "logs_within n dir s"
  shows "logs_within n dir s' \<and> failures (faults s') \<le> failures (faults s) \<and> dirs_in {} (fs s')"
proof -
  let ?src = "dir @ [''run.log'']" and ?dst = "dir @ [''run.log.1'']"
  have wf: "fs_wf (fs s)" using assms(2) by (simp add: dirs_in_def)
  obtain q s1 where mv: "rename ?src ?dst s = (q, s1)" by fastforce
  obtain q' where io: "io (rename ?src ?dst) s = (q', s1)" and q': "\<And>a. q' = Done a \<longleftrightarrow> q = Done a"
    using mv by (rule io_run) (rule that)
  note run = assms(1) [unfolded rotate_and_reopen_def open_for_kind_def Let_def rotated_path]
  have "?src \<noteq> ?dst" by simp
  note moved = rename_log_effect [OF mv this]
  have "logs_within n dir s' \<and> failures (faults s') \<le> failures (faults s)"
  proof (cases "q = Done ()")
    case False
    then have "\<forall>a. q' \<noteq> Done a" using q' by simp
    with io have "snd (r, s') = s1" unfolding run [symmetric] by (rule bindc_stops)
    then have "s' = s1" by simp
    then show ?thesis using moved False assms(3) by (simp add: logs_within_def)
  next
    case True
    obtain q2 s2 where op: "open_append ?src s1 = (q2, s2)" by fastforce
    obtain q3 where op': "io (open_append ?src) s1 = (q3, s2)" using op by (rule io_run) (rule that)
    have io_Ok: "io (rename ?src ?dst) s = (Done (), s1)" using io q' True by simp
    have "s' = s2" using run op' by (cases q3) (simp_all add: bindc_def ret_def io_Ok del: io_Done)
    moreover have s1: "map_of (fs s1) ?src = None" "map_of (fs s1) ?dst = map_of (fs s) ?src"
      using moved True moved_log [OF _ wf, of dir] by auto
    ultimately show ?thesis using open_append_effect [OF op] moved True assms(3)
      by (auto simp: logs_within_def within_def)
  qed
  moreover have "dirs_in {} (fs s')"
    using keeps_run [OF keeps_rotate_and_reopen [of "{}" dir] assms(1)] assms(2) by simp
  ultimately show ?thesis by blast
qed

lemma open_for_kind_run:
  "open_append p s = (q, s1) \<Longrightarrow> open_for_kind LogRun p s =
     ((case q of Done _ \<Rightarrow> Done p | Fail e \<Rightarrow> Fail (Io e) | Crash \<Rightarrow> Crash), s1)"
  by (cases q) (simp_all add: open_for_kind_def bindc_def io_def map_err_def ret_def)

lemma pump_new_fits:
  assumes run: "pump_try_new t s = (r, s')"
    and target: "lt_kind t = LogRun" "lt_path t = dir @ [''run.log'']"
    and before: "dirs_in {} (fs s)" "logs_within m dir s" "m < 2 ^ 63"
    and budget: "b * failures (faults s) \<le> e" "failures (faults s) \<noteq> 0 \<Longrightarrow> m + b * failures (faults s) \<le> e"
  shows "logs_within m dir s' \<and> (\<forall>pump. r = Done (Some pump) \<longrightarrow> pump_fits e b dir pump s')"
proof (cases "log_registry s (lt_deployment_id t)")
  case (Some k)
  then show ?thesis using run before(2) by (auto simp: pump_try_new_def try_register_def bindc_def ret_def)
next
  case None
  let ?p = "dir @ [''run.log'']"
  define s0 where "s0 = s\<lparr>log_registry := (log_registry s)(lt_deployment_id t \<mapsto> LogRun)\<rparr>"
  obtain q s1 where op: "open_append ?p s0 = (q, s1)" by fastforce
  obtain l s2 where len: "file_len ?p s1 = (l, s2)" by fastforce
  note opened = open_append_effect [OF op] and new = open_for_kind_run [OF op]
  have run': "pump_try_new t s = (case q of
      Crash \<Rightarrow> (Crash, s1)
    | Fail _ \<Rightarrow> (Done (Some \<lparr>lp_target = t, lp_file = None, lp_bytes_written = 0\<rparr>), s1)
    | Done _ \<Rightarrow> (case l of
        Crash \<Rightarrow> (Crash, s2)
      | Fail _ \<Rightarrow> (Done (Some \<lparr>lp_target = t, lp_file = Some ?p, lp_bytes_written = 0\<rparr>), s2)
      | Done n \<Rightarrow> (Done (Some \<lparr>lp_target = t, lp_file = Some ?p, lp_bytes_written = n\<rparr>), s2)))"
    using None new len
    by (cases q; cases l) (simp_all add: pump_try_new_def try_register_def target s0_def [symmetric] bindc_def attempt_def ret_def)
  have s0: "fs s0 = fs s" "faults s0 = faults s" by (simp_all add: s0_def)
  have d1: "dirs_in {} (fs s1)"
    using keeps_run [OF keeps_open_append op, of "{}"] before(1) s0 by simp
  have w1: "logs_within m dir s1"
    using opened before(2) s0 by (auto simp: logs_within_def within_def)
  have b1: "b * failures (faults s1) \<le> e"
    using opened budget(1) s0 by (metis le_trans mult_le_mono2)
  show ?thesis
  proof (cases "q = Done ()")
    case False
    then show ?thesis using run run' d1 w1 b1 target
      by (cases q) (auto simp: pump_fits_def on_run_log_def)
  next
    case True
    then obtain c where c: "map_of (fs s1) ?p = Some (File c)" using opened by auto
    then have cm: "length c \<le> m" using w1 by (auto simp: logs_within_def within_def)
    then have count: "unat (of_nat (length c) :: u64) = length c"
      using before(3) by (simp add: unsigned_of_nat take_bit_nat_eq_self)
    note measured = file_len_effect [OF len c]
    have w2: "logs_within m dir s2" using measured w1 logs_within_same by blast
    have fl: "failures (faults s1) \<le> failures (faults s)" using opened s0 by simp
    have refused: "b * failures (faults s2) \<le> e \<and> length c + b * failures (faults s2) \<le> e" if "\<exists>err. l = Fail err"
    proof -
      have less: "failures (faults s2) < failures (faults s)" using measured that fl by auto
      then have "m + b * failures (faults s) \<le> e" using budget(2) by simp
      moreover have "b * failures (faults s2) \<le> b * failures (faults s)" using less by simp
      ultimately show ?thesis using cm by linarith
    qed
    show ?thesis
      using run run' True c count measured w2 d1 b1 refused target
      by (cases l) (auto simp: pump_fits_def on_run_log_def)
  qed
qed

lemma budget_mono: "n \<le> k \<Longrightarrow> b * k \<le> e \<Longrightarrow> b * n \<le> (e :: nat)"
  by (metis le_trans mult_le_mono2)

lemma pump_rotate_fits:
  assumes run: "pump_rotate pump s = (r, s')" and fits: "pump_fits e b dir pump s" and small: "logs_within n dir s"
  shows "logs_within n dir s' \<and> (\<forall>pump'. r = Done pump' \<longrightarrow> pump_fits e b dir pump' s'
    \<and> (lp_file pump' \<noteq> None \<longrightarrow> lp_bytes_written pump' < run_log_rotate_bytes))"
proof (cases "lp_file pump \<noteq> None \<and> run_log_rotate_bytes \<le> lp_bytes_written pump")
  case False
  then have "pump_rotate pump s = (Done pump, s)" by (auto simp: pump_rotate_def ret_def)
  then show ?thesis using run fits small False by (auto simp: not_le)
next
  case True
  have on: "lt_kind (lp_target pump) = LogRun" "lt_path (lp_target pump) = dir @ [''run.log'']"
    and d: "dirs_in {} (fs s)" and bud: "b * failures (faults s) \<le> e"
    using fits by (simp_all add: pump_fits_def on_run_log_def)
  obtain q s1 where rot: "rotate_and_reopen (dir @ [''run.log'']) s = (q, s1)" by fastforce
  note after = rotate_within [OF rot d small]
  have run': "pump_rotate pump s = ((case q of
      Crash \<Rightarrow> Crash
    | Fail _ \<Rightarrow> Done (pump\<lparr>lp_file := None, lp_bytes_written := 0\<rparr>)
    | Done p \<Rightarrow> Done (pump\<lparr>lp_file := Some p, lp_bytes_written := 0\<rparr>)), s1)"
    using True on rot by (cases q) (simp_all add: pump_rotate_def bindc_def attempt_def ret_def)
  have "b * failures (faults s1) \<le> e" using after bud budget_mono by blast
  moreover have "p = dir @ [''run.log''] \<and> map_of (fs s1) p = Some (File [])" if "q = Done p" for p
    using rotate_and_reopen_Done [of dir s p s1] rot d that by auto
  ultimately show ?thesis using run run' after on
    by (cases q) (auto simp: pump_fits_def on_run_log_def run_log_rotate_bytes_def)
qed

lemma pump_persist_fits:
  assumes run: "pump_persist chunk pump s = (r, s')" and fits: "pump_fits e b dir pump s" and small: "logs_within n dir s"
    and count: "lp_file pump \<noteq> None \<Longrightarrow> lp_bytes_written pump < run_log_rotate_bytes"
    and chunk: "length chunk \<le> b" "b < 2 ^ 63" and n: "2 ^ 20 + b + e \<le> n"
  shows "logs_within n dir s' \<and> (\<forall>pump'. r = Done pump' \<longrightarrow> pump_fits e b dir pump' s')"
proof (cases "lp_file pump")
  case None
  then show ?thesis using run fits small by (auto simp: pump_persist_def ret_def)
next
  case (Some p)
  let ?p = "dir @ [''run.log'']"
  have p: "p = ?p" using fits Some by (simp add: pump_fits_def on_run_log_def)
  obtain c where c: "map_of (fs s) ?p = Some (File c)"
      "length c + b * failures (faults s) \<le> unat (lp_bytes_written pump) + e"
    using fits Some by (auto simp: pump_fits_def)
  have lt: "unat (lp_bytes_written pump) < 2 ^ 20"
    using count Some by (simp add: run_log_rotate_bytes_def word_less_nat_alt)
  obtain q s1 where app: "append_file ?p chunk s = (q, s1)" by fastforce
  obtain k where k: "k \<le> length chunk" "map_of (fs s1) = (map_of (fs s))(?p \<mapsto> File (c @ take k chunk))"
      "q = Done () \<longrightarrow> k = length chunk"
    and fl: "failures (faults s1) + (case q of Fail _ \<Rightarrow> 1 | _ \<Rightarrow> 0) = failures (faults s)"
    using append_file_effect [OF app c(1)] by blast
  have run': "pump_persist chunk pump s = ((case q of
      Crash \<Rightarrow> Crash
    | Fail _ \<Rightarrow> Done pump
    | Done _ \<Rightarrow> Done (pump\<lparr>lp_bytes_written := lp_bytes_written pump + of_nat (length chunk)\<rparr>)), s1)"
    using app Some p by (cases q) (simp_all add: pump_persist_def bindc_def attempt_def ret_def)
  have len: "unat (lp_bytes_written pump + of_nat (length chunk)) = unat (lp_bytes_written pump) + length chunk"
    using lt chunk by (simp add: unsigned_of_nat unat_word_ariths take_bit_nat_eq_self)
  have d: "dirs_in {} (fs s1)"
    using keeps_run [OF keeps_append_file app] fits by (simp add: pump_fits_def)
  have bud: "b * failures (faults s1) \<le> e"
    using fits fl budget_mono [of "failures (faults s1)" "failures (faults s)" b e] by (auto simp: pump_fits_def)
  have "length (c @ take k chunk) \<le> n" using c(2) lt k(1) chunk(1) n by simp
  then have w: "logs_within n dir s1" using small k(2) by (auto simp: logs_within_def within_def)
  have failed: "length (c @ take k chunk) + b * failures (faults s1) \<le> unat (lp_bytes_written pump) + e" if "\<exists>err. q = Fail err"
  proof -
    have "failures (faults s) = Suc (failures (faults s1))" using fl that by auto
    then show ?thesis using c(2) k(1) chunk(1) by simp
  qed
  show ?thesis
  proof (cases q)
    case (Done u)
    then have "length (c @ take k chunk) + b * failures (faults s1)
        \<le> unat (lp_bytes_written pump + of_nat (length chunk)) + e"
      using c(2) k fl len by simp
    then show ?thesis using run run' fits d bud w k(2) Done by (auto simp: pump_fits_def on_run_log_def)
  next
    case (Fail err)
    then show ?thesis using run run' fits d bud w k(2) failed by (auto simp: pump_fits_def)
  next
    case Crash
    then show ?thesis using run run' w by auto
  qed
qed

lemma pump_push_fits:
  assumes run: "pump_push chunk pump s = (r, s')" and fits: "pump_fits e b dir pump s" and small: "logs_within n dir s"
    and chunk: "length chunk \<le> b" "b < 2 ^ 63" and n: "2 ^ 20 + b + e \<le> n"
  shows "logs_within n dir s' \<and> (\<forall>pump'. r = Done pump' \<longrightarrow> pump_fits e b dir pump' s')"
proof -
  obtain q s1 where rot: "pump_rotate pump s = (q, s1)" by fastforce
  note rotated = pump_rotate_fits [OF rot fits small]
  show ?thesis
  proof (cases q)
    case (Done p1)
    obtain q2 s2 where per: "pump_persist chunk p1 s1 = (q2, s2)" by fastforce
    have "logs_within n dir s2 \<and> (\<forall>p2. q2 = Done p2 \<longrightarrow> pump_fits e b dir p2 s2)"
      by (rule pump_persist_fits [OF per]) (use rotated Done chunk n in auto)
    then show ?thesis using run Done rot per
      by (cases q2) (auto simp: pump_push_def bindc_def modify_def ret_def pump_fits_def logs_within_def)
  qed (use run rot rotated in \<open>auto simp: pump_push_def bindc_def\<close>)
qed

lemma run_log_loop_fits:
  "run_log_loop ps pump s = (r, s') \<Longrightarrow> pump_fits e b dir pump s \<Longrightarrow> logs_within n dir s \<Longrightarrow>
    chunks_within b ps \<Longrightarrow> b < 2 ^ 63 \<Longrightarrow> 2 ^ 20 + b + e \<le> n \<Longrightarrow> logs_within n dir s'"
proof (induction ps arbitrary: pump s)
  case Nil
  then show ?case by (simp add: ret_def)
next
  case (Cons p ps)
  show ?case
  proof (cases "\<exists>c. p = StreamContainerLogsChunk c")
    case False
    then have "run_log_loop (p # ps) pump s = (Done pump, s)" by (cases p) (simp_all add: ret_def)
    then show ?thesis using Cons.prems by simp
  next
    case True
    then obtain c where p: "p = StreamContainerLogsChunk c" by blast
    obtain q s1 where push: "pump_push (ch_data c) pump s = (q, s1)" by fastforce
    have "length (ch_data c) \<le> b" using Cons.prems(4) p by (auto simp: chunks_within_def)
    note pushed = pump_push_fits [OF push Cons.prems(2,3) this Cons.prems(5,6)]
    have "chunks_within b ps" using Cons.prems(4) by (auto simp: chunks_within_def)
    then show ?thesis using Cons.IH [of _ s1] Cons.prems pushed p push
      by (cases q) (auto simp: bindc_def ret_def split: if_splits)
  qed
qed

lemma request_keeps:
  assumes "call_streaming_reply link payload s = (r, s')"
  shows "fs s' = fs s \<and> log_registry s' = log_registry s \<and> broadcasts s' = broadcasts s
    \<and> failures (faults s') \<le> failures (faults s) \<and> (\<forall>ps. r = Done ps \<longrightarrow> ps = [] \<or> Some ps \<in> set (agent_script s))"
proof (cases link)
  case None
  then show ?thesis using assms by (auto simp: call_streaming_reply_def throw_def)
next
  case (Some h)
  show ?thesis using assms unfolding call_streaming_reply_def Some option.case
    by (cases rule: ext_call_budget)
       (auto simp: next_answer_def split: list.splits option.splits prod.splits)
qed

section \<open>What a viewer reads afterwards\<close>

text \<open>The output of a stream of replies: the chunks up to the final one.\<close>

fun log_chunks :: "agent_payload list \<Rightarrow> string list" where
  "log_chunks [] = []"
| "log_chunks (p # ps) =
     (case p of
        StreamContainerLogsChunk c \<Rightarrow> ch_data c # (if ch_is_final c then [] else log_chunks ps)
      | _ \<Rightarrow> [])"

definition text_of :: "filesystem \<Rightarrow> path \<Rightarrow> string" where
  "text_of t p = (case map_of t p of Some (File c) \<Rightarrow> c | _ \<Rightarrow> [])"

lemma read_into_quiet:
  assumes "faults s = []"
  shows "read_into p buf s = (if map_of (fs s) p = Some Dir then (Fail (Io (io_err IsADirectory)), s)
    else (Done (buf @ text_of (fs s) p), s))"
  using assms
  by (auto simp: read_into_def bindc_def attempt_def read_file_def ext_call_def ret_def throw_def text_of_def io_err_def
      split: option.split node.split)

lemma read_backlog_quiet:
  assumes "faults s = []"
  shows "read_backlog dir LogRun s = (Done new, s) \<longleftrightarrow>
    map_of (fs s) (dir @ [''run.log.1'']) \<noteq> Some Dir \<and> map_of (fs s) (dir @ [''run.log'']) \<noteq> Some Dir
    \<and> new = text_of (fs s) (dir @ [''run.log.1'']) @ text_of (fs s) (dir @ [''run.log''])"
  by (auto simp: read_backlog_def bindc_def read_into_quiet [OF assms] file_name_def)

lemma append_file_quiet:
  "faults s = [] \<Longrightarrow> map_of (fs s) p = Some (File c) \<Longrightarrow>
    \<exists>t. append_file p chunk s = (Done (), s\<lparr>fs := t\<rparr>) \<and> map_of t = (map_of (fs s))(p \<mapsto> File (c @ chunk))"
proof (induction chunk arbitrary: s c)
  case Nil
  then show ?case by (intro exI [of _ "fs s"]) (auto simp: append_file_def ret_def)
next
  case (Cons b bs)
  let ?t = "fs_put p (File (c @ [b])) (fs s)"
  have byte: "append_byte p b s = (Done (), s\<lparr>fs := ?t\<rparr>)"
    using Cons.prems by (simp add: append_byte_def ext_call_def set_fs_run)
  have now: "map_of ?t = (map_of (fs s))(p \<mapsto> File (c @ [b]))" by (simp add: map_of_fs_put fun_eq_iff)
  have "faults (s\<lparr>fs := ?t\<rparr>) = []" "map_of (fs (s\<lparr>fs := ?t\<rparr>)) p = Some (File (c @ [b]))"
    using Cons.prems now by simp_all
  from Cons.IH [OF this] obtain t where t: "append_file p bs (s\<lparr>fs := ?t\<rparr>) = (Done (), s\<lparr>fs := ?t, fs := t\<rparr>)"
      "map_of t = (map_of (fs (s\<lparr>fs := ?t\<rparr>)))(p \<mapsto> File ((c @ [b]) @ bs))" by blast
  have "append_file p (b # bs) s = (Done (), s\<lparr>fs := t\<rparr>)" using byte t(1) by (simp add: append_file_def bindc_def)
  moreover have "map_of t = (map_of (fs s))(p \<mapsto> File (c @ b # bs))" using t(2) now by simp
  ultimately show ?case by blast
qed

text \<open>The backlog on disk against everything put out so far: only a part in front is gone, and only
  while a mebibyte of what followed it is still there.\<close>

definition recent :: "path \<Rightarrow> string \<Rightarrow> filesystem \<Rightarrow> bool" where
  "recent dir all t \<longleftrightarrow> map_of t (dir @ [''run.log.1'']) \<noteq> Some Dir \<and> map_of t (dir @ [''run.log'']) \<noteq> Some Dir
    \<and> (\<exists>gone. all = gone @ text_of t (dir @ [''run.log.1'']) @ text_of t (dir @ [''run.log''])
         \<and> (gone = [] \<or> 2 ^ 20 \<le> length (text_of t (dir @ [''run.log.1'']) @ text_of t (dir @ [''run.log'']))))"

definition pumping :: "path \<Rightarrow> string \<Rightarrow> log_pump \<Rightarrow> world \<Rightarrow> bool" where
  "pumping dir all pump s \<longleftrightarrow> faults s = [] \<and> dirs_in {dir} (fs s) \<and> recent dir all (fs s)
    \<and> lt_kind (lp_target pump) = LogRun \<and> lt_path (lp_target pump) = dir @ [''run.log'']
    \<and> lp_file pump = Some (dir @ [''run.log''])
    \<and> (\<exists>c. map_of (fs s) (dir @ [''run.log'']) = Some (File c) \<and> length c = unat (lp_bytes_written pump))"

lemma rotate_quiet:
  assumes quiet: "faults s = []" and d: "dirs_in {dir} (fs s)"
    and c: "map_of (fs s) (dir @ [''run.log'']) = Some (File c)"
    and old: "map_of (fs s) (dir @ [''run.log.1'']) \<noteq> Some Dir"
  shows "\<exists>t. rotate_and_reopen (dir @ [''run.log'']) s = (Done (dir @ [''run.log'']), s\<lparr>fs := t\<rparr>)
    \<and> map_of t (dir @ [''run.log'']) = Some (File []) \<and> map_of t (dir @ [''run.log.1'']) = Some (File c)
    \<and> dirs_in {dir} t"
proof -
  let ?src = "dir @ [''run.log'']" and ?dst = "dir @ [''run.log.1'']"
  have wf: "fs_wf (fs s)" and dir: "map_of (fs s) dir = Some Dir" using d by (simp_all add: dirs_in_def is_dir_def)
  have chk: "rename_check ?src ?dst (fs s) = None"
    using c old dir by (auto simp: rename_check_def parent_check_def parent_def below_def split: option.split node.split)
  let ?m = "fs_move ?src ?dst (fs s)"
  note moved = moved_log [OF chk wf]
  have mv: "rename ?src ?dst s = (Done (), s\<lparr>fs := ?m\<rparr>)"
    using quiet chk by (simp add: rename_def ext_call_def set_fs_run)
  have "dirs_in {dir} (fs (s\<lparr>fs := ?m\<rparr>))"
    by (rule keeps_run [OF keeps_rename mv]) (use d in auto)
  then have dm: "map_of ?m dir = Some Dir" by (simp add: dirs_in_def is_dir_def)
  let ?t = "fs_put ?src (File []) ?m"
  have op: "open_append ?src (s\<lparr>fs := ?m\<rparr>) = (Done (), s\<lparr>fs := ?t\<rparr>)"
    using quiet moved(1) dm by (simp add: open_append_def ext_call_def set_fs_run parent_check_def parent_def)
  have run: "rotate_and_reopen ?src s = (Done ?src, s\<lparr>fs := ?t\<rparr>)"
    using mv op by (simp add: rotate_and_reopen_def Let_def rotated_path open_for_kind_def bindc_def io_def map_err_def ret_def)
  moreover have "dirs_in {dir} ?t"
    using keeps_run [OF keeps_rotate_and_reopen run, of "{dir}"] d by simp
  ultimately show ?thesis using moved(2) c by (auto simp: map_of_fs_put)
qed

lemma recent_rotated:
  assumes "recent dir all t" and "map_of t (dir @ [''run.log'']) = Some (File c)" and "2 ^ 20 \<le> length c"
    and "map_of u (dir @ [''run.log'']) = Some (File [])" and "map_of u (dir @ [''run.log.1'']) = Some (File c)"
  shows "recent dir all u"
  using assms by (auto simp: recent_def text_of_def)

lemma pump_push_quiet:
  assumes "pumping dir all pump s" and "length all + length chunk < 2 ^ 63"
  shows "\<exists>pump' s'. pump_push chunk pump s = (Done pump', s') \<and> pumping dir (all @ chunk) pump' s'
    \<and> lp_target pump' = lp_target pump \<and> log_registry s' = log_registry s
    \<and> broadcasts s' = broadcasts s @ [(lt_deployment_id (lp_target pump), chunk)]"
proof -
  let ?p = "dir @ [''run.log'']"
  have "\<exists>p1 t. pump_rotate pump s = (Done p1, s\<lparr>fs := t\<rparr>) \<and> pumping dir all p1 (s\<lparr>fs := t\<rparr>) \<and> lp_target p1 = lp_target pump"
  proof (cases "run_log_rotate_bytes \<le> lp_bytes_written pump")
    case False
    then have "pump_rotate pump s = (Done pump, s\<lparr>fs := fs s\<rparr>)" by (simp add: pump_rotate_def ret_def)
    then show ?thesis using assms(1) by (metis (full_types) machine.surjective machine.update_convs(1))
  next
    case True
    obtain c where c: "map_of (fs s) ?p = Some (File c)" "length c = unat (lp_bytes_written pump)"
      using assms(1) by (auto simp: pumping_def)
    have "2 ^ 20 \<le> length c" using True c(2) by (simp add: run_log_rotate_bytes_def word_le_nat_alt)
    moreover obtain t where t: "rotate_and_reopen ?p s = (Done ?p, s\<lparr>fs := t\<rparr>)" "map_of t ?p = Some (File [])"
        "map_of t (dir @ [''run.log.1'']) = Some (File c)" "dirs_in {dir} t"
      using rotate_quiet [of s dir c] assms(1) c(1) by (auto simp: pumping_def recent_def)
    ultimately have "recent dir all t" using recent_rotated c(1) assms(1) by (auto simp: pumping_def)
    then show ?thesis using t True assms(1)
      by (intro exI [of _ "pump\<lparr>lp_file := Some ?p, lp_bytes_written := 0\<rparr>"] exI [of _ t])
         (auto simp: pump_rotate_def pumping_def bindc_def attempt_def ret_def)
  qed
  then obtain p1 t1 where rot: "pump_rotate pump s = (Done p1, s\<lparr>fs := t1\<rparr>)" "pumping dir all p1 (s\<lparr>fs := t1\<rparr>)"
      "lp_target p1 = lp_target pump" by blast
  obtain c where c: "map_of t1 ?p = Some (File c)" "length c = unat (lp_bytes_written p1)"
    using rot(2) by (auto simp: pumping_def)
  have quiet: "faults (s\<lparr>fs := t1\<rparr>) = []" using rot(2) by (simp add: pumping_def)
  obtain t2 where app: "append_file ?p chunk (s\<lparr>fs := t1\<rparr>) = (Done (), s\<lparr>fs := t2\<rparr>)"
      "map_of t2 = (map_of t1)(?p \<mapsto> File (c @ chunk))"
    using append_file_quiet [OF quiet, of ?p c chunk] c(1) by auto
  let ?p2 = "p1\<lparr>lp_bytes_written := lp_bytes_written p1 + of_nat (length chunk)\<rparr>"
  have per: "pump_persist chunk p1 (s\<lparr>fs := t1\<rparr>) = (Done ?p2, s\<lparr>fs := t2\<rparr>)"
    using app(1) rot(2) by (simp add: pump_persist_def pumping_def bindc_def attempt_def ret_def)
  have "dirs_in {dir} (fs (s\<lparr>fs := t2\<rparr>))"
    by (rule keeps_run [OF keeps_append_file app(1)]) (use rot(2) in \<open>simp add: pumping_def\<close>)
  moreover have "recent dir (all @ chunk) t2"
    using rot(2) c(1) app(2) by (auto simp: pumping_def recent_def text_of_def)
  moreover have "length c \<le> length all" using rot(2) c(1) by (auto simp: pumping_def recent_def text_of_def)
  then have "unat (lp_bytes_written p1 + of_nat (length chunk)) = length (c @ chunk)"
    using assms(2) c(2) by (simp add: unsigned_of_nat unat_word_ariths take_bit_nat_eq_self)
  ultimately have "pumping dir (all @ chunk) ?p2 (s\<lparr>fs := t2,
      broadcasts := broadcasts s @ [(lt_deployment_id (lp_target pump), chunk)]\<rparr>)"
    using rot(2) app(2) by (auto simp: pumping_def)
  moreover have "pump_push chunk pump s = (Done ?p2, s\<lparr>fs := t2,
      broadcasts := broadcasts s @ [(lt_deployment_id (lp_target pump), chunk)]\<rparr>)"
    using rot(1,3) per by (simp add: pump_push_def bindc_def modify_def ret_def)
  moreover have "lp_target ?p2 = lp_target pump" using rot(3) by simp
  ultimately show ?thesis
    by (intro exI [of _ ?p2] exI [of _ "s\<lparr>fs := t2,
      broadcasts := broadcasts s @ [(lt_deployment_id (lp_target pump), chunk)]\<rparr>"]) simp
qed

lemma run_log_loop_quiet:
  "pumping dir all pump s \<Longrightarrow> length all + length (concat (log_chunks ps)) < 2 ^ 63 \<Longrightarrow>
    \<exists>pump' s'. run_log_loop ps pump s = (Done pump', s') \<and> pumping dir (all @ concat (log_chunks ps)) pump' s'
      \<and> lp_target pump' = lp_target pump \<and> log_registry s' = log_registry s
      \<and> broadcasts s' = broadcasts s @ map (Pair (lt_deployment_id (lp_target pump))) (log_chunks ps)"
proof (induction ps arbitrary: pump s all)
  case Nil
  then show ?case by (simp add: ret_def)
next
  case (Cons p ps)
  show ?case
  proof (cases "\<exists>c. p = StreamContainerLogsChunk c")
    case False
    then show ?thesis using Cons.prems by (cases p) (simp_all add: ret_def)
  next
    case True
    then obtain c where p: "p = StreamContainerLogsChunk c" by blast
    have "length all + length (ch_data c) < 2 ^ 63" using Cons.prems(2) p by simp
    from pump_push_quiet [OF Cons.prems(1) this] obtain p1 s1 where
      push: "pump_push (ch_data c) pump s = (Done p1, s1)" "pumping dir (all @ ch_data c) p1 s1"
        "lp_target p1 = lp_target pump" "log_registry s1 = log_registry s"
        "broadcasts s1 = broadcasts s @ [(lt_deployment_id (lp_target pump), ch_data c)]" by blast
    show ?thesis
    proof (cases "ch_is_final c")
      case True
      then show ?thesis using push p by (auto simp: bindc_def ret_def)
    next
      case False
      have "length (all @ ch_data c) + length (concat (log_chunks ps)) < 2 ^ 63" using Cons.prems(2) p False by simp
      from Cons.IH [OF push(2) this] show ?thesis using push p False by (auto simp: bindc_def)
    qed
  qed
qed

lemma pump_new_quiet:
  assumes quiet: "faults s = []" and free: "log_registry s (lt_deployment_id t) = None"
    and target: "lt_kind t = LogRun" "lt_path t = dir @ [''run.log'']"
    and d: "dirs_in {dir} (fs s)" and old: "recent dir all (fs s)" and n: "length all < 2 ^ 63"
  shows "\<exists>pump s'. pump_try_new t s = (Done (Some pump), s') \<and> pumping dir all pump s' \<and> lp_target pump = t
    \<and> log_registry s' = (log_registry s)(lt_deployment_id t \<mapsto> LogRun) \<and> broadcasts s' = broadcasts s"
proof -
  let ?p = "dir @ [''run.log'']"
  define s0 where "s0 = s\<lparr>log_registry := (log_registry s)(lt_deployment_id t \<mapsto> LogRun)\<rparr>"
  have dir: "map_of (fs s) dir = Some Dir" using d by (simp add: dirs_in_def is_dir_def)
  define u where "u = (if map_of (fs s) ?p = None then fs_put ?p (File []) (fs s) else fs s)"
  have op: "open_append ?p s0 = (Done (), s0\<lparr>fs := u\<rparr>)"
    using quiet old dir
    by (auto simp: open_append_def ext_call_def set_fs_run parent_check_def parent_def recent_def u_def s0_def
        split: option.split node.split)
  have du: "dirs_in {dir} u"
    using keeps_run [OF keeps_open_append op, of "{dir}"] d by (simp add: s0_def)
  have ru: "recent dir all u" using old by (auto simp: u_def recent_def text_of_def map_of_fs_put)
  obtain c where c: "map_of u ?p = Some (File c)" "length c \<le> length all"
  proof (cases "map_of u ?p")
    case None
    then show ?thesis by (auto simp: u_def map_of_fs_put split: if_splits)
  next
    case (Some nd)
    then show ?thesis using ru that by (cases nd) (auto simp: recent_def text_of_def)
  qed
  let ?q = "\<lparr>lp_target = t, lp_file = Some ?p, lp_bytes_written = of_nat (length c)\<rparr>"
  have "pump_try_new t s = (Done (Some ?q), s0\<lparr>fs := u\<rparr>)"
    using free open_for_kind_run [OF op] quiet c(1)
    by (simp add: pump_try_new_def try_register_def target s0_def [symmetric] bindc_def attempt_def ret_def file_len_def
        ext_call_def) (simp add: s0_def ret_def)
  moreover have "pumping dir all ?q (s0\<lparr>fs := u\<rparr>)"
    using quiet du ru target c n by (simp add: pumping_def s0_def unsigned_of_nat take_bit_nat_eq_self)
  ultimately show ?thesis
    by (intro exI [of _ ?q] exI [of _ "s0\<lparr>fs := u\<rparr>"]) (simp add: s0_def)
qed

section \<open>Properties\<close>

text \<open>C39 The log of a running container stays bounded on disk, over the whole life of its pump and
  whatever fails: if the two files hold at most \<open>m\<close> bytes when the pump starts and the agent's
  chunks at most \<open>b\<close>, then afterwards each holds at most the larger of \<open>m\<close> and one mebibyte and a
  chunk - and, only if file operations have failed, \<open>m\<close> and one further chunk per failure, which
  is what a length that could not be read and writes cut short keep out of the pump's count.\<close>

theorem run_log_stays_bounded:
  assumes "run_log_pump_task link cname t s = (r, s')"
    and "lt_kind t = LogRun" and "lt_path t = dir @ [''run.log'']"
    and "dirs_in {} (fs s)"
    and "\<And>c. map_of (fs s) (dir @ [''run.log'']) = Some (File c) \<Longrightarrow> length c \<le> m"
    and "\<And>c. map_of (fs s) (dir @ [''run.log.1'']) = Some (File c) \<Longrightarrow> length c \<le> m"
    and "\<And>ps c. Some ps \<in> set (agent_script s) \<Longrightarrow> StreamContainerLogsChunk c \<in> set ps \<Longrightarrow> length (ch_data c) \<le> b"
    and "m < 2 ^ 63" and "b < 2 ^ 63"
    and "map_of (fs s') (dir @ [f]) = Some (File c')" and "f = ''run.log'' \<or> f = ''run.log.1''"
  shows "length c' \<le> max m (2 ^ 20 + b + (if failures (faults s) = 0 then 0 else m + failures (faults s) * b))"
proof -
  define e where "e = (if failures (faults s) = 0 then 0 else m + b * failures (faults s))"
  define n where "n = max m (2 ^ 20 + b + e)"
  obtain q s1 where call: "call_streaming_reply link (StreamContainerLogs cname True) s = (q, s1)" by fastforce
  note asked = request_keeps [OF call]
  have w: "logs_within m dir s1" using assms(5,6) asked by (auto simp: logs_within_def within_def)
  have up: "logs_within m dir u \<Longrightarrow> logs_within n dir u" for u
    by (auto simp: logs_within_def within_def n_def intro: le_trans)
  have "logs_within n dir s'"
  proof (cases q)
    case (Done ps)
    obtain q2 s2 where new: "pump_try_new t s1 = (q2, s2)" by fastforce
    have bud: "b * failures (faults s1) \<le> e" "failures (faults s1) \<noteq> 0 \<Longrightarrow> m + b * failures (faults s1) \<le> e"
      using asked by (auto simp: e_def intro: mult_le_mono2 trans_le_add2)
    have d: "dirs_in {} (fs s1)" using asked assms(4) by simp
    note started = pump_new_fits [OF new assms(2,3) d w assms(8) bud]
    have chunks: "chunks_within b ps" using asked Done assms(7) by (auto simp: chunks_within_def)
    show ?thesis
    proof (cases "\<exists>pump. q2 = Done (Some pump)")
      case True
      then obtain pump where pump: "q2 = Done (Some pump)" by blast
      obtain q3 s3 where loop: "run_log_loop ps pump s2 = (q3, s3)" by fastforce
      have "logs_within n dir s3"
        by (rule run_log_loop_fits [OF loop _ _ chunks assms(9)]) (use started pump up in \<open>auto simp: n_def\<close>)
      moreover have "fs s' = fs s3"
        using assms(1) call Done new pump loop
        by (cases q3) (auto simp: run_log_pump_task_def bindc_def attempt_def pump_drop_def deregister_def modify_def)
      ultimately show ?thesis by (simp add: logs_within_def)
    next
      case False
      then have "s' = s2" using assms(1) call Done new
        by (cases q2) (auto simp: run_log_pump_task_def bindc_def attempt_def ret_def split: option.splits)
      then show ?thesis using started up by simp
    qed
  next
    case (Fail err)
    then show ?thesis using assms(1) call w up by (auto simp: run_log_pump_task_def bindc_def attempt_def ret_def)
  next
    case Crash
    then show ?thesis using assms(1) call w up by (auto simp: run_log_pump_task_def bindc_def attempt_def)
  qed
  then show ?thesis using assms(10,11) by (auto simp: logs_within_def within_def n_def e_def mult.commute)
qed

definition sample_log_target :: log_target where
  "sample_log_target = \<lparr>lt_path = [''d'', ''run.log''], lt_deployment_id = ''1'', lt_kind = LogRun\<rparr>"

text \<open>The agent sends two chunks; opening goes well, the length cannot be read, the second chunk is
  cut short after its first byte.\<close>

definition sample_log_world :: world where
  "sample_log_world = sample_world\<lparr>fs := [([], Dir), ([''d''], Dir), ([''d'', ''run.log''], File ''xy'')],
     agent_script := [Some [StreamContainerLogsChunk \<lparr>ch_data = ''hi'', ch_is_final = False\<rparr>,
                            StreamContainerLogsChunk \<lparr>ch_data = ''you'', ch_is_final = True\<rparr>]],
     faults := [Proceed, Proceed, FailWith ''stat'', Proceed, Proceed, Proceed, FailWith ''disk full'']\<rparr>"

lemma sample_log_run:
  "map_of (fs (snd (run_log_pump_task (Some 1) ''c'' sample_log_target sample_log_world))) [''d'', ''run.log'']
    = Some (File ''xyhiy'')"
  by code_simp

lemma run_log_stays_bounded_witness:
  "length ''xyhiy'' \<le> max 2 (2 ^ 20 + 3 + (if failures (faults sample_log_world) = 0 then 0
     else 2 + failures (faults sample_log_world) * 3))"
proof (rule run_log_stays_bounded [where dir = "[''d'']" and f = "''run.log''"])
  show "run_log_pump_task (Some 1) ''c'' sample_log_target sample_log_world =
      (fst (run_log_pump_task (Some 1) ''c'' sample_log_target sample_log_world),
       snd (run_log_pump_task (Some 1) ''c'' sample_log_target sample_log_world))"
    by simp
  show "map_of (fs (snd (run_log_pump_task (Some 1) ''c'' sample_log_target sample_log_world))) ([''d''] @ [''run.log''])
      = Some (File ''xyhiy'')"
    using sample_log_run by simp
qed (auto simp: sample_log_target_def sample_log_world_def dirs_in_def fs_wf_def is_dir_def)

text \<open>C36 The log a viewer finds is the recent output: if a run log pump meets no failure, every chunk
  goes to the live viewers in order, and afterwards the backlog read from disk is the old
  backlog and the whole output of this run less a part at the front, which is empty unless at
  least a mebibyte is left. The pump ends deregistered.\<close>

theorem run_log_backlog_is_recent_output:
  assumes "run_log_pump_task (Some h) cname t s = (r, s')"
    and "lt_kind t = LogRun" and "lt_path t = dir @ [''run.log'']"
    and "faults s = []" and "agent_script s = Some ps # script" and "log_registry s (lt_deployment_id t) = None"
    and "dirs_in {dir} (fs s)" and "read_backlog dir LogRun s = (Done old, s)"
    and "length old + length (concat (log_chunks ps)) < 2 ^ 63"
  shows "r = Done () \<and> log_registry s' = log_registry s
    \<and> broadcasts s' = broadcasts s @ map (Pair (lt_deployment_id t)) (log_chunks ps)
    \<and> (\<exists>gone new. read_backlog dir LogRun s' = (Done new, s') \<and> old @ concat (log_chunks ps) = gone @ new
         \<and> (gone = [] \<or> 2 ^ 20 \<le> length new))"
proof -
  let ?s1 = "s\<lparr>rpc_log := rpc_log s @ [(h, [StreamContainerLogs cname True])], agent_script := script\<rparr>"
  have call: "call_streaming_reply (Some h) (StreamContainerLogs cname True) s = (Done ps, ?s1)"
    using assms(4,5) by (simp add: call_streaming_reply_def ext_call_def next_answer_def)
  have "recent dir old (fs ?s1)"
    using assms(8) by (auto simp: read_backlog_quiet [OF assms(4)] recent_def)
  then obtain pump s2 where new: "pump_try_new t ?s1 = (Done (Some pump), s2)" "pumping dir old pump s2" "lp_target pump = t"
      "log_registry s2 = (log_registry s)(lt_deployment_id t \<mapsto> LogRun)" "broadcasts s2 = broadcasts s"
    using pump_new_quiet [of ?s1 t dir old] assms(2-4,6,7,9) by auto
  obtain pump' s3 where loop: "run_log_loop ps pump s2 = (Done pump', s3)" "pumping dir (old @ concat (log_chunks ps)) pump' s3"
      "lp_target pump' = t" "log_registry s3 = log_registry s2"
      "broadcasts s3 = broadcasts s @ map (Pair (lt_deployment_id t)) (log_chunks ps)"
    using run_log_loop_quiet [OF new(2) assms(9)] new(3,5) by auto
  have "r = Done ()" and s': "s' = s3\<lparr>log_registry := (log_registry s3)(lt_deployment_id t := None)\<rparr>"
    using assms(1) call new(1) loop(1,3)
    by (auto simp: run_log_pump_task_def bindc_def attempt_def pump_drop_def deregister_def modify_def)
  moreover have "log_registry s' = log_registry s"
    using s' loop(4) new(4) assms(6) by (auto simp: fun_eq_iff)
  moreover have "faults s' = []" "recent dir (old @ concat (log_chunks ps)) (fs s')"
    using loop(2) s' by (simp_all add: pumping_def)
  then have "\<exists>gone new. read_backlog dir LogRun s' = (Done new, s') \<and> old @ concat (log_chunks ps) = gone @ new
         \<and> (gone = [] \<or> 2 ^ 20 \<le> length new)"
    unfolding read_backlog_quiet [OF \<open>faults s' = []\<close>] recent_def by blast
  ultimately show ?thesis using loop(5) by simp
qed

definition calm_log_world :: world where
  "calm_log_world = sample_log_world\<lparr>faults := []\<rparr>"

lemma run_log_backlog_is_recent_output_witness:
  "fst (run_log_pump_task (Some 1) ''c'' sample_log_target calm_log_world) = Done ()
    \<and> log_registry (snd (run_log_pump_task (Some 1) ''c'' sample_log_target calm_log_world)) = log_registry calm_log_world
    \<and> broadcasts (snd (run_log_pump_task (Some 1) ''c'' sample_log_target calm_log_world))
      = broadcasts calm_log_world @ map (Pair (lt_deployment_id sample_log_target)) [''hi'', ''you'']
    \<and> (\<exists>gone new. read_backlog [''d''] LogRun (snd (run_log_pump_task (Some 1) ''c'' sample_log_target calm_log_world))
          = (Done new, snd (run_log_pump_task (Some 1) ''c'' sample_log_target calm_log_world))
        \<and> ''xy'' @ concat [''hi'', ''you''] = gone @ new \<and> (gone = [] \<or> 2 ^ 20 \<le> length new))"
proof -
  let ?ps = "[StreamContainerLogsChunk \<lparr>ch_data = ''hi'', ch_is_final = False\<rparr>,
    StreamContainerLogsChunk \<lparr>ch_data = ''you'', ch_is_final = True\<rparr>]"
  have chunks: "log_chunks ?ps = [''hi'', ''you'']" by simp
  have "read_backlog [''d''] LogRun calm_log_world = (Done ''xy'', calm_log_world)"
    by (subst read_backlog_quiet) (simp_all add: calm_log_world_def sample_log_world_def text_of_def)
  then show ?thesis
    using run_log_backlog_is_recent_output [of 1 "''c''" sample_log_target calm_log_world
        "fst (run_log_pump_task (Some 1) ''c'' sample_log_target calm_log_world)"
        "snd (run_log_pump_task (Some 1) ''c'' sample_log_target calm_log_world)" "[''d'']" ?ps "[]" "''xy''"]
    unfolding chunks
    by (simp add: calm_log_world_def sample_log_world_def sample_log_target_def dirs_in_def fs_wf_def is_dir_def sample_world_def)
qed

end
