(* ===== verification/ReconnectFacts.thy ===== *)
theory ReconnectFacts
  imports AgentMain
begin

text \<open>
  What holds of the agent's connection: the pinned certificate is the only one accepted, and the
  loop that reconnects finds its hub again. A pin in force is the one configured or the one on disk.
\<close>

section \<open>Fingerprints are their own trimmed text\<close>

lemma trim_alphanumeric:
  assumes "\<forall>c\<in>set v. is_ascii_alphanumeric c" shows "trim v = v"
proof -
  have "list_all (\<lambda>w. w \<noteq> [] \<and> \<not> is_ascii_alphanumeric (hd w) \<and> \<not> is_ascii_alphanumeric (last w)) white_space"
    by (simp add: white_space_def is_ascii_alphanumeric_def is_ascii_alphabetic_def is_ascii_lowercase_def
        is_ascii_uppercase_def is_ascii_digit_def)
  then have w: "w \<noteq> []" "\<not> is_ascii_alphanumeric (hd w)" "\<not> is_ascii_alphanumeric (last w)" if "w \<in> set white_space" for w
    using that by (simp_all add: list_all_iff)
  have "\<not> starts_with w v" if "w \<in> set white_space" for w
    using w [OF that] assms by (cases w) (auto simp: starts_with_iff)
  then have "find (\<lambda>w. starts_with w v) white_space = None" by (auto simp: find_None_iff)
  then have "trim_start v = v" by (subst trim_start.simps) simp
  moreover have "\<not> ends_with w v" if "w \<in> set white_space" for w
    using w [OF that] assms by (cases w rule: rev_cases) (auto simp: ends_with_iff)
  then have "find (\<lambda>w. ends_with w v) white_space = None" by (auto simp: find_None_iff)
  then have "trim_end v = v" by (subst trim_end.simps) simp
  ultimately show ?thesis by (simp add: trim_def)
qed

lemma hex_alphanumeric: "c \<in> set (hex_sha256 sha der) \<Longrightarrow> is_ascii_alphanumeric c"
proof -
  assume "c \<in> set (hex_sha256 sha der)"
  then obtain b where "c = hex_digits ! (code b div 16) \<or> c = hex_digits ! (code b mod 16)"
    by (auto simp: hex_sha256_def hex_byte_def)
  moreover have "code b < 256" by simp
  moreover have "length hex_digits = 16" by (simp add: hex_digits_def)
  ultimately have "code b div 16 < length hex_digits" "code b mod 16 < length hex_digits" and c: "c = hex_digits ! (code b div 16) \<or> c = hex_digits ! (code b mod 16)"
    by (auto intro: less_mult_imp_div_less)
  then have "c \<in> set hex_digits" using nth_mem by metis
  moreover have "list_all is_ascii_alphanumeric hex_digits"
    by (simp add: hex_digits_def is_ascii_alphanumeric_def is_ascii_alphabetic_def is_ascii_lowercase_def
        is_ascii_uppercase_def is_ascii_digit_def)
  ultimately show ?thesis by (simp add: list_all_iff)
qed

lemma trim_hex [simp]: "trim (hex_sha256 sha der) = hex_sha256 sha der"
  by (rule trim_alphanumeric) (simp add: hex_alphanumeric)

section \<open>The pin\<close>

definition pin_in_force :: "agent_config \<Rightarrow> path \<Rightarrow> 'z machine_scheme \<Rightarrow> string \<Rightarrow> bool" where
  "pin_in_force config dir s fp \<longleftrightarrow>
     (case ac_hub_tls_fingerprint config of
        Some pinned \<Rightarrow> to_lowercase (trim pinned) = fp
      | None \<Rightarrow> (\<exists>contents. map_of (fs s) (pin_path dir) = Some (File contents) \<and> valid_utf8 contents \<and> trim contents = fp))"

lemma hex_utf8: "valid_utf8 (hex_sha256 sha der)"
  by (rule ascii_valid) (auto simp: list_all_iff cont_def is_ascii_alphanumeric_def is_ascii_alphabetic_def
      is_ascii_lowercase_def is_ascii_uppercase_def is_ascii_digit_def dest!: hex_alphanumeric)

lemma expected_pinned:
  "faults s = [] \<Longrightarrow> pin_in_force config dir s fp \<Longrightarrow> expected_fingerprint dir (ac_hub_tls_fingerprint config) s = (Done (Some fp), s)"
  by (auto simp: pin_in_force_def expected_fingerprint_def read_to_string_def read_file_def ext_call_def bindc_def attempt_def ret_def
      split: option.splits)

lemma dial_hub_pinned:
  assumes "faults s = []" and "pin_in_force config dir s fp" and "dial_hub lib config dir peer s = (r, s')"
  shows "s' = s" and "r = Done answer \<Longrightarrow> \<exists>cert. pe_certificate peer = Inr cert \<and> hex_sha256 (al_sha256 lib) cert = fp"
  using assms(3) unfolding dial_hub_def
  by (auto simp: bindc_def expected_pinned [OF assms(1,2)] from_sum_def throw_def ret_def verify_server_cert_def Let_def
      whenc_def guardc_def split: sum.splits if_splits)

text \<open>The first session, whatever calls of the operating system fail on the way: it has been pinned.\<close>

lemma read_to_string_fs: "read_to_string p s = (r, s') \<Longrightarrow> fs s' = fs s"
  by (auto simp: read_to_string_def read_file_def ext_call_def bindc_def ret_def throw_def Let_def
      split: list.splits fault.splits option.splits node.splits if_splits)

lemma expected_none:
  assumes "map_of (fs s) (pin_path dir) = None" and "expected_fingerprint dir None s = (Done q, s')"
  shows "q = None \<and> fs s' = fs s"
  using assms
  by (auto simp: expected_fingerprint_def read_to_string_def read_file_def ext_call_def bindc_def attempt_def ret_def Let_def
      split: list.splits fault.splits option.splits)

lemma persist_Done:
  "persist_fingerprint dir fp s = (Done (), s') \<Longrightarrow> map_of (fs s') (pin_path dir) = Some (File fp)"
  using write_file_effect [of "pin_path dir" fp s "Done ()" s'] by (auto simp: persist_fingerprint_def map_of_fs_put)

lemma dial_hub_first:
  assumes "ac_hub_tls_fingerprint config = None" and "map_of (fs s) (pin_path dir) = None"
    and "dial_hub lib config dir peer s = (Done answer, s')"
  obtains cert where "pe_certificate peer = Inr cert"
    and "map_of (fs s') (pin_path dir) = Some (File (hex_sha256 (al_sha256 lib) cert))"
proof -
  obtain q s1 where ex: "expected_fingerprint dir (ac_hub_tls_fingerprint config) s = (Done q :: (string, _) outcome, s1)"
    by (rule bindc_DoneE [OF assms(3) [unfolded dial_hub_def]]) (rule that)
  then have q: "q = None" using expected_none [OF assms(2) ex [unfolded assms(1)]] by simp
  obtain cert where cert: "pe_certificate peer = Inr cert"
    using assms(3) unfolding dial_hub_def by (auto elim!: bindc_DoneE simp: from_sum_def throw_def split: sum.splits)
  have "persist_fingerprint dir (hex_sha256 (al_sha256 lib) cert) s1 = (Done (), s')"
    using assms(3) unfolding dial_hub_def
    by (auto simp: bindc_def ex q cert from_sum_def throw_def ret_def verify_server_cert_def Let_def
        whenc_def guardc_def map_err_def split: sum.splits if_splits prod.splits outcome.splits)
  from that [OF cert persist_Done [OF this]] show thesis .
qed

text \<open>Later dials: the pin is read, unless the read fails.\<close>

definition read_fails :: "'z machine_scheme \<Rightarrow> bool" where
  "read_fails s \<longleftrightarrow> (\<exists>m rest. faults s = FailWith m # rest)"

lemma expected_read:
  assumes "map_of (fs s) (pin_path dir) = Some (File contents)" and "valid_utf8 contents" and "\<not> read_fails s"
    and "expected_fingerprint dir None s = (r, s')"
  shows "s' = s\<lparr>faults := tl (faults s)\<rparr> \<and> (r = Done (Some (trim contents)) \<or> r = Crash)"
proof (cases "faults s")
  case Nil
  then have "s = s\<lparr>faults := []\<rparr>" by (cases s) simp
  with Nil show ?thesis
    using assms by (auto simp: expected_fingerprint_def read_to_string_def read_file_def ext_call_def bindc_def attempt_def ret_def)
next
  case (Cons f rest)
  with assms show ?thesis
    by (cases f) (auto simp: expected_fingerprint_def read_to_string_def read_file_def ext_call_def bindc_def attempt_def ret_def
        read_fails_def)
qed

lemma dial_hub_later:
  assumes "ac_hub_tls_fingerprint config = None"
    and "map_of (fs s) (pin_path dir) = Some (File fp)" and "valid_utf8 fp" and "trim fp = fp" and "\<not> read_fails s"
    and "dial_hub lib config dir peer s = (r, s')"
  shows "s' = s\<lparr>faults := tl (faults s)\<rparr>"
    and "r = Done answer \<Longrightarrow> \<exists>cert. pe_certificate peer = Inr cert \<and> hex_sha256 (al_sha256 lib) cert = fp"
proof -
  obtain q :: "(string, string option) outcome" and s1
    where ex: "expected_fingerprint dir (ac_hub_tls_fingerprint config) s = (q, s1)" by fastforce
  have q: "s1 = s\<lparr>faults := tl (faults s)\<rparr>" "q = Done (Some fp) \<or> q = Crash"
    using expected_read [OF assms(2,3,5)] ex assms(1,4) by auto
  show "s' = s\<lparr>faults := tl (faults s)\<rparr>"
    using assms(6) q unfolding dial_hub_def
    by (auto simp: bindc_def ex from_sum_def throw_def ret_def verify_server_cert_def Let_def
        whenc_def guardc_def split: sum.splits if_splits)
  show "\<exists>cert. pe_certificate peer = Inr cert \<and> hex_sha256 (al_sha256 lib) cert = fp" if "r = Done answer"
    using assms(6) q that unfolding dial_hub_def
    by (auto simp: bindc_def ex from_sum_def throw_def ret_def verify_server_cert_def Let_def
        whenc_def guardc_def split: sum.splits if_splits)
qed

section \<open>The loop\<close>

lemma run_session_pinned:
  assumes "faults s = []" and "pin_in_force config dir s fp"
  obtains r d where "run_session lib config dir peer delay s = (Done (r, d), s)" and "d = delay \<or> d = initial_reconnect_delay"
    and "\<And>answer. r = Inr answer \<Longrightarrow> \<exists>cert. pe_certificate peer = Inr cert \<and> hex_sha256 (al_sha256 lib) cert = fp"
proof -
  obtain q s' where run: "dial_hub lib config dir peer s = (q, s')" by fastforce
  note s' = dial_hub_pinned(1) [OF assms run]
  have "q \<noteq> Crash"
    using run unfolding dial_hub_def
    by (auto simp: bindc_def expected_pinned [OF assms] from_sum_def throw_def ret_def whenc_def guardc_def split: sum.splits if_splits)
  then show thesis
    using run s' dial_hub_pinned(2) [OF assms run]
    by (cases q) (auto simp: run_session_def bindc_def attempt_def ret_def split: prod.splits intro: that)
qed

lemma loop_pinned:
  assumes "faults s = []" and "pin_in_force config dir s fp"
  shows "\<exists>log. reconnect_loop lib config dir hub_at lasts n now delay s = (Done log, s)
    \<and> (\<forall>(t, opened)\<in>set log. opened \<longrightarrow> (\<exists>cert. pe_certificate (hub_at t) = Inr cert \<and> hex_sha256 (al_sha256 lib) cert = fp))"
proof (induction n arbitrary: now delay)
  case (Suc n)
  obtain r d where run: "run_session lib config dir (hub_at now) delay s = (Done (r, d), s)"
    and cert: "\<And>answer. r = Inr answer \<Longrightarrow> \<exists>cert. pe_certificate (hub_at now) = Inr cert \<and> hex_sha256 (al_sha256 lib) cert = fp"
    using run_session_pinned [OF assms] by metis
  obtain log where log: "reconnect_loop lib config dir hub_at lasts n (now + lasts now + d) (next_delay d) s = (Done log, s)"
    "\<forall>(t, opened)\<in>set log. opened \<longrightarrow> (\<exists>cert. pe_certificate (hub_at t) = Inr cert \<and> hex_sha256 (al_sha256 lib) cert = fp)"
    using Suc.IH by blast
  then show ?case using cert by (simp add: bindc_def run ret_def split: sum.splits)
qed (simp add: ret_def)

text \<open>The loop with a pin on disk: no read of the pin fails in its first \<open>n\<close> calls.\<close>

lemma loop_trusts:
  assumes "ac_hub_tls_fingerprint config = None"
    and "map_of (fs s) (pin_path dir) = Some (File fp)" and "valid_utf8 fp" and "trim fp = fp"
    and "\<forall>m. FailWith m \<notin> set (take n (faults s))" and "reconnect_loop lib config dir hub_at lasts n now delay s = (r, s')"
  shows "fs s' = fs s \<and> (\<forall>log. r = Done log \<longrightarrow> (\<forall>(t, opened)\<in>set log. opened \<longrightarrow>
    (\<exists>cert. pe_certificate (hub_at t) = Inr cert \<and> hex_sha256 (al_sha256 lib) cert = fp)))"
  using assms(2,5,6)
proof (induction n arbitrary: s now delay r s')
  case 0
  then show ?case by (auto simp: ret_def)
next
  case (Suc n)
  have read: "\<not> read_fails s" using Suc.prems(2) by (auto simp: read_fails_def)
  have more: "\<forall>m. FailWith m \<notin> set (take n (tl (faults s)))"
    using Suc.prems(2) by (cases "faults s") auto
  obtain q s1 where dial: "dial_hub lib config dir (hub_at now) s = (q, s1)" by fastforce
  note later = dial_hub_later [OF assms(1) Suc.prems(1) assms(3,4) read dial]
  show ?case
  proof (cases "q = Crash")
    case True
    then show ?thesis using Suc.prems(3) dial later(1) by (auto simp: run_session_def attempt_def bindc_def)
  next
    case False
    then obtain o1 d where run: "run_session lib config dir (hub_at now) delay s = (Done (o1, d), s1)"
      and o1: "\<And>a. o1 = Inr a \<Longrightarrow> \<exists>answer. q = Done answer"
      using dial by (cases q) (auto simp: run_session_def attempt_def bindc_def ret_def split: prod.splits)
    obtain r1 s2 where rest: "reconnect_loop lib config dir hub_at lasts n (now + lasts now + d) (next_delay d) s1 = (r1, s2)"
      by fastforce
    have IH: "fs s2 = fs s1 \<and> (\<forall>log. r1 = Done log \<longrightarrow> (\<forall>(t, opened)\<in>set log. opened \<longrightarrow>
      (\<exists>cert. pe_certificate (hub_at t) = Inr cert \<and> hex_sha256 (al_sha256 lib) cert = fp)))"
      using Suc.IH [OF _ _ rest] Suc.prems(1) more later(1) by simp
    have first: "\<exists>cert. pe_certificate (hub_at now) = Inr cert \<and> hex_sha256 (al_sha256 lib) cert = fp" if "o1 = Inr a" for a
      using o1 [OF that] later(2) by blast
    have "s' = s2 \<and> (\<forall>log. r = Done log \<longrightarrow> (\<exists>log'. r1 = Done log' \<and>
        log = (now, case o1 of Inl _ \<Rightarrow> False | Inr _ \<Rightarrow> True) # log'))"
      using Suc.prems(3) rest by (cases r1) (auto simp: bindc_def run ret_def)
    then show ?thesis using IH first later(1) by (auto split: sum.splits; fastforce)
  qed
qed

text \<open>C16 Trust on first use. Once the agent has opened its first session - whatever calls failed
  on the way - its fingerprint is pinned, and from then on, as long as the pin file is left alone
  and the agent can read it, however often it dials, is restarted or dies and whoever answers, it
  opens a session only with a hub that presents a certificate of the same fingerprint, and never
  changes what it has pinned. The reads are the only calls of the operating system the loop makes,
  one an attempt: when one fails, the theorem claims nothing, and \<open>unreadable_pin_is_replaced\<close>
  shows that the agent then trusts whoever answers.\<close>

theorem only_the_first_hub_is_trusted:
  assumes "ac_hub_tls_fingerprint config = None" and "map_of (fs s) (pin_path dir) = None"
    and "dial_hub lib config dir first s = (Done answer, s')"
    and "map_of (fs u) (pin_path dir) = map_of (fs s') (pin_path dir)"
    and "reconnect_loop lib config dir hub_at lasts n now delay u = (r, v)"
  shows "(\<exists>m. FailWith m \<in> set (take n (faults u)))
    \<or> (\<exists>first_cert. pe_certificate first = Inr first_cert
        \<and> map_of (fs v) (pin_path dir) = Some (File (hex_sha256 (al_sha256 lib) first_cert))
        \<and> (\<forall>log. r = Done log \<longrightarrow> (\<forall>(t, opened)\<in>set log. opened \<longrightarrow> (\<exists>cert. pe_certificate (hub_at t) = Inr cert
             \<and> hex_sha256 (al_sha256 lib) cert = hex_sha256 (al_sha256 lib) first_cert))))"
proof -
  obtain cert where cert: "pe_certificate first = Inr cert"
    "map_of (fs s') (pin_path dir) = Some (File (hex_sha256 (al_sha256 lib) cert))"
    using dial_hub_first [OF assms(1-3)] .
  then have pin: "map_of (fs u) (pin_path dir) = Some (File (hex_sha256 (al_sha256 lib) cert))" using assms(4) by simp
  show ?thesis
    using loop_trusts [OF assms(1) pin hex_utf8 trim_hex _ assms(5)] cert(1) pin by auto
qed

definition sample_lib :: agent_lib where
  "sample_lib = \<lparr>al_sha256 = (\<lambda>der. der), al_metadata_ok = (\<lambda>v. True)\<rparr>"

definition sample_agent_config :: agent_config where
  "sample_agent_config = \<lparr>ac_data_dir = [''a''], ac_hub_addr = ''hub'', ac_agent_token = ''t'', ac_hub_tls_fingerprint = None\<rparr>"

definition sample_peer :: "string \<Rightarrow> hub_peer" where
  "sample_peer cert = \<lparr>pe_certificate = Inr cert, pe_connected = Inr (), pe_ping = Inr ''1'',
     pe_session = Inr ([], Inr ())\<rparr>"

lemmas sample_session_simps = dial_hub_def expected_fingerprint_def read_to_string_def persist_fingerprint_def read_file_def write_file_def
  ext_call_def set_fs_def bindc_def attempt_def map_err_def whenc_def guardc_def from_sum_def ret_def throw_def modify_def verify_server_cert_def
  parent_check_def parent_def pin_path_def sample_peer_def sample_agent_config_def sample_lib_def sample_agent_def sample_agent_fs_def

lemma sample_first_session:
  "dial_hub sample_lib sample_agent_config [''a''] (sample_peer ''AB'') sample_agent
    = (Done ([], Inr ()), sample_agent\<lparr>fs := fs_put (pin_path [''a'']) (File (hex_sha256 (al_sha256 sample_lib) ''AB'')) (fs sample_agent)\<rparr>)"
  by (simp add: sample_session_simps)

lemma sample_hex: "hex_sha256 (al_sha256 sample_lib) ''AB'' = ''4142''" "hex_sha256 (al_sha256 sample_lib) ''CD'' = ''4344''"
  by (simp_all add: hex_sha256_def hex_byte_def hex_digits_def sample_lib_def)

text \<open>Another hub answers: no session is opened and the pin stays.\<close>

lemma only_the_first_hub_is_trusted_witness:
  "\<exists>(s' :: (string \<rightharpoonup> bool) agent) r v. reconnect_loop sample_lib sample_agent_config [''a''] (\<lambda>t. sample_peer ''CD'') (\<lambda>t. 0) 3 0 1
      (s'\<lparr>faults := [Proceed]\<rparr>) = (r, v)
    \<and> map_of (fs v) (pin_path [''a'']) = Some (File ''4142'') \<and> (\<forall>log. r = Done log \<longrightarrow> (\<forall>(t, opened)\<in>set log. \<not> opened))"
proof -
  let ?s' = "sample_agent\<lparr>fs := fs_put (pin_path [''a'']) (File (hex_sha256 (al_sha256 sample_lib) ''AB'')) (fs sample_agent)\<rparr>"
  obtain r v where run: "reconnect_loop sample_lib sample_agent_config [''a''] (\<lambda>t. sample_peer ''CD'') (\<lambda>t. 0) 3 0 1
      (?s'\<lparr>faults := [Proceed]\<rparr>) = (r, v)" by fastforce
  have pre: "ac_hub_tls_fingerprint sample_agent_config = None" "map_of (fs sample_agent) (pin_path [''a'']) = None"
    by (simp_all add: sample_agent_def sample_agent_config_def sample_agent_fs_def pin_path_def)
  have "map_of (fs (?s'\<lparr>faults := [Proceed]\<rparr>)) (pin_path [''a'']) = map_of (fs ?s') (pin_path [''a''])" by simp
  from only_the_first_hub_is_trusted [OF pre sample_first_session this run]
  have "map_of (fs v) (pin_path [''a'']) = Some (File ''4142'')
      \<and> (\<forall>log. r = Done log \<longrightarrow> (\<forall>(t, opened)\<in>set log. \<not> opened))"
    by (auto simp: sample_peer_def sample_hex)
  with run show ?thesis by (intro exI [of _ ?s'] exI [of _ r] exI [of _ v] conjI) simp_all
qed

text \<open>
  The pin is a file that was read, not one that exists: when reading it fails, whoever answers
  is trusted and pinned in its place.
\<close>

lemma unreadable_pin_is_replaced:
  assumes "fs s = fs_put (pin_path [''a'']) (File ''4142'') (fs sample_agent)" and "faults s = [FailWith ''Too many open files'']"
  shows "\<exists>s'. dial_hub sample_lib sample_agent_config [''a''] (sample_peer ''CD'') s = (Done ([], Inr ()), s')
    \<and> map_of (fs s') (pin_path [''a'']) = Some (File ''4344'')"
  using assms sample_hex by (simp add: sample_session_simps fs_put_def)

text \<open>A hub that answers, with the pinned certificate, for good.\<close>

definition hub_answers :: "agent_lib \<Rightarrow> agent_config \<Rightarrow> string \<Rightarrow> hub_peer \<Rightarrow> bool" where
  "hub_answers lib config fp peer \<longleftrightarrow>
     (\<exists>cert version answer. pe_certificate peer = Inr cert \<and> hex_sha256 (al_sha256 lib) cert = fp \<and> pe_connected peer = Inr ()
        \<and> pe_ping peer = Inr version \<and> al_metadata_ok lib (''Bearer '' @ ac_agent_token config) \<and> pe_session peer = Inr answer)"

lemma hub_answers_opens:
  assumes "faults s = []" and "pin_in_force config dir s fp" and "hub_answers lib config fp peer"
  obtains answer where "run_session lib config dir peer delay s = (Done (Inr answer, initial_reconnect_delay), s)"
  using assms(3) unfolding hub_answers_def
  by (auto simp: run_session_def dial_hub_def bindc_def attempt_def expected_pinned [OF assms(1,2)] from_sum_def ret_def
      verify_server_cert_def whenc_def guardc_def split: prod.splits intro: that)

lemma loop_reconnects:
  assumes "faults s = []" and "pin_in_force config dir s fp"
    and "\<And>t. T \<le> t \<Longrightarrow> hub_answers lib config fp (hub_at t)" and "\<And>t. lasts t \<le> L"
  shows "1 \<le> delay \<Longrightarrow> delay \<le> max_reconnect_delay \<Longrightarrow> now \<le> T + L + max_reconnect_delay \<Longrightarrow> T < now + n \<Longrightarrow> 0 < n \<Longrightarrow>
    \<exists>log t. reconnect_loop lib config dir hub_at lasts n now delay s = (Done log, s) \<and> (t, True) \<in> set log
      \<and> T \<le> t \<and> t \<le> T + L + max_reconnect_delay"
proof (induction n arbitrary: now delay)
  case (Suc n)
  show ?case
  proof (cases "T \<le> now")
    case True
    obtain answer where "run_session lib config dir (hub_at now) delay s = (Done (Inr answer, initial_reconnect_delay), s)"
      using hub_answers_opens [OF assms(1,2) assms(3) [OF True]] .
    moreover obtain log where "reconnect_loop lib config dir hub_at lasts n (now + lasts now + initial_reconnect_delay)
        (next_delay initial_reconnect_delay) s = (Done log, s)"
      using loop_pinned [OF assms(1,2)] by blast
    ultimately show ?thesis using True Suc.prems by (auto simp: bindc_def ret_def)
  next
    case False
    obtain r d where run: "run_session lib config dir (hub_at now) delay s = (Done (r, d), s)"
      and "d = delay \<or> d = initial_reconnect_delay"
      using run_session_pinned [OF assms(1,2)] by metis
    then have d: "1 \<le> d" "d \<le> max_reconnect_delay"
      using Suc.prems by (auto simp: initial_reconnect_delay_def max_reconnect_delay_def)
    then have "1 \<le> next_delay d" "next_delay d \<le> max_reconnect_delay"
      by (auto simp: next_delay_def max_reconnect_delay_def)
    moreover have "now + lasts now + d \<le> T + L + max_reconnect_delay" "T < now + lasts now + d + n" "0 < n"
      using False d assms(4) [of now] Suc.prems by linarith+
    ultimately obtain log t where "reconnect_loop lib config dir hub_at lasts n (now + lasts now + d) (next_delay d) s = (Done log, s)"
      "(t, True) \<in> set log" "T \<le> t" "t \<le> T + L + max_reconnect_delay"
      using Suc.IH by blast
    then show ?thesis by (auto simp: bindc_def run ret_def)
  qed
qed simp

text \<open>C15 The agent finds its hub again: if from some time on the hub answers with the pinned
  certificate, then whatever failed before and however far the delay had grown, a session opens
  within the maximal delay of thirty seconds plus the length of one attempt after that time.\<close>

theorem agent_reconnects:
  assumes "faults s = []" and "pin_in_force config dir s fp"
    and "\<And>t. T \<le> t \<Longrightarrow> hub_answers lib config fp (hub_at t)" and "\<And>t. lasts t \<le> L" and "T < n"
  shows "\<exists>log t. reconnect_loop lib config dir hub_at lasts n 0 initial_reconnect_delay s = (Done log, s)
    \<and> (t, True) \<in> set log \<and> T \<le> t \<and> t \<le> T + L + 30"
proof -
  have "1 \<le> initial_reconnect_delay" "initial_reconnect_delay \<le> max_reconnect_delay" "max_reconnect_delay = 30"
    by (simp_all add: initial_reconnect_delay_def max_reconnect_delay_def)
  then show ?thesis
    using loop_reconnects [OF assms(1-4), where delay = initial_reconnect_delay and now = 0 and n = n] assms(5) by auto
qed

text \<open>A hub that is down for a hundred seconds.\<close>

lemma agent_reconnects_witness:
  "\<exists>log t. reconnect_loop sample_lib (sample_agent_config\<lparr>ac_hub_tls_fingerprint := Some ''4142''\<rparr>) [''a'']
      (\<lambda>t. if t < 100 then (sample_peer ''AB'')\<lparr>pe_certificate := Inl ''refused''\<rparr> else sample_peer ''AB'') (\<lambda>t. 5) 200 0
      initial_reconnect_delay sample_agent = (Done log, sample_agent)
    \<and> (t, True) \<in> set log \<and> 100 \<le> t \<and> t \<le> 100 + 5 + 30"
proof (rule agent_reconnects [where fp = "hex_sha256 (al_sha256 sample_lib) ''AB''"])
  show "faults sample_agent = []" by (simp add: sample_agent_def)
  show "pin_in_force (sample_agent_config\<lparr>ac_hub_tls_fingerprint := Some ''4142''\<rparr>) [''a''] sample_agent
      (hex_sha256 (al_sha256 sample_lib) ''AB'')"
    by (simp add: pin_in_force_def sample_hex trim_alphanumeric to_lowercase_id is_ascii_alphanumeric_def is_ascii_digit_def is_ascii_uppercase_def)
qed (auto simp: hub_answers_def sample_peer_def sample_lib_def)

end
