(* ===== verification/StartFacts.thy ===== *)
theory StartFacts
  imports Lifecycle ReconnectFacts
begin

text \<open>
  What a start of the hub guarantees: a state that is ready to serve, an identity towards the
  agents that survives restarts, migrations applied once and in order.
\<close>

section \<open>The state after a start\<close>

definition admin_row :: "database \<Rightarrow> bool" where
  "admin_row d \<longleftrightarrow> (\<exists>u\<in>set (db_users d). u_role u = role_as_str Admin)"

lemma db_first_run:
  "db_first tbl P s = (Done r, s') \<Longrightarrow> r = find P (tbl (db s)) \<and> db s' = db s"
  unfolding db_first_def db_read_def by (elim ext_call_cases) (auto simp: gets_def)

lemma insert_user_row:
  "insert_user u s = (Done v, s') \<Longrightarrow> \<exists>i. u\<lparr>u_id := i\<rparr> \<in> set (db_users (db s'))"
  unfolding insert_user_def db_write_def
  by (elim ext_call_cases) (auto simp: Let_def insert_row_def split: if_splits option.splits)

lemma bootstrap_admin_Done:
  assumes "bootstrap_admin x nm pw s = (Done u, s')" shows "admin_row (db s')"
proof -
  obtain r s1 where first: "db_first db_users (\<lambda>u. u_role u = role_as_str Admin) s = (Done r, s1)"
    and rest: "(if r \<noteq> None then s1 = s' else \<exists>row q s2. u_role row = role_as_str Admin \<and> insert_user row s2 = (Done q, s'))"
    using assms unfolding bootstrap_admin_def
    by (auto elim!: bindc_DoneE simp: map_err_Done ret_def split: if_splits) (metis db_user.select_convs(4))
  show ?thesis
  proof (cases r)
    case None
    then obtain row q s2 where "u_role row = role_as_str Admin" and "insert_user row s2 = (Done q, s')" using rest by auto
    then obtain i where "row\<lparr>u_id := i\<rparr> \<in> set (db_users (db s'))" "u_role (row\<lparr>u_id := i\<rparr>) = role_as_str Admin"
      using insert_user_row by fastforce
    then show ?thesis unfolding admin_row_def by blast
  next
    case (Some v)
    have "s1 = s'" using rest Some by simp
    then have same: "db s' = db s" using conjunct2 [OF db_first_run [OF first]] by simp
    have "find (\<lambda>u. u_role u = role_as_str Admin) (db_users (db s)) = Some v"
      by (rule Some [unfolded conjunct1 [OF db_first_run [OF first]]])
    then have "v \<in> set (db_users (db s)) \<and> u_role v = role_as_str Admin"
      unfolding find_Some_iff by (elim exE conjE) (simp add: nth_mem)
    then show ?thesis unfolding admin_row_def same by blast
  qed
qed

lemma bootstrap_admin_found:
  assumes "bootstrap_admin x nm pw s = (r, s')" and "admin_row (db s)" shows "db s' = db s"
proof -
  obtain q s1 where first: "db_first db_users (\<lambda>u. u_role u = role_as_str Admin) s = (q, s1)" by fastforce
  have db: "db s1 = db s" using first by (rule leaves_run [rotated]) (intro leaves_intros; simp)
  have "find (\<lambda>u. u_role u = role_as_str Admin) (db_users (db s)) \<noteq> None"
    using assms(2) by (auto simp: admin_row_def find_None_iff)
  then show ?thesis
    using assms(1) first db db_first_run [of db_users "\<lambda>u. u_role u = role_as_str Admin" s]
    by (cases q) (auto simp: bootstrap_admin_def bindc_def map_err_def ret_def)
qed

lemma emptied_children: "subtree p t = [[] \<mapsto> Dir] \<Longrightarrow> children t p = []"
proof -
  assume "subtree p t = [[] \<mapsto> Dir]"
  then have "map_of t (p @ [c]) = None" for c by (simp add: subtree_def fun_eq_iff)
  then have "set (children t p) = {}" by (simp add: set_children path_exists_def)
  then show ?thesis by simp
qed

lemma sweep_tmp_dir_Done:
  assumes "sweep_tmp_dir s = (Done u, s')" and "fs_wf (fs s)"
  shows "children (fs s') (tmp_dir s) = []"
proof -
  obtain s1 where cleared: "if path_exists (fs s) (tmp_dir s) then remove_dir_all (tmp_dir s) s = (Done (), s1) else s1 = s"
    and made: "create_dir_all (tmp_dir s) s1 = (Done u, s')"
    using assms(1) unfolding sweep_tmp_dir_def io_def
    by (auto simp: gets_def whenc_def ret_def map_err_Done elim!: bindc_DoneE split: if_splits)
  have "fs_wf (fs s1) \<and> \<not> path_exists (fs s1) (tmp_dir s)"
    using cleared remove_dir_all_effect wf_prune [OF assms(2)] assms(2)
    by (fastforce simp: path_exists_def map_of_fs_prune tmp_dir_def split: if_splits)
  then show ?thesis using create_all_fresh(1) [OF made] by (simp add: emptied_children)
qed

lemma prepare_state_memory:
  "leaves (\<lambda>s. (limits s, sessions s, agent_hosts s)) (prepare_state x config)"
  unfolding prepare_state_def context_of_def bootstrap_admin_def hash_password_def sweep_tmp_dir_def sweep_orphaned_dirs_def
    sweep_orphaned_deployment_dirs_def
  by (intro leaves_intros; simp)

lemma prepare_state_Done:
  assumes "prepare_state x config s = (Done u, s')" and "uuid_ok x" and "consistent x s"
  shows "admin_row (db s') \<and> children (fs s') (tmp_dir s) = []"
proof -
  obtain s1 s2 s3 where run: "bootstrap_admin x (bc_admin_username config) (bc_admin_password config) s = (Done (), s1)"
      "create_dir_all (apps_dir s1) s1 = (Done (), s2)" "sweep_tmp_dir s2 = (Done (), s3)" "sweep_orphaned_dirs x s3 = (Done u, s')"
    using assms(1) unfolding prepare_state_def context_of_def
    by (auto simp: gets_def map_err_Done elim!: bindc_DoneE)
  have quiet: "leaves db (create_dir_all p)" "leaves db sweep_tmp_dir" for p
    unfolding sweep_tmp_dir_def by (intro leaves_intros; simp)+
  have keep: "keeps (\<lambda>s. consistent x s \<and> data_dir s = dd) (bootstrap_admin x a b)"
    "keeps (\<lambda>s. consistent x s \<and> data_dir s = dd) (create_dir_all p)"
    "keeps (\<lambda>s. consistent x s \<and> data_dir s = dd) sweep_tmp_dir" for a b p dd
    using keeps_prepare_parts by auto
  have con: "consistent x s1 \<and> data_dir s1 = data_dir s" "consistent x s2 \<and> data_dir s2 = data_dir s"
    "consistent x s3 \<and> data_dir s3 = data_dir s"
    using keeps_run [OF keep(1) run(1)] keeps_run [OF keep(2) run(2)] keeps_run [OF keep(3) run(3)] assms(3) by blast+
  have "db s2 = db s1" "db s3 = db s2"
    using leaves_run [OF quiet(1) run(2)] leaves_run [OF quiet(2) run(3)] by simp_all
  moreover have "sweeping x (data_dir s3) (db s3) (fs s3) s'"
    using sweep_dirs_sweeping [OF assms(2)] con(3) run(4) by (metis snd_conv)
  moreover have "children (fs s3) (tmp_dir s) = []"
    using sweep_tmp_dir_Done [OF run(3)] con(2) by (simp add: consistent_def tree_ok_iff dirs_in_def tmp_dir_def)
  moreover have "children t' p = []" if "shrunk t t'" "children t p = []" for t t' p
  proof -
    have "set (children t' p) \<subseteq> set (children t p)" using that(1) by (auto simp: set_children shrunk_def)
    then show ?thesis using that(2) by simp
  qed
  ultimately show ?thesis using bootstrap_admin_Done [OF run(1)] by (auto simp: sweeping_def)
qed

lemma prepare_state_found:
  assumes "prepare_state x config s = (r, s')" and "admin_row (db s)" shows "db s' = db s"
proof -
  have "keeps (\<lambda>t. db t = db s) (bootstrap_admin x u p)" for u p
    by (rule keepsI) (use bootstrap_admin_found assms(2) in \<open>metis surjective_pairing\<close>)
  moreover have "leaves db (create_dir_all p)" "leaves db sweep_tmp_dir" "leaves db (sweep_orphaned_dirs x)" for p
    unfolding sweep_tmp_dir_def sweep_orphaned_dirs_def sweep_orphaned_deployment_dirs_def by (intro leaves_intros; simp)+
  note this [unfolded leaves_iff_keeps, rule_format]
  ultimately have keep: "keeps (\<lambda>t. db t = db s) (prepare_state x config)"
    unfolding prepare_state_def context_of_def by (intro keeps_intros)
  show ?thesis using keeps_run [OF keep assms(1)] by simp
qed

text \<open>C9 A start of the hub, on a fresh installation or after a crash, leaves consistent
  tables and a directory for every row, wherever it ends; it adds an account only if there is no
  administrator. When it succeeds there is one, the leftovers under \<open>tmp\<close> are gone, nobody is
  logged in, no agent is connected and the limits are those configured.\<close>

theorem start_up_is_ready:
  assumes "uuid_ok x" and "db_ok (db s)" and "distinct (fresh_ids s)" and "used_ids (db s) \<inter> set (fresh_ids s) = {}"
    and "dirs_in (needed x (bc_data_dir config) (db s)) (fs s)" and "start_hub x lib config s = (r, s')"
  shows "db_ok (db s') \<and> dirs_in (needed x (bc_data_dir config) (db s')) (fs s') \<and> (admin_row (db s) \<longrightarrow> db s' = db s)
    \<and> (\<forall>tls. r = Done tls \<longrightarrow> admin_row (db s') \<and> children (fs s') (bc_data_dir config @ [''tmp'']) = []
        \<and> sessions s' = Map.empty \<and> agent_hosts s' = [] \<and> limits s' = bc_limits config)"
proof -
  obtain q s1 where run: "open_data_dir lib config s = (q, s1)" by fastforce
  note opened = open_data_dir_consistent [OF run assms(2-5)]
  have more: "(admin_row (db s) \<longrightarrow> db s' = db s) \<and> (\<forall>tls. r = Done tls \<longrightarrow> admin_row (db s')
      \<and> children (fs s') (bc_data_dir config @ [''tmp'']) = [] \<and> sessions s' = Map.empty \<and> agent_hosts s' = [] \<and> limits s' = bc_limits config)"
  proof (cases q)
    case (Done a)
    obtain dir tls key where a: "a = (dir, tls, key)" by (cases a)
    then have dir: "dir = bc_data_dir config" using open_data_dir_Done run Done by blast
    let ?s = "app_state_new dir (bc_limits config) key s1"
    obtain q2 s2 where prep: "prepare_state x config ?s = (q2, s2)" by fastforce
    have s': "s' = s2" "\<And>tls. r = Done tls \<Longrightarrow> \<exists>u. q2 = Done u"
      using assms(6) run Done a prep by (cases q2; simp add: start_hub_def bindc_def modify_def ret_def)+
    have con: "consistent x ?s" using opened assms(2-4) by (simp add: consistent_def tree_ok_iff app_state_new_def dir)
    have "(limits s2, sessions s2, agent_hosts s2) = (limits ?s, sessions ?s, agent_hosts ?s)"
      using leaves_run [OF prepare_state_memory prep] by simp
    moreover have "admin_row (db s) \<longrightarrow> db s2 = db s"
      using prepare_state_found [OF prep] opened by (simp add: app_state_new_def)
    ultimately show ?thesis
      using prepare_state_Done [of x config ?s _ s2] prep assms(1) con s'
      by (auto simp: app_state_new_def tmp_dir_def dir)
  qed (use assms(6) run opened in \<open>auto simp: start_hub_def bindc_def\<close>)
  then show ?thesis using start_consistent [OF assms(6,1-5)] by blast
qed

definition fresh_install :: world where
  "fresh_install = sample_world\<lparr>fs := [([], Dir)]\<rparr>"

definition sample_hub_config :: berth_config where
  "sample_hub_config = berth_config_of \<lparr>ht_data_dir = [''d''], ht_admin_username = ''root'', ht_admin_password = ''long password'',
     ht_base_domain = ''example.com'', ht_max_upload_bytes = None, ht_max_uncompressed_bytes = None, ht_git_fetch_timeout_secs = None,
     ht_install_timeout_secs = None, ht_build_timeout_secs = None, ht_api_token_max_expiry_days = None, ht_enable_mcp = None,
     ht_tls = None, ht_http_port = None, ht_https_port = None\<rparr>"

definition sample_hub_lib :: hub_lib where
  "sample_hub_lib = \<lparr>hl_sha256 = id, hl_self_signed = (\<lambda>seed. Inr (''AB'', ''cert'', ''key''))\<rparr>"

lemma start_up_is_ready_witness:
  "\<exists>tls s'. start_hub sample_externals sample_hub_lib sample_hub_config fresh_install = (Done tls, s')
     \<and> admin_row (db s') \<and> children (fs s') (bc_data_dir sample_hub_config @ [''tmp'']) = []"
proof -
  have "case fst (start_hub sample_externals sample_hub_lib sample_hub_config fresh_install) of Done _ \<Rightarrow> True | _ \<Rightarrow> False"
    by code_simp
  then obtain tls s' where run: "start_hub sample_externals sample_hub_lib sample_hub_config fresh_install = (Done tls, s')"
    by (cases "start_hub sample_externals sample_hub_lib sample_hub_config fresh_install") (auto split: outcome.splits)
  have "db_ok (db fresh_install)" "distinct (fresh_ids fresh_install)" "used_ids (db fresh_install) \<inter> set (fresh_ids fresh_install) = {}"
    "dirs_in (needed sample_externals (bc_data_dir sample_hub_config) (db fresh_install)) (fs fresh_install)"
    using sample_world_start(1-3)
    by (simp_all add: fresh_install_def dirs_in_def fs_wf_def is_dir_def needed_def) (simp add: sample_world_def empty_database_def)
  from start_up_is_ready [OF sample_uuid_ok this run] run show ?thesis by blast
qed

section \<open>Identity towards the agents\<close>

lemma read_to_string_Done:
  "read_to_string p s = (Done c, s') \<Longrightarrow> map_of (fs s) p = Some (File c) \<and> valid_utf8 c \<and> fs s' = fs s"
  unfolding read_to_string_def
  by (auto elim!: bindc_DoneE dest!: read_file_Done simp: ret_def throw_def split: if_splits)

lemma hub_hex: "hub_hex_sha256 sha der = hex_sha256 sha der"
proof -
  have "foldl (\<lambda>hex byte. hex @ hex_byte byte) acc bytes = acc @ concat (map hex_byte bytes)" for acc bytes
    by (induction bytes arbitrary: acc) simp_all
  then show ?thesis by (simp add: hub_hex_sha256_def hex_sha256_def)
qed

definition holds_identity :: "path \<Rightarrow> agent_tls \<Rightarrow> filesystem \<Rightarrow> bool" where
  "holds_identity dir tls t \<longleftrightarrow> (\<exists>contents. valid_utf8 (fst (tls_identity tls)) \<and> valid_utf8 (snd (tls_identity tls)) \<and> valid_utf8 contents
     \<and> trim contents = tls_fingerprint_hex tls
     \<and> map_of t (tls_cert (tls_dir dir)) = Some (File (fst (tls_identity tls)))
     \<and> map_of t (tls_key (tls_dir dir)) = Some (File (snd (tls_identity tls)))
     \<and> map_of t (tls_fingerprint (tls_dir dir)) = Some (File contents))"

text \<open>A file that is there is read, unless the call fails or is the hub's last.\<close>

definition may_fail :: "nat \<Rightarrow> 'z machine_scheme \<Rightarrow> bool" where
  "may_fail n s \<longleftrightarrow> (\<exists>m. FailWith m \<in> set (take n (faults s)))"

lemma may_fail_Suc: "\<not> may_fail (Suc n) s \<Longrightarrow> \<not> may_fail n (s\<lparr>faults := tl (faults s)\<rparr>)"
  unfolding may_fail_def by (cases "faults s") auto

lemma read_to_string_held:
  assumes "map_of (fs s) p = Some (File c)" and "valid_utf8 c" and "\<not> may_fail (Suc n) s"
  shows "read_to_string p s = (Done c, s\<lparr>faults := tl (faults s)\<rparr>) \<or> read_to_string p s = (Crash, s\<lparr>faults := tl (faults s)\<rparr>)"
proof (cases "faults s")
  case Nil
  then have "s = s\<lparr>faults := []\<rparr>" by (cases s) simp
  with Nil show ?thesis
    using assms by (simp add: read_to_string_def read_file_def ext_call_def bindc_def ret_def)
next
  case (Cons f rest)
  with assms show ?thesis
    by (cases f) (auto simp: read_to_string_def read_file_def ext_call_def bindc_def ret_def may_fail_def)
qed

lemma load_held:
  assumes "holds_identity dir tls (fs s)" and "\<not> may_fail 3 s" and "load_or_generate_tls lib dir s = (r, s')"
  shows "(r = Done tls \<or> r = Crash) \<and> (\<exists>f. s' = s\<lparr>faults := f\<rparr>)"
proof -
  obtain contents where c: "map_of (fs s) (tls_cert (tls_dir dir)) = Some (File (fst (tls_identity tls)))" "valid_utf8 (fst (tls_identity tls))"
    and k: "map_of (fs s) (tls_key (tls_dir dir)) = Some (File (snd (tls_identity tls)))" "valid_utf8 (snd (tls_identity tls))"
    and f: "map_of (fs s) (tls_fingerprint (tls_dir dir)) = Some (File contents)" "valid_utf8 contents"
      "trim contents = tls_fingerprint_hex tls"
    using assms(1) by (auto simp: holds_identity_def)
  let ?s1 = "s\<lparr>faults := tl (faults s)\<rparr>"
  let ?s2 = "?s1\<lparr>faults := tl (faults ?s1)\<rparr>"
  have n1: "\<not> may_fail (Suc (Suc (Suc 0))) s" using assms(2) by (simp add: numeral_3_eq_3)
  note n2 = may_fail_Suc [OF n1]
  note n3 = may_fail_Suc [OF n2]
  have "map_of (fs ?s1) (tls_key (tls_dir dir)) = Some (File (snd (tls_identity tls)))"
    "map_of (fs ?s2) (tls_fingerprint (tls_dir dir)) = Some (File contents)" using k f by simp_all
  note reads = read_to_string_held [OF c n1] read_to_string_held [OF this(1) k(2) n2] read_to_string_held [OF this(2) f(2) n3]
  show ?thesis
    using assms(3) reads f(3) unfolding load_or_generate_tls_def read_all_def
    by (auto simp: bindc_def attempt_def ret_def)
qed

lemma tls_paths [simp]:
  "tls_cert d \<noteq> tls_key d" "tls_cert d \<noteq> tls_fingerprint d" "tls_key d \<noteq> tls_fingerprint d"
  by (simp_all add: tls_cert_def tls_key_def tls_fingerprint_def)

lemma read_all_Done:
  "read_all (tls_dir dir) s = (Done (Some (c, k, f)), s') \<Longrightarrow>
     holds_identity dir \<lparr>tls_identity = (c, k), tls_fingerprint_hex = f\<rparr> (fs s) \<and> fs s' = fs s"
  unfolding read_all_def
  by (auto elim!: bindc_DoneE dest!: read_to_string_Done simp: ret_def holds_identity_def attempt_Inr split: sum.splits)

lemma generated:
  assumes "generate_and_persist lib (tls_dir dir) s = (Done (c, k, f), s')"
    and utf8: "\<And>seed der c k. hl_self_signed lib seed = Inr (der, c, k) \<Longrightarrow> valid_utf8 c \<and> valid_utf8 k"
  shows "holds_identity dir \<lparr>tls_identity = (c, k), tls_fingerprint_hex = f\<rparr> (fs s')
    \<and> (\<exists>seed der. hl_self_signed lib seed = Inr (der, c, k) \<and> f = hex_sha256 (hl_sha256 lib) der)"
proof -
  obtain seed der s1 s2 s3 where made: "hl_self_signed lib seed = Inr (der, c, k)" "f = hex_sha256 (hl_sha256 lib) der"
    and run: "write_file (tls_cert (tls_dir dir)) c s1 = (Done (), s2)" "write_file (tls_key (tls_dir dir)) k s2 = (Done (), s3)"
      "write_file (tls_fingerprint (tls_dir dir)) f s3 = (Done (), s')"
    using assms(1) unfolding generate_and_persist_def
    by (auto simp: Let_def map_err_Done from_sum_def ret_def throw_def hub_hex elim!: bindc_DoneE split: sum.splits prod.splits)
  have "fs s' = fs_put (tls_fingerprint (tls_dir dir)) (File f) (fs_put (tls_key (tls_dir dir)) (File k) (fs_put (tls_cert (tls_dir dir)) (File c) (fs s1)))"
    using write_file_effect [OF run(1)] write_file_effect [OF run(2)] write_file_effect [OF run(3)] by simp
  moreover have "trim f = f" "valid_utf8 f" by (simp_all add: made(2) hex_utf8)
  ultimately have "holds_identity dir \<lparr>tls_identity = (c, k), tls_fingerprint_hex = f\<rparr> (fs s')"
    using utf8 [OF made(1)] unfolding holds_identity_def by (intro exI [of _ f]) (simp add: map_of_fs_put)
  then show ?thesis using made by blast
qed

text \<open>C17 The hub keeps its identity: once a start has loaded or made its certificate, a
  later start on the same files, as long as none of its three reads of them fails, finds the same
  certificate, key and fingerprint and changes nothing in the tree, whether it goes on or dies -
  so the same holds for the start after it. And an agent that pins the fingerprint of a
  certificate made accepts that certificate. When one of the reads fails, the theorem claims
  nothing: the hub then makes a new identity over the old (\<open>unreadable_identity_is_replaced\<close>).\<close>

theorem hub_identity_survives_restarts:
  assumes utf8: "\<And>seed der c k. hl_self_signed lib seed = Inr (der, c, k) \<Longrightarrow> valid_utf8 c \<and> valid_utf8 k"
    and "load_or_generate_tls lib dir s = (Done tls, s')"
    and "\<And>p. p \<in> {tls_cert (tls_dir dir), tls_key (tls_dir dir), tls_fingerprint (tls_dir dir)} \<Longrightarrow> map_of (fs t) p = map_of (fs s') p"
    and "load_or_generate_tls lib dir t = (r, t')"
  shows "((\<exists>m. FailWith m \<in> set (take 3 (faults t))) \<or> (r = Done tls \<or> r = Crash) \<and> fs t' = fs t)
    \<and> (map_of (fs s) (tls_fingerprint (tls_dir dir)) = None \<longrightarrow>
        (\<exists>seed der. hl_self_signed lib seed = Inr (der, tls_identity tls)
          \<and> verify_server_cert (hl_sha256 lib) (Some (tls_fingerprint_hex tls)) der = Inr (tls_fingerprint_hex tls)))"
proof -
  obtain existing s1 c k f where found: "read_all (tls_dir dir) s = (Done existing :: (string, _) outcome, s1)"
    and rest: "(case existing of Some e \<Rightarrow> ret e | None \<Rightarrow> generate_and_persist lib (tls_dir dir)) s1 = (Done (c, k, f), s')"
    and tls: "tls = \<lparr>tls_identity = (c, k), tls_fingerprint_hex = f\<rparr>"
    using assms(2) unfolding load_or_generate_tls_def by (elim bindc_DoneE) (simp add: ret_def split: prod.splits)
  have held: "holds_identity dir tls (fs s') \<and> (map_of (fs s) (tls_fingerprint (tls_dir dir)) = None \<longrightarrow>
      (\<exists>seed der. hl_self_signed lib seed = Inr (der, c, k) \<and> f = hex_sha256 (hl_sha256 lib) der))"
  proof (cases existing)
    case None
    then show ?thesis using generated [OF _ utf8] rest tls by auto
  next
    case (Some e)
    then have e: "e = (c, k, f)" "s' = s1" using rest by (simp_all add: ret_def)
    show ?thesis using read_all_Done [OF found [unfolded Some e(1)]] e tls by (auto simp: holds_identity_def)
  qed
  then have "holds_identity dir tls (fs t)" using assms(3) by (simp add: holds_identity_def)
  then have "may_fail 3 t \<or> (r = Done tls \<or> r = Crash) \<and> fs t' = fs t"
    using load_held [OF _ _ assms(4)] by fastforce
  then show ?thesis
    using held tls by (auto simp: verify_server_cert_def Let_def may_fail_def)
qed

lemma hub_identity_survives_restarts_witness:
  "\<exists>tls s' r t'. load_or_generate_tls sample_hub_lib [''d''] sample_world = (Done tls, s')
    \<and> load_or_generate_tls sample_hub_lib [''d''] (s'\<lparr>faults := [Proceed, CrashNow]\<rparr>) = (r, t')
    \<and> (r = Done tls \<or> r = Crash) \<and> fs t' = fs s'"
proof -
  have "case load_or_generate_tls sample_hub_lib [''d''] sample_world of (Done _, s') \<Rightarrow> True | _ \<Rightarrow> False"
    by code_simp
  then obtain tls s' where run: "load_or_generate_tls sample_hub_lib [''d''] sample_world = (Done tls, s')"
    by (auto split: prod.splits outcome.splits)
  obtain r t' where again: "load_or_generate_tls sample_hub_lib [''d''] (s'\<lparr>faults := [Proceed, CrashNow]\<rparr>) = (r, t')" by fastforce
  have "valid_utf8 ''cert'' \<and> valid_utf8 ''key''" by code_simp
  then have pem: "valid_utf8 c \<and> valid_utf8 k" if "hl_self_signed sample_hub_lib seed = Inr (der, c, k)" for seed der c k
    using that by (simp add: sample_hub_lib_def)
  have "fs (s'\<lparr>faults := [Proceed, CrashNow]\<rparr>) = fs s'" by simp
  then show ?thesis
    using hub_identity_survives_restarts [of sample_hub_lib, OF pem run _ again] run again by fastforce
qed

text \<open>A read that fails for another reason than a missing file is taken for a missing file.\<close>

lemma unreadable_identity_is_replaced:
  assumes "faults t = FailWith m # later"
  shows "load_or_generate_tls lib dir t =
    bindc (generate_and_persist lib (tls_dir dir)) (\<lambda>(cert_pem, key_pem, fingerprint_hex).
      ret \<lparr>tls_identity = (cert_pem, key_pem), tls_fingerprint_hex = fingerprint_hex\<rparr>) (t\<lparr>faults := later\<rparr>)"
  using assms by (simp add: load_or_generate_tls_def read_all_def read_to_string_def read_file_def ext_call_def
      bindc_def attempt_def ret_def)

section \<open>Migrations\<close>

definition applied_names :: "migrated \<Rightarrow> migration list" where
  "applied_names s = map (\<lambda>(i, name, sql). (i, name)) (applied_migrations s)"

lemma apply_migration_run:
  "apply_migration i nm sql s = (r, s') \<Longrightarrow>
     applied_names s' = applied_names s @ [(i, nm)] \<and> r = Done () \<or> applied_names s' = applied_names s \<and> r \<noteq> Done ()"
  unfolding apply_migration_def by (elim ext_call_cases) (auto simp: modify_def applied_names_def)

lemma apply_entry_run:
  assumes "apply_entry dir e s = (r, s')"
  shows "applied_names s' = applied_names s @ [e] \<and> r = Done () \<or> applied_names s' = applied_names s \<and> r \<noteq> Done ()"
proof -
  have quiet: "leaves applied_migrations (read_to_string p)" for p
    unfolding read_to_string_def by (intro leaves_intros) simp
  obtain q s1 where read: "read_to_string (dir @ [''migrations'', snd e]) s = (q, s1)" by fastforce
  then have "applied_names s1 = applied_names s" using leaves_run [OF quiet read] by (simp add: applied_names_def)
  then show ?thesis
    using assms read apply_migration_run [of "fst e" "snd e" _ s1 r s']
    by (cases q) (auto simp: apply_entry_def bindc_def map_err_def)
qed

lemma pending_run:
  "forc pending (apply_entry dir) s = (r, s')
    \<Longrightarrow> \<exists>ran rest. pending = ran @ rest \<and> applied_names s' = applied_names s @ ran \<and> (r = Done () \<longrightarrow> rest = [])"
proof (induction pending arbitrary: s)
  case Nil
  then show ?case by (simp add: ret_def)
next
  case (Cons e es)
  obtain q s1 where one: "apply_entry dir e s = (q, s1)" by fastforce
  from apply_entry_run [OF this] show ?case
  proof
    assume step: "applied_names s1 = applied_names s @ [e] \<and> q = Done ()"
    then have "forc es (apply_entry dir) s1 = (r, s')" using Cons.prems one by (simp add: bindc_def)
    then obtain ran rest where "es = ran @ rest" "applied_names s' = applied_names s1 @ ran" "r = Done () \<longrightarrow> rest = []"
      using Cons.IH by blast
    then show ?thesis using step by (intro exI [of _ "e # ran"] exI [of _ rest]) simp
  next
    assume "applied_names s1 = applied_names s \<and> q \<noteq> Done ()"
    then have "s' = s1" "r \<noteq> Done ()" "applied_names s' = applied_names s"
      using Cons.prems one by (cases q; auto simp: bindc_def)+
    then show ?thesis by (intro exI [of _ "[]"] exI [of _ "e # es"]) simp
  qed
qed

text \<open>C18 Migrations are applied in the order of the history, each once, and go on where an
  earlier run stopped: what has been applied is always an initial part of the history, and all of
  it once a run succeeds, however many runs before it failed or died.\<close>

theorem migrations_resume:
  assumes "distinct (map fst entries)" and "prefix (applied_names s) entries" and "apply_migrations (Inr entries) dir s = (r, s')"
  shows "prefix (applied_names s) (applied_names s') \<and> prefix (applied_names s') entries
    \<and> (r = Done () \<longrightarrow> applied_names s' = entries)"
proof -
  obtain later where entries: "entries = applied_names s @ later" using assms(2) by (auto simp: prefix_def)
  have ids: "set (map fst (applied_migrations s)) = fst ` set (applied_names s)" for s by (force simp: applied_names_def)
  have pending: "filter (\<lambda>e. fst e \<notin> fst ` set (applied_names s)) entries = later"
  proof -
    have "fst e \<notin> fst ` set (applied_names s)" if "e \<in> set later" for e
      using assms(1) that by (auto simp: entries)
    moreover have "filter (\<lambda>e. fst e \<notin> fst ` set (applied_names s)) (applied_names s) = []" by (simp add: filter_empty_conv)
    ultimately show ?thesis by (simp add: entries)
  qed
  have "\<exists>ran rest. later = ran @ rest \<and> applied_names s' = applied_names s @ ran \<and> (r = Done () \<longrightarrow> rest = [])"
  proof -
    obtain q1 s1 where one: "ext_call (\<lambda>m. m) (ret ()) s = (q1, s1)" by fastforce
    obtain q2 s2 where two: "ext_call (\<lambda>m. m) (gets (\<lambda>s. map fst (applied_migrations s))) s1 = (q2, s2)" by fastforce
    have s1: "applied_migrations s1 = applied_migrations s"
      using one by (elim ext_call_cases) (auto simp: ret_def)
    have "applied_migrations s2 = applied_migrations s \<and> (\<forall>applied. q2 = Done applied \<longrightarrow> applied = map fst (applied_migrations s))"
      using two s1 by (elim ext_call_cases) (auto simp: gets_def)
    then have s2: "applied_migrations s2 = applied_migrations s \<and> (\<forall>applied. q2 = Done applied \<longrightarrow> set applied = fst ` set (applied_names s))"
      unfolding ids [symmetric] by blast
    show ?thesis
    proof (cases "\<exists>u ids. q1 = Done u \<and> q2 = Done ids")
      case True
      then obtain ids where got: "q1 = Done ()" "q2 = Done ids" "set ids = fst ` set (applied_names s)" using s2 by auto
      then have "forc later (apply_entry dir) s2 = (r, s')"
        using assms(3) one two pending by (simp add: apply_migrations_def from_sum_def bindc_def ret_def Let_def)
      from pending_run [OF this] show ?thesis using s2 by (simp add: applied_names_def)
    next
      case False
      then have "r \<noteq> Done ()" "applied_migrations s' = applied_migrations s"
        using assms(3) one two s1 s2
        by (cases q1; cases q2; auto simp: apply_migrations_def from_sum_def bindc_def ret_def)+
      then show ?thesis by (intro exI [of _ "[]"] exI [of _ later]) (simp add: applied_names_def)
    qed
  qed
  then show ?thesis by (auto simp: entries prefix_def)
qed

definition sample_migrated :: migrated where
  "sample_migrated = \<lparr>fs = [([], Dir), ([''m''], Dir), ([''m'', ''migrations''], Dir), ([''m'', ''migrations'', ''0.sql''], File ''create''),
     ([''m'', ''migrations'', ''1.sql''], File ''alter'')], faults = [], applied_migrations = [(5, ''0.sql'', ''create'')]\<rparr>"

lemma migrations_resume_witness:
  "applied_names (snd (apply_migrations (Inr [(5, ''0.sql''), (7, ''1.sql'')]) [''m''] sample_migrated)) = [(5, ''0.sql''), (7, ''1.sql'')]"
proof -
  let ?run = "apply_migrations (Inr [(5, ''0.sql''), (7, ''1.sql'')]) [''m''] sample_migrated"
  have "case fst ?run of Done _ \<Rightarrow> True | _ \<Rightarrow> False" by code_simp
  then have "?run = (Done (), snd ?run)" by (simp add: prod_eq_iff split: outcome.splits)
  moreover have "prefix (applied_names sample_migrated) [(5, ''0.sql''), (7, ''1.sql'')]"
    by (simp add: applied_names_def sample_migrated_def)
  moreover have "distinct (map fst [(5 :: u64, ''0.sql''), (7, ''1.sql'')])" by simp
  ultimately show ?thesis using migrations_resume [of "[(5, ''0.sql''), (7, ''1.sql'')]" sample_migrated "[''m'']" "Done ()" "snd ?run"]
    by blast
qed

end
