(* ===== verification/Serve.thy ===== *)
theory Serve
  imports DeploymentStore Auth Http
begin

text \<open>
  How the hub answers a browser: \<open>host_routing.rs\<close>, \<open>routes/apps.rs\<close> and the layers of
  \<open>routes/mod.rs\<close>. Static files are answered by \<open>ServeDir\<close>, a parameter; a relayed request is the
  stream of payloads sent under one id and the replies received for it. A host is ASCII text, as
  \<open>HeaderValue::to_str\<close> and a URI's authority are.
\<close>

section \<open>Relaying a request\<close>

definition request_head_payload :: "http_lib \<Rightarrow> http_request \<Rightarrow> string \<Rightarrow> run_config \<Rightarrow> relay_request" where
  "request_head_payload lib req cname run =
     RqHead \<lparr>rq_method = hq_method req,
       rq_path = (case hq_path_and_query req of Some p \<Rightarrow> p | None \<Rightarrow> ''/''),
       rq_headers = header_fields lib (hq_headers req),
       rq_container_name = cname,
       rq_container_port = ucast (rc_container_port run)\<rparr>"

definition status_from :: "http_lib \<Rightarrow> 32 word \<Rightarrow> nat" where
  "status_from lib status = (if unat status < 2 ^ 16 \<and> hl_status_ok lib (unat status) then unat status else 502)"

definition body_chunk_payload :: "string \<Rightarrow> bool \<Rightarrow> hub_payload" where
  "body_chunk_payload data is_final = RelayHttpRequest (RqBody \<lparr>ch_data = data, ch_is_final = is_final\<rparr>)"

text \<open>A frame of the body that is an error is skipped.\<close>

fun request_chunks :: "(string + string) list \<Rightarrow> hub_payload list" where
  "request_chunks [] = []"
| "request_chunks (Inl err # rest) = request_chunks rest"
| "request_chunks (Inr bytes # rest) = body_chunk_payload bytes False # request_chunks rest"

definition request_feeder :: "relay_request \<Rightarrow> (string + string) list \<Rightarrow> bool \<Rightarrow> hub_payload list" where
  "request_feeder head body is_upgrade =
     RelayHttpRequest head # (if is_upgrade then [] else request_chunks body @ [body_chunk_payload [] True])"

text \<open>\<open>AgentLink::call_bidi_streamed\<close>, with the replies received before the stream ended.\<close>

definition call_bidi_streamed :: "agent_link \<Rightarrow> hub_payload list \<Rightarrow> agent_payload list hub" where
  "call_bidi_streamed link payloads =
     (case link of
        None \<Rightarrow> throw AgentUnavailable
      | Some h \<Rightarrow> ext_call (\<lambda>_. AgentUnavailable) (\<lambda>s.
          case next_answer (s\<lparr>rpc_log := rpc_log s @ [(h, payloads)]\<rparr>) of (answer, s') \<Rightarrow>
            (Done (case answer of None \<Rightarrow> [] | Some ps \<Rightarrow> ps), s')))"

fun response_body_stream :: "agent_payload list \<Rightarrow> string list" where
  "response_body_stream (RelayHttpResponse (RsBody chunk) # rest) =
     (if ch_is_final chunk then [] else ch_data chunk # response_body_stream rest)"
| "response_body_stream _ = []"

definition build_response :: "http_lib \<Rightarrow> nat \<Rightarrow> http_header list \<Rightarrow> string list \<Rightarrow> agent_payload list option \<Rightarrow> http_response" where
  "build_response lib status headers body pump =
     (case build_headers lib headers of
        Inr hs \<Rightarrow> \<lparr>hp_status = status, hp_headers = hs, hp_body = body, hp_pump = pump\<rparr>
      | Inl err \<Rightarrow> bad_gateway)"

definition upgrade_response :: "http_lib \<Rightarrow> relay_response_head \<Rightarrow> agent_payload list \<Rightarrow> http_response" where
  "upgrade_response lib head rx = build_response lib switching_protocols (rs_headers head) [] (Some rx)"

text \<open>What the browser reads and what the agent is sent, once the connection is a byte pump: \<open>upgraded\<close>
  is the number of writes the browser accepts and the data read from it.\<close>

fun browser_writes :: "nat \<Rightarrow> agent_payload list \<Rightarrow> string list" where
  "browser_writes n (RelayHttpResponse (RsBody chunk) # rest) =
     (if ch_data chunk = [] then (if ch_is_final chunk then [] else browser_writes n rest)
      else case n of
        0 \<Rightarrow> []
      | Suc m \<Rightarrow> ch_data chunk # (if ch_is_final chunk then [] else browser_writes m rest))"
| "browser_writes n _ = []"

definition pump_browser_connection :: "string + nat \<times> string list \<Rightarrow> agent_payload list \<Rightarrow> hub_payload list \<times> string list" where
  "pump_browser_connection upgraded rx =
     (case upgraded of
        Inl err \<Rightarrow> ([], [])
      | Inr (accepted, reads) \<Rightarrow>
         (map (\<lambda>data. body_chunk_payload data False) reads @ [body_chunk_payload [] True], browser_writes accepted rx))"

definition serve_run_mode ::
  "http_lib \<Rightarrow> agent_link \<Rightarrow> string \<Rightarrow> run_config \<Rightarrow> http_request \<Rightarrow> http_response hub" where
  "serve_run_mode lib link cname run req =
     (let is_upgrade = is_upgrade_request lib (hq_headers req);
          head = request_head_payload lib req cname run in
      bindc (attempt (call_bidi_streamed link (request_feeder head (hq_body req) is_upgrade))) (\<lambda>r.
      ret (case r of
        Inl err \<Rightarrow> bad_gateway
      | Inr (RelayHttpResponse (RsHead response_head) # rx) \<Rightarrow>
         (let status = status_from lib (rs_status response_head) in
          if is_upgrade \<and> status = switching_protocols then upgrade_response lib response_head rx
          else build_response lib status (rs_headers response_head) (response_body_stream rx) None)
      | Inr _ \<Rightarrow> bad_gateway)))"

section \<open>What an app serves\<close>

datatype serve_target = TargetNotFound | StaticFiles path | RunTarget string run_config int

definition target_of_deployment :: "externals \<Rightarrow> app \<Rightarrow> string \<Rightarrow> serve_target hub" where
  "target_of_deployment x app did =
     bindc (attempt (get_deployment x (app_id app) did)) (\<lambda>r.
     case r of
       Inl _ \<Rightarrow> ret TargetNotFound
     | Inr deployment \<Rightarrow>
        (case dep_container_name deployment of
           Some cname \<Rightarrow>
             ret (case app_run_config app of
                    None \<Rightarrow> TargetNotFound
                  | Some run \<Rightarrow> RunTarget cname run (app_host_id app))
         | None \<Rightarrow>
            bindc (gets (\<lambda>s. deployment_files_dir s (app_id app) did)) (\<lambda>dir.
            bindc (gets (\<lambda>s. is_dir (fs s) dir)) (\<lambda>d.
            ret (if d then StaticFiles dir else TargetNotFound)))))"

definition resolve_serve_target :: "externals \<Rightarrow> string \<Rightarrow> serve_target hub" where
  "resolve_serve_target x name =
     bindc (attempt (get_app x name)) (\<lambda>r.
     case r of
       Inl _ \<Rightarrow> ret TargetNotFound
     | Inr app \<Rightarrow>
        bindc (active_deployment_id x (app_id app)) (\<lambda>active.
        case active of
          None \<Rightarrow> ret TargetNotFound
        | Some did \<Rightarrow> target_of_deployment x app did))"

type_synonym serve_dir = "path \<Rightarrow> filesystem \<Rightarrow> http_request \<Rightarrow> string + http_response"

definition serve :: "externals \<Rightarrow> http_lib \<Rightarrow> serve_dir \<Rightarrow> string \<Rightarrow> http_request \<Rightarrow> http_response hub" where
  "serve x lib serve_dir name req =
     (case validate_slug name of
        Inl _ \<Rightarrow> ret not_found_response
      | Inr _ \<Rightarrow>
         bindc (resolve_serve_target x name) (\<lambda>target.
         case target of
           TargetNotFound \<Rightarrow> ret not_found_response
         | StaticFiles dir \<Rightarrow>
             gets (\<lambda>s. case serve_dir dir (fs s) req of Inr response \<Rightarrow> response | Inl err \<Rightarrow> internal_error_response)
         | RunTarget cname run host_id \<Rightarrow>
             bindc (gets (\<lambda>s. agent_link_for s host_id)) (\<lambda>link. serve_run_mode lib link cname run req)))"

section \<open>Routing by host\<close>

datatype host_match = ControlPlane | AppHost string | Unrecognized

definition classify_host :: "string \<Rightarrow> string \<Rightarrow> host_match" where
  "classify_host host base_domain =
     (let host = to_lowercase (case split_once CHR '':'' host of None \<Rightarrow> host | Some (h, _) \<Rightarrow> h);
          base_domain = to_lowercase base_domain in
      if host = base_domain then ControlPlane
      else case strip_suffix (CHR ''.'' # base_domain) host of
        Some label \<Rightarrow> if label \<noteq> [] then AppHost label else Unrecognized
      | None \<Rightarrow> Unrecognized)"

definition resolve_host :: "http_lib \<Rightarrow> http_request \<Rightarrow> string option" where
  "resolve_host lib req =
     (case find (\<lambda>(n, v). n = ''host'') (hq_headers req) of
        Some (n, v) \<Rightarrow> (case hl_to_str lib v of Some h \<Rightarrow> Some h | None \<Rightarrow> hq_authority req)
      | None \<Rightarrow> hq_authority req)"

definition dispatch_by_host ::
  "externals \<Rightarrow> http_lib \<Rightarrow> serve_dir \<Rightarrow> (http_request \<Rightarrow> http_response hub) \<Rightarrow> http_request \<Rightarrow> http_response hub" where
  "dispatch_by_host x lib serve_dir control_plane req =
     (case resolve_host lib req of
        None \<Rightarrow> ret not_found_response
      | Some host \<Rightarrow>
         bindc (gets (\<lambda>s. lim_base_domain (limits s))) (\<lambda>base_domain.
         case classify_host host base_domain of
           ControlPlane \<Rightarrow> control_plane req
         | AppHost label \<Rightarrow> serve x lib serve_dir label req
         | Unrecognized \<Rightarrow> ret not_found_response))"

section \<open>The control plane's layers\<close>

definition csp :: string where
  "csp = ''default-src '' @ [CHR 0x27] @ ''self'' @ [CHR 0x27] @ ''; script-src '' @ [CHR 0x27] @ ''self'' @ [CHR 0x27]
     @ ''; style-src '' @ [CHR 0x27] @ ''self'' @ [CHR 0x27] @ '' '' @ [CHR 0x27] @ ''unsafe-inline'' @ [CHR 0x27]
     @ ''; img-src '' @ [CHR 0x27] @ ''self'' @ [CHR 0x27] @ '' data:; connect-src '' @ [CHR 0x27] @ ''self'' @ [CHR 0x27]
     @ ''; object-src '' @ [CHR 0x27] @ ''none'' @ [CHR 0x27] @ ''; base-uri '' @ [CHR 0x27] @ ''self'' @ [CHR 0x27]
     @ ''; frame-ancestors '' @ [CHR 0x27] @ ''none'' @ [CHR 0x27]"

text \<open>\<open>HeaderMap::insert\<close> replaces every value of the name.\<close>

definition set_header :: "string \<Rightarrow> string \<Rightarrow> header_map \<Rightarrow> header_map" where
  "set_header n v hs = filter (\<lambda>(m, _). m \<noteq> n) hs @ [(n, v)]"

definition security_headers :: "http_response hub \<Rightarrow> http_response hub" where
  "security_headers next =
     bindc next (\<lambda>response.
     ret (response\<lparr>hp_headers :=
       set_header ''content-security-policy'' csp
         (set_header ''x-frame-options'' ''DENY''
           (set_header ''x-content-type-options'' ''nosniff'' (hp_headers response)))\<rparr>))"

text \<open>
  The gates around the API's routers, outermost first: the caller is known, the request comes
  from the same origin, then the route's handler.
\<close>

definition enforce_same_origin :: "http_method \<Rightarrow> headers \<Rightarrow> 'a hub \<Rightarrow> 'a hub" where
  "enforce_same_origin method headers next =
     bindc (from_sum (verify_same_origin method headers)) (\<lambda>_. next)"

definition require_authenticated :: "headers \<Rightarrow> 'a hub \<Rightarrow> 'a hub" where
  "require_authenticated headers next = bindc (cookie_user headers) (\<lambda>_. next)"

definition require_authenticated_bearer_or_cookie :: "externals \<Rightarrow> headers \<Rightarrow> 'a hub \<Rightarrow> 'a hub" where
  "require_authenticated_bearer_or_cookie x headers next = bindc (api_user x headers) (\<lambda>_. next)"

definition bearer_or_cookie_api :: "externals \<Rightarrow> http_method \<Rightarrow> headers \<Rightarrow> 'a hub \<Rightarrow> 'a hub" where
  "bearer_or_cookie_api x method headers route =
     require_authenticated_bearer_or_cookie x headers (enforce_same_origin method headers route)"

definition cookie_only_api :: "http_method \<Rightarrow> headers \<Rightarrow> 'a hub \<Rightarrow> 'a hub" where
  "cookie_only_api method headers route =
     require_authenticated headers (enforce_same_origin method headers route)"

end
