(* ===== verification/ServeFacts.thy ===== *)
theory ServeFacts
  imports Serve AgentMain FlowFacts
begin

text \<open>
  What holds of serving: only what is active is served, and a relayed request reaches its
  container, and the answer the browser, unchanged through the hub, the link and the agent.
\<close>

section \<open>What is served\<close>

definition is_active :: "database \<Rightarrow> string \<Rightarrow> db_app \<Rightarrow> db_deployment \<Rightarrow> bool" where
  "is_active d name a e \<longleftrightarrow> a \<in> set (db_apps d) \<and> a_name a = name
     \<and> e \<in> set (db_deployments d) \<and> d_app_id e = a_id a \<and> a_active_deployment_id a = Some (d_id e)"

text \<open>An operation that only reads: the state after differs in the faults left.\<close>

definition only_faults :: "('z machine_scheme, 'e, 'a) comp \<Rightarrow> bool" where
  "only_faults m \<longleftrightarrow> leaves (\<lambda>s. s\<lparr>faults := []\<rparr>) m"

lemma only_faultsD: "only_faults m \<Longrightarrow> m s = (r, s') \<Longrightarrow> \<exists>f. s' = s\<lparr>faults := f\<rparr>"
proof -
  assume "only_faults m" "m s = (r, s')"
  then have "s'\<lparr>faults := []\<rparr> = s\<lparr>faults := []\<rparr>" unfolding only_faults_def by (rule leaves_run)
  then have "s' = s\<lparr>faults := faults s'\<rparr>"
    by (metis machine.surjective machine.update_convs(2))
  then show ?thesis ..
qed

lemma only_faults_reads:
  shows "only_faults (get_app x name)" and "only_faults (get_deployment x aid did)" and "only_faults (active_deployment_id x aid)"
  unfolding only_faults_def get_app_def get_deployment_def active_deployment_id_def find_app_row_def find_app_row_by_id_def
    find_deployment_row_def app_from_row_with_permissions_def load_permissions_def
  by (intro leaves_bindc leaves_attempt leaves_ret leaves_db_first leaves_db_all leaves_ok_or leaves_from_sum; simp)+

lemma only_faults_resolve: "only_faults (resolve_serve_target x name)"
  unfolding only_faults_def resolve_serve_target_def target_of_deployment_def
  by (intro leaves_bindc leaves_attempt leaves_case_sum leaves_case_option leaves_ret leaves_gets
      only_faults_reads [unfolded only_faults_def])

lemma get_app_Done:
  assumes "get_app x name s = (Done app, s')"
  obtains a where "a \<in> set (db_apps (db s))" and "a_name a = name" and "app_id app = x_uuid_str x (a_id a)" and "app_host_id app = a_host_id a"
proof -
  obtain row s1 ps s2 where row: "find_app_row name s = (Done row, s1)" and app: "app_from_row x row ps = Inr app"
    using assms unfolding get_app_def app_from_row_with_permissions_def by (elim bindc_DoneE) auto
  have "row \<in> set (db_apps (db s))" "a_name row = name"
    using row unfolding find_app_row_def by (auto elim!: bindc_DoneE db_first_Done dest: find_SomeD)
  moreover have "app_id app = x_uuid_str x (a_id row)" "app_host_id app = a_host_id row"
    using app by (auto simp: app_from_row_def sbind_def serr_def split: sum.splits)
  ultimately show thesis by (rule that)
qed

lemma app_row_by_id:
  assumes "uuid_ok x" and "db_ok (db s)" and "a \<in> set (db_apps (db s))"
    and "find_app_row_by_id x (x_uuid_str x (a_id a)) s = (Done row, s')"
  shows "row = a \<and> db s' = db s"
proof -
  obtain k f where "x_uuid_parse x (x_uuid_str x (a_id a)) = Some k" "find (\<lambda>r. a_id r = k) (db_apps (db s)) = Some row" "s' = s\<lparr>faults := f\<rparr>"
    using find_app_row_by_id_found [OF assms(4)] by metis
  moreover have "find (\<lambda>r. a_id r = a_id a) (db_apps (db s)) = Some a"
    using apps_by_id.find_key [OF db_okD_apps [OF assms(2)] assms(3)] .
  ultimately show ?thesis using assms(1) by (auto simp: uuid_ok_def)
qed

lemma active_deployment_id_Done:
  assumes "uuid_ok x" and "db_ok (db s)" and "a \<in> set (db_apps (db s))"
    and "active_deployment_id x (x_uuid_str x (a_id a)) s = (Done (Some did), s')"
  shows "\<exists>u. a_active_deployment_id a = Some u \<and> did = x_uuid_str x u"
proof -
  obtain r s1 where r: "find_app_row_by_id x (x_uuid_str x (a_id a)) s = (r, s1)" by fastforce
  show ?thesis
  proof (cases r)
    case (Done row)
    have "row = a" using app_row_by_id [OF assms(1-3)] r Done by blast
    then show ?thesis
      using assms(4) r Done by (cases "a_active_deployment_id a") (auto simp: active_deployment_id_def bindc_def attempt_def ret_def)
  qed (use assms(4) r in \<open>simp_all add: active_deployment_id_def bindc_def attempt_def ret_def\<close>)
qed

lemma get_deployment_Done:
  assumes "uuid_ok x" and "db_ok (db s)" and "a \<in> set (db_apps (db s))"
    and "get_deployment x (x_uuid_str x (a_id a)) (x_uuid_str x u) s = (Done d, s')"
  shows "\<exists>e\<in>set (db_deployments (db s)). d_id e = u \<and> d_app_id e = a_id a \<and> dep_container_name d = d_container_name e"
proof -
  obtain row s1 e s2 where row: "find_app_row_by_id x (x_uuid_str x (a_id a)) s = (Done row, s1)"
    and e: "find_deployment_row x (a_id row) (x_uuid_str x u) s1 = (Done e, s2)"
    and d: "from_sum (deployment_from_row x e (a_name row)) s2 = (Done d, s')"
    using assms(4) unfolding get_deployment_def by (elim bindc_DoneE)
  note a = app_row_by_id [OF assms(1-3) row]
  obtain k f where k: "x_uuid_parse x (x_uuid_str x u) = Some k"
      "find (\<lambda>e. d_id e = k \<and> d_app_id e = a_id row) (db_deployments (db s1)) = Some e" and "s2 = s1\<lparr>faults := f\<rparr>"
    by (rule find_deployment_row_found [OF e])
  have "dep_container_name d = d_container_name e"
    using d by (auto simp: deployment_from_row_def sbind_def serr_def from_sum_def throw_def split: sum.splits)
  moreover have "k = u" using k(1) assms(1) by (simp add: uuid_ok_def)
  ultimately show ?thesis using a find_SomeD [OF k(2)] by auto
qed

text \<open>A target that names something names what is active.\<close>

definition target_ok :: "externals \<Rightarrow> world \<Rightarrow> string \<Rightarrow> serve_target \<Rightarrow> bool" where
  "target_ok x s name t \<longleftrightarrow>
     (case t of
        TargetNotFound \<Rightarrow> True
      | StaticFiles dir \<Rightarrow> \<exists>a e. is_active (db s) name a e \<and> d_container_name e = None
          \<and> dir = deployment_files_dir s (x_uuid_str x (a_id a)) (x_uuid_str x (d_id e))
      | RunTarget cname run h \<Rightarrow> \<exists>a e. is_active (db s) name a e \<and> d_container_name e = Some cname \<and> h = a_host_id a)"

lemma target_ok_faults [simp]: "target_ok x (s\<lparr>faults := f\<rparr>) name t = target_ok x s name t"
  by (simp add: target_ok_def deployment_files_dir_def deployment_dir_def apps_dir_def split: serve_target.split)

lemma target_of_deployment_ok:
  assumes "uuid_ok x" and "db_ok (db s)" and a: "a \<in> set (db_apps (db s))" "a_name a = name"
    and app: "app_id app = x_uuid_str x (a_id a)" "app_host_id app = a_host_id a" and u: "a_active_deployment_id a = Some u"
    and run: "target_of_deployment x app (x_uuid_str x u) s = (Done t, s')"
  shows "target_ok x s name t"
proof -
  obtain r s1 where r: "get_deployment x (x_uuid_str x (a_id a)) (x_uuid_str x u) s = (r, s1)" by fastforce
  obtain f where s1: "s1 = s\<lparr>faults := f\<rparr>" using only_faultsD [OF only_faults_reads(2) r] by blast
  show ?thesis
  proof (cases r)
    case (Done d)
    obtain e where e: "e \<in> set (db_deployments (db s))" "d_id e = u" "d_app_id e = a_id a" "dep_container_name d = d_container_name e"
      using get_deployment_Done [OF assms(1,2) a(1)] r Done by blast
    then have active: "is_active (db s) name a e" using a u by (simp add: is_active_def)
    note run' = run [unfolded target_of_deployment_def app(1)]
    show ?thesis
    proof (cases "d_container_name e")
      case None
      then have "t = TargetNotFound \<or> t = StaticFiles (deployment_files_dir s1 (x_uuid_str x (a_id a)) (x_uuid_str x (d_id e)))"
        using run' r Done e(2,4) by (auto simp: bindc_def attempt_def gets_def ret_def split: if_splits)
      moreover have "deployment_files_dir s1 k d = deployment_files_dir s k d" for k d
        by (simp add: s1 deployment_files_dir_def deployment_dir_def apps_dir_def)
      ultimately show ?thesis using active None unfolding target_ok_def by auto blast
    next
      case (Some cname)
      then have "t = TargetNotFound \<or> (\<exists>run. t = RunTarget cname run (a_host_id a))"
        using run' r Done e(4) app(2) by (auto simp: bindc_def attempt_def ret_def split: option.splits)
      then show ?thesis using active Some unfolding target_ok_def by auto blast
    qed
  qed (use run r app in \<open>auto simp: target_of_deployment_def bindc_def attempt_def ret_def target_ok_def\<close>)
qed

lemma resolve_serve_target_ok:
  assumes "uuid_ok x" and "db_ok (db s)" and run: "resolve_serve_target x name s = (Done t, s')"
  shows "target_ok x s name t"
proof -
  obtain r s1 where r: "get_app x name s = (r, s1)" by fastforce
  obtain f1 where s1: "s1 = s\<lparr>faults := f1\<rparr>" using only_faultsD [OF only_faults_reads(1) r] by blast
  show ?thesis
  proof (cases r)
    case (Done app)
    obtain a where a: "a \<in> set (db_apps (db s1))" "a_name a = name" and app: "app_id app = x_uuid_str x (a_id a)" "app_host_id app = a_host_id a"
      using get_app_Done [OF r [unfolded Done]] s1 by auto
    have ok: "db_ok (db s1)" using assms(2) s1 by simp
    obtain q s2 where q: "active_deployment_id x (x_uuid_str x (a_id a)) s1 = (q, s2)" by fastforce
    obtain f2 where s2: "s2 = s1\<lparr>faults := f2\<rparr>" using only_faultsD [OF only_faults_reads(3) q] by blast
    show ?thesis
    proof (cases "\<exists>did. q = Done (Some did)")
      case True
      then obtain u where u: "a_active_deployment_id a = Some u" and q': "q = Done (Some (x_uuid_str x u))"
        using active_deployment_id_Done [OF assms(1) ok a(1)] q by blast
      have "target_of_deployment x app (x_uuid_str x u) s2 = (Done t, s')"
        using run r Done q q' app by (simp add: resolve_serve_target_def bindc_def attempt_def)
      moreover have "db_ok (db s2)" "a \<in> set (db_apps (db s2))" using ok a(1) s2 by simp_all
      ultimately have "target_ok x s2 name t" using target_of_deployment_ok [OF assms(1) _ _ a(2) app u] by blast
      then show ?thesis by (simp add: s1 s2)
    qed (use run r Done q app in \<open>auto simp: resolve_serve_target_def bindc_def attempt_def ret_def target_ok_def
          split: outcome.splits option.splits\<close>)
  qed (use run r in \<open>auto simp: resolve_serve_target_def bindc_def attempt_def ret_def target_ok_def\<close>)
qed

section \<open>What is answered\<close>

lemma next_answer_state: "\<exists>q. snd (next_answer s) = s\<lparr>agent_script := q\<rparr>"
  by (rule snd_next_answer)

lemma call_bidi_streamed_cases:
  assumes "call_bidi_streamed link payloads s = (r, s')"
  shows "db s' = db s \<and> fs s' = fs s \<and> (rpc_log s' = rpc_log s \<and> (r = Crash \<or> (\<exists>err. r = Fail err))
    \<or> (\<exists>h. link = Some h \<and> rpc_log s' = rpc_log s @ [(h, payloads)]))"
proof (cases link)
  case (Some h)
  have na: "next_answer (t\<lparr>rpc_log := l\<rparr>) = (answer, t') \<Longrightarrow> db t' = db t \<and> fs t' = fs t \<and> rpc_log t' = l" for t l answer t'
    using next_answer_state [of "t\<lparr>rpc_log := l\<rparr>"] by auto
  show ?thesis
    using assms Some unfolding call_bidi_streamed_def ext_call_def
    by (auto split: prod.splits list.splits fault.splits simp: Let_def dest!: na)
qed (use assms in \<open>auto simp: call_bidi_streamed_def throw_def\<close>)

lemma serve_run_mode_cases:
  assumes "serve_run_mode lib link cname run req s = (r, s')"
  shows "db s' = db s \<and> fs s' = fs s \<and> (rpc_log s' = rpc_log s \<and> (r = Crash \<or> r = Done bad_gateway)
    \<or> (\<exists>h. link = Some h \<and> rpc_log s' = rpc_log s @ [(h, request_feeder (request_head_payload lib req cname run) (hq_body req)
         (is_upgrade_request lib (hq_headers req)))]))"
proof -
  obtain q s1 where q: "call_bidi_streamed link (request_feeder (request_head_payload lib req cname run) (hq_body req)
      (is_upgrade_request lib (hq_headers req))) s = (q, s1)" by fastforce
  then have "s' = s1" "q = Crash \<Longrightarrow> r = Crash" "q = Fail err \<Longrightarrow> r = Done bad_gateway" for err
    using assms by (cases q; auto simp: serve_run_mode_def Let_def bindc_def attempt_def ret_def)+
  then show ?thesis using call_bidi_streamed_cases [OF q] by auto
qed

text \<open>C14 An app's address leads to what is active and to nothing else. Answering a browser changes
  no table and no file. The answer is not found; or the files handed to \<open>ServeDir\<close> are those of the
  active deployment of the app of that name; or, for a deployment with a container, one request
  goes to the agent of the app's host and names that deployment's container, or none can be
  sent and the answer is a bad gateway.\<close>

theorem only_active_deployments_are_served:
  assumes "uuid_ok x" and "db_ok (db s)" and "serve x lib serve_dir name req s = (r, s')"
  shows "db s' = db s \<and> fs s' = fs s \<and> (\<forall>resp. r = Done resp \<longrightarrow>
    resp = not_found_response \<and> rpc_log s' = rpc_log s
    \<or> (\<exists>a e. is_active (db s) name a e \<and> d_container_name e = None \<and> rpc_log s' = rpc_log s
         \<and> resp = (case serve_dir (deployment_files_dir s (x_uuid_str x (a_id a)) (x_uuid_str x (d_id e))) (fs s) req of
             Inr p \<Rightarrow> p | Inl err \<Rightarrow> internal_error_response))
    \<or> (\<exists>a e cname. is_active (db s) name a e \<and> d_container_name e = Some cname
         \<and> (rpc_log s' = rpc_log s \<and> resp = bad_gateway
            \<or> (\<exists>run. rpc_log s' = rpc_log s @ [(a_host_id a, request_feeder (request_head_payload lib req cname run)
                 (hq_body req) (is_upgrade_request lib (hq_headers req)))]))))"
proof (cases "validate_slug name")
  case (Inr u)
  obtain q s1 where q: "resolve_serve_target x name s = (q, s1)" by fastforce
  obtain f where s1: "s1 = s\<lparr>faults := f\<rparr>" using only_faultsD [OF only_faults_resolve q] by blast
  show ?thesis
  proof (cases q)
    case (Done t)
    note ok = resolve_serve_target_ok [OF assms(1,2) q [unfolded Done]]
    show ?thesis
    proof (cases t)
      case (RunTarget cname run h)
      then have serve: "serve_run_mode lib (agent_link_for s1 h) cname run req s1 = (r, s')"
        using assms(3) Inr q Done by (simp add: serve_def bindc_def gets_def)
      have link: "agent_link_for s1 h = Some h' \<Longrightarrow> h' = h" for h' by (auto simp: agent_link_for_def split: if_splits)
      obtain a e where "is_active (db s) name a e" "d_container_name e = Some cname" "h = a_host_id a"
        using ok RunTarget by (auto simp: target_ok_def)
      moreover have "db s' = db s \<and> fs s' = fs s" "rpc_log s' = rpc_log s \<and> (r = Crash \<or> r = Done bad_gateway)
        \<or> rpc_log s' = rpc_log s @ [(h, request_feeder (request_head_payload lib req cname run) (hq_body req)
           (is_upgrade_request lib (hq_headers req)))]"
        using serve_run_mode_cases [OF serve] link by (auto simp: s1)
      ultimately show ?thesis by blast
    next
      case (StaticFiles dir)
      then have "r = Done (case serve_dir dir (fs s) req of Inr p \<Rightarrow> p | Inl err \<Rightarrow> internal_error_response)" "s' = s1"
        using assms(3) Inr q Done by (auto simp: serve_def bindc_def gets_def s1)
      then show ?thesis using ok StaticFiles by (auto simp: target_ok_def s1)
    qed (use assms(3) Inr q Done s1 in \<open>auto simp: serve_def bindc_def ret_def\<close>)
  qed (use assms(3) Inr q s1 in \<open>auto simp: serve_def bindc_def\<close>)
qed (use assms(3) in \<open>auto simp: serve_def ret_def\<close>)

definition sample_http_lib :: http_lib where
  "sample_http_lib = \<lparr>hl_to_str = Some, hl_header_check = (\<lambda>n v. Inr ()), hl_status_ok = (\<lambda>n. 100 \<le> n \<and> n \<le> 999),
     hl_parse_uri = Inr, hl_parse_method = Inr\<rparr>"

definition sample_get :: http_request where
  "sample_get = \<lparr>hq_method = ''POST'', hq_path_and_query = Some ''/x'', hq_authority = None,
     hq_headers = [(''host'', ''site.example.com''), (''connection'', ''keep-alive'')], hq_body = [Inr ''ab'', Inr ''c'']\<rparr>"

definition sample_serve_dir :: serve_dir where
  "sample_serve_dir dir t req = Inr \<lparr>hp_status = 200, hp_headers = [], hp_body = dir, hp_pump = None\<rparr>"

definition sample_site_with_files :: world where
  "sample_site_with_files = sample_site_world\<lparr>fs := ([''d'', ''apps'', ''1'', ''deployments'', ''11'', ''files''], Dir) # fs sample_site_world\<rparr>"

lemma only_active_deployments_are_served_witness:
  "\<exists>resp s'. serve sample_externals sample_http_lib sample_serve_dir ''site'' sample_get sample_site_with_files = (Done resp, s')
    \<and> resp \<noteq> not_found_response
    \<and> (\<exists>a e. is_active (db sample_site_with_files) ''site'' a e \<and> d_container_name e = None)"
proof -
  have served: "hp_status (case fst (serve sample_externals sample_http_lib sample_serve_dir ''site'' sample_get sample_site_with_files) of
      Done resp \<Rightarrow> resp | Fail _ \<Rightarrow> not_found_response | Crash \<Rightarrow> not_found_response) = 200"
    by code_simp
  have ok: "db_ok (db sample_site_with_files)" using sample_site_ok by (simp add: sample_site_with_files_def)
  obtain r s' where run: "serve sample_externals sample_http_lib sample_serve_dir ''site'' sample_get sample_site_with_files = (r, s')"
    by fastforce
  have "hp_status not_found_response \<noteq> 200" by (simp add: not_found_response_def)
  with run obtain resp where r: "r = Done resp" "resp \<noteq> not_found_response"
    using served by (cases r) auto
  have none: "d_container_name e = None" if "is_active (db sample_site_with_files) ''site'' a e" for a e
    using that by (simp add: is_active_def sample_site_with_files_def sample_site_simps)
  show ?thesis
    using only_active_deployments_are_served [OF sample_uuid_ok ok run] run r none by blast
qed

section \<open>A relayed request\<close>

lemma receive_relay_bodies:
  assumes "in_flight_relays st i = Some \<lparr>rt_head = head, rt_chunks = cs0\<rparr>"
  shows "in_flight_relays (fold receive_message (map (\<lambda>c. (i, Some (RelayHttpRequest (RqBody c)))) cs) st) i
    = Some \<lparr>rt_head = head, rt_chunks = cs0 @ cs\<rparr>"
  using assms
proof (induction cs arbitrary: st cs0)
  case (Cons c cs)
  have "in_flight_relays (receive_message (i, Some (RelayHttpRequest (RqBody c))) st) i
      = Some \<lparr>rt_head = head, rt_chunks = cs0 @ [c]\<rparr>"
    using Cons.prems by (simp add: receive_message_def route_relay_message_def)
  from Cons.IH [OF this] show ?case by simp
qed simp

lemma request_chunks_data: "request_chunks (map Inr datas) = map (\<lambda>d. body_chunk_payload d False) datas"
  by (induction datas) simp_all

text \<open>What the agent receives for an ordinary request.\<close>

lemma receive_request:
  "in_flight_relays (fold receive_message (map (\<lambda>p. (i, Some p)) (request_feeder (RqHead head) (map Inr datas) False)) session_new) i
    = Some \<lparr>rt_head = head,
        rt_chunks = map (\<lambda>d. \<lparr>ch_data = d, ch_is_final = False\<rparr>) datas @ [\<lparr>ch_data = [], ch_is_final = True\<rparr>]\<rparr>"
proof -
  define cs where "cs = map (\<lambda>d. \<lparr>ch_data = d, ch_is_final = False\<rparr>) datas @ [\<lparr>ch_data = [], ch_is_final = True\<rparr>]"
  define st where "st = receive_message (i, Some (RelayHttpRequest (RqHead head))) session_new"
  have "map (\<lambda>p. (i, Some p)) (request_feeder (RqHead head) (map Inr datas) False)
      = (i, Some (RelayHttpRequest (RqHead head))) # map (\<lambda>c. (i, Some (RelayHttpRequest (RqBody c)))) cs"
    by (simp add: request_feeder_def request_chunks_data body_chunk_payload_def cs_def o_def)
  moreover have "in_flight_relays st i = Some \<lparr>rt_head = head, rt_chunks = []\<rparr>"
    by (simp add: st_def receive_message_def session_new_def route_relay_message_def)
  ultimately show ?thesis using receive_relay_bodies [of st i head "[]" cs] by (simp add: st_def cs_def)
qed

lemma body_stream_replies: "response_body_stream (chunk_replies datas) = datas"
  unfolding chunk_replies_def by (induction datas) simp_all

lemma body_data_all: "body_data (map (\<lambda>d. Inr (Some d)) datas) = datas"
  by (induction datas) simp_all

text \<open>C13 A relayed request is transparent. For an ordinary request the hub's messages, routed by the
  agent, become one request to the app's container with the browser's method, path, headers and
  body; and the agent's replies, read by the hub, become an answer with the container's status,
  headers and body.\<close>

theorem relay_is_transparent:
  assumes req: "plain_headers lib (hq_headers req)" "length (filter (\<lambda>(n, v). n = ''connection'') (hq_headers req)) \<le> 1"
      "\<not> is_upgrade_request lib (hq_headers req)" "hq_path_and_query req = Some target" "hq_body req = map Inr datas"
    and agent: "faults a = []" "rc_http c = lib" "e_inspect_container e cname (docker a) = (Inr inspect, d1)"
      "in_networks inspect = Some nets" "nets network_name = Some (Some ip)" "ip \<noteq> []"
      "hl_parse_uri lib (''http://'' @ ip @ '':'' @ show_nat (unat (rc_container_port run)) @ target) = Inr uri"
      "hl_parse_method lib (hq_method req) = Inr verb"
    and container: "rc_request c \<lparr>og_method = verb, og_uri = uri, og_headers = hq_headers req, og_body = datas @ [[]]\<rparr> d1 = (Inr response, d2)"
      "plain_headers lib (cr_headers response)" "cr_status response < 2 ^ 16" "hl_status_ok lib (cr_status response)"
      "cr_body response = map (\<lambda>d. Inr (Some d)) out"
    and hub: "faults s = []"
  shows "\<exists>task replies s'.
    in_flight_relays (fold receive_message (map (\<lambda>p. (i, Some p))
      (request_feeder (request_head_payload lib req cname run) (hq_body req) (is_upgrade_request lib (hq_headers req)))) session_new) i = Some task
    \<and> serve_relayed_request e c i (rt_head task) (rt_chunks task) a
        = (Done (), a\<lparr>docker := d2, outbox := outbox a @ map (Pair i) replies\<rparr>)
    \<and> serve_run_mode lib (Some h) cname run req (s\<lparr>agent_script := Some replies # script\<rparr>)
        = (Done \<lparr>hp_status = cr_status response, hp_headers = cr_headers response, hp_body = out, hp_pump = None\<rparr>, s')"
proof -
  define head where "head = \<lparr>rq_method = hq_method req, rq_path = target, rq_headers = header_fields lib (hq_headers req),
    rq_container_name = cname, rq_container_port = (ucast (rc_container_port run) :: 32 word)\<rparr>"
  define cs where "cs = map (\<lambda>d. \<lparr>ch_data = d, ch_is_final = False\<rparr>) datas @ [\<lparr>ch_data = [], ch_is_final = True\<rparr>]"
  define replies where "replies = RelayHttpResponse (response_head_payload lib response) # chunk_replies out"
  have payload: "request_head_payload lib req cname run = RqHead head"
    using req(4) by (simp add: request_head_payload_def head_def)
  have port: "unat (ucast (rc_container_port run) :: 32 word) = unat (rc_container_port run)"
    using order.strict_trans [OF unsigned_less [of "rc_container_port run", where 'a = nat], of "2 ^ 32"]
    by (simp add: unsigned_ucast_eq take_bit_nat_eq_self)
  have "\<not> is_upgrade_head (rq_headers head)"
    using upgrade_tests_agree [OF req(1,2)] req(3) by (simp add: head_def)
  moreover have "build_headers lib (rq_headers head) = Inr (hq_headers req)"
    using build_header_fields [OF req(1)] by (simp add: head_def)
  moreover have "response_head_payload (rc_http c) response = response_head_payload lib response" "body_data (cr_body response) = out"
    by (simp_all add: agent(2) container(5) body_data_all)
  ultimately have "serve_relayed_request e c i head cs a = (Done (), a\<lparr>docker := d2, outbox := outbox a @ map (Pair i) replies\<rparr>)"
    using proxy_run [where a = a and e = e and head = head and inspect = inspect and nets = nets and ip = ip and c = c and uri = uri
        and verb = verb and headers = "hq_headers req" and cs = cs and response = response and i = i and ?d1.0 = d1 and ?d2.0 = d2]
      agent container(1)
    by (simp add: replies_def head_def port cs_def request_body_chunks)
  moreover have "status_from lib (of_nat (cr_status response)) = cr_status response"
    using container(3,4) by (simp add: status_from_def unat_of_nat take_bit_nat_eq_self)
  then have "fst (serve_run_mode lib (Some h) cname run req (s\<lparr>agent_script := Some replies # script\<rparr>))
      = Done \<lparr>hp_status = cr_status response, hp_headers = cr_headers response, hp_body = out, hp_pump = None\<rparr>"
    using hub req(3) build_header_fields [OF container(2)]
    by (simp add: serve_run_mode_def Let_def bindc_def attempt_def call_bidi_streamed_def ext_call_def next_answer_def ret_def
        replies_def response_head_payload_def build_response_def body_stream_replies)
  then have "serve_run_mode lib (Some h) cname run req (s\<lparr>agent_script := Some replies # script\<rparr>)
      = (Done \<lparr>hp_status = cr_status response, hp_headers = cr_headers response, hp_body = out, hp_pump = None\<rparr>,
         snd (serve_run_mode lib (Some h) cname run req (s\<lparr>agent_script := Some replies # script\<rparr>)))"
    by (metis prod.collapse)
  moreover have "in_flight_relays (fold receive_message (map (\<lambda>p. (i, Some p))
      (request_feeder (request_head_payload lib req cname run) (hq_body req) (is_upgrade_request lib (hq_headers req)))) session_new) i
      = Some \<lparr>rt_head = head, rt_chunks = cs\<rparr>"
    using receive_request [of i head datas] req(3,5) payload by (simp add: cs_def)
  ultimately show ?thesis
    by (intro exI [of _ "\<lparr>rt_head = head, rt_chunks = cs\<rparr>"] exI [of _ replies] exI conjI) (simp_all only: relay_task.select_convs)
qed

definition sample_container :: "(string \<rightharpoonup> bool) relay_client" where
  "sample_container = \<lparr>rc_http = sample_http_lib,
     rc_request = (\<lambda>req d. (Inr \<lparr>cr_status = 201, cr_headers = [(''x'', og_uri req)],
        cr_body = map (\<lambda>d. Inr (Some d)) (og_body req), cr_upgraded = Inl ''no upgrade''\<rparr>, d)),
     rc_deliver = (\<lambda>ws d. d)\<rparr>"

lemma relay_is_transparent_witness:
  "\<exists>replies s'. serve_run_mode sample_http_lib (Some 1) ''c'' sample_run sample_get (sample_world\<lparr>agent_script := Some replies # []\<rparr>)
      = (Done \<lparr>hp_status = 201, hp_headers = [(''x'', ''http://10.0.0.2:80/x'')], hp_body = [''ab'', ''c'', []], hp_pump = None\<rparr>, s')"
proof -
  define a where "a = sample_agent\<lparr>docker := [''c'' \<mapsto> True]\<rparr>"
  have port: "show_nat (unat (rc_container_port sample_run)) = ''80''" by code_simp
  have upgrade: "\<not> is_upgrade_request sample_http_lib (hq_headers sample_get)" by (simp add: is_upgrade_request_def sample_get_def)
  have "plain_headers sample_http_lib (hq_headers sample_get)"
    by (simp add: plain_headers_def sample_get_def sample_http_lib_def to_lowercase_id is_ascii_uppercase_def)
  note relay = relay_is_transparent [where lib = sample_http_lib and req = sample_get and target = "''/x''" and datas = "[''ab'', ''c'']"
      and a = a and c = sample_container and e = sample_engine and cname = "''c''" and run = sample_run and s = sample_world
      and i = 1 and h = 1 and script = "[]" and uri = "''http://10.0.0.2:80/x''" and out = "[''ab'', ''c'', []]"
      and ip = "''10.0.0.2''" and verb = "''POST''" and ?d1.0 = "[''c'' \<mapsto> True]" and ?d2.0 = "[''c'' \<mapsto> True]"
      and nets = "[network_name \<mapsto> Some ''10.0.0.2'']",
      OF this _ upgrade]
  show ?thesis
    using relay [where inspect = "\<lparr>in_running = Some True, in_networks = Some [network_name \<mapsto> Some ''10.0.0.2'']\<rparr>"
        and response = "\<lparr>cr_status = 201, cr_headers = [(''x'', ''http://10.0.0.2:80/x'')],
           cr_body = map (\<lambda>d. Inr (Some d)) [''ab'', ''c'', []], cr_upgraded = Inl ''no upgrade''\<rparr>"]
    by (auto simp: sample_get_def a_def sample_agent_def sample_container_def sample_engine_def sample_http_lib_def port
        plain_headers_def to_lowercase_id is_ascii_uppercase_def sample_world_def)
qed

text \<open>
  The two tests for an upgrade differ: with a second \<open>Connection\<close> header the agent sees an upgrade
  where the hub sends a body, and \<open>proxy_upgrade\<close> asks the container without it.
\<close>

lemma second_connection_header_is_an_upgrade_to_the_agent_only:
  assumes "hq_headers req = [(''connection'', ''keep-alive''), (''connection'', ''upgrade''), (''upgrade'', ''h2c'')]"
  shows "\<not> is_upgrade_request sample_http_lib (hq_headers req)" and "is_upgrade_head (header_fields sample_http_lib (hq_headers req))"
proof -
  have "\<not> is_upgrade_request sample_http_lib [(''connection'', ''keep-alive''), (''connection'', ''upgrade''), (''upgrade'', ''h2c'')]"
    "is_upgrade_head (header_fields sample_http_lib [(''connection'', ''keep-alive''), (''connection'', ''upgrade''), (''upgrade'', ''h2c'')])"
    by code_simp+
  then show "\<not> is_upgrade_request sample_http_lib (hq_headers req)" and "is_upgrade_head (header_fields sample_http_lib (hq_headers req))"
    by (simp_all add: assms)
qed

end
