(* ===== verification/Mcp.thy ===== *)
theory Mcp
  imports Deploy
begin

text \<open>
  The tools for AI agents, \<open>routes/mcp.rs\<close>: each finds the app, checks the caller's permission and
  does what a route of the API does, answering with JSON text or the text of the error. The
  serializers are the fields of \<open>mcp_lib\<close>; \<open>rmcp\<close> calls a tool with the extensions of the request,
  in which \<open>mcp_auth\<close> has put the caller.
\<close>

record mcp_lib =
  mj_apps :: "app_view list \<Rightarrow> string + string"
  mj_app :: "app_view \<Rightarrow> string + string"
  mj_deployments :: "deployment_view list \<Rightarrow> string + string"
  mj_deployment :: "deployment \<Rightarrow> string + string"
  mj_stats :: "container_stats option \<Rightarrow> string + string"
  mj_default_hosts :: "string list"

type_synonym 'a tool = "(world, string, 'a) comp"

text \<open>\<open>map_err(|e| e.to_string())\<close>.\<close>

definition to_text :: "'a hub \<Rightarrow> 'a tool" where
  "to_text m = map_err display m"

definition current_user_from :: "current_user option \<Rightarrow> string + current_user" where
  "current_user_from extension = (case extension of Some user \<Rightarrow> Inr user | None \<Rightarrow> Inl ''not authenticated'')"

text \<open>The first steps of every tool that works on an app.\<close>

definition with_app ::
  "externals \<Rightarrow> current_user option \<Rightarrow> string \<Rightarrow> permission_level \<Rightarrow> (app \<Rightarrow> 'a tool) \<Rightarrow> 'a tool" where
  "with_app x extension aid level tool =
     bindc (from_sum (current_user_from extension)) (\<lambda>current_user.
     bindc (to_text (get_app_by_id x aid)) (\<lambda>app.
     bindc (to_text (from_sum (check_app_permission current_user app level))) (\<lambda>_.
     tool app)))"

section \<open>Tools\<close>

definition mcp_list_apps :: "externals \<Rightarrow> mcp_lib \<Rightarrow> current_user option \<Rightarrow> string tool" where
  "mcp_list_apps x lib extension =
     bindc (from_sum (current_user_from extension)) (\<lambda>user.
     bindc (to_text (list_apps x)) (\<lambda>apps.
     bindc (to_text (mapc (view_of_app x) (filter (\<lambda>a. cu_role user = Admin \<or> has_permission a (cu_username user) Read) apps))) (\<lambda>views.
     from_sum (mj_apps lib views))))"

definition mcp_get_app :: "externals \<Rightarrow> mcp_lib \<Rightarrow> current_user option \<Rightarrow> string \<Rightarrow> string tool" where
  "mcp_get_app x lib extension aid =
     with_app x extension aid Read (\<lambda>app.
     bindc (to_text (view_of_app x app)) (\<lambda>view. from_sum (mj_app lib view)))"

definition mcp_create_app ::
  "externals \<Rightarrow> mcp_lib \<Rightarrow> current_user option \<Rightarrow> string \<Rightarrow> int \<Rightarrow> app_source \<Rightarrow> env_var_input list \<Rightarrow> string tool" where
  "mcp_create_app x lib extension name host_id src env_vars =
     bindc (from_sum (current_user_from extension)) (\<lambda>user.
     bindc (to_text (create_app x name src env_vars (if cu_role user = Member then Some (cu_username user) else None) host_id)) (\<lambda>app.
     bindc (to_text (view_of_app x app)) (\<lambda>view. from_sum (mj_app lib view))))"

definition mcp_delete_app :: "externals \<Rightarrow> current_user option \<Rightarrow> string \<Rightarrow> unit tool" where
  "mcp_delete_app x extension aid =
     with_app x extension aid Write (\<lambda>_. to_text (delete_app_with_containers x aid))"

definition mcp_list_deployments :: "externals \<Rightarrow> mcp_lib \<Rightarrow> current_user option \<Rightarrow> string \<Rightarrow> string tool" where
  "mcp_list_deployments x lib extension aid =
     with_app x extension aid Read (\<lambda>app.
     bindc (to_text (active_deployment_id x aid)) (\<lambda>active_id.
     bindc (to_text (list_deployments x aid)) (\<lambda>ds.
     bindc (to_text (mapc (view_of_deployment active_id (app_host_id app)) ds)) (\<lambda>views.
     from_sum (mj_deployments lib views)))))"

definition mcp_deploy_from_git :: "externals \<Rightarrow> mcp_lib \<Rightarrow> current_user option \<Rightarrow> string \<Rightarrow> string tool" where
  "mcp_deploy_from_git x lib extension aid =
     with_app x extension aid Write (\<lambda>_.
     bindc (to_text (start_git_deployment x aid)) (\<lambda>d. from_sum (mj_deployment lib d)))"

definition mcp_activate_deployment :: "externals \<Rightarrow> current_user option \<Rightarrow> string \<Rightarrow> string \<Rightarrow> unit tool" where
  "mcp_activate_deployment x extension aid did =
     with_app x extension aid Write (\<lambda>_. to_text (activate_with_containers x aid did))"

definition mcp_delete_deployment :: "externals \<Rightarrow> current_user option \<Rightarrow> string \<Rightarrow> string \<Rightarrow> unit tool" where
  "mcp_delete_deployment x extension aid did =
     with_app x extension aid Write (\<lambda>_. to_text (delete_deployment_with_containers x aid did))"

definition mcp_get_deployment_logs :: "externals \<Rightarrow> mcp_lib \<Rightarrow> current_user option \<Rightarrow> string \<Rightarrow> string \<Rightarrow> string tool" where
  "mcp_get_deployment_logs x lib extension aid did =
     with_app x extension aid Read (\<lambda>app.
     bindc (to_text (get_deployment x aid did)) (\<lambda>_.
     bindc (gets (\<lambda>s. deployment_dir s (app_id app) did)) (\<lambda>dir.
     bindc (to_text (log_active did)) (\<lambda>active.
     bindc (case active of
              Some kind \<Rightarrow> ret kind
            | None \<Rightarrow> bindc (to_text (resolve_terminal_phase dir)) (ok_or ''no logs recorded for this deployment yet'')) (\<lambda>kind.
     bindc (to_text (read_backlog dir kind)) (\<lambda>backlog.
     ret (utf8_lossy backlog)))))))"

definition mcp_get_deployment_stats :: "externals \<Rightarrow> mcp_lib \<Rightarrow> current_user option \<Rightarrow> string \<Rightarrow> string \<Rightarrow> string tool" where
  "mcp_get_deployment_stats x lib extension aid did =
     with_app x extension aid Read (\<lambda>app.
     bindc (to_text (get_deployment x aid did)) (\<lambda>deployment.
     case dep_container_name deployment of
       None \<Rightarrow> from_sum (mj_stats lib None)
     | Some cname \<Rightarrow>
        bindc (gets (\<lambda>s. agent_link_for s (app_host_id app))) (\<lambda>link.
        bindc (to_text (is_running link cname)) (\<lambda>running.
        if \<not> running then from_sum (mj_stats lib None)
        else bindc (to_text (stats link cname)) (\<lambda>st. from_sum (mj_stats lib (Some st)))))))"

section \<open>The service\<close>

definition allowed_hosts :: "mcp_lib \<Rightarrow> string \<Rightarrow> string list" where
  "allowed_hosts lib base_domain = mj_default_hosts lib @ [base_domain]"

text \<open>Bearer tokens only: without a user the tool is not called.\<close>

definition mcp_auth :: "externals \<Rightarrow> headers \<Rightarrow> (current_user option \<Rightarrow> 'a tool) \<Rightarrow> (string + 'a) hub" where
  "mcp_auth x headers tool = bindc (bearer_user x headers) (\<lambda>user. attempt (tool (Some user)))"

section \<open>The tools and the routes\<close>

text \<open>A route's answer as a tool gives it.\<close>

definition answered :: "('a \<Rightarrow> string + 'b) \<Rightarrow> 'a hub \<Rightarrow> 'b tool" where
  "answered js m = bindc (map_err display m) (\<lambda>v. from_sum (js v))"

definition route :: "externals \<Rightarrow> current_user \<Rightarrow> http_method \<Rightarrow> string \<Rightarrow> 'a hub \<Rightarrow> 'a hub" where
  "route x user verb aid handler = enforce_app_access x [''app_id'' \<mapsto> aid] user verb handler"

lemma map_err_bindc: "map_err f (bindc m k) = bindc (map_err f m) (\<lambda>a. map_err f (k a))"
  by (auto simp: fun_eq_iff bindc_def map_err_def split: prod.splits outcome.splits)

lemma map_err_ret: "map_err f (ret a) = ret a"
  by (simp add: fun_eq_iff map_err_def ret_def)

lemma bindc_ret_right: "bindc m ret = m"
  by (auto simp: fun_eq_iff bindc_def ret_def split: prod.splits outcome.splits)

lemma with_app_route:
  "with_app x (Some user) aid (required_level verb) (\<lambda>app. to_text handler) = to_text (route x user verb aid handler)"
  by (simp add: with_app_def route_def enforce_app_access_def to_text_def map_err_bindc current_user_from_def from_sum_def ok_or_def)

lemma get_app_by_id_reads: "faults s = [] \<Longrightarrow> snd (get_app_by_id x aid s) = s"
  by (auto simp: get_app_by_id_def app_from_row_with_permissions_def load_permissions_def find_app_row_by_id_def
      bindc_def ok_or_def from_sum_def throw_def ret_def db_first_no_faults db_all_no_faults
      split: option.splits sum.splits prod.splits outcome.splits)

text \<open>A handler that begins with reading the app again reads the same.\<close>

lemma route_reads_twice:
  assumes "faults s = []"
  shows "to_text (route x user verb aid (bindc (get_app_by_id x aid) h)) s
    = with_app x (Some user) aid (required_level verb) (\<lambda>app. to_text (h app)) s"
proof -
  obtain r where "get_app_by_id x aid s = (r, s)"
    using get_app_by_id_reads [OF assms] by (metis prod.collapse)
  then show ?thesis
    by (cases r) (auto simp: with_app_def route_def enforce_app_access_def to_text_def current_user_from_def ok_or_def
        from_sum_def ret_def throw_def bindc_def map_err_def split: sum.splits)
qed

lemma with_app_bindc:
  "with_app x ext aid level (\<lambda>app. bindc (to_text (f app)) k) = bindc (with_app x ext aid level (\<lambda>app. to_text (f app))) k"
  by (simp add: with_app_def bindc_assoc)

lemma tool_reads_twice:
  assumes "faults s = []"
  shows "answered js (route x user verb aid (bindc (get_app_by_id x aid) h)) s
    = with_app x (Some user) aid (required_level verb) (\<lambda>app. bindc (to_text (h app)) (\<lambda>v. from_sum (js v))) s"
  unfolding with_app_bindc answered_def to_text_def [symmetric]
  using route_reads_twice [OF assms, where h = h and verb = verb and user = user and x = x and aid = aid] by (simp add: bindc_def)

lemma tool_writes:
  "with_app x (Some user) aid (required_level verb) (\<lambda>app. bindc (to_text handler) (\<lambda>v. from_sum (js v)))
    = answered js (route x user verb aid handler)"
  unfolding with_app_bindc with_app_route answered_def by (simp only: to_text_def)

lemma stats_tool:
  "bindc (to_text (bindc (get_deployment x aid did) (\<lambda>d.
     case dep_container_name d of
       None \<Rightarrow> ret None
     | Some cname \<Rightarrow>
        bindc (gets (\<lambda>s. agent_link_for s h)) (\<lambda>link.
        bindc (is_running link cname) (\<lambda>running.
        if \<not> running then ret None else bindc (stats link cname) (\<lambda>st. ret (Some st))))))) (\<lambda>v. from_sum (js v))
   = bindc (to_text (get_deployment x aid did)) (\<lambda>d.
     case dep_container_name d of
       None \<Rightarrow> from_sum (js None)
     | Some cname \<Rightarrow>
        bindc (gets (\<lambda>s. agent_link_for s h)) (\<lambda>link.
        bindc (to_text (is_running link cname)) (\<lambda>running.
        if \<not> running then from_sum (js None) else bindc (to_text (stats link cname)) (\<lambda>st. from_sum (js (Some st))))))"
proof -
  have gets: "map_err display (gets f) = gets f" for f :: "world \<Rightarrow> 'z"
    by (simp add: fun_eq_iff map_err_def gets_def)
  have if_err: "bindc (map_err display (if b then m else m')) k = (if b then bindc (map_err display m) k else bindc (map_err display m') k)"
    for b :: bool and m m' :: "container_stats option hub" and k :: "container_stats option \<Rightarrow> 'b tool" by simp
  show ?thesis
    unfolding to_text_def map_err_bindc bindc_assoc
    by (intro arg_cong2 [where f = bindc] refl ext)
       (simp add: map_err_bindc bindc_assoc map_err_ret gets if_err split: option.split cong: if_cong)
qed

text \<open>
  The logs: the route reads the deployment before it reads the app again, and says in other words
  that there are no logs. No other step fails with the error it has for that.
\<close>

definition never_raises :: "app_error \<Rightarrow> 'a hub \<Rightarrow> bool" where
  "never_raises err m \<longleftrightarrow> (\<forall>s. fst (m s) \<noteq> Fail err)"

lemma never_raises_basic:
  "never_raises err (ret a)" "never_raises err (gets f)" "never_raises err (throw e) \<longleftrightarrow> e \<noteq> err"
  "never_raises err (attempt m)"
  by (simp_all add: never_raises_def ret_def gets_def throw_def attempt_def split: prod.split outcome.split)

lemma never_raises_bindc: "never_raises err m \<Longrightarrow> (\<And>a. never_raises err (k a)) \<Longrightarrow> never_raises err (bindc m k)"
  unfolding never_raises_def by (auto simp: bindc_def split: prod.split outcome.split) (metis fst_conv)+

lemma never_raises_from_sum: "never_raises err (from_sum r) \<longleftrightarrow> r \<noteq> Inl err"
  by (simp add: never_raises_def from_sum_def ret_def throw_def split: sum.split)

lemma never_raises_ok_or: "e \<noteq> err \<Longrightarrow> never_raises err (ok_or e r)"
  by (simp add: never_raises_def ok_or_def ret_def throw_def split: option.split)

lemma never_raises_db: "(\<And>m. Db m \<noteq> err) \<Longrightarrow> never_raises err (db_all t P)" "(\<And>m. Db m \<noteq> err) \<Longrightarrow> never_raises err (db_first t P)"
  by (auto simp: never_raises_def db_all_def db_first_def db_read_def ext_call_def gets_def Let_def split: list.splits fault.splits)

lemma sbind_Inl: "sbind m k = Inl e \<longleftrightarrow> m = Inl e \<or> (\<exists>a. m = Inr a \<and> k a = Inl e)"
  by (cases m) (simp_all add: sbind_def)

lemma serr_Inl: "serr f m = Inl e \<longleftrightarrow> (\<exists>e'. m = Inl e' \<and> e = f e')"
  by (cases m) (auto simp: serr_def)

lemma rows_never_say_no_container:
  "permissions_from_rows us rows \<noteq> Inl (NoContainer d)" "app_from_row x row ps \<noteq> Inl (NoContainer d)"
  "deployment_from_row x e nm \<noteq> Inl (NoContainer d)"
proof -
  show "permissions_from_rows us rows \<noteq> Inl (NoContainer d)"
    by (induction us rows rule: permissions_from_rows.induct) (auto simp: sbind_Inl serr_Inl split: option.split)
qed (auto simp: app_from_row_def deployment_from_row_def status_of_row_def transpose_opt_def sbind_Inl serr_Inl split: option.splits)

lemma reads_never_say_no_container:
  "never_raises (NoContainer d) (get_app_by_id x aid)" "never_raises (NoContainer d) (get_deployment x aid did)"
  "never_raises (NoContainer d) (read_backlog dir kind)"
  "check_app_permission user app level \<noteq> Inl (NoContainer d)"
proof -
  have row: "never_raises (NoContainer d) (find_app_row_by_id x aid)"
    unfolding find_app_row_by_id_def
    by (intro never_raises_bindc never_raises_ok_or never_raises_db) (auto split: option.split simp: never_raises_basic intro!: never_raises_ok_or)
  show "check_app_permission user app level \<noteq> Inl (NoContainer d)"
    by (simp add: check_app_permission_def split: account_role.split)
  show "never_raises (NoContainer d) (get_app_by_id x aid)"
    unfolding get_app_by_id_def app_from_row_with_permissions_def load_permissions_def
    by (intro never_raises_bindc row never_raises_db)
       (auto simp: never_raises_from_sum never_raises_basic rows_never_say_no_container)
  show "never_raises (NoContainer d) (get_deployment x aid did)"
    unfolding get_deployment_def find_deployment_row_def
    by (intro never_raises_bindc row never_raises_db never_raises_ok_or)
       (auto simp: never_raises_from_sum never_raises_basic rows_never_say_no_container)
  show "never_raises (NoContainer d) (read_backlog dir kind)"
    unfolding read_backlog_def read_into_def
    by (auto intro!: never_raises_bindc split: sum.split simp: never_raises_basic)
qed

lemma get_deployment_reads: "faults s = [] \<Longrightarrow> snd (get_deployment x aid did s) = s"
  by (auto simp: get_deployment_def find_deployment_row_def find_app_row_by_id_def
      bindc_def ok_or_def from_sum_def throw_def ret_def db_first_no_faults
      split: option.splits sum.splits prod.splits outcome.splits)

definition logs_error_text :: "string \<Rightarrow> app_error \<Rightarrow> string" where
  "logs_error_text did e = (if e = NoContainer did then ''no logs recorded for this deployment yet'' else display e)"

lemma logs_body:
  "bindc (gets (\<lambda>s. deployment_dir s (app_id app) did)) (\<lambda>dir.
     bindc (to_text (log_active did)) (\<lambda>active.
     bindc (case active of
              Some kind \<Rightarrow> ret kind
            | None \<Rightarrow> bindc (to_text (resolve_terminal_phase dir)) (ok_or ''no logs recorded for this deployment yet'')) (\<lambda>kind.
     bindc (to_text (read_backlog dir kind)) (\<lambda>backlog.
     ret (utf8_lossy backlog)))))
   = bindc (map_err (logs_error_text did) (bindc (gets (\<lambda>s. deployment_dir s (app_id app) did)) (\<lambda>dir.
     bindc (log_active did) (\<lambda>active.
     bindc (case None of
              Some kind \<Rightarrow> ret kind
            | None \<Rightarrow>
               (case active of
                  Some kind \<Rightarrow> ret kind
                | None \<Rightarrow> bindc (resolve_terminal_phase dir) (\<lambda>k. ok_or (NoContainer did) k))) (\<lambda>kind.
     bindc (read_backlog dir kind) (\<lambda>backlog.
     ret \<lparr>lr_content_type = (if False then ''text/event-stream'' else ''text/plain; charset=utf-8''),
          lr_backlog = backlog, lr_live = (active = Some kind \<and> False)\<rparr>))))))
     (\<lambda>l. ret (utf8_lossy (lr_backlog l)))"
proof -
  have gets: "map_err f (gets g) = gets g" for f :: "app_error \<Rightarrow> string" and g :: "world \<Rightarrow> 'z"
    by (simp add: fun_eq_iff map_err_def gets_def)
  have log: "map_err display (read_backlog dir kind) = map_err (logs_error_text did) (read_backlog dir kind)" for dir kind
    using reads_never_say_no_container(3) [of did dir kind]
    by (auto simp: fun_eq_iff map_err_def logs_error_text_def never_raises_def split: prod.split outcome.split) (metis fst_conv)
  have none: "map_err (logs_error_text did) (ok_or (NoContainer did) k) = ok_or ''no logs recorded for this deployment yet'' k" for k
    by (simp add: fun_eq_iff ok_or_def map_err_def ret_def throw_def logs_error_text_def split: option.split)
  have kind: "map_err (logs_error_text did) (case active of Some kind \<Rightarrow> ret kind | None \<Rightarrow> bindc (resolve_terminal_phase dir) (\<lambda>k. ok_or (NoContainer did) k))
    = (case active of Some kind \<Rightarrow> ret kind
        | None \<Rightarrow> bindc (map_err display (resolve_terminal_phase dir)) (ok_or ''no logs recorded for this deployment yet''))" for active dir
    by (simp add: resolve_terminal_phase_def map_err_bindc map_err_ret gets none split: option.split)
  show ?thesis
    unfolding to_text_def by (simp add: map_err_bindc bindc_assoc map_err_ret gets kind log log_active_def)
qed

lemma logs_tool:
  assumes "faults s = []"
  shows "mcp_get_deployment_logs x lib (Some user) aid did s
    = bindc (map_err (logs_error_text did) (route x user GET aid (deployment_logs x aid did False None)))
        (\<lambda>l. ret (utf8_lossy (lr_backlog l))) s"
proof -
  obtain r where app: "get_app_by_id x aid s = (r, s)"
    using get_app_by_id_reads [OF assms] by (metis prod.collapse)
  obtain q where dep: "get_deployment x aid did s = (q, s)"
    using get_deployment_reads [OF assms] by (metis prod.collapse)
  have level: "Read = required_level GET" by (simp add: required_level_def)
  note never = reads_never_say_no_container [where d = did, unfolded never_raises_def]
  have r: "e \<noteq> NoContainer did" if "r = Fail e" for e
    using never(1) [of x aid, THEN spec, of s] app that by auto
  have q: "e \<noteq> NoContainer did" if "q = Fail e" for e
    using never(2) [of x aid did, THEN spec, of s] dep that by auto
  show ?thesis
  proof (cases r)
    case (Done app)
    show ?thesis
    proof (cases "check_app_permission user app (required_level GET)")
      case (Inl e)
      then have "e \<noteq> NoContainer did" using never(4) by metis
      then show ?thesis
        using \<open>get_app_by_id x aid s = (r, s)\<close> Done Inl
        by (simp add: mcp_get_deployment_logs_def with_app_def route_def enforce_app_access_def to_text_def level current_user_from_def
            ok_or_def from_sum_def ret_def throw_def bindc_def map_err_def logs_error_text_def)
    next
      case (Inr u)
      have tool: "mcp_get_deployment_logs x lib (Some user) aid did s = bindc (to_text (get_deployment x aid did)) (\<lambda>_.
          bindc (map_err (logs_error_text did) (bindc (gets (\<lambda>s. deployment_dir s (app_id app) did)) (\<lambda>dir.
     bindc (log_active did) (\<lambda>active.
     bindc (case None of
              Some kind \<Rightarrow> ret kind
            | None \<Rightarrow>
               (case active of
                  Some kind \<Rightarrow> ret kind
                | None \<Rightarrow> bindc (resolve_terminal_phase dir) (\<lambda>k. ok_or (NoContainer did) k))) (\<lambda>kind.
     bindc (read_backlog dir kind) (\<lambda>backlog.
     ret \<lparr>lr_content_type = (if False then ''text/event-stream'' else ''text/plain; charset=utf-8''),
          lr_backlog = backlog, lr_live = (active = Some kind \<and> False)\<rparr>))))))
          (\<lambda>l. ret (utf8_lossy (lr_backlog l)))) s"
        unfolding mcp_get_deployment_logs_def logs_body with_app_def
        using app Done Inr
        by (simp add: to_text_def level current_user_from_def from_sum_def ret_def bindc_def map_err_def)
      show ?thesis
        unfolding tool using app Done Inr dep q
        by (cases q) (simp_all add: route_def enforce_app_access_def deployment_logs_def to_text_def ok_or_def from_sum_def ret_def
            bindc_def map_err_def logs_error_text_def del: if_False)
    qed
  qed (use app r in \<open>simp_all add: mcp_get_deployment_logs_def with_app_def route_def enforce_app_access_def to_text_def
        current_user_from_def ok_or_def from_sum_def ret_def throw_def bindc_def map_err_def logs_error_text_def\<close>)
qed

text \<open>C19 An AI agent can do through the tools what its user can through the API, and nothing else. All
  ten tools answer, and leave everything, as the API's route does for the same user behind the
  access check, with the value as JSON and an error as its text. For the tools that write, for
  the list of the apps and for the creation of one this holds whatever calls to the outside fail.
  The four tools that read one app make fewer calls than their routes, so there it holds when all
  calls are answered. The logs come as text, what is no UTF-8 replaced, and the tool words the
  error that there are none in its own way.\<close>

theorem mcp_tools_match_the_routes:
  shows "mcp_list_apps x lib (Some user) s = answered (mj_apps lib) (list_apps_handler x user) s
    \<and> mcp_create_app x lib (Some user) name host_id src env_vars s
        = answered (mj_app lib) (create_app_handler x user name host_id src env_vars) s
    \<and> mcp_delete_app x (Some user) aid s = answered Inr (route x user DELETE aid (delete_app_with_containers x aid)) s
    \<and> mcp_deploy_from_git x lib (Some user) aid s = answered (mj_deployment lib) (route x user POST aid (start_git_deployment x aid)) s
    \<and> mcp_activate_deployment x (Some user) aid did s
        = answered Inr (route x user POST aid (activate_with_containers x aid did)) s
    \<and> mcp_delete_deployment x (Some user) aid did s
        = answered Inr (route x user DELETE aid (delete_deployment_with_containers x aid did)) s
    \<and> (faults s = [] \<longrightarrow>
        mcp_get_app x lib (Some user) aid s = answered (mj_app lib) (route x user GET aid (get_app_handler x aid)) s
      \<and> mcp_list_deployments x lib (Some user) aid s
          = answered (mj_deployments lib) (route x user GET aid (list_deployments_handler x aid)) s
      \<and> mcp_get_deployment_stats x lib (Some user) aid did s
          = answered (mj_stats lib) (route x user GET aid (deployment_stats x aid did)) s
      \<and> mcp_get_deployment_logs x lib (Some user) aid did s
          = bindc (map_err (logs_error_text did) (route x user GET aid (deployment_logs x aid did False None)))
              (\<lambda>l. ret (utf8_lossy (lr_backlog l))) s)"
proof -
  have level: "Read = required_level GET" "Write = required_level POST" "Write = required_level DELETE"
    by (simp_all add: required_level_def)
  have inr: "bindc (to_text m) (\<lambda>v. from_sum (Inr v)) = to_text m" for m :: "unit hub"
    by (simp add: from_sum_def bindc_ret_right)
  have writes: "with_app x (Some user) aid (required_level verb) (\<lambda>app. to_text m) = answered Inr (route x user verb aid m)"
    for verb and m :: "unit hub"
    using tool_writes [where js = Inr and handler = m and verb = verb] by (simp only: inr)
  have "mcp_list_apps x lib (Some user) s = answered (mj_apps lib) (list_apps_handler x user) s"
    and "mcp_create_app x lib (Some user) name host_id src env_vars s
        = answered (mj_app lib) (create_app_handler x user name host_id src env_vars) s"
    by (simp_all add: mcp_list_apps_def mcp_create_app_def answered_def list_apps_handler_def create_app_handler_def to_text_def
        map_err_bindc bindc_assoc current_user_from_def from_sum_def)
  moreover have "mcp_get_app x lib (Some user) aid s = answered (mj_app lib) (route x user GET aid (get_app_handler x aid)) s"
    if "faults s = []"
    unfolding mcp_get_app_def get_app_handler_def level(1) tool_reads_twice [OF that] ..
  moreover have "mcp_list_deployments x lib (Some user) aid s
      = answered (mj_deployments lib) (route x user GET aid (list_deployments_handler x aid)) s" if "faults s = []"
    unfolding mcp_list_deployments_def list_deployments_handler_def level(1) tool_reads_twice [OF that]
    by (simp add: to_text_def map_err_bindc bindc_assoc)
  moreover have "mcp_get_deployment_stats x lib (Some user) aid did s
      = answered (mj_stats lib) (route x user GET aid (deployment_stats x aid did)) s" if "faults s = []"
    unfolding mcp_get_deployment_stats_def deployment_stats_def level(1) tool_reads_twice [OF that] stats_tool ..
  ultimately show ?thesis
    using tool_writes [where js = "mj_deployment lib" and verb = POST] writes [where verb = POST] writes [where verb = DELETE] logs_tool
    unfolding mcp_delete_app_def mcp_deploy_from_git_def mcp_activate_deployment_def mcp_delete_deployment_def level(2,3) [symmetric]
    by simp
qed

definition sample_mcp :: mcp_lib where
  "sample_mcp = \<lparr>mj_apps = (\<lambda>vs. Inr (concat (map av_name vs))), mj_app = (\<lambda>v. Inr (av_name v)),
     mj_deployments = (\<lambda>vs. Inr (concat (map (\<lambda>v. dep_id (dv_deployment v)) vs))), mj_deployment = (\<lambda>d. Inr (dep_id d)),
     mj_stats = (\<lambda>st. Inr ''stats''), mj_default_hosts = [''localhost'']\<rparr>"

definition sample_mcp_world :: world where
  "sample_mcp_world = sample_world\<lparr>db := empty_database\<lparr>db_apps :=
     [\<lparr>a_id = 1, a_name = ''site'', a_source_json = ''upload'', a_env_vars_json = ''[]'',
       a_active_deployment_id = None, a_host_id = 1, a_created_at = 0, a_updated_at = 0\<rparr>]\<rparr>\<rparr>"

definition sample_root :: current_user where
  "sample_root = \<lparr>cu_id = 1, cu_username = ''root'', cu_role = Admin\<rparr>"

lemma mcp_tools_match_the_routes_witness:
  "fst (mcp_get_app sample_externals sample_mcp (Some sample_root) ''1'' sample_mcp_world) = Done ''site''
    \<and> fst (answered (mj_app sample_mcp) (route sample_externals sample_root GET ''1'' (get_app_handler sample_externals ''1'')) sample_mcp_world)
        = Done ''site''"
proof -
  have "faults sample_mcp_world = []" by (simp add: sample_mcp_world_def sample_world_def)
  note same = mcp_tools_match_the_routes [where s = sample_mcp_world and x = sample_externals and lib = sample_mcp and user = sample_root and aid = "''1''"]
  have "case fst (mcp_get_app sample_externals sample_mcp (Some sample_root) ''1'' sample_mcp_world) of
      Done v \<Rightarrow> v = ''site'' | Fail _ \<Rightarrow> False | Crash \<Rightarrow> False"
    by code_simp
  then have "fst (mcp_get_app sample_externals sample_mcp (Some sample_root) ''1'' sample_mcp_world) = Done ''site''"
    by (simp split: outcome.splits)
  with same \<open>faults sample_mcp_world = []\<close> show ?thesis by simp
qed

end
