(* ===== verification/Shipping.thy ===== *)
theory Shipping
  imports AgentMain DeploymentStore
begin

text \<open>
  A deployment's files on their way to the agent: the hub zips the directory and sends the archive
  in chunks (\<open>agent_fs.rs\<close>), the agent collects them, however they interleave with other messages,
  unpacks the archive and puts it in place (\<open>main.rs\<close>, \<open>handlers.rs\<close>, \<open>fs_ops.rs\<close>).
\<close>

section \<open>The archive of a directory\<close>

text \<open>The entries found below \<open>u\<close>, laid over a tree that has the directories down to \<open>u\<close>.\<close>

definition filled :: "(path \<Rightarrow> bool) \<Rightarrow> (path \<rightharpoonup> node) \<Rightarrow> (path \<rightharpoonup> node) \<Rightarrow> (path \<rightharpoonup> node)" where
  "filled P content tr = (\<lambda>q. if P q \<and> content q \<noteq> None then content q else tr q)"

lemma filled_none: "filled (\<lambda>_. False) content tr = tr"
  by (simp add: filled_def)

lemma filled_filled: "filled P c (filled Q c tr) = filled (\<lambda>q. P q \<or> Q q) c tr"
  by (auto simp: filled_def fun_eq_iff)

lemma filled_outside: "\<not> P q \<Longrightarrow> filled P c tr q = tr q"
  by (simp add: filled_def)

lemma parent_snoc: "parent (u @ [x]) = u"
  by (simp add: parent_def)

lemma read_dir_Done: "read_dir p s = (Done xs, s') \<Longrightarrow> xs = children (fs s) p \<and> fs s' = fs s \<and> is_dir (fs s) p"
  unfolding read_dir_def by (elim ext_call_cases) (auto simp: is_dir_def split: option.splits node.splits)

lemma put_file: "(\<And>q. prefix q u \<Longrightarrow> tr q = Some Dir) \<Longrightarrow> put_entry tr (u @ [x], Some c) = tr(u @ [x] \<mapsto> File c)"
  by (auto simp: fun_eq_iff parent_snoc)

lemma put_dir: "(\<And>q. prefix q u \<Longrightarrow> tr q = Some Dir) \<Longrightarrow> put_entry tr (u @ [x], None) = tr(u @ [x] \<mapsto> Dir)"
  by (auto simp: fun_eq_iff)

lemma leaf_below:
  assumes "fs_wf t" and "map_of t (base @ u) = Some (File c)"
  shows "prefix u q \<Longrightarrow> q \<noteq> u \<Longrightarrow> map_of t (base @ q) = None"
  using wf_ancestors [OF assms(1), of "base @ u" "base @ q"] assms(2)
  by (cases "map_of t (base @ q)") (auto simp: is_dir_def strict_prefix_def)

text \<open>The archive's names are text: a name that is not UTF-8 would not arrive as it is.\<close>

definition utf8_names :: "path \<Rightarrow> filesystem \<Rightarrow> bool" where
  "utf8_names base t \<longleftrightarrow> (\<forall>q\<in>set (map fst t). prefix base q \<longrightarrow> list_all valid_utf8 (drop (length base) q))"

lemma names_kept:
  assumes "utf8_names base t" and "map_of t (base @ q) \<noteq> None" shows "map utf8_lossy q = q"
proof -
  have "base @ q \<in> set (map fst t)" using assms(2) map_of_None_keys [of t "base @ q"] by (metis map_of_eq_None_iff set_map)
  then have "list_all valid_utf8 q" using assms(1) by (force simp: utf8_names_def)
  then show ?thesis by (induction q) (simp_all add: utf8_lossy_valid)
qed

text \<open>One more name of a directory: its own entry, and what lies below it.\<close>

lemma filled_name_file:
  assumes "fs_wf t" and "map_of t (base @ u @ [x]) = Some (File c)"
  shows "tr(u @ [x] \<mapsto> File c) = filled (prefix (u @ [x])) (subtree base t) tr"
  using leaf_below [OF assms] assms(2) by (auto simp: filled_def subtree_def fun_eq_iff)

lemma filled_name_dir:
  assumes "map_of t (base @ u @ [x]) = Some Dir"
  shows "filled (strict_prefix (u @ [x])) (subtree base t) (tr(u @ [x] \<mapsto> Dir)) = filled (prefix (u @ [x])) (subtree base t) tr"
  using assms by (auto simp: filled_def subtree_def fun_eq_iff strict_prefix_def)

lemma all_names:
  assumes "fs_wf t"
  shows "filled (\<lambda>q. \<exists>x\<in>set (children t (base @ u)). prefix (u @ [x]) q) (subtree base t) tr
    = filled (strict_prefix u) (subtree base t) tr"
proof -
  have "\<exists>x\<in>set (children t (base @ u)). prefix (u @ [x]) q" if deep: "strict_prefix u q" and "subtree base t q \<noteq> None" for q
  proof -
    obtain x r where q: "q = u @ x # r" using strict_prefixE' [OF deep] by blast
    have "map_of t (base @ u @ [x]) \<noteq> None"
      using that wf_ancestors [OF assms, of "base @ u @ [x]" "base @ q"] q
      by (cases r) (auto simp: subtree_def is_dir_def strict_prefix_def)
    then show ?thesis by (auto simp: set_children path_exists_def q)
  qed
  moreover have "prefix (u @ [x]) q \<Longrightarrow> strict_prefix u q" for x q by (auto simp: strict_prefix_def prefix_def)
  ultimately show ?thesis by (auto simp: filled_def fun_eq_iff)
qed

lemma walked:
  "add_dir_to_zip n base (base @ u) s = (Done es, s') \<Longrightarrow> fs_wf (fs s) \<Longrightarrow> utf8_names base (fs s) \<Longrightarrow> (\<And>q. prefix q u \<Longrightarrow> tr q = Some Dir)
    \<Longrightarrow> fs s' = fs s \<and> foldl put_entry tr es = filled (strict_prefix u) (subtree base (fs s)) tr"
proof (induction n arbitrary: u s es s' tr)
  case 0
  then show ?case by simp
next
  case (Suc n)
  let ?step = "\<lambda>entries name. let p = (base @ u) @ [name]; relative = map utf8_lossy (drop (length base) p) in
        bindc (gets (\<lambda>s. is_dir (fs s) p)) (\<lambda>d.
        if d then bindc (add_dir_to_zip n base p) (\<lambda>sub. ret (entries @ [(relative, None)] @ sub))
        else bindc (io (read_file p)) (\<lambda>bytes. ret (entries @ [(relative, Some bytes)])))"
  have one: "fs s2 = fs s1 \<and> foldl put_entry tr es2 = filled (prefix (u @ [x])) (subtree base (fs s1)) (foldl put_entry tr es1)"
    if run: "?step es1 x s1 = (Done es2, s2)" and wf: "fs_wf (fs s1)" and nm: "utf8_names base (fs s1)"
      and top: "\<And>q. prefix q u \<Longrightarrow> foldl put_entry tr es1 q = Some Dir" for es1 es2 x s1 s2
  proof (cases "is_dir (fs s1) (base @ u @ [x])")
    case True
    then have names: "map utf8_lossy u = u \<and> utf8_lossy x = x" using names_kept [OF nm, of "u @ [x]"] by (simp add: is_dir_def)
    then obtain sub where sub: "add_dir_to_zip n base (base @ u @ [x]) s1 = (Done sub, s2)"
      "es2 = es1 @ (u @ [x], None) # sub"
      using run True by (auto simp: Let_def gets_def ret_def elim!: bindc_DoneE split: if_splits)
    let ?tr = "(foldl put_entry tr es1)(u @ [x] \<mapsto> Dir)"
    have "fs s2 = fs s1 \<and> foldl put_entry ?tr sub = filled (strict_prefix (u @ [x])) (subtree base (fs s1)) ?tr"
    proof (rule Suc.IH [OF _ wf nm])
      show "?tr q = Some Dir" if "prefix q (u @ [x])" for q using that top by (auto simp: prefix_snoc)
    qed (simp add: sub(1))
    then show ?thesis using put_dir [OF top] filled_name_dir True by (simp add: sub(2) is_dir_def)
  next
    case False
    then obtain c where rd: "read_file (base @ u @ [x]) s1 = (Done c, s2)" and es: "es2 = es1 @ [(map utf8_lossy (u @ [x]), Some c)]"
      using run by (auto simp: Let_def gets_def ret_def io_Done elim!: bindc_DoneE split: if_splits)
    then have es2: "es2 = es1 @ [(u @ [x], Some c)]"
      using names_kept [OF nm, of "u @ [x]"] read_file_Done [OF rd] by simp
    then show ?thesis using read_file_Done [OF rd] put_file [OF top] filled_name_file [OF wf] by simp
  qed
  have all: "foldc ?step es0 xs s0 = (Done es1, s1) \<Longrightarrow> fs_wf (fs s0) \<Longrightarrow> utf8_names base (fs s0) \<Longrightarrow> (\<And>q. prefix q u \<Longrightarrow> foldl put_entry tr es0 q = Some Dir)
    \<Longrightarrow> fs s1 = fs s0 \<and> foldl put_entry tr es1
        = filled (\<lambda>q. \<exists>x\<in>set xs. prefix (u @ [x]) q) (subtree base (fs s0)) (foldl put_entry tr es0)" for xs es0 s0 es1 s1
  proof (induction xs arbitrary: es0 s0)
    case Nil
    then show ?case by (simp add: ret_def filled_none)
  next
    case (Cons x xs)
    obtain es2 s2 where run: "?step es0 x s0 = (Done es2, s2)" "foldc ?step es2 xs s2 = (Done es1, s1)"
      using Cons.prems(1) by (subst (asm) foldc.simps(2)) (erule bindc_DoneE, blast)
    note first = one [OF run(1) Cons.prems(2,3,4)]
    have "prefix q u \<Longrightarrow> \<not> prefix (u @ [x]) q" for q by (auto simp: prefix_def)
    then have "foldl put_entry tr es2 q = Some Dir" if "prefix q u" for q
      using first Cons.prems(4) that by (simp add: filled_outside)
    then show ?case using Cons.IH [OF run(2)] first Cons.prems(2,3) by (simp add: filled_filled disj_commute)
  qed
  obtain xs s1 where rd: "read_dir (base @ u) s = (Done xs, s1)" and rest: "foldc ?step [] xs s1 = (Done es, s')"
    using Suc.prems(1) by (auto simp: io_Done elim!: bindc_DoneE)
  show ?case
    using read_dir_Done [OF rd] all [OF rest] Suc.prems(2-4) all_names by simp
qed

lemma walked_archive:
  assumes "add_dir_to_zip (Suc n) src src s = (Done es, s')" and "fs_wf (fs s)" and "utf8_names src (fs s)"
  shows "fs s' = fs s" and "archive_tree es = subtree src (fs s)"
proof -
  have "is_dir (fs s) src"
    using assms(1) by (auto simp: io_Done elim!: bindc_DoneE dest!: read_dir_Done)
  moreover have walk: "fs s' = fs s \<and> foldl put_entry [[] \<mapsto> Dir] es = filled (strict_prefix []) (subtree src (fs s)) [[] \<mapsto> Dir]"
    using walked [of "Suc n" src "[]" s es s' "[[] \<mapsto> Dir]"] assms by (simp del: add_dir_to_zip.simps)
  ultimately show "archive_tree es = subtree src (fs s)"
    by (auto simp: archive_tree_def filled_def fun_eq_iff strict_prefix_def subtree_def is_dir_def)
  show "fs s' = fs s" using walk by simp
qed

section \<open>The walks have fuel enough\<close>

text \<open>A walk over a fixed tree that ends without a crash unless the script asks for one.\<close>

definition walks :: "filesystem \<Rightarrow> 'a hub \<Rightarrow> bool" where
  "walks t m \<longleftrightarrow> (\<forall>s. fs s = t \<and> CrashNow \<notin> set (faults s) \<longrightarrow>
     fst (m s) \<noteq> Crash \<and> fs (snd (m s)) = t \<and> CrashNow \<notin> set (faults (snd (m s))))"

lemma walks_ret: "walks t (ret a)"
  by (simp add: walks_def ret_def)

lemma walks_bindc:
  assumes "walks t m" and "\<And>a. walks t (k a)"
  shows "walks t (bindc m k)"
  unfolding walks_def
proof (intro allI impI)
  fix s :: world assume s: "fs s = t \<and> CrashNow \<notin> set (faults s)"
  obtain r s1 where m: "m s = (r, s1)" by fastforce
  have s1: "r \<noteq> Crash" "fs s1 = t" "CrashNow \<notin> set (faults s1)"
    using assms(1) [unfolded walks_def, rule_format, OF s] m by simp_all
  show "fst (bindc m k s) \<noteq> Crash \<and> fs (snd (bindc m k s)) = t \<and> CrashNow \<notin> set (faults (snd (bindc m k s)))"
    using m s1 assms(2) [unfolded walks_def, rule_format, of s1] by (cases r) (simp_all add: bindc_def)
qed

lemma walks_foldc: "(\<And>acc a. walks t (f acc a)) \<Longrightarrow> walks t (foldc f acc xs)"
  by (induction xs arbitrary: acc) (simp_all add: walks_ret walks_bindc)

lemma walks_reads: "walks t (io (read_dir p))" "walks t (io (read_file p))" "walks t (io (file_len p))"
  unfolding read_dir_def read_file_def file_len_def
  by (auto simp: walks_def io_def map_err_def ext_call_def Let_def
      split: list.splits fault.splits option.splits node.splits prod.splits outcome.splits)

lemma walks_look: "walks t (k (is_dir t p)) \<Longrightarrow> walks t (bindc (gets (\<lambda>s. is_dir (fs s) p)) k)"
  by (auto simp: walks_def bindc_def gets_def)

lemma tree_depth_le: "is_dir t p \<Longrightarrow> length p \<le> tree_depth t"
proof -
  have "n \<in> set ns \<Longrightarrow> n \<le> fold max ns 0" for n :: nat and ns
    by (metis Max_ge List.finite_set Max.set_eq_fold insert_iff list.simps(15))
  then show "is_dir t p \<Longrightarrow> length p \<le> tree_depth t"
    unfolding tree_depth_def is_dir_def by (metis (no_types, lifting) comp_apply fst_conv image_eqI list.set_map map_of_SomeD)
qed

lemma add_dir_to_zip_walks:
  "tree_depth t < length dir + n \<Longrightarrow> 0 < n \<or> is_dir t dir \<Longrightarrow> walks t (add_dir_to_zip n base dir)"
proof (induction n arbitrary: dir)
  case 0
  then show ?case using tree_depth_le [of t dir] by simp
next
  case (Suc n)
  have sub: "walks t (add_dir_to_zip n base (dir @ [x]))" if "is_dir t (dir @ [x])" for x
    using Suc.IH [of "dir @ [x]"] Suc.prems(1) that by simp
  show ?case unfolding add_dir_to_zip.simps Let_def
    by (rule walks_bindc, rule walks_reads, rule walks_foldc, rule walks_look)
       (auto intro!: walks_bindc walks_reads walks_ret sub)
qed

lemma dir_size_bytes_walks:
  "tree_depth t < length dir + n \<Longrightarrow> 0 < n \<or> is_dir t dir \<Longrightarrow> walks t (dir_size_bytes n dir)"
proof (induction n arbitrary: dir)
  case 0
  then show ?case using tree_depth_le [of t dir] by simp
next
  case (Suc n)
  have sub: "walks t (dir_size_bytes n (dir @ [x]))" if "is_dir t (dir @ [x])" for x
    using Suc.IH [of "dir @ [x]"] Suc.prems(1) that by simp
  show ?case unfolding dir_size_bytes.simps Let_def
    by (rule walks_bindc, rule walks_reads, rule walks_foldc, rule walks_look)
       (auto intro!: walks_bindc walks_reads walks_ret sub)
qed

text \<open>The fuel the code's model takes - one more than the depth - is never used up.\<close>

lemma walks_have_fuel:
  "walks t (add_dir_to_zip (Suc (tree_depth t)) base dir)" "walks t (dir_size_bytes (Suc (tree_depth t)) dir)"
  by (rule add_dir_to_zip_walks dir_size_bytes_walks; simp)+

section \<open>What the hub sends\<close>

lemma subtree_put: "\<not> prefix src p \<Longrightarrow> subtree src (fs_put p n t) = subtree src t"
  by (auto simp: subtree_def map_of_fs_put fun_eq_iff)

lemma zip_dir_Done:
  assumes "zip_dir x src zip_path s = (Done (), s')" and "dirs_in {} (fs s)" and "\<not> prefix src zip_path"
    and "utf8_names src (fs s)"
  obtains es bytes where "x_zip_write x es = Inr bytes" and "archive_tree es = subtree src (fs s)"
    and "map_of (fs s') zip_path = Some (File bytes)"
proof -
  obtain s1 es s2 bytes where run: "write_file zip_path [] s = (Done (), s1)"
    "add_dir_to_zip (Suc (tree_depth (fs s1))) src src s1 = (Done es, s2)"
    "x_zip_write x es = Inr bytes" "write_file zip_path bytes s2 = (Done (), s')"
    using assms(1) unfolding zip_dir_def
    by (auto simp: io_Done gets_def ret_def from_sum_def map_err_def throw_def simp del: add_dir_to_zip.simps
        elim!: bindc_DoneE split: sum.splits)
  have put: "fs s1 = fs_put zip_path (File []) (fs s)" "zip_path \<noteq> []"
    using write_file_effect [OF run(1)] assms(2) by (auto simp: dirs_in_def)
  have "fs_wf (fs s1)"
    using keeps_run [OF keeps_write_file [OF put(2)] run(1), of "{}"] assms(2) by (simp add: dirs_in_def)
  moreover have "utf8_names src (fs s1)" using assms(3,4) by (auto simp: put utf8_names_def fs_put_def)
  ultimately have walk: "fs s2 = fs s1" "archive_tree es = subtree src (fs s1)"
    using walked_archive [OF run(2)] by auto
  show ?thesis
    by (rule that [OF run(3)]) (use walk put subtree_put [OF assms(3)] write_file_effect [OF run(4)] in \<open>auto simp: map_of_fs_put\<close>)
qed

lemma call_streamed_Done:
  assumes "call_streamed link ps s = (Done p, s')"
  obtains h where "link = Some h" and "rpc_log s' = rpc_log s @ [(h, ps)]"
  using assms unfolding call_streamed_def
  by (auto simp: throw_def next_answer_def Let_def elim!: ext_call_cases intro: that split: option.splits list.splits)

lemma upload_zip_and_extract_Done:
  assumes "upload_zip_and_extract link did zip_path mx s = (Done n, s')"
  obtains h bytes where "link = Some h" and "map_of (fs s) zip_path = Some (File bytes)"
    and "rpc_log s' = rpc_log s @ [(h, upload_payloads did mx bytes)]"
proof -
  obtain bytes s1 p s2 where run: "read_file zip_path s = (Done bytes, s1)"
    "call_streamed link (upload_payloads did mx bytes) s1 = (Done p, s2)" and "s' = s2"
    using assms unfolding upload_zip_and_extract_def
    by (auto simp: io_Done throw_def ret_def elim!: bindc_DoneE split: agent_payload.splits upload_result.splits)
  moreover have "rpc_log s1 = rpc_log s"
    using run(1) unfolding read_file_def by (elim ext_call_cases) (auto split: option.splits node.splits)
  ultimately show ?thesis using read_file_Done [OF run(1)] call_streamed_Done [OF run(2)] that by metis
qed

lemma create_deployment_dir_Done:
  assumes "create_deployment_dir link did s = (Done (), s')"
  obtains h where "link = Some h" and "rpc_log s' = rpc_log s @ [(h, [CreateDeploymentDir did])]"
proof -
  obtain p s1 where "call_streamed link [CreateDeploymentDir did] s = (Done p, s1)" and "s' = s1"
    using assms unfolding create_deployment_dir_def call_def
    by (auto simp: throw_def from_sum_def ret_def elim!: bindc_DoneE split: agent_payload.splits sum.splits)
  then show ?thesis using that by (auto elim: call_streamed_Done)
qed

lemma find_app_row_run:
  "find_app_row_by_id x aid s = (r, s') \<Longrightarrow> fs s' = fs s \<and> data_dir s' = data_dir s \<and> rpc_log s' = rpc_log s \<and> limits s' = limits s"
  by (intro conjI; erule leaves_run [rotated]; rule leaves_intros; simp)

lemma unique_tmp_path_run:
  obtains nm s' where "unique_tmp_path pre s = (Done (data_dir s @ [''tmp'', nm]), s')"
    and "fs s' = fs s" and "data_dir s' = data_dir s" and "rpc_log s' = rpc_log s" and "limits s' = limits s"
  by (auto simp: unique_tmp_path_def gets_def bindc_def ret_def next_seq_def modify_def tmp_dir_def intro: that)

lemma ship_run_deployment_Done:
  assumes run: "ship_run_deployment_to_agent x aid did s = (Done (), s')"
    and row: "find_app_row_by_id x aid s = (Done app, s0)" and tree: "dirs_in {} (fs s)"
    and names: "utf8_names src (fs s)" and src: "src = deployment_files_dir s (x_uuid_str x (a_id app)) did"
  obtains es bytes where "x_zip_write x es = Inr bytes" and "archive_tree es = subtree src (fs s)"
    and "rpc_log s' = rpc_log s @ [(a_host_id app, [CreateDeploymentDir did]),
      (a_host_id app, upload_payloads did (lim_max_uncompressed_bytes (limits s)) bytes)]"
proof -
  let ?mx = "lim_max_uncompressed_bytes (limits s)"
  note same = find_app_row_run [OF row]
  obtain nm s1 where tmp: "unique_tmp_path ''ship-to-agent'' s0 = (Done (data_dir s0 @ [''tmp'', nm]) :: (app_error, path) outcome, s1)"
    and s1: "fs s1 = fs s0" "data_dir s1 = data_dir s0" "rpc_log s1 = rpc_log s0" "limits s1 = limits s0"
    by (rule unique_tmp_path_run)
  define zp where "zp = with_extension ''zip'' (data_dir s0 @ [''tmp'', nm])"
  have src0: "deployment_files_dir s0 (x_uuid_str x (a_id app)) did = src"
    using src same by (simp add: deployment_files_dir_def deployment_dir_def apps_dir_def)
  obtain s2 s3 s4 n q where
      zip: "zip_dir x src zp s1 = (Done (), s2)"
    and made: "create_deployment_dir (agent_link_for s2 (a_host_id app)) did s2 = (Done (), s3)"
    and up: "upload_zip_and_extract (agent_link_for s2 (a_host_id app)) did zp (lim_max_uncompressed_bytes (limits s3)) s3 = (Done n, s4)"
    and clean: "remove_file_logged zp s4 = (q, s')"
    using run row tmp src0 unfolding ship_run_deployment_to_agent_def
    by (auto simp: gets_def Let_def attempt_def from_sum_def throw_def ret_def zp_def [symmetric]
        elim!: bindc_DoneE split: prod.splits outcome.splits sum.splits)
  have "\<not> prefix src zp"
    by (simp add: zp_def src with_extension_def deployment_files_dir_def deployment_dir_def apps_dir_def butlast_append same)
  then obtain es bytes where es: "x_zip_write x es = Inr bytes" "archive_tree es = subtree src (fs s1)"
      "map_of (fs s2) zp = Some (File bytes)"
    using zip_dir_Done [OF zip] tree names same s1 by metis
  have quiet: "rpc_log s2 = rpc_log s1" "fs s3 = fs s2" "rpc_log s' = rpc_log s4" "limits s3 = limits s"
    using leaves_run [OF leaves_zip_dir [of limits] zip] leaves_run [OF leaves_agent_requests(4) [of limits] made] s1 same leaves_run [OF leaves_zip_dir [of rpc_log] zip] leaves_run [OF leaves_agent_requests(4) [of fs] made]
      leaves_run [OF leaves_cleanup(3) [of rpc_log] clean] by simp_all
  obtain h where "agent_link_for s2 (a_host_id app) = Some h" "rpc_log s3 = rpc_log s2 @ [(h, [CreateDeploymentDir did])]"
    using made by (rule create_deployment_dir_Done)
  moreover obtain h' bytes' where "agent_link_for s2 (a_host_id app) = Some h'" "map_of (fs s3) zp = Some (File bytes')"
      "rpc_log s4 = rpc_log s3 @ [(h', upload_payloads did (lim_max_uncompressed_bytes (limits s3)) bytes')]"
    using up by (rule upload_zip_and_extract_Done)
  ultimately have "rpc_log s' = rpc_log s @ [(a_host_id app, [CreateDeploymentDir did]), (a_host_id app, upload_payloads did ?mx bytes)]"
    using quiet es(3) s1 same by (auto simp: agent_link_for_def split: if_splits)
  then show ?thesis using that es s1 same by simp
qed

section \<open>What the agent collects\<close>

text \<open>The messages of one request, in order, out of all a session receives.\<close>

definition messages_of :: "u64 \<Rightarrow> (u64 \<times> hub_payload option) list \<Rightarrow> hub_payload list" where
  "messages_of request_id msgs = [p. (r, Some p) \<leftarrow> msgs, r = request_id]"

lemma messages_of_simps [simp]:
  "messages_of rid [] = []"
  "messages_of rid ((r, Some p) # msgs) = (if r = rid then p # messages_of rid msgs else messages_of rid msgs)"
  "messages_of rid ((r, None) # msgs) = messages_of rid msgs"
  by (simp_all add: messages_of_def)

lemma other_message:
  "r \<noteq> rid \<Longrightarrow> in_flight_uploads (receive_message (r, p) st) rid = in_flight_uploads st rid"
  by (auto simp: receive_message_def route_upload_chunk_def split: option.split hub_payload.split)

definition chunk_message :: "string \<Rightarrow> u64 \<Rightarrow> chunk \<Rightarrow> hub_payload" where
  "chunk_message did mx c = UploadZipAndExtract did mx (Some c)"

lemma chunks_appended:
  "in_flight_uploads st rid = Some task \<Longrightarrow> messages_of rid msgs = map (chunk_message did mx) cs
    \<Longrightarrow> in_flight_uploads (fold receive_message msgs st) rid = Some (task\<lparr>ut_chunks := ut_chunks task @ cs\<rparr>)"
proof (induction msgs arbitrary: st task cs)
  case Nil
  then show ?case by simp
next
  case (Cons m msgs)
  obtain r p where m: "m = (r, p)" by fastforce
  show ?case
  proof (cases "r = rid \<and> p \<noteq> None")
    case True
    then obtain c cs' where "cs = c # cs'" "p = Some (chunk_message did mx c)"
      using Cons.prems(2) m by (cases cs) auto
    moreover from this have "in_flight_uploads (receive_message m st) rid = Some (task\<lparr>ut_chunks := ut_chunks task @ [c]\<rparr>)"
      using m True Cons.prems(1) by (simp add: receive_message_def route_upload_chunk_def chunk_message_def)
    ultimately show ?thesis using Cons.IH [of _ _ cs'] Cons.prems(2) m True by simp
  next
    case False
    then have "in_flight_uploads (receive_message m st) rid = Some task"
      using Cons.prems(1) m by (cases p) (auto simp: other_message, simp add: receive_message_def)
    then show ?thesis using Cons.IH Cons.prems(2) m False by (cases p) auto
  qed
qed

lemma upload_collected:
  "in_flight_uploads st rid = None \<Longrightarrow> messages_of rid msgs = map (chunk_message did mx) cs \<Longrightarrow> cs \<noteq> []
    \<Longrightarrow> in_flight_uploads (fold receive_message msgs st) rid
      = Some \<lparr>ut_deployment_id = did, ut_max_uncompressed_bytes = mx, ut_chunks = cs\<rparr>"
proof (induction msgs arbitrary: st)
  case Nil
  then show ?case by simp
next
  case (Cons m msgs)
  obtain r p where m: "m = (r, p)" by fastforce
  show ?case
  proof (cases "r = rid \<and> p \<noteq> None")
    case True
    then obtain c cs' where cs: "cs = c # cs'" "p = Some (chunk_message did mx c)"
      using Cons.prems(2,3) m by (cases cs) auto
    then have "in_flight_uploads (receive_message m st) rid
        = Some \<lparr>ut_deployment_id = did, ut_max_uncompressed_bytes = mx, ut_chunks = [c]\<rparr>"
      using m True Cons.prems(1) by (simp add: receive_message_def route_upload_chunk_def chunk_message_def)
    then show ?thesis using chunks_appended [of _ rid _ msgs did mx cs'] Cons.prems(2) m True cs by simp
  next
    case False
    then have "in_flight_uploads (receive_message m st) rid = None"
      using Cons.prems(1) m by (cases p) (auto simp: other_message, simp add: receive_message_def)
    then show ?thesis using Cons.IH Cons.prems(2,3) m False by (cases p) auto
  qed
qed

definition sent_chunks :: "string \<Rightarrow> chunk list" where
  "sent_chunks bytes = map (\<lambda>c. \<lparr>ch_data = c, ch_is_final = False\<rparr>) (file_chunks upload_chunk_bytes bytes)
     @ [\<lparr>ch_data = [], ch_is_final = True\<rparr>]"

lemma upload_payloads_chunks: "upload_payloads did mx bytes = map (chunk_message did mx) (sent_chunks bytes)"
  by (simp add: upload_payloads_def sent_chunks_def chunk_message_def wrap_chunk_def)

section \<open>What the agent stores\<close>

lemma storing_append:
  assumes "append_file (tmp_dir_in d @ u) c s = (Done (), s')" and "storing d v s"
    and "map_of (fs s) (tmp_dir_in d @ u) = Some (File b)"
  shows "storing d v s' \<and> map_of (fs s') = (map_of (fs s))(tmp_dir_in d @ u \<mapsto> File (b @ c))"
proof -
  have neq: "deployment_dir_in d k @ p \<noteq> tmp_dir_in d @ u" for k p
    by (simp add: deployment_dir_in_def deployments_dir_in_def tmp_dir_in_def)
  note put = append_file_Done [OF assms(1,3)]
  have "stored d (fs s') = stored d (fs s)" by (rule stored_cong) (simp add: put neq)
  moreover have "agent_tree d s \<Longrightarrow> agent_tree d s'"
    unfolding agent_tree_def by (rule keeps_run [OF keeps_append_file assms(1)])
  ultimately show ?thesis using assms(2) put by (simp add: storing_def)
qed

lemma chunks_received:
  "receive_chunks (tmp_dir_in d @ u) (map (\<lambda>c. \<lparr>ch_data = c, ch_is_final = False\<rparr>) ds @ [\<lparr>ch_data = [], ch_is_final = True\<rparr>]) s = (Done (), s')
    \<Longrightarrow> storing d v s \<Longrightarrow> map_of (fs s) (tmp_dir_in d @ u) = Some (File b)
    \<Longrightarrow> storing d v s' \<and> (\<forall>q. map_of (fs s') q = (if q = tmp_dir_in d @ u then Some (File (b @ concat ds)) else map_of (fs s) q))"
proof (induction ds arbitrary: s b)
  case Nil
  then show ?case by (auto simp: sio_Done ret_def map_of_fs_put elim!: bindc_DoneE dest!: storing_append)
next
  case (Cons c ds)
  obtain s1 where run: "append_file (tmp_dir_in d @ u) c s = (Done (), s1)"
    "receive_chunks (tmp_dir_in d @ u) (map (\<lambda>c. \<lparr>ch_data = c, ch_is_final = False\<rparr>) ds @ [\<lparr>ch_data = [], ch_is_final = True\<rparr>]) s1 = (Done (), s')"
    using Cons.prems(1) by (auto simp: sio_Done elim!: bindc_DoneE)
  note app = storing_append [OF run(1) Cons.prems(2,3)]
  then have "map_of (fs s1) (tmp_dir_in d @ u) = Some (File (b @ c))" by (simp add: map_of_fs_put)
  then show ?case using Cons.IH [OF run(2)] app by (simp add: map_of_fs_put)
qed

lemma zip_received:
  assumes "receive_zip (tmp_dir_in d @ u) (sent_chunks bytes) s = (Done (), s')" and "storing d v s"
  shows "storing d v s' \<and> (\<forall>q. map_of (fs s') q = (if q = tmp_dir_in d @ u then Some (File bytes) else map_of (fs s) q))"
proof -
  obtain s1 where run: "write_file (tmp_dir_in d @ u) [] s = (Done (), s1)"
      "receive_chunks (tmp_dir_in d @ u) (sent_chunks bytes) s1 = (Done (), s')"
    using assms(1) by (auto simp: receive_zip_def sio_Done elim!: bindc_DoneE)
  have "storing d v s1" using keeps_run [OF storing_write run(1)] assms(2) .
  moreover have "concat (file_chunks upload_chunk_bytes bytes) = bytes"
    by (rule concat_file_chunks) (simp add: upload_chunk_bytes_def)
  ultimately show ?thesis
    using chunks_received [OF run(2) [unfolded sent_chunks_def], of v "[]"] write_file_effect [OF run(1)]
    by (simp add: map_of_fs_put)
qed

lemma remove_file_effect:
  "remove_file p s = (r, s') \<Longrightarrow> fs s' = fs s \<or> fs s' = fs_prune p (fs s)"
  unfolding remove_file_def by (elim ext_call_cases) (auto simp: set_fs_run split: option.splits node.splits)

lemma stored_remove_file:
  assumes "remove_file (upload_zip_path d k) s = (r, s')"
  shows "stored d (fs s') = stored d (fs s)"
  using remove_file_effect [OF assms]
  by (auto intro!: stored_cong simp: map_of_fs_prune upload_zip_path_def deployment_dir_in_def deployments_dir_in_def tmp_dir_in_def)

lemma no_faults_receive: "keeps (\<lambda>s. faults s = []) (receive_zip p cs)"
proof -
  have "keeps (\<lambda>s. faults s = []) (append_byte p b)" for p b
    unfolding append_byte_def keeps_def
    by (auto simp: ext_call_def set_fs_run split: option.split node.split list.split)
  then have append: "keeps (\<lambda>s. faults s = []) (append_file p c)" for p c
    unfolding append_file_def by (rule keeps_forc)
  have stores: "keeps (\<lambda>s. faults s = []) (write_file p c)" for p c
    unfolding write_file_def keeps_def
    by (auto simp: ext_call_def set_fs_run split: option.split node.split list.split)
  have "keeps (\<lambda>s. faults s = []) (receive_chunks p cs)"
    by (induction cs) (auto simp: sio_def intro!: keeps_intros append)
  then show ?thesis unfolding receive_zip_def sio_def by (intro keeps_intros stores)
qed

lemma handle_upload_stores:
  fixes a a' :: "'d agent"
  assumes run: "handle_upload ax d did mx (sent_chunks bytes) rid a = (Done () :: ('e, unit) outcome, a')"
    and answer: "last (outbox a') = (rid, UploadZipAndExtractResult (UpSize n))"
    and tree: "agent_tree d a" and clean: "faults a = [] \<or> \<not> path_exists (fs a) (upload_staging_dir d did)"
  shows "\<exists>content es. stored d (fs a) did = Some content \<and> ax_zip_read ax bytes = Inr es \<and> n \<le> mx
    \<and> stored d (fs a') = (stored d (fs a))(did \<mapsto> with_files content (archive_tree (map entry_of es)))"
proof -
  let ?zp = "upload_zip_path d did"
  obtain result a1 q a2 where
      body: "attempt (bindc (receive_zip ?zp (sent_chunks bytes)) (\<lambda>_. extract_and_place (ax_zip_read ax) d did ?zp mx)) a
        = (Done result :: ('e, string + u64) outcome, a1)"
    and gone: "remove_file ?zp a1 = (q, a2)"
    and a': "a' = a2\<lparr>outbox := outbox a2 @ [(rid, UploadZipAndExtractResult
        (case result of Inr n \<Rightarrow> UpSize n | Inl msg \<Rightarrow> UpError (agent_error_msg KCommandFailed msg)))]\<rparr>"
    using run unfolding handle_upload_def
    by (auto simp: Let_def send_def modify_def ignore_def elim!: bindc_DoneE split: prod.splits if_splits)
  then have "result = Inr n" using answer by (auto split: sum.splits)
  then obtain b where got: "receive_zip ?zp (sent_chunks bytes) a = (Done (), b)"
    and placed: "extract_and_place (ax_zip_read ax) d did ?zp mx b = (Done n, a1)"
    using body by (auto simp: attempt_Inr elim!: bindc_DoneE)
  have out: "\<not> prefix (upload_staging_dir d did) ?zp"
    by (simp add: upload_staging_dir_def upload_zip_path_def tmp_dir_in_def)
  have b: "storing d (stored d (fs a)) b" "\<forall>q. map_of (fs b) q = (if q = ?zp then Some (File bytes) else map_of (fs a) q)"
    using zip_received [OF got [unfolded upload_zip_path_def], of "stored d (fs a)"] tree
    by (simp_all add: storing_def upload_zip_path_def)
  have "faults b = [] \<or> \<not> path_exists (fs b) (upload_staging_dir d did)"
    using clean keeps_run [OF no_faults_receive got] b(2)
    by (auto simp: path_exists_def upload_zip_path_def upload_staging_dir_def)
  then obtain content es where "stored d (fs a) did = Some content" "ax_zip_read ax bytes = Inr es" "n \<le> mx"
      "stored d (fs a1) = (stored d (fs a))(did \<mapsto> with_files content (archive_tree (map entry_of es)))"
    using extract_and_place_step [OF b(1) placed out] b(2) by (auto simp: staging_base_def archive_tree_def)
  moreover have "stored d (fs a') = stored d (fs a1)" using stored_remove_file [OF gone] a' by simp
  ultimately show ?thesis by auto
qed

section \<open>Properties\<close>

text \<open>C8 A deployment's files arrive. When the hub ships a deployment and its messages reach the
  agent in order, mixed with any other traffic, the task they start stores, under the
  deployment's id, exactly the directory the hub holds - if it reports success and nothing stood
  in the way of clearing its staging directory - and no other deployment of the agent changes.
  The names must be UTF-8; of the zip crate it is assumed that it reads back the entries it wrote.\<close>

theorem shipped_files_arrive:
  fixes a a' :: "'d agent"
  assumes crate: "\<And>es bytes. x_zip_write x es = Inr bytes \<Longrightarrow>
      ax_zip_read ax bytes = Inr (map (\<lambda>(p, c). (Some p, c, of_nat (length (case c of Some b \<Rightarrow> b | None \<Rightarrow> [])))) es)"
    and "dirs_in {} (fs s)" and "utf8_names (deployment_files_dir s (x_uuid_str x (a_id app)) did) (fs s)"
    and "find_app_row_by_id x aid s = (Done app, s0)"
    and "ship_run_deployment_to_agent x aid did s = (Done (), s')"
    and sent: "last (rpc_log s') = (a_host_id app, messages_of rid msgs)"
    and "in_flight_uploads st rid = None"
    and "agent_tree d a" and "faults a = [] \<or> \<not> path_exists (fs a) (upload_staging_dir d did)"
    and task: "in_flight_uploads (fold receive_message msgs st) rid = Some task"
    and run: "run_upload_task ax d rid task a = (Done () :: ('e, unit) outcome, a')"
    and answer: "last (outbox a') = (rid, UploadZipAndExtractResult (UpSize n))"
  shows "\<exists>content. stored d (fs a) did = Some content \<and> stored d (fs a') = (stored d (fs a))(did \<mapsto>
      with_files content (subtree (deployment_files_dir s (x_uuid_str x (a_id app)) did) (fs s)))"
proof -
  obtain es bytes where es: "x_zip_write x es = Inr bytes"
      "archive_tree es = subtree (deployment_files_dir s (x_uuid_str x (a_id app)) did) (fs s)"
    and log: "rpc_log s' = rpc_log s @ [(a_host_id app, [CreateDeploymentDir did]),
      (a_host_id app, upload_payloads did (lim_max_uncompressed_bytes (limits s)) bytes)]"
    using ship_run_deployment_Done [OF assms(5,4,2,3) refl] .
  have "messages_of rid msgs = map (chunk_message did (lim_max_uncompressed_bytes (limits s))) (sent_chunks bytes)"
    using sent log upload_payloads_chunks by simp
  from upload_collected [OF assms(7) this] have "task = \<lparr>ut_deployment_id = did,
      ut_max_uncompressed_bytes = lim_max_uncompressed_bytes (limits s), ut_chunks = sent_chunks bytes\<rparr>"
    using task by (simp add: sent_chunks_def)
  then have "handle_upload ax d did (lim_max_uncompressed_bytes (limits s)) (sent_chunks bytes) rid a = (Done () :: ('e, unit) outcome, a')"
    using run by (simp add: run_upload_task_def)
  from handle_upload_stores [OF this answer assms(8,9)] show ?thesis
    using crate [OF es(1)] es(2) by (auto simp: entry_of_def case_prod_beta comp_def)
qed

definition sample_shipping :: externals where
  "sample_shipping = sample_externals\<lparr>x_zip_write := (\<lambda>es. if es = [([''f''], Some ''hi'')] then Inr ''zip'' else Inl ''no'')\<rparr>"

definition sample_unzip :: agent_externals where
  "sample_unzip = \<lparr>ax_run_parse = Inl, ax_env_parse = Inl,
     ax_zip_read = (\<lambda>b. if b = ''zip'' then Inr [(Some [''f''], Some ''hi'', 2)] else Inl ''no''), ax_host_stats = (\<lambda>_. Inl [])\<rparr>"

definition sample_app_row :: db_app where
  "sample_app_row = \<lparr>a_id = 1, a_name = ''n'', a_source_json = ''run'', a_env_vars_json = ''[]'',
     a_active_deployment_id = None, a_host_id = 1, a_created_at = 0, a_updated_at = 0\<rparr>"

definition shipping_world :: world where
  "shipping_world = sample_world\<lparr>
     fs := fs sample_world @ [([''d'', ''apps'', ''1''], Dir), ([''d'', ''apps'', ''1'', ''deployments''], Dir),
       ([''d'', ''apps'', ''1'', ''deployments'', ''1''], Dir), ([''d'', ''apps'', ''1'', ''deployments'', ''1'', ''files''], Dir),
       ([''d'', ''apps'', ''1'', ''deployments'', ''1'', ''files'', ''f''], File ''hi'')],
     db := empty_database\<lparr>db_apps := [sample_app_row]\<rparr>, agent_hosts := [1],
     agent_script := [Some [CreateDeploymentDirResult CrOk], Some [UploadZipAndExtractResult (UpSize 2)]]\<rparr>"

definition receiving_agent :: "unit agent" where
  "receiving_agent = \<lparr>fs = [([], Dir), ([''a''], Dir), ([''a'', ''tmp''], Dir), ([''a'', ''deployments''], Dir),
     ([''a'', ''deployments'', ''1''], Dir)], faults = [], docker = (), outbox = [], cleanups = []\<rparr>"

lemma sample_chunks: "sent_chunks ''zip'' = [\<lparr>ch_data = ''zip'', ch_is_final = False\<rparr>, \<lparr>ch_data = [], ch_is_final = True\<rparr>]"
  by (simp add: sent_chunks_def file_chunks.simps upload_chunk_bytes_def)

lemma messages_of_own: "messages_of rid (map (\<lambda>p. (rid, Some p)) ps) = ps"
  by (induction ps) simp_all

definition shipping_zip :: path where
  "shipping_zip = [''d'', ''tmp'', ''ship-to-agent-0-0.zip'']"

lemma shipping_zip_path: "with_extension ''zip'' [''d'', ''tmp'', ''ship-to-agent-'' @ show_nat 0 @ ''-'' @ show_nat 0] = shipping_zip"
  by code_simp

lemma sample_zipped:
  "zip_dir sample_shipping [''d'', ''apps'', ''1'', ''deployments'', ''1'', ''files''] shipping_zip (shipping_world\<lparr>id_seq := 1\<rparr>)
    = (Done (), shipping_world\<lparr>id_seq := 1, fs := (shipping_zip, File ''zip'') # fs shipping_world\<rparr>)"
  by (simp add: zip_dir_def bindc_def io_def map_err_def ret_def from_sum_def gets_def tree_depth_def eval_nat_numeral Let_def
      write_file_def read_dir_def read_file_def ext_call_def set_fs_run parent_check_def parent_def fs_put_def children_def is_dir_def
      shipping_world_def sample_world_def sample_shipping_def shipping_zip_def utf8_lossy.simps cont_def)

lemma sample_row: "find_app_row_by_id sample_shipping ''1'' shipping_world = (Done sample_app_row, shipping_world)"
  by (simp add: find_app_row_by_id_def sample_shipping_def sample_externals_def sample_uuid_parse_def shipping_world_def
      ok_or_def db_first_def db_read_def gets_def ext_call_def sample_world_def sample_app_row_def bindc_def ret_def)

lemma shipping_fields:
  "faults shipping_world = []" "agent_hosts shipping_world = [1]" "a_host_id sample_app_row = 1" "rpc_log shipping_world = []"
  "agent_script shipping_world = [Some [CreateDeploymentDirResult CrOk], Some [UploadZipAndExtractResult (UpSize 2)]]"
  "lim_max_uncompressed_bytes (limits shipping_world) = 1000"
  by (simp_all add: shipping_world_def sample_world_def sample_app_row_def sample_limits_def)

lemma sample_dir: "deployment_files_dir shipping_world (x_uuid_str sample_shipping (a_id sample_app_row)) ''1''
      = [''d'', ''apps'', ''1'', ''deployments'', ''1'', ''files'']"
  by (simp add: deployment_files_dir_def deployment_dir_def apps_dir_def shipping_world_def
      sample_world_def sample_shipping_def sample_externals_def sample_uuid_str_def sample_app_row_def)

lemma sample_shipped: "\<exists>s'. ship_run_deployment_to_agent sample_shipping ''1'' ''1'' shipping_world = (Done (), s')"
proof -
  define nm where "nm = ''ship-to-agent'' @ ''-'' @ show_nat 0 @ ''-'' @ show_nat 0"
  have zip: "with_extension ''zip'' [''d'', ''tmp'', nm] = shipping_zip"
    using shipping_zip_path by (simp add: nm_def)
  have tmp: "unique_tmp_path ''ship-to-agent'' shipping_world = (Done [''d'', ''tmp'', nm], shipping_world\<lparr>id_seq := 1\<rparr>)"
    by (simp add: unique_tmp_path_def next_seq_def gets_def bindc_def ret_def tmp_dir_def shipping_world_def sample_world_def nm_def)
  let ?s = "shipping_world\<lparr>id_seq := 1, fs := (shipping_zip, File ''zip'') # fs shipping_world\<rparr>"
  have made: "create_deployment_dir (Some 1) ''1'' ?s = (Done (), ?s\<lparr>rpc_log := [(1, [CreateDeploymentDir ''1''])],
      agent_script := [Some [UploadZipAndExtractResult (UpSize 2)]]\<rparr>)"
    by (simp add: create_deployment_dir_def call_def call_streamed_def ext_call_def next_answer_def from_sum_def
        fs_command_result_def ret_def bindc_def shipping_fields)
  show ?thesis
    by (simp add: ship_run_deployment_to_agent_def sample_row sample_dir tmp zip sample_zipped made bindc_def gets_def Let_def attempt_def
        agent_link_for_def shipping_fields upload_zip_and_extract_def call_streamed_def ext_call_def next_answer_def from_sum_def
        ret_def io_def map_err_def read_file_def remove_file_logged_def ignore_def remove_file_def set_fs_run)
qed

definition sample_receiving :: "(string, unit) outcome \<times> unit agent" where
  "sample_receiving = run_upload_task sample_unzip [''a''] 7 \<lparr>ut_deployment_id = ''1'', ut_max_uncompressed_bytes = 1000,
     ut_chunks = [\<lparr>ch_data = ''zip'', ch_is_final = False\<rparr>, \<lparr>ch_data = [], ch_is_final = True\<rparr>]\<rparr> receiving_agent"

lemma sample_received:
  "\<exists>a' n. sample_receiving = (Done (), a') \<and> last (outbox a') = (7, UploadZipAndExtractResult (UpSize n))"
proof -
  have "case sample_receiving of (Done _, a') \<Rightarrow> (case last (outbox a') of
      (r, UploadZipAndExtractResult (UpSize n)) \<Rightarrow> r = 7 | _ \<Rightarrow> False) | _ \<Rightarrow> False"
    by code_simp
  then show ?thesis by (auto split: prod.splits outcome.splits agent_payload.splits upload_result.splits)
qed

lemma sample_names: "utf8_names (deployment_files_dir shipping_world (x_uuid_str sample_shipping (a_id sample_app_row)) ''1'') (fs shipping_world)"
  unfolding sample_dir by code_simp

lemma sample_sent:
  assumes "ship_run_deployment_to_agent sample_shipping ''1'' ''1'' shipping_world = (Done (), s')"
    and "dirs_in {} (fs shipping_world)"
  shows "last (rpc_log s') = (1, map (chunk_message ''1'' 1000) (sent_chunks ''zip''))"
proof -
  obtain es bytes where "x_zip_write sample_shipping es = Inr bytes"
      and "rpc_log s' = rpc_log shipping_world @ [(1, [CreateDeploymentDir ''1'']), (1, upload_payloads ''1'' 1000 bytes)]"
    using ship_run_deployment_Done [OF assms(1) sample_row assms(2) sample_names refl] unfolding shipping_fields by blast
  then show ?thesis by (simp add: sample_shipping_def upload_payloads_chunks split: if_splits)
qed

lemma shipped_files_arrive_witness:
  "\<exists>a'. snd sample_receiving = a' \<and> map_of (fs a') [''a'', ''deployments'', ''1'', ''files'', ''f''] = Some (File ''hi'')"
proof -
  let ?x = sample_shipping and ?s = shipping_world
  obtain s' where ship: "ship_run_deployment_to_agent ?x ''1'' ''1'' ?s = (Done (), s')" using sample_shipped ..
  obtain a' n where got: "sample_receiving = (Done (), a')" "last (outbox a') = (7, UploadZipAndExtractResult (UpSize n))"
    using sample_received by blast
  have crate: "ax_zip_read sample_unzip bytes = Inr (map (\<lambda>(p, c). (Some p, c, of_nat (length (case c of Some b \<Rightarrow> b | None \<Rightarrow> [])))) es)"
    if "x_zip_write ?x es = Inr bytes" for es bytes
    using that by (simp add: sample_shipping_def sample_unzip_def split: if_splits)
  have tree: "dirs_in {} (fs ?s)"
    by (simp add: dirs_in_def fs_wf_def is_dir_def shipping_world_def sample_world_def)
  let ?ps = "map (chunk_message ''1'' 1000) (sent_chunks ''zip'')" let ?msgs = "map (\<lambda>p. (7, Some p)) ?ps"
  have task: "in_flight_uploads (fold receive_message ?msgs session_new) 7
      = Some \<lparr>ut_deployment_id = ''1'', ut_max_uncompressed_bytes = 1000, ut_chunks = sent_chunks ''zip''\<rparr>"
    by (rule upload_collected, unfold messages_of_own) (simp_all add: session_new_def sent_chunks_def)
  have agent: "agent_tree [''a''] receiving_agent" "faults receiving_agent = []"
    by (simp_all add: agent_tree_def dirs_in_def fs_wf_def is_dir_def tmp_dir_in_def receiving_agent_def)
  have sent: "last (rpc_log s') = (a_host_id sample_app_row, messages_of 7 ?msgs)"
    unfolding messages_of_own using sample_sent [OF ship tree] by (simp add: shipping_fields)
  have new: "in_flight_uploads session_new 7 = None" by (simp add: session_new_def)
  have run: "run_upload_task sample_unzip [''a''] 7 \<lparr>ut_deployment_id = ''1'', ut_max_uncompressed_bytes = 1000,
      ut_chunks = sent_chunks ''zip''\<rparr> receiving_agent = (Done () :: (string, unit) outcome, a')"
    using got(1) by (simp add: sample_receiving_def sample_chunks)
  from shipped_files_arrive [OF crate tree sample_names sample_row ship sent new agent(1) disjI1 [OF agent(2)] task run got(2)]
  obtain content where "stored [''a''] (fs a') = (stored [''a''] (fs receiving_agent))(''1'' \<mapsto> with_files content
      (subtree (deployment_files_dir ?s (x_uuid_str ?x (a_id sample_app_row)) ''1'') (fs ?s)))" by blast
  then have "stored [''a''] (fs a') ''1'' \<noteq> None \<and> the (stored [''a''] (fs a') ''1'') [''files'', ''f''] = Some (File ''hi'')"
    by (simp add: with_files_def subtree_def deployment_files_dir_def deployment_dir_def apps_dir_def
        shipping_world_def sample_world_def sample_shipping_def sample_externals_def sample_uuid_str_def sample_app_row_def)
  then have "map_of (fs a') [''a'', ''deployments'', ''1'', ''files'', ''f''] = Some (File ''hi'')"
    by (auto simp: stored_def deployment_dir_in_def deployments_dir_in_def split: if_splits)
  then show ?thesis by (intro exI [of _ a'] conjI) (simp_all add: got(1))
qed

end
