(* ===== verification/RemoteCalls.thy ===== *)
theory RemoteCalls
  imports AgentHandlers UserRoutes
begin

text \<open>
  The two ends of the protocol together: a call of \<open>containers.rs\<close>, \<open>agent_fs.rs\<close> or
  \<open>host_stats.rs\<close> on the hub, answered by the dispatch of the agent's \<open>main.rs\<close>. What the hub's
  caller gets is what the operation returned on the agent, under the error of its kind; the
  errors for a reply of another type, an empty result or a stream without an end never occur.
\<close>

section \<open>Both ends\<close>

text \<open>What the agent has sent between two of its states.\<close>

definition replies_since :: "'d agent \<Rightarrow> 'd agent \<Rightarrow> agent_payload list" where
  "replies_since a a' = map snd (drop (length (outbox a)) (outbox a'))"

text \<open>An outcome on the agent as the hub's caller sees it.\<close>

definition remotely :: "('e \<Rightarrow> app_error) \<Rightarrow> ('e, 'a) outcome \<Rightarrow> (app_error, 'a) outcome" where
  "remotely f r = (case r of Done a \<Rightarrow> Done a | Fail e \<Rightarrow> Fail (f e) | Crash \<Rightarrow> Crash)"

fun start_error_at_hub :: "start_error \<Rightarrow> app_error" where
  "start_error_at_hub (SeUnavailable m) = ContainerUnavailable m"
| "start_error_at_hub (SeStartFailed m) = ContainerStartFailed m"
| "start_error_at_hub (SeCommandFailed m) = CommandFailed m"

lemma remotely_simps [simp]:
  "remotely f (Done v) = Done v" "remotely f (Fail e) = Fail (f e)" "remotely f Crash = Crash"
  by (simp_all add: remotely_def)

section \<open>What the agent's operations leave alone\<close>

lemma leaves_outbox_engine [leaves_intros]:
  "leaves outbox (engine_call f)" "leaves outbox (container_logs e n fl)" "leaves outbox (schedule_cleanup n)"
proof -
  show "leaves outbox (engine_call f)"
    unfolding engine_call_def
    by (rule leaves_ext_call) (auto simp: leaves_def split: prod.splits)
  show "leaves outbox (container_logs e n fl)" "leaves outbox (schedule_cleanup n)"
    by (auto simp: leaves_def container_logs_def schedule_cleanup_def modify_def split: prod.splits)
qed

lemma leaves_outbox_containers [leaves_intros]:
  "leaves outbox (container_running e n)" "leaves outbox (container_exists e n)" "leaves outbox (ensure_image e i)"
  "leaves outbox (stop_and_remove_container e n)" "leaves outbox (container_stats_of e n)"
  unfolding container_running_def container_exists_def ensure_image_def stop_and_remove_container_def
    container_stats_of_def Let_def by (intro leaves_intros)+

lemma leaves_outbox_directories [leaves_intros]:
  "leaves outbox (create_deployment_dir_fs d i)" "leaves outbox (delete_deployment_dir_fs d i)"
  "leaves outbox (list_deployment_dirs_fs d)"
  unfolding create_deployment_dir_fs_def delete_deployment_dir_fs_def list_deployment_dirs_fs_def sio_def Let_def
  by (intro leaves_intros; simp)+

lemma leaves_reply_of [leaves_intros]: "leaves g m \<Longrightarrow> leaves g (reply_of f h m)"
  unfolding reply_of_def by (intro leaves_intros)

text \<open>A property of the outbox is kept by a run whose log sink keeps it.\<close>

definition of_outbox :: "('d agent \<Rightarrow> bool) \<Rightarrow> bool" where
  "of_outbox I \<longleftrightarrow> (\<forall>a b. outbox a = outbox b \<longrightarrow> I a = I b)"

lemma keeps_outbox: "of_outbox I \<Longrightarrow> leaves outbox m \<Longrightarrow> keeps I m"
  unfolding of_outbox_def leaves_def keeps_def by blast

section \<open>Types of the replies\<close>

text \<open>
  The replies a request may have: the payload of the request's own kind, and in it a value - none
  of the empty results that the wire format allows.
\<close>

definition full_result :: "command_result \<Rightarrow> bool" where
  "full_result r \<longleftrightarrow> r \<noteq> CrNone"

definition full_output :: "command_output \<Rightarrow> bool" where
  "full_output out \<longleftrightarrow> (case out of CoLog c \<Rightarrow> True | CoResult r \<Rightarrow> full_result r | CoNone \<Rightarrow> False)"

definition reply_typed :: "hub_payload \<Rightarrow> agent_payload \<Rightarrow> bool" where
  "reply_typed payload reply =
     (case payload of
        GetHostStats \<Rightarrow> (case reply of HostStatsResult r \<Rightarrow> r \<noteq> HsNone | _ \<Rightarrow> False)
      | StartRunContainer req \<Rightarrow> (case reply of StartRunContainerResult out \<Rightarrow> full_output out | _ \<Rightarrow> False)
      | RunBuildCommand req \<Rightarrow> (case reply of RunBuildCommandResult out \<Rightarrow> full_output out | _ \<Rightarrow> False)
      | StopAndRemoveContainer n i \<Rightarrow> (case reply of StopAndRemoveContainerResult r \<Rightarrow> full_result r | _ \<Rightarrow> False)
      | IsContainerRunning n \<Rightarrow> (case reply of IsContainerRunningResult r \<Rightarrow> r \<noteq> IrNone | _ \<Rightarrow> False)
      | ContainerStatsReq n \<Rightarrow> (case reply of ContainerStatsResult r \<Rightarrow> r \<noteq> CsNone | _ \<Rightarrow> False)
      | StreamContainerLogs n f \<Rightarrow> (case reply of StreamContainerLogsChunk c \<Rightarrow> True | _ \<Rightarrow> False)
      | CreateDeploymentDir d \<Rightarrow> (case reply of CreateDeploymentDirResult r \<Rightarrow> full_result r | _ \<Rightarrow> False)
      | DeleteDeploymentDir d \<Rightarrow> (case reply of DeleteDeploymentDirResult r \<Rightarrow> full_result r | _ \<Rightarrow> False)
      | ListDeploymentDirs \<Rightarrow> (case reply of ListDeploymentDirsResult r \<Rightarrow> r \<noteq> LdNone | _ \<Rightarrow> False)
      | UploadZipAndExtract d m c \<Rightarrow> (case reply of UploadZipAndExtractResult r \<Rightarrow> r \<noteq> UpNone | _ \<Rightarrow> False)
      | RelayHttpRequest r \<Rightarrow> (case reply of RelayHttpResponse r \<Rightarrow> r \<noteq> RsNone | _ \<Rightarrow> False)
      | EchoUpload c \<Rightarrow> (case reply of EchoUploadResult n \<Rightarrow> True | _ \<Rightarrow> False)
      | EchoStreamRequest n \<Rightarrow> (case reply of EchoStreamChunk c \<Rightarrow> True | _ \<Rightarrow> False))"

text \<open>The replies sent since \<open>o0\<close> are replies to this request, of its type.\<close>

definition answers :: "u64 \<Rightarrow> hub_payload \<Rightarrow> (u64 \<times> agent_payload) list \<Rightarrow> 'd agent \<Rightarrow> bool" where
  "answers rid payload o0 a \<longleftrightarrow> (\<exists>ps. outbox a = o0 @ map (Pair rid) ps \<and> list_all (reply_typed payload) ps)"

lemma keeps_answers_send: "reply_typed payload p \<Longrightarrow> keeps (answers rid payload o0) (send rid p)"
proof (rule keepsI)
  fix a :: "'a agent" assume typed: "reply_typed payload p" and "answers rid payload o0 a"
  then obtain ps where "outbox a = o0 @ map (Pair rid) ps" "list_all (reply_typed payload) ps" by (auto simp: answers_def)
  then have "outbox (snd (send rid p a)) = o0 @ map (Pair rid) (ps @ [p]) \<and> list_all (reply_typed payload) (ps @ [p])"
    using typed by (simp add: send_def modify_def)
  then show "answers rid payload o0 (snd (send rid p a))" unfolding answers_def by (rule exI)
qed

lemma answers_of_outbox: "of_outbox (answers rid payload o0)"
  by (simp add: of_outbox_def answers_def)

lemma keeps_answers_reply:
  assumes "leaves outbox m" and "\<And>err. reply_typed payload (wrap (on_err err))" and "\<And>v. reply_typed payload (wrap (on_ok v))"
  shows "keeps (answers rid payload o0) (bindc (reply_of on_err on_ok m) (\<lambda>r. send rid (wrap r)))"
  unfolding reply_of_def bindc_assoc bindc_ret
  by (intro keeps_bindc keeps_attempt keeps_outbox [OF answers_of_outbox assms(1)] keeps_answers_send)
     (simp add: assms split: sum.split)

section \<open>One reply\<close>

lemma replies_since_send: "send rid p a = (r, a') \<Longrightarrow> outbox a = outbox b \<Longrightarrow> replies_since b a' = [p]"
  by (auto simp: send_def modify_def replies_since_def)

lemma one_reply:
  assumes "bindc (m :: ('d, 'e, 'r) agent_comp) (\<lambda>r. send rid (wrap r)) a = (Done (), a')" and "leaves outbox m"
  obtains r a1 where "m a = (Done r, a1)" and "replies_since a a' = [wrap r]"
proof -
  obtain r a1 where m: "m a = (Done r, a1)" and s: "send rid (wrap r) a1 = ((Done () :: ('e, unit) outcome), a')"
    using assms(1) by (rule bindc_DoneE)
  show thesis
    using that [OF m] replies_since_send [OF s] leaves_run [OF assms(2) m] by simp
qed

lemma reply_of_Done:
  assumes "reply_of on_err on_ok m a = (Done r, a')"
  shows "(\<exists>v. fst (m a) = Done v \<and> r = on_ok v) \<or> (\<exists>err. fst (m a) = Fail err \<and> r = on_err err)"
  using assms unfolding reply_of_def
  by (auto simp: attempt_def bindc_def ret_def split: prod.splits outcome.splits)

lemma call_answered:
  assumes "faults s = []" and "agent_script s = Some (p # ps) # rest"
  obtains s' where "call (Some h) q s = (Done p, s')"
  using assms by (simp add: call_def call_streamed_def ext_call_def next_answer_def)

text \<open>
  A call with one reply, between its two ends: \<open>payload\<close> asks for \<open>m\<close>, which the agent's dispatch
  runs to answer with \<open>wrap\<close> of the result; \<open>client\<close> is the hub's call.
\<close>

locale one_reply_call =
  fixes e :: "'d engine" and y :: agent_externals and dir :: path and rid :: u64 and payload :: hub_payload
    and m :: "'d agent \<Rightarrow> ('err, 'a) outcome \<times> 'd agent" and on_err :: "'err \<Rightarrow> 'r" and on_ok :: "'a \<Rightarrow> 'r"
    and wrap :: "'r \<Rightarrow> agent_payload"
    and client :: "agent_link \<Rightarrow> 'a hub" and f :: "'err \<Rightarrow> app_error"
    and dispatch :: "'d agent \<Rightarrow> ('x, unit) outcome \<times> 'd agent"
  assumes dispatched: "handle_request e y dir rid payload = dispatch"
    and dispatch: "dispatch = bindc (reply_of on_err on_ok m) (\<lambda>r. send rid (wrap r))"
    and silent: "leaves outbox m"
    and typed_error: "reply_typed payload (wrap (on_err err))" and typed_value: "reply_typed payload (wrap (on_ok v))"
    and reads_value: "call link payload s = (Done (wrap (on_ok v)), s') \<Longrightarrow> fst (client link s) = Done v"
    and reads_error: "call link payload s = (Done (wrap (on_err err)), s') \<Longrightarrow> fst (client link s) = Fail (f err)"
begin

lemma remote:
  assumes agent: "handle_request e y dir rid payload a = (Done () :: ('x, unit) outcome, a')"
    and hub: "faults s = []" "agent_script s = Some (replies_since a a') # rest"
  shows "fst (client (Some h) s) = remotely f (fst (m a))"
proof -
  obtain r a1 where r: "reply_of on_err on_ok m a = (Done r :: ('x, _) outcome, a1)" and ps: "replies_since a a' = [wrap r]"
    by (rule one_reply [OF agent [unfolded dispatched dispatch]]) (intro leaves_intros silent)
  obtain s' where "call (Some h) payload s = (Done (wrap r), s')"
    by (rule call_answered [OF hub(1) hub(2) [unfolded ps]])
  then show ?thesis
    using reply_of_Done [OF r] reads_value reads_error by auto
qed

lemma keeps_answers: "keeps (answers rid payload o0) (handle_request e y dir rid payload :: ('d, 'x, unit) agent_comp)"
  unfolding dispatched dispatch by (rule keeps_answers_reply) (rule silent typed_error typed_value)+

end

lemmas answer_simps = agent_error_of_def fs_agent_error_def agent_error_msg_def command_result_err_def command_result_ok_def
  command_result_to_app_result_def fs_command_result_def from_sum_def ret_def throw_def

text \<open>The calls of the hub and the operations of the agent, under the contract.\<close>

interpretation running: one_reply_call e y dir rid "IsContainerRunning n" "container_running e n" "\<lambda>msg. IrError (agent_error_msg KUnavailable msg)" "IrOk" IsContainerRunningResult "\<lambda>link. is_running link n" ContainerUnavailable
    "handle_request e y dir rid (IsContainerRunning n)"
  by unfold_locales
     (simp_all add: handle_request_def handle_is_running_def is_running_def leaves_intros reply_typed_def full_result_def bindc_Done answer_simps)

interpretation container_figures: one_reply_call e y dir rid "ContainerStatsReq n" "container_stats_of e n" "\<lambda>msg. CsError (agent_error_msg KUnavailable msg)" "CsOk" ContainerStatsResult "\<lambda>link. stats link n" ContainerUnavailable
    "handle_request e y dir rid (ContainerStatsReq n)"
  by unfold_locales
     (simp_all add: handle_request_def handle_container_stats_def stats_def leaves_intros reply_typed_def full_result_def bindc_Done answer_simps)

interpretation removal: one_reply_call e y dir rid "StopAndRemoveContainer n inst" "stop_and_remove_container e (if inst then install_container_name n else n)" "command_result_err KUnavailable" "\<lambda>_. command_result_ok" StopAndRemoveContainerResult "\<lambda>link. stop_and_remove link n inst" ContainerUnavailable
    "handle_request e y dir rid (StopAndRemoveContainer n inst)"
  by unfold_locales
     (simp_all add: handle_request_def handle_stop_and_remove_def Let_def stop_and_remove_def leaves_intros reply_typed_def full_result_def bindc_Done answer_simps)

interpretation creation: one_reply_call e y dir rid "CreateDeploymentDir d" "create_deployment_dir_fs dir d" "command_result_err KUnavailable" "\<lambda>_. command_result_ok" CreateDeploymentDirResult "\<lambda>link. create_deployment_dir link d" AgentOperationFailed
    "handle_request e y dir rid (CreateDeploymentDir d)"
  by unfold_locales
     (simp_all add: handle_request_def handle_create_dir_def create_deployment_dir_def leaves_intros reply_typed_def full_result_def bindc_Done answer_simps)

interpretation deletion: one_reply_call e y dir rid "DeleteDeploymentDir d" "delete_deployment_dir_fs dir d" "command_result_err KUnavailable" "\<lambda>_. command_result_ok" DeleteDeploymentDirResult "\<lambda>link. delete_deployment_dir link d" AgentOperationFailed
    "handle_request e y dir rid (DeleteDeploymentDir d)"
  by unfold_locales
     (simp_all add: handle_request_def handle_delete_dir_def delete_deployment_dir_def leaves_intros reply_typed_def full_result_def bindc_Done answer_simps)

interpretation directories: one_reply_call e y dir rid "ListDeploymentDirs" "list_deployment_dirs_fs dir" "\<lambda>msg. LdError (agent_error_msg KUnavailable msg)" "LdOk" ListDeploymentDirsResult "list_deployment_dirs" AgentOperationFailed
    "handle_request e y dir rid (ListDeploymentDirs)"
  by unfold_locales
     (simp_all add: handle_request_def handle_list_dirs_def list_deployment_dirs_def leaves_intros reply_typed_def full_result_def bindc_Done answer_simps)

section \<open>A stream of output and its result\<close>

text \<open>What a run with a forwarder has sent since \<open>o0\<close>: log chunks and nothing else.\<close>

definition logged :: "u64 \<Rightarrow> (command_output \<Rightarrow> agent_payload) \<Rightarrow> (u64 \<times> agent_payload) list \<Rightarrow> 'd agent \<Rightarrow> bool" where
  "logged rid wrap o0 a \<longleftrightarrow> (\<exists>cs. outbox a = o0 @ map (\<lambda>c. (rid, wrap (CoLog c))) cs)"

lemma keeps_logged_sink [keeps_intros]: "keeps (logged rid wrap o0) (log_forwarder rid wrap c)"
proof (rule keepsI)
  fix a :: "'a agent" assume "logged rid wrap o0 a"
  then obtain cs where "outbox a = o0 @ map (\<lambda>c. (rid, wrap (CoLog c))) cs" unfolding logged_def by (rule exE)
  then have "outbox (snd (log_forwarder rid wrap c a))
      = o0 @ map (\<lambda>c. (rid, wrap (CoLog c))) (cs @ [\<lparr>ch_data = c, ch_is_final = False\<rparr>])"
    by (simp add: log_forwarder_def send_def modify_def)
  then show "logged rid wrap o0 (snd (log_forwarder rid wrap c a))" unfolding logged_def by (rule exI)
qed

lemma keeps_forward_logs [keeps_intros]: "(\<And>c. keeps I (sink c)) \<Longrightarrow> keeps I (forward_logs cs sink)"
  by (induction cs sink rule: forward_logs.induct) (simp_all add: keeps_intros)

lemma keeps_run_command:
  assumes I: "of_outbox I" and sink: "\<And>c. keeps I (sink c)"
  shows "keeps I (run_command_to_completion e n d x (Some sink))"
proof -
  note quiet = keeps_outbox [OF I]
  have docker: "I a \<Longrightarrow> I (a\<lparr>docker := d\<rparr>)" for a d
    using I [unfolded of_outbox_def, rule_format, of "a\<lparr>docker := d\<rparr>" a] by simp
  have wait: "keeps I (\<lambda>s. case e_wait_container e n t (docker s) of (w, d) \<Rightarrow> (Done w, s\<lparr>docker := d\<rparr>))" for t
    using docker by (auto simp: keeps_def split: prod.splits)
  have "leaves outbox (wait_result e n t w)" for t w
    unfolding wait_result_def
    by (auto intro!: leaves_intros split: waited.splits docker_error.splits)
  note result = quiet [OF this]
  show ?thesis
    unfolding run_command_to_completion_def option.case
    by (intro keeps_intros wait result sink quiet) (intro leaves_intros)+
qed

lemma keeps_runs:
  assumes I: "of_outbox I" and sink: "\<And>c. keeps I (sink c)"
  shows "keeps I (start_container e n d c (Some sink))" and "keeps I (run_build_command_container e n d x (Some sink))"
proof -
  note run = keeps_run_command [OF I sink] and quiet = keeps_outbox [OF I]
  show "keeps I (start_container e n d c (Some sink))"
    unfolding start_container_def
    by (intro keeps_intros run quiet) (intro leaves_intros)+
  show "keeps I (run_build_command_container e n d x (Some sink))"
    unfolding run_build_command_container_def by (rule run)
qed

lemma keeps_logged_runs:
  "keeps (logged rid wrap o0) (start_container e n d c (Some (log_forwarder rid wrap)))"
  "keeps (logged rid wrap o0) (run_build_command_container e n d x (Some (log_forwarder rid wrap)))"
  by (rule keeps_runs; simp add: of_outbox_def logged_def keeps_logged_sink)+

text \<open>The replies of a streamed command: its log chunks, then the result.\<close>

definition result_of :: "(start_error, unit) outcome \<Rightarrow> command_result" where
  "result_of r = (case r of Fail err \<Rightarrow> start_error_to_command_result err | _ \<Rightarrow> command_result_ok)"

lemma stream_command_replies:
  assumes run: "stream_command rid wrap m a = (Done (), a')"
    and m: "\<And>o0. keeps (logged rid wrap o0) (m (Some (log_forwarder rid wrap)))"
  obtains cs r where "replies_since a a' = map (\<lambda>c. wrap (CoLog c)) cs @ [wrap (CoResult (result_of r))]"
    and "fst (m (Some (log_forwarder rid wrap)) a) = r" and "r \<noteq> Crash"
proof -
  let ?m = "m (Some (log_forwarder rid wrap))"
  obtain r a1 where r: "?m a = (r, a1)" by fastforce
  have "logged rid wrap (outbox a) a1"
    by (rule keeps_run [OF m r]) (simp add: logged_def exI [of _ "[]"])
  then obtain cs where cs: "outbox a1 = outbox a @ map (\<lambda>c. (rid, wrap (CoLog c))) cs" unfolding logged_def by (rule exE)
  have "r \<noteq> Crash" and "outbox a' = outbox a1 @ [(rid, wrap (CoResult (result_of r)))]"
    using run r by (auto simp: stream_command_def bindc_def attempt_def send_final_def send_def modify_def result_of_def
        split: outcome.splits)
  then show thesis
    using that [of cs r] r by (simp add: replies_since_def cs comp_def)
qed

section \<open>The hub reads the stream\<close>

text \<open>With no fault ahead, an operation ends with a value, whatever it finds, and brings none.\<close>

definition smooth :: "'a hub \<Rightarrow> bool" where
  "smooth m \<longleftrightarrow> (\<forall>s. faults s = [] \<longrightarrow> (\<exists>a s'. m s = (Done a, s') \<and> faults s' = []))"

lemma smoothE:
  assumes "smooth m" and "faults s = []"
  obtains a s' where "m s = (Done a, s')" and "faults s' = []"
  using assms unfolding smooth_def by blast

lemma smooth_ret: "smooth (ret a)"
  by (simp add: smooth_def ret_def)

lemma smooth_bindc:
  assumes "smooth m" and "\<And>a. smooth (k a)"
  shows "smooth (bindc m k)"
  unfolding smooth_def
proof (intro allI impI)
  fix s :: world assume "faults s = []"
  then obtain a s1 where "m s = (Done a, s1)" "faults s1 = []" by (rule smoothE [OF assms(1)])
  then show "\<exists>b s'. bindc m k s = (Done b, s') \<and> faults s' = []"
    using smoothE [OF assms(2), of s1 a] by (metis bindc_Done)
qed

text \<open>Without faults a call neither crashes nor brings one.\<close>

definition calm :: "(world, 'e, 'a) comp \<Rightarrow> bool" where
  "calm m \<longleftrightarrow> (\<forall>s. faults s = [] \<longrightarrow> fst (m s) \<noteq> Crash \<and> faults (snd (m s)) = [])"

lemma smooth_attempt: "calm m \<Longrightarrow> smooth (attempt m)"
  by (auto simp: calm_def smooth_def attempt_def split: prod.splits outcome.splits)

lemma calm_io: "calm m \<Longrightarrow> calm (io m)"
  by (auto simp: calm_def io_def map_err_def split: prod.splits outcome.splits)

lemma calm_bindc:
  assumes "calm m" and "\<And>a. calm (k a)"
  shows "calm (bindc m k)"
  unfolding calm_def
proof (intro allI impI)
  fix s :: world assume "faults s = []"
  moreover obtain r s1 where m: "m s = (r, s1)" by fastforce
  ultimately have "r \<noteq> Crash" "faults s1 = []" using assms(1) by (auto simp: calm_def)
  then show "fst (bindc m k s) \<noteq> Crash \<and> faults (snd (bindc m k s)) = []"
    using m assms(2) by (cases r) (auto simp: bindc_def calm_def)
qed

lemma calm_ret: "calm (ret a)"
  by (simp add: calm_def ret_def)

lemma calm_forc: "(\<And>x. calm (f x)) \<Longrightarrow> calm (forc xs f)"
  by (induction xs) (simp_all add: calm_ret calm_bindc)

lemma calm_log_calls:
  "calm (open_append p)" "calm (file_len p)" "calm (append_byte p b)" "calm (write_file p c)" "calm (rename p q)"
  unfolding open_append_def file_len_def append_byte_def write_file_def rename_def
  by (simp_all add: calm_def ext_call_def set_fs_run split: option.splits node.splits)

lemma calm_append_file: "calm (append_file p c)"
  unfolding append_file_def by (rule calm_forc, rule calm_log_calls)

lemmas calm_files = calm_log_calls calm_append_file

lemma calm_open_for_kind: "calm (open_for_kind k p)" "calm (rotate_and_reopen p)"
  unfolding open_for_kind_def rotate_and_reopen_def Let_def
  by (auto intro!: calm_bindc calm_io calm_files calm_ret)

lemma smooth_pump: "smooth (pump_try_new t)" "smooth (pump_push c q)" "smooth (pump_drop q)"
proof -
  have register: "smooth (try_register i k)" for i k
    by (auto simp: smooth_def try_register_def split: option.split)
  show "smooth (pump_try_new t)"
    unfolding pump_try_new_def
    by (auto intro!: smooth_bindc smooth_ret smooth_attempt register calm_open_for_kind calm_files split: option.split)
  have rotated: "smooth (pump_rotate q)" for q
    unfolding pump_rotate_def by (auto intro!: smooth_bindc smooth_ret smooth_attempt calm_open_for_kind)
  have persisted: "smooth (pump_persist c q)" for q
    unfolding pump_persist_def by (auto intro!: smooth_bindc smooth_ret smooth_attempt calm_files split: option.split)
  have broadcast: "smooth (modify (\<lambda>s. s\<lparr>broadcasts := f s\<rparr>))" for f
    by (simp add: smooth_def modify_def)
  show "smooth (pump_push c q)" unfolding pump_push_def by (intro smooth_bindc rotated persisted broadcast smooth_ret)
  show "smooth (pump_drop q)" by (simp add: smooth_def pump_drop_def deregister_def modify_def)
qed

lemma drain_logged:
  assumes "faults s = []" and log: "\<And>c. extract (wrap (CoLog c)) = Some (CoLog c)"
    and last: "extract (wrap (CoResult r)) = Some (CoResult r)"
  obtains q s' where "drain_loop extract (map (\<lambda>c. wrap (CoLog c)) cs @ [wrap (CoResult r)]) pump s = (Done (Some r, q), s')"
    and "faults s' = []"
  using assms(1)
proof (induction cs arbitrary: pump s thesis)
  case Nil
  then show ?case by (simp add: last ret_def)
next
  case (Cons c cs)
  show ?case
  proof (cases pump)
    case None
    then show ?thesis using Cons.IH [of None s] Cons.prems by (auto simp: log)
  next
    case (Some q)
    obtain q1 s1 where q1: "pump_push (ch_data c) q s = (Done q1, s1)" "faults s1 = []"
      using smooth_pump(2) Cons.prems(2) by (rule smoothE)
    show ?thesis
      using Cons.IH [of "Some q1" s1, OF _ q1(2)] Cons.prems(1) by (auto simp: log Some bindc_Done [of "pump_push (ch_data c) q", OF q1(1)])
  qed
qed

lemma streamed_remotely:
  assumes agent: "stream_command rid wrap m a = (Done (), a')"
    and m: "\<And>o0. keeps (logged rid wrap o0) (m (Some (log_forwarder rid wrap)))"
    and hub: "faults s = []" "agent_script s = Some (replies_since a a') # rest"
    and unwrap: "\<And>out. extract (wrap out) = Some out"
  shows "fst (bindc (call_streaming_reply (Some h) q) (\<lambda>replies.
      bindc (pump_for tgt) (\<lambda>pump. drain_command_output extract replies pump)) s)
    = remotely start_error_at_hub (fst (m (Some (log_forwarder rid wrap)) a))"
proof -
  obtain cs r where ps: "replies_since a a' = map (\<lambda>c. wrap (CoLog c)) cs @ [wrap (CoResult (result_of r))]"
    and r: "fst (m (Some (log_forwarder rid wrap)) a) = r" "r \<noteq> Crash"
    by (rule stream_command_replies [OF agent m])
  obtain s1 where s1: "call_streaming_reply (Some h) q s = (Done (replies_since a a'), s1)" "faults s1 = []"
    using hub by (simp add: call_streaming_reply_def ext_call_def next_answer_def)
  have "smooth (pump_for tgt)"
    unfolding pump_for_def by (auto intro: smooth_ret smooth_pump split: option.split)
  then obtain pump s2 where s2: "pump_for tgt s1 = (Done pump, s2)" "faults s2 = []"
    using s1(2) by (rule smoothE)
  obtain p' s3 where s3: "drain_loop extract (map (\<lambda>c. wrap (CoLog c)) cs @ [wrap (CoResult (result_of r))]) pump s2
      = (Done (Some (result_of r), p'), s3)" "faults s3 = []"
    using s2(2) unwrap unwrap by (rule drain_logged)
  have "smooth (drop_pump p')"
    unfolding drop_pump_def by (auto intro: smooth_ret smooth_pump split: option.split)
  then obtain u s4 where s4: "drop_pump p' s3 = (Done u, s4)"
    using s3(2) by (rule smoothE)
  have "command_result_to_app_result (result_of r)
      = (case r of Fail err \<Rightarrow> Inl (start_error_at_hub err) | _ \<Rightarrow> Inr ())"
    by (auto simp: result_of_def start_error_to_command_result_def answer_simps split: outcome.split start_error.split)
  then have "fst (drain_command_output extract (replies_since a a') pump s2) = remotely start_error_at_hub r"
    using r(2) unfolding drain_command_output_def ps bindc_Done [of "drain_loop _ _ _", OF s3(1)]
    by (simp add: bindc_Done [of "drop_pump p'", OF s4] from_sum_def ret_def throw_def remotely_def split: outcome.splits)
  then show ?thesis
    by (simp add: bindc_Done [of "call_streaming_reply (Some h) q", OF s1(1)] bindc_Done [of "pump_for tgt", OF s2(1)] r(1))
qed

lemma written_json: "map_err f (from_sum (Inr v)) = ret v"
  by (simp add: fun_eq_iff map_err_def from_sum_def ret_def)

lemma start_remotely:
  assumes agent: "handle_request e y dir rid (StartRunContainer
        \<lparr>sr_deployment_id = did, sr_container_name = n, sr_run_config_json = rj, sr_env_vars_json = ej,
         sr_install_timeout_secs = tmo\<rparr>) a = (Done () :: ('x, unit) outcome, a')"
    and hub: "faults s = []" "agent_script s = Some (replies_since a a') # rest"
    and json: "x_run_json x run = Inr rj" "ax_run_parse y rj = Inr run" "x_env_json x env = Inr ej" "ax_env_parse y ej = Inr env"
  shows "fst (start x (Some h) did n run env tmo tgt s) = remotely start_error_at_hub
      (fst (start_container e n (path_display (deployment_files_dir_in dir did))
         \<lparr>rcc_image = image_tag (rc_image run), rcc_install_command = rc_install_command run,
          rcc_start_command = rc_start_command run, rcc_env_vars = env, rcc_install_timeout = tmo\<rparr>
         (Some (log_forwarder rid StartRunContainerResult)) a))"
proof -
  have run: "stream_command rid StartRunContainerResult (start_container e n (path_display (deployment_files_dir_in dir did))
      \<lparr>rcc_image = image_tag (rc_image run), rcc_install_command = rc_install_command run,
       rcc_start_command = rc_start_command run, rcc_env_vars = env, rcc_install_timeout = tmo\<rparr>) a = (Done () :: ('x, unit) outcome, a')"
    using agent by (simp add: handle_request_def handle_start_run_container_def json)
  show ?thesis
    unfolding start_def json written_json bindc_ret
    by (rule streamed_remotely [OF run keeps_logged_runs(1) hub]) (simp add: start_output_def)
qed

lemma build_remotely:
  assumes agent: "handle_request e y dir rid (RunBuildCommand
        \<lparr>rb_container_name = n, rb_checkout_dir = path_display d, rb_image = bcc_image cfg, rb_command = bcc_command cfg,
         rb_env_vars_json = ej, rb_timeout_secs = bcc_timeout cfg\<rparr>) a = (Done () :: ('x, unit) outcome, a')"
    and hub: "faults s = []" "agent_script s = Some (replies_since a a') # rest"
    and json: "x_env_json x (bcc_env_vars cfg) = Inr ej" "ax_env_parse y ej = Inr (bcc_env_vars cfg)"
  shows "fst (run_build_command x (Some h) n d cfg tgt s) = remotely start_error_at_hub
      (fst (run_build_command_container e n (path_display d)
         \<lparr>ce_image = bcc_image cfg, ce_command = bcc_command cfg, ce_env_vars = bcc_env_vars cfg, ce_timeout = bcc_timeout cfg\<rparr>
         (Some (log_forwarder rid RunBuildCommandResult)) a))"
proof -
  have run: "stream_command rid RunBuildCommandResult (run_build_command_container e n (path_display d)
      \<lparr>ce_image = bcc_image cfg, ce_command = bcc_command cfg, ce_env_vars = bcc_env_vars cfg, ce_timeout = bcc_timeout cfg\<rparr>) a
      = (Done () :: ('x, unit) outcome, a')"
    using agent by (simp add: handle_request_def handle_run_build_command_def json)
  show ?thesis
    unfolding run_build_command_def json written_json bindc_ret
    by (rule streamed_remotely [OF run keeps_logged_runs(2) hub]) (simp add: build_output_def)
qed

lemma host_stats_remotely:
  assumes "handle_request e y dir rid GetHostStats a = (Done () :: ('x, unit) outcome, a')"
    and "faults s = []" and "agent_script s = Some (replies_since a a') # rest"
  shows "fst (get_host_stats (Some h) s) = Done (handle_host_stats y dir)"
proof -
  have sent: "replies_since a a' = [HostStatsResult (handle_host_stats y dir)]"
    by (rule replies_since_send [OF assms(1) [unfolded handle_request_def hub_payload.case] refl])
  obtain s' where "call (Some h) GetHostStats s = (Done (HostStatsResult (handle_host_stats y dir)), s')"
    by (rule call_answered [OF assms(2) assms(3) [unfolded sent]])
  then show ?thesis by (simp add: get_host_stats_def bindc_Done ret_def)
qed

lemma keeps_answers_stream:
  assumes "\<And>out. full_output out \<Longrightarrow> reply_typed payload (wrap out)"
    and "keeps (answers rid payload o0) (m (Some (log_forwarder rid wrap)))"
  shows "keeps (answers rid payload o0) (stream_command rid wrap m)"
  unfolding stream_command_def send_final_def
  by (intro keeps_bindc keeps_attempt keeps_answers_send assms)
     (simp add: full_output_def full_result_def command_result_ok_def start_error_to_command_result_def
        command_result_err_def split: sum.split start_error.split)

lemma keeps_answers_forwarder:
  "(\<And>out. full_output out \<Longrightarrow> reply_typed payload (wrap out)) \<Longrightarrow> keeps (answers rid payload o0) (log_forwarder rid wrap c)"
  unfolding log_forwarder_def by (intro keeps_answers_send) (simp add: full_output_def)

lemma keeps_answers_final_error:
  "(\<And>out. full_output out \<Longrightarrow> reply_typed payload (wrap out))
    \<Longrightarrow> keeps (answers rid payload o0) (send_final rid wrap (command_result_err k m))"
  unfolding send_final_def by (intro keeps_answers_send) (simp add: full_output_def full_result_def command_result_err_def)

lemma keeps_answers_logs: "keeps (answers rid (StreamContainerLogs n f) o0) (send_log_chunks rid cs)"
  by (induction rid cs rule: send_log_chunks.induct)
     (auto intro!: keeps_intros keeps_answers_send simp: reply_typed_def)

lemma keeps_answers_dispatch: "keeps (answers rid payload o0) (handle_request e y dir rid payload)"
proof (cases payload)
  case (StartRunContainer req)
  have typed: "full_output out \<Longrightarrow> reply_typed payload (StartRunContainerResult out)" for out
    by (simp add: StartRunContainer reply_typed_def)
  show ?thesis
    unfolding StartRunContainer handle_request_def hub_payload.case handle_start_run_container_def
    by (intro keeps_case_sum keeps_answers_final_error keeps_answers_stream keeps_runs answers_of_outbox
        keeps_answers_forwarder typed [unfolded StartRunContainer])
next
  case (RunBuildCommand req)
  have typed: "full_output out \<Longrightarrow> reply_typed payload (RunBuildCommandResult out)" for out
    by (simp add: RunBuildCommand reply_typed_def)
  show ?thesis
    unfolding RunBuildCommand handle_request_def hub_payload.case handle_run_build_command_def
    by (intro keeps_case_sum keeps_answers_final_error keeps_answers_stream keeps_runs answers_of_outbox
        keeps_answers_forwarder typed [unfolded RunBuildCommand])
next
  case (StreamContainerLogs n f)
  show ?thesis
    unfolding StreamContainerLogs handle_request_def hub_payload.case handle_stream_logs_def
    by (intro keeps_bindc keeps_outbox [OF answers_of_outbox leaves_outbox_engine(2)] keeps_answers_logs keeps_answers_send)
       (simp add: reply_typed_def)
next
  case GetHostStats
  show ?thesis
    unfolding GetHostStats handle_request_def hub_payload.case
    by (intro keeps_answers_send) (simp add: reply_typed_def handle_host_stats_def split: sum.split)
qed (simp_all add: running.keeps_answers container_figures.keeps_answers removal.keeps_answers creation.keeps_answers
      deletion.keeps_answers directories.keeps_answers handle_request_def [of e y dir rid "UploadZipAndExtract _ _ _"]
      handle_request_def [of e y dir rid "RelayHttpRequest _"] handle_request_def [of e y dir rid "EchoUpload _"]
      handle_request_def [of e y dir rid "EchoStreamRequest _"] keeps_ret)

lemma leaves_outbox_upload:
  "leaves outbox (receive_zip zp cs)" "leaves outbox (extract_and_place zr d i zp mx)" "leaves outbox (ignore (remove_file zp))"
proof -
  have "leaves outbox (receive_chunks zp cs)"
    by (induction zp cs rule: receive_chunks.induct) (auto intro!: leaves_intros simp: sio_def)
  then show "leaves outbox (receive_zip zp cs)"
    unfolding receive_zip_def sio_def by (auto intro!: leaves_intros)
  have entry: "leaves outbox (extract_entry_fs dest en)" for dest en
    unfolding extract_entry_fs_def sio_def Let_def by (auto intro!: leaves_intros split: option.split)
  have unpack: "leaves outbox (unpack_zip_fs zr b dest mx)" for b dest
    unfolding unpack_zip_fs_def by (intro leaves_intros entry)
  show "leaves outbox (extract_and_place zr d i zp mx)"
    unfolding extract_and_place_def sio_def Let_def remove_quietly_def by (intro leaves_intros unpack; simp)+
  show "leaves outbox (ignore (remove_file zp))" by (intro leaves_intros) simp
qed

lemma keeps_answers_upload: "keeps (answers rid (UploadZipAndExtract did mx c) o0) (run_upload_task y dir rid task)"
  unfolding run_upload_task_def handle_upload_def Let_def
  by (intro keeps_bindc keeps_attempt keeps_outbox [OF answers_of_outbox] leaves_outbox_upload keeps_answers_send)
     (simp add: reply_typed_def split: sum.split)

section \<open>Properties\<close>

text \<open>C20 The two ends agree on the types of their messages: whatever a request asks, whatever fails
  while it is handled, and even if the agent dies in the middle, every message that the dispatch
  sends goes out under the id of the request, carries the payload the hub expects for it, and is
  not one of the empty results of the wire format. The same holds for the task of an upload.\<close>

theorem replies_are_well_typed:
  "(\<exists>ps. outbox (snd (handle_request e y dir rid payload a)) = outbox a @ map (Pair rid) ps \<and> list_all (reply_typed payload) ps)
   \<and> (\<exists>ps. outbox (snd (run_upload_task y dir rid task a)) = outbox a @ map (Pair rid) ps
        \<and> list_all (reply_typed (UploadZipAndExtract did mx c)) ps)"
proof -
  have start: "answers rid p (outbox a) a" for p
    unfolding answers_def by (rule exI [of _ "[]"]) simp
  show ?thesis
    using keepsD [OF keeps_answers_dispatch start] keepsD [OF keeps_answers_upload start]
    unfolding answers_def by blast
qed

text \<open>C7 A call to an agent is the agent's own operation: when the hub gets the replies that the
  dispatch of the agent has sent for a request, the caller on the hub gets the value the operation
  returned there, or its error under the application error of its kind; a streamed command has its
  log lines pumped first, whatever happens to the log file. None of the hub's protocol errors - a
  reply of the wrong type, an empty result, a stream that closes without a result - is possible.
  Assumed of the JSON crates, for a start and a build, is that the agent reads what the hub wrote.\<close>

theorem remote_calls_are_local:
  assumes "handle_request e y dir rid payload a = (Done () :: ('x, unit) outcome, a')"
    and "faults s = []" and "agent_script s = Some (replies_since a a') # rest"
  shows "case payload of
      GetHostStats \<Rightarrow> fst (get_host_stats (Some h) s) = Done (handle_host_stats y dir)
    | IsContainerRunning n \<Rightarrow> fst (is_running (Some h) n s) = remotely ContainerUnavailable (fst (container_running e n a))
    | ContainerStatsReq n \<Rightarrow> fst (stats (Some h) n s) = remotely ContainerUnavailable (fst (container_stats_of e n a))
    | StopAndRemoveContainer n inst \<Rightarrow> fst (stop_and_remove (Some h) n inst s)
        = remotely ContainerUnavailable (fst (stop_and_remove_container e (if inst then install_container_name n else n) a))
    | CreateDeploymentDir d \<Rightarrow>
        fst (create_deployment_dir (Some h) d s) = remotely AgentOperationFailed (fst (create_deployment_dir_fs dir d a))
    | DeleteDeploymentDir d \<Rightarrow>
        fst (delete_deployment_dir (Some h) d s) = remotely AgentOperationFailed (fst (delete_deployment_dir_fs dir d a))
    | ListDeploymentDirs \<Rightarrow>
        fst (list_deployment_dirs (Some h) s) = remotely AgentOperationFailed (fst (list_deployment_dirs_fs dir a))
    | StartRunContainer req \<Rightarrow> \<forall>run env tgt.
        x_run_json x run = Inr (sr_run_config_json req) \<and> ax_run_parse y (sr_run_config_json req) = Inr run
        \<and> x_env_json x env = Inr (sr_env_vars_json req) \<and> ax_env_parse y (sr_env_vars_json req) = Inr env \<longrightarrow>
        fst (start x (Some h) (sr_deployment_id req) (sr_container_name req) run env (sr_install_timeout_secs req) tgt s)
        = remotely start_error_at_hub (fst (start_container e (sr_container_name req)
            (path_display (deployment_files_dir_in dir (sr_deployment_id req)))
            \<lparr>rcc_image = image_tag (rc_image run), rcc_install_command = rc_install_command run,
             rcc_start_command = rc_start_command run, rcc_env_vars = env, rcc_install_timeout = sr_install_timeout_secs req\<rparr>
            (Some (log_forwarder rid StartRunContainerResult)) a))
    | RunBuildCommand req \<Rightarrow> \<forall>env d tgt.
        x_env_json x env = Inr (rb_env_vars_json req) \<and> ax_env_parse y (rb_env_vars_json req) = Inr env
        \<and> rb_checkout_dir req = path_display d \<longrightarrow>
        fst (run_build_command x (Some h) (rb_container_name req) d
          \<lparr>bcc_image = rb_image req, bcc_command = rb_command req, bcc_env_vars = env, bcc_timeout = rb_timeout_secs req\<rparr> tgt s)
        = remotely start_error_at_hub (fst (run_build_command_container e (rb_container_name req) (rb_checkout_dir req)
            \<lparr>ce_image = rb_image req, ce_command = rb_command req, ce_env_vars = env, ce_timeout = rb_timeout_secs req\<rparr>
            (Some (log_forwarder rid RunBuildCommandResult)) a))
    | _ \<Rightarrow> True"
proof (cases payload)
  case (StartRunContainer req)
  with assms show ?thesis by (cases req) (simp add: start_remotely)
next
  case (RunBuildCommand req)
  with assms show ?thesis
    by (cases req) (auto simp: build_remotely [where cfg = "\<lparr>bcc_image = _, bcc_command = _, bcc_env_vars = _, bcc_timeout = _\<rparr>", simplified])
qed (use assms in \<open>simp_all add: host_stats_remotely running.remote container_figures.remote removal.remote
      creation.remote deletion.remote directories.remote\<close>)

text \<open>An engine and parsers to run a start with an install command on.\<close>

definition sample_parsers :: agent_externals where
  "sample_parsers = \<lparr>ax_run_parse = (\<lambda>j. if j = ''run'' then Inr (sample_run\<lparr>rc_install_command := Some ''make''\<rparr>) else Inl ''no''),
     ax_env_parse = (\<lambda>j. if j = ''[]'' then Inr [] else Inl ''no''), ax_zip_read = (\<lambda>b. Inl ''no''), ax_host_stats = (\<lambda>_. Inl [])\<rparr>"

definition sample_request :: start_run_container_request where
  "sample_request = \<lparr>sr_deployment_id = ''1'', sr_container_name = ''c'', sr_run_config_json = ''run'', sr_env_vars_json = ''[]'',
     sr_install_timeout_secs = 60\<rparr>"

definition sample_dispatch :: "(unit, unit) outcome \<times> (string \<rightharpoonup> bool) agent" where
  "sample_dispatch = handle_request sample_engine sample_parsers [''a''] 7 (StartRunContainer sample_request) sample_agent"

lemma sample_dispatched: "fst sample_dispatch = Done ()"
proof -
  have "case fst sample_dispatch of Done _ \<Rightarrow> True | _ \<Rightarrow> False" by code_simp
  then show ?thesis by (simp split: outcome.splits)
qed

lemma sample_started:
  "fst (start_container sample_engine ''c'' ''/a/deployments/1/files''
     \<lparr>rcc_image = image_tag Node24, rcc_install_command = Some ''make'', rcc_start_command = ''run'', rcc_env_vars = [],
      rcc_install_timeout = 60\<rparr> (Some (log_forwarder 7 StartRunContainerResult)) sample_agent) = Done ()"
  (is "fst ?run = _")
proof -
  have "case fst ?run of Done _ \<Rightarrow> True | _ \<Rightarrow> False" by code_simp
  then show ?thesis by (simp split: outcome.splits)
qed

lemma sample_files_dir: "path_display (deployment_files_dir_in [''a''] ''1'') = ''/a/deployments/1/files''"
  by code_simp

lemma remote_calls_are_local_witness:
  "fst (start sample_externals (Some 1) ''1'' ''c'' (sample_run\<lparr>rc_install_command := Some ''make''\<rparr>) [] 60 None
     (sample_world\<lparr>agent_script := [Some (replies_since sample_agent (snd sample_dispatch))]\<rparr>)) = Done ()"
proof -
  let ?run = "sample_run\<lparr>rc_install_command := Some ''make''\<rparr>"
  have run: "handle_request sample_engine sample_parsers [''a''] 7 (StartRunContainer sample_request) sample_agent
      = (Done () :: (unit, unit) outcome, snd sample_dispatch)"
    using sample_dispatched unfolding sample_dispatch_def by (simp add: prod_eq_iff)
  show ?thesis
    using remote_calls_are_local [OF run, where x = sample_externals and h = 1 and rest = "[]"
        and s = "sample_world\<lparr>agent_script := [Some (replies_since sample_agent (snd sample_dispatch))]\<rparr>"]
    by (simp add: sample_world_def sample_request_def sample_externals_def sample_parsers_def sample_files_dir)
       (simp add: sample_run_def sample_started)
qed

end
