(* ===== verification/Routes.thy ===== *)
theory Routes
  imports Serve AccessFacts AgentMain
begin

text \<open>
  The route tables: \<open>routes/mod.rs\<close> and the routers of \<open>api.rs\<close>, \<open>users.rs\<close>, \<open>hosts.rs\<close>,
  \<open>auth_routes.rs\<close> and \<open>mcp.rs\<close>, with the dashboard's files (\<open>dashboard_assets.rs\<close>). A router is the list
  of its routes with the layers around each; how axum picks a route - a literal segment before a
  parameter before a wildcard, no empty parameter, GET also for HEAD - is written out. Handlers are
  an argument: what is shown holds for all of them.
\<close>

section \<open>Routers\<close>

datatype seg = Lit string | Param string | Wildcard string

datatype gate = AuthCookie | AuthApi | AuthBearer | SameOrigin | AppAccess

datatype 'e methods = On "(http_method \<times> 'e) list" | Any 'e

record 'e api_route =
  rt_pattern :: "seg list"
  rt_gates :: "gate list"
  rt_methods :: "'e methods"

type_synonym 'e router = "'e api_route list"

definition route_at :: "seg list \<Rightarrow> (http_method \<times> 'e) list \<Rightarrow> 'e api_route" where
  "route_at pattern table = \<lparr>rt_pattern = pattern, rt_gates = [], rt_methods = On table\<rparr>"

definition nest :: "seg list \<Rightarrow> 'e router \<Rightarrow> 'e router" where
  "nest pre router = map (\<lambda>r. r\<lparr>rt_pattern := pre @ rt_pattern r\<rparr>) router"

text \<open>A layer added later is outside of those added before.\<close>

definition route_layer :: "gate \<Rightarrow> 'e router \<Rightarrow> 'e router" where
  "route_layer g router = map (\<lambda>r. r\<lparr>rt_gates := g # rt_gates r\<rparr>) router"

type_synonym params = "(string \<times> string) list"

fun match_segs :: "seg list \<Rightarrow> string list \<Rightarrow> params option" where
  "match_segs [] [] = Some []"
| "match_segs (Lit l # ps) (x # xs) = (if l = x then match_segs ps xs else None)"
| "match_segs (Param n # ps) (x # xs) = (if x = [] then None else map_option ((#) (n, x)) (match_segs ps xs))"
| "match_segs [Wildcard n] (x # xs) =
     (let rest = x @ concat (map (\<lambda>y. CHR ''/'' # y) xs) in if rest = [] then None else Some [(n, rest)])"
| "match_segs _ _ = None"

fun more_specific :: "seg list \<Rightarrow> seg list \<Rightarrow> bool" where
  "more_specific (Lit a # ps) (Lit b # qs) = more_specific ps qs"
| "more_specific (Lit a # ps) qs = True"
| "more_specific (Param a # ps) (Param b # qs) = more_specific ps qs"
| "more_specific (Param a # ps) (Wildcard b # qs) = True"
| "more_specific (Param a # ps) qs = False"
| "more_specific (Wildcard a # ps) qs = False"
| "more_specific [] qs = True"

fun find_route :: "'e router \<Rightarrow> string list \<Rightarrow> ('e api_route \<times> params) option" where
  "find_route [] segs = None"
| "find_route (r # rs) segs =
     (case match_segs (rt_pattern r) segs of
        None \<Rightarrow> find_route rs segs
      | Some ps \<Rightarrow>
         (case find_route rs segs of
            None \<Rightarrow> Some (r, ps)
          | Some (r', ps') \<Rightarrow> if more_specific (rt_pattern r) (rt_pattern r') then Some (r, ps) else Some (r', ps')))"

definition endpoint_for :: "'e methods \<Rightarrow> http_method \<Rightarrow> 'e option" where
  "endpoint_for ms verb =
     (case ms of
        Any e \<Rightarrow> Some e
      | On table \<Rightarrow>
         (case map_of table verb of
            Some e \<Rightarrow> Some e
          | None \<Rightarrow> if verb = HEAD then map_of table GET else None))"

definition allow_header :: "'e methods \<Rightarrow> string" where
  "allow_header ms =
     (let names = concat (map (\<lambda>(v, e). case v of
            GET \<Rightarrow> [''GET'', ''HEAD''] | POST \<Rightarrow> [''POST''] | PATCH \<Rightarrow> [''PATCH''] | DELETE \<Rightarrow> [''DELETE''] | _ \<Rightarrow> [])
          (case ms of On table \<Rightarrow> table | Any e \<Rightarrow> []))
      in tl (concat (map (\<lambda>n. CHR '','' # n) names)))"

section \<open>The tables\<close>

datatype endpoint =
    EpLogin | EpLogout | EpMe
  | EpListApps | EpCreateApp | EpGetApp | EpDeleteApp | EpUpdateApp | EpUpdateAppPermissions
  | EpCreateDeployment | EpListDeployments | EpDeleteDeployment | EpActivateDeployment
  | EpCreateGitDeployment | EpDeploymentLogs | EpDeploymentStats
  | EpListUsers | EpCreateUser | EpChangeOwnPassword | EpListOwnTokens | EpCreateOwnToken
  | EpRevokeOwnToken | EpUpdateUser | EpDeleteUser
  | EpListHosts | EpCreateHost | EpRevokeHost | EpUpdateHostIp | EpHostStats
  | EpMcp | EpRoot | EpDashboard

definition public_router :: "endpoint router" where
  "public_router = [route_at [Lit ''login''] [(POST, EpLogin)], route_at [Lit ''logout''] [(POST, EpLogout)]]"

definition protected_router :: "endpoint router" where
  "protected_router = [route_at [Lit ''me''] [(GET, EpMe)]]"

definition app_scoped :: "endpoint router" where
  "app_scoped = route_layer AppAccess
     [route_at [] [(GET, EpGetApp), (DELETE, EpDeleteApp), (PATCH, EpUpdateApp)],
      route_at [Lit ''permissions''] [(POST, EpUpdateAppPermissions)],
      route_at [Lit ''deployments''] [(POST, EpCreateDeployment), (GET, EpListDeployments)],
      route_at [Lit ''deployments'', Param ''id''] [(DELETE, EpDeleteDeployment)],
      route_at [Lit ''deployments'', Param ''id'', Lit ''activate''] [(POST, EpActivateDeployment)],
      route_at [Lit ''deployments'', Lit ''git''] [(POST, EpCreateGitDeployment)],
      route_at [Lit ''deployments'', Param ''id'', Lit ''logs''] [(GET, EpDeploymentLogs)],
      route_at [Lit ''deployments'', Param ''id'', Lit ''stats''] [(GET, EpDeploymentStats)]]"

definition api_router :: "endpoint router" where
  "api_router =
     route_at [Lit ''apps''] [(GET, EpListApps), (POST, EpCreateApp)] # nest [Lit ''apps'', Param ''app_id''] app_scoped"

definition users_router :: "endpoint router" where
  "users_router =
     [route_at [] [(GET, EpListUsers), (POST, EpCreateUser)],
      route_at [Lit ''me'', Lit ''password''] [(PATCH, EpChangeOwnPassword)],
      route_at [Lit ''me'', Lit ''tokens''] [(GET, EpListOwnTokens), (POST, EpCreateOwnToken)],
      route_at [Lit ''me'', Lit ''tokens'', Param ''id''] [(DELETE, EpRevokeOwnToken)],
      route_at [Param ''username''] [(PATCH, EpUpdateUser), (DELETE, EpDeleteUser)]]"

definition hosts_router :: "endpoint router" where
  "hosts_router =
     [route_at [] [(GET, EpListHosts), (POST, EpCreateHost)],
      route_at [Param ''id''] [(DELETE, EpRevokeHost)],
      route_at [Param ''id'', Lit ''ip''] [(PATCH, EpUpdateHostIp)],
      route_at [Param ''id'', Lit ''stats''] [(GET, EpHostStats)]]"

text \<open>\<open>nest_service\<close> takes the prefix itself, with and without a slash, and everything below it.\<close>

definition mcp_router :: "endpoint router" where
  "mcp_router = route_layer AuthBearer
     (map (\<lambda>pattern. \<lparr>rt_pattern = pattern, rt_gates = [], rt_methods = Any EpMcp\<rparr>)
        [[Lit ''mcp''], [Lit ''mcp'', Lit []], [Lit ''mcp'', Wildcard ''rest'']])"

definition build_router :: "bool \<Rightarrow> endpoint router" where
  "build_router enable_mcp =
     nest [Lit ''api''] public_router
     @ route_layer AuthApi (route_layer SameOrigin (nest [Lit ''api''] api_router))
     @ route_layer AuthCookie (route_layer SameOrigin
         (nest [Lit ''api''] protected_router @ nest [Lit ''api'', Lit ''users''] users_router
          @ nest [Lit ''api'', Lit ''hosts''] hosts_router))
     @ (if enable_mcp then mcp_router else [])
     @ [route_at [Lit []] [(GET, EpRoot)], route_at [Lit ''dashboard''] [(GET, EpDashboard)],
        route_at [Lit ''dashboard'', Lit []] [(GET, EpDashboard)],
        route_at [Lit ''dashboard'', Wildcard ''path''] [(GET, EpDashboard)]]"

section \<open>The dashboard's files\<close>

record asset =
  as_data :: string
  as_mimetype :: string
  as_sha256 :: string

definition hex_encode :: "string \<Rightarrow> string" where
  "hex_encode bytes = concat (map hex_byte bytes)"

definition etag_of :: "asset \<Rightarrow> string" where
  "etag_of asset = [CHR 0x22] @ hex_encode (as_sha256 asset) @ [CHR 0x22]"

definition asset_path :: "string \<Rightarrow> string" where
  "asset_path path =
     (case strip_prefix ''/dashboard/'' path of
        Some p \<Rightarrow> p
      | None \<Rightarrow> (case strip_prefix ''/dashboard'' path of Some p \<Rightarrow> p | None \<Rightarrow> []))"

definition find_asset :: "(string \<rightharpoonup> asset) \<Rightarrow> string \<Rightarrow> asset option" where
  "find_asset assets path =
     (case assets path of
        Some a \<Rightarrow> Some a
      | None \<Rightarrow> if starts_with ''assets/'' path then None else assets ''index.html'')"

definition serve_dashboard :: "(string \<rightharpoonup> asset) \<Rightarrow> string \<Rightarrow> header_map \<Rightarrow> http_response" where
  "serve_dashboard assets uri_path headers =
     (let path = asset_path uri_path; is_hashed_asset = starts_with ''assets/'' path in
      case find_asset assets path of
        None \<Rightarrow> not_found_response
      | Some asset \<Rightarrow>
         (let etag = etag_of asset in
          if map_of headers ''if-none-match'' = Some etag
          then \<lparr>hp_status = 304, hp_headers = [(''etag'', etag)], hp_body = [], hp_pump = None\<rparr>
          else
           (let cache_control = (if is_hashed_asset then ''public, max-age=31536000, immutable'' else ''no-cache'') in
            \<lparr>hp_status = 200,
             hp_headers = [(''content-type'', as_mimetype asset), (''cache-control'', cache_control), (''etag'', etag)],
             hp_body = [as_data asset], hp_pump = None\<rparr>)))"

section \<open>Answering a request\<close>

text \<open>What axum and serde do for the tables: percent-decoding of a parameter and the body of an error.\<close>

record route_lib =
  rl_decode :: "string \<Rightarrow> string option"
  rl_error_body :: "string \<Rightarrow> header_map \<times> string"

definition bad_request :: http_response where
  "bad_request = \<lparr>hp_status = 400, hp_headers = [], hp_body = [], hp_pump = None\<rparr>"

definition method_not_allowed :: "'e methods \<Rightarrow> http_response" where
  "method_not_allowed ms = \<lparr>hp_status = 405, hp_headers = [(''allow'', allow_header ms)], hp_body = [], hp_pump = None\<rparr>"

definition redirect_to_dashboard :: http_response where
  "redirect_to_dashboard = \<lparr>hp_status = 303, hp_headers = [(''location'', ''/dashboard'')], hp_body = [], hp_pump = None\<rparr>"

fun decode_params :: "route_lib \<Rightarrow> params \<Rightarrow> params option" where
  "decode_params rl [] = Some []"
| "decode_params rl ((n, v) # ps) =
     (case rl_decode rl v of
        None \<Rightarrow> None
      | Some d \<Rightarrow> map_option ((#) (n, d)) (decode_params rl ps))"

text \<open>One layer around \<open>next\<close>; the extractors of \<open>enforce_app_access\<close> run in the order of its arguments.\<close>

definition through_gate ::
  "externals \<Rightarrow> route_lib \<Rightarrow> headers \<Rightarrow> http_method \<Rightarrow> params \<Rightarrow> gate \<Rightarrow> http_response hub \<Rightarrow> http_response hub" where
  "through_gate x rl hs verb ps g next =
     (case g of
        AuthCookie \<Rightarrow> require_authenticated hs next
      | AuthApi \<Rightarrow> require_authenticated_bearer_or_cookie x hs next
      | AuthBearer \<Rightarrow> bindc (bearer_user x hs) (\<lambda>_. next)
      | SameOrigin \<Rightarrow> enforce_same_origin verb hs next
      | AppAccess \<Rightarrow>
         (case decode_params rl ps of
            None \<Rightarrow> ret bad_request
          | Some decoded \<Rightarrow>
             bindc (api_user x hs) (\<lambda>user. enforce_app_access x (map_of decoded) user verb next)))"

definition through_gates ::
  "externals \<Rightarrow> route_lib \<Rightarrow> headers \<Rightarrow> http_method \<Rightarrow> params \<Rightarrow> gate list \<Rightarrow> http_response hub \<Rightarrow> http_response hub" where
  "through_gates x rl hs verb ps gates handler = foldr (through_gate x rl hs verb ps) gates handler"

text \<open>An error is answered as \<open>IntoResponse for AppError\<close> says.\<close>

definition answered_errors :: "route_lib \<Rightarrow> http_response hub \<Rightarrow> http_response hub" where
  "answered_errors rl m =
     bindc (attempt m) (\<lambda>r. ret (case r of
       Inr response \<Rightarrow> response
     | Inl err \<Rightarrow>
        (case into_response err of (status, message) \<Rightarrow>
         case rl_error_body rl message of (hs, body) \<Rightarrow>
           \<lparr>hp_status = status, hp_headers = hs, hp_body = [body], hp_pump = None\<rparr>)))"

definition verb_of :: "string \<Rightarrow> http_method" where
  "verb_of m = (if m = ''GET'' then GET else if m = ''HEAD'' then HEAD else if m = ''OPTIONS'' then OPTIONS
     else if m = ''POST'' then POST else if m = ''PUT'' then PUT else if m = ''PATCH'' then PATCH
     else if m = ''DELETE'' then DELETE else OtherMethod m)"

definition uri_path :: "http_request \<Rightarrow> string" where
  "uri_path req =
     (case hq_path_and_query req of
        None \<Rightarrow> []
      | Some pq \<Rightarrow> (case split_once CHR ''?'' pq of Some (p, q) \<Rightarrow> p | None \<Rightarrow> pq))"

definition path_segments :: "string \<Rightarrow> string list" where
  "path_segments path = (case split_on CHR ''/'' path of [] # segs \<Rightarrow> segs | _ \<Rightarrow> [])"

definition headers_of :: "http_lib \<Rightarrow> http_request \<Rightarrow> headers" where
  "headers_of lib req n = (case map_of (hq_headers req) n of Some v \<Rightarrow> hl_to_str lib v | None \<Rightarrow> None)"

type_synonym handlers = "endpoint \<Rightarrow> params \<Rightarrow> http_request \<Rightarrow> http_response hub"

definition run_endpoint :: "(string \<rightharpoonup> asset) \<Rightarrow> handlers \<Rightarrow> handlers" where
  "run_endpoint assets run ep ps req =
     (if ep = EpRoot then ret redirect_to_dashboard
      else if ep = EpDashboard then ret (serve_dashboard assets (uri_path req) (hq_headers req))
      else run ep ps req)"

definition route_request ::
  "externals \<Rightarrow> http_lib \<Rightarrow> route_lib \<Rightarrow> (string \<rightharpoonup> asset) \<Rightarrow> handlers \<Rightarrow> endpoint router \<Rightarrow> http_request
    \<Rightarrow> http_response hub" where
  "route_request x lib rl assets run router req =
     (case find_route router (path_segments (uri_path req)) of
        None \<Rightarrow> ret not_found_response
      | Some (r, ps) \<Rightarrow>
         (let verb = verb_of (hq_method req) in
          through_gates x rl (headers_of lib req) verb ps (rt_gates r)
            (case endpoint_for (rt_methods r) verb of
               None \<Rightarrow> ret (method_not_allowed (rt_methods r))
             | Some ep \<Rightarrow> run_endpoint assets run ep ps req)))"

definition control_plane ::
  "externals \<Rightarrow> http_lib \<Rightarrow> route_lib \<Rightarrow> (string \<rightharpoonup> asset) \<Rightarrow> handlers \<Rightarrow> http_request \<Rightarrow> http_response hub" where
  "control_plane x lib rl assets run req =
     security_headers (answered_errors rl
       (bindc (gets (\<lambda>s. lim_enable_mcp (limits s))) (\<lambda>enable_mcp.
        route_request x lib rl assets run (build_router enable_mcp) req)))"

text \<open>The whole site: the host decides between the control plane and an app.\<close>

definition site ::
  "externals \<Rightarrow> http_lib \<Rightarrow> route_lib \<Rightarrow> serve_dir \<Rightarrow> (string \<rightharpoonup> asset) \<Rightarrow> handlers \<Rightarrow> http_request \<Rightarrow> http_response hub" where
  "site x lib rl serve_dir assets run req =
     dispatch_by_host x lib serve_dir (control_plane x lib rl assets run) req"

section \<open>Who may reach what\<close>

text \<open>\<open>sees s s0\<close>: the gates passed so far have at most dropped an expired session of \<open>s\<close>.\<close>

definition sees :: "world \<Rightarrow> world \<Rightarrow> bool" where
  "sees s s0 \<longleftrightarrow> db s0 = db s \<and> clock_ns s0 = clock_ns s \<and> sessions s0 \<subseteq>\<^sub>m sessions s"

text \<open>\<open>caller m s user\<close>: the credentials name this user, read in such a state.\<close>

definition caller :: "current_user hub \<Rightarrow> world \<Rightarrow> current_user \<Rightarrow> bool" where
  "caller m s user \<longleftrightarrow> (\<exists>s0 s1. sees s s0 \<and> m s0 = (Done user, s1))"

definition entitled :: "externals \<Rightarrow> route_lib \<Rightarrow> headers \<Rightarrow> http_method \<Rightarrow> params \<Rightarrow> world \<Rightarrow> gate \<Rightarrow> bool" where
  "entitled x rl hs verb ps s g \<longleftrightarrow>
     (case g of
        AuthCookie \<Rightarrow> \<exists>user. caller (cookie_user hs) s user
      | AuthApi \<Rightarrow> \<exists>user. caller (api_user x hs) s user
      | AuthBearer \<Rightarrow> \<exists>user. caller (bearer_user x hs) s user
      | SameOrigin \<Rightarrow> verify_same_origin verb hs = Inr ()
      | AppAccess \<Rightarrow> \<exists>user decoded aid. caller (api_user x hs) s user \<and> decode_params rl ps = Some decoded
          \<and> map_of decoded ''app_id'' = Some aid
          \<and> (\<exists>row\<in>set (db_apps (db s)). x_uuid_parse x aid = Some (a_id row) \<and> may_access user verb (a_id row) (db s)))"

lemma sees_refl: "sees s s"
  by (simp add: sees_def)

lemma sees_trans: "sees s t \<Longrightarrow> sees t u \<Longrightarrow> sees s u"
  unfolding sees_def by (metis map_le_trans)

lemma sees_run:
  "leaves db m \<Longrightarrow> leaves clock_ns m \<Longrightarrow> (\<And>S. keeps (\<lambda>s. sessions s \<subseteq>\<^sub>m S) m) \<Longrightarrow> sees s (snd (m s))"
  by (simp add: sees_def leaves_def keeps_def)

lemma keeps_sessions_leaves: "leaves sessions m \<Longrightarrow> keeps (\<lambda>s. sessions s \<subseteq>\<^sub>m S) m"
  by (simp add: keeps_def leaves_def)

lemma keeps_sessions_auth:
  "keeps (\<lambda>s. sessions s \<subseteq>\<^sub>m S) (cookie_user hs)" "keeps (\<lambda>s. sessions s \<subseteq>\<^sub>m S) (api_user x hs)"
  "keeps (\<lambda>s. sessions s \<subseteq>\<^sub>m S) (bearer_user x hs)"
proof -
  have drop: "keeps (\<lambda>s. sessions s \<subseteq>\<^sub>m S) (modify (\<lambda>s. s\<lparr>sessions := (sessions s)(token := None)\<rparr>))" for token
    by (auto simp: keeps_def modify_def map_le_def dom_def)
  have resolve: "keeps (\<lambda>s. sessions s \<subseteq>\<^sub>m S) (resolve_cookie_username hs)"
    unfolding resolve_cookie_username_def by (intro keeps_intros drop)
  have load: "keeps (\<lambda>s. sessions s \<subseteq>\<^sub>m S) (load_current_user n)" for n
    unfolding load_current_user_def by (intro keeps_sessions_leaves leaves_intros; simp)
  have bearer: "keeps (\<lambda>s. sessions s \<subseteq>\<^sub>m S) (load_user_from_bearer x hs)"
    unfolding load_user_from_bearer_def by (intro keeps_sessions_leaves leaves_intros; simp)
  show "keeps (\<lambda>s. sessions s \<subseteq>\<^sub>m S) (cookie_user hs)" "keeps (\<lambda>s. sessions s \<subseteq>\<^sub>m S) (api_user x hs)"
    "keeps (\<lambda>s. sessions s \<subseteq>\<^sub>m S) (bearer_user x hs)"
    unfolding cookie_user_def api_user_def bearer_user_def by (intro keeps_intros resolve load bearer)+
qed

lemma sees_lookups:
  "sees s (snd (cookie_user hs s))" "sees s (snd (api_user x hs s))" "sees s (snd (bearer_user x hs s))"
  "sees s (snd (get_app_by_id x aid s))"
  by (rule sees_run; (rule keeps_sessions_auth | intro leaves_intros keeps_sessions_leaves; simp))+

text \<open>
  An extractor of the caller: all it may do to what the later gates read is to drop an expired
  session. Around a handler it then lets the rest run only for a caller, in a state that sees the
  first one.
\<close>

locale extractor =
  fixes m :: "current_user hub"
  assumes looks_up: "sees s (snd (m s))"
begin

lemma gate:
  assumes "sees s s0"
  shows "(\<exists>user s1. caller m s user \<and> sees s s1 \<and> (\<forall>n :: current_user \<Rightarrow> http_response hub. bindc m n s0 = n user s1))
    \<or> (\<forall>n n' :: current_user \<Rightarrow> http_response hub. bindc m n s0 = bindc m n' s0)"
proof (cases "\<exists>user s1. m s0 = (Done user, s1)")
  case True
  then obtain user s1 where run: "m s0 = (Done user, s1)" by blast
  have "caller m s user" unfolding caller_def using run assms by blast
  moreover have "sees s s1" using sees_trans [OF assms looks_up] by (simp add: run)
  ultimately show ?thesis using bindc_Done [of m, OF run] by blast
next
  case False
  then show ?thesis by (auto simp: bindc_def split: prod.splits outcome.splits)
qed

end

interpretation cookie_caller: extractor "cookie_user hs"
  by unfold_locales (rule sees_lookups)

interpretation api_caller: extractor "api_user x hs"
  by unfold_locales (rule sees_lookups)

interpretation bearer_caller: extractor "bearer_user x hs"
  by unfold_locales (rule sees_lookups)

lemma access_gate:
  assumes "sees s s1" and "caller (api_user x hs) s user" and "decode_params rl ps = Some decoded"
  shows "(entitled x rl hs verb ps s AppAccess \<and> (\<exists>s2. sees s s2 \<and>
        (\<forall>n. enforce_app_access x (map_of decoded) user verb n s1 = n s2)))
    \<or> (\<forall>n n'. enforce_app_access x (map_of decoded) user verb n s1 = enforce_app_access x (map_of decoded) user verb n' s1)"
proof (cases "map_of decoded ''app_id''")
  case None
  then show ?thesis by (simp add: enforce_app_access_def ok_or_def)
next
  case (Some aid)
  show ?thesis
  proof (cases "\<exists>app s2. get_app_by_id x aid s1 = (Done app, s2) \<and> check_app_permission user app (required_level verb) = Inr ()")
    case True
    then obtain app s2 where app: "get_app_by_id x aid s1 = (Done app, s2)"
      and ok: "check_app_permission user app (required_level verb) = Inr ()" by blast
    have "db s1 = db s" using assms(1) by (simp add: sees_def)
    then have "entitled x rl hs verb ps s AppAccess"
      using access_check_Done [OF app ok] assms(2,3) Some by (auto simp: entitled_def)
    moreover have "sees s s2" using sees_trans [OF assms(1) sees_lookups(4) [of s1 x aid]] by (simp add: app)
    moreover have "enforce_app_access x (map_of decoded) user verb n s1 = n s2" for n
      by (simp add: enforce_app_access_def Some ok_or_def bindc_Done [of "get_app_by_id x aid", OF app] ok from_sum_def)
    ultimately show ?thesis by blast
  next
    case False
    then show ?thesis
      by (auto simp: enforce_app_access_def Some ok_or_def bindc_def from_sum_def throw_def
          split: prod.splits outcome.splits sum.splits)
  qed
qed

lemma gate_step:
  assumes "sees s s0"
  shows "(entitled x rl hs verb ps s g \<and> (\<exists>s1. sees s s1 \<and> (\<forall>n. through_gate x rl hs verb ps g n s0 = n s1)))
    \<or> (\<forall>n n'. through_gate x rl hs verb ps g n s0 = through_gate x rl hs verb ps g n' s0)"
proof (cases g)
  case AuthCookie
  then show ?thesis
    using cookie_caller.gate [OF assms, of hs]
    by (fastforce simp: through_gate_def entitled_def require_authenticated_def)
next
  case AuthApi
  then show ?thesis
    using api_caller.gate [OF assms, of x hs]
    by (fastforce simp: through_gate_def entitled_def require_authenticated_bearer_or_cookie_def)
next
  case AuthBearer
  then show ?thesis
    using bearer_caller.gate [OF assms, of x hs]
    by (fastforce simp: through_gate_def entitled_def)
next
  case SameOrigin
  then show ?thesis
    using assms by (cases "verify_same_origin verb hs")
      (auto simp: through_gate_def entitled_def enforce_same_origin_def from_sum_def)
next
  case AppAccess
  show ?thesis
  proof (cases "decode_params rl ps")
    case None
    then show ?thesis using AppAccess by (simp add: through_gate_def)
  next
    case (Some decoded)
    have run: "through_gate x rl hs verb ps g n s0
        = bindc (api_user x hs) (\<lambda>user. enforce_app_access x (map_of decoded) user verb n) s0" for n
      using AppAccess Some by (simp add: through_gate_def)
    from api_caller.gate [OF assms, of x hs]
    show ?thesis
    proof (elim disjE exE conjE)
      fix user s1 assume user: "caller (api_user x hs) s user" "sees s s1" 
        and n: "\<forall>n :: current_user \<Rightarrow> http_response hub. bindc (api_user x hs) n s0 = n user s1"
      show ?thesis
        using access_gate [OF user(2,1) Some, of verb] by (simp add: run [unfolded AppAccess] n AppAccess)
    next
      assume n: "\<forall>n n' :: current_user \<Rightarrow> http_response hub. bindc (api_user x hs) n s0 = bindc (api_user x hs) n' s0"
      show ?thesis unfolding run by (rule disjI2, intro allI) (rule n [rule_format])
    qed
  qed
qed

lemma gates_step:
  "sees s s0 \<Longrightarrow> (\<forall>g\<in>set gs. entitled x rl hs verb ps s g)
    \<or> (\<forall>n n'. through_gates x rl hs verb ps gs n s0 = through_gates x rl hs verb ps gs n' s0)"
proof (induction gs arbitrary: s0)
  case Nil
  then show ?case by simp
next
  case (Cons g gs)
  have run: "through_gates x rl hs verb ps (g # gs) n = through_gate x rl hs verb ps g (through_gates x rl hs verb ps gs n)" for n
    by (simp add: through_gates_def)
  from gate_step [OF Cons.prems, of x rl hs verb ps g] show ?case
  proof (elim disjE exE conjE)
    fix s1 assume "entitled x rl hs verb ps s g" "sees s s1" "\<forall>n. through_gate x rl hs verb ps g n s0 = n s1"
    then show ?thesis using Cons.IH [of s1] by (auto simp: run)
  next
    assume "\<forall>n n'. through_gate x rl hs verb ps g n s0 = through_gate x rl hs verb ps g n' s0"
    then show ?thesis by (auto simp: run)
  qed
qed

text \<open>The layers an endpoint is meant to be behind.\<close>

definition required_gates :: "endpoint \<Rightarrow> gate list" where
  "required_gates ep =
     (if ep \<in> {EpLogin, EpLogout, EpRoot, EpDashboard} then []
      else if ep = EpMcp then [AuthBearer]
      else if ep \<in> {EpListApps, EpCreateApp} then [AuthApi, SameOrigin]
      else if ep \<in> {EpGetApp, EpDeleteApp, EpUpdateApp, EpUpdateAppPermissions, EpCreateDeployment, EpListDeployments,
        EpDeleteDeployment, EpActivateDeployment, EpCreateGitDeployment, EpDeploymentLogs, EpDeploymentStats}
      then [AuthApi, SameOrigin, AppAccess]
      else [AuthCookie, SameOrigin])"

definition endpoints_of :: "'e methods \<Rightarrow> 'e list" where
  "endpoints_of ms = (case ms of On table \<Rightarrow> map snd table | Any e \<Rightarrow> [e])"

definition well_gated :: "endpoint api_route \<Rightarrow> bool" where
  "well_gated r \<longleftrightarrow> list_all (\<lambda>ep. rt_gates r = required_gates ep) (endpoints_of (rt_methods r))"

lemma tables_well_gated: "list_all well_gated (build_router b)"
proof -
  have "list_all well_gated (build_router True)" "list_all well_gated (build_router False)" by code_simp+
  then show ?thesis by (cases b) simp_all
qed

lemma find_route_in: "find_route router segs = Some (r, ps) \<Longrightarrow> r \<in> set router"
  by (induction router segs rule: find_route.induct) (auto split: option.splits if_splits)

lemma endpoint_for_in: "endpoint_for ms verb = Some ep \<Longrightarrow> ep \<in> set (endpoints_of ms)"
  by (auto simp: endpoint_for_def endpoints_of_def split: methods.splits option.splits if_splits dest!: map_of_SomeD intro: rev_image_eqI)

text \<open>The endpoint a request is routed to and the parameters in its path.\<close>

definition routed :: "bool \<Rightarrow> http_request \<Rightarrow> (endpoint \<times> params) option" where
  "routed enable_mcp req =
     (case find_route (build_router enable_mcp) (path_segments (uri_path req)) of
        None \<Rightarrow> None
      | Some (r, ps) \<Rightarrow> map_option (\<lambda>ep. (ep, ps)) (endpoint_for (rt_methods r) (verb_of (hq_method req))))"

lemma route_request_gated:
  "(\<exists>ep ps. routed b req = Some (ep, ps)
      \<and> (\<forall>g\<in>set (required_gates ep). entitled x rl (headers_of lib req) (verb_of (hq_method req)) ps s g))
   \<or> (\<forall>run'. route_request x lib rl assets run' (build_router b) req s = route_request x lib rl assets run (build_router b) req s)"
proof (cases "find_route (build_router b) (path_segments (uri_path req))")
  case None
  then show ?thesis by (simp add: route_request_def)
next
  case (Some rps)
  obtain r ps where rps: "rps = (r, ps)" by fastforce
  show ?thesis
  proof (cases "endpoint_for (rt_methods r) (verb_of (hq_method req))")
    case None
    then show ?thesis using Some rps by (simp add: route_request_def)
  next
    case (Some ep)
    have "well_gated r"
      using tables_well_gated [of b] find_route_in [OF \<open>find_route _ _ = Some rps\<close> [unfolded rps]] by (simp add: list_all_iff)
    then have "rt_gates r = required_gates ep"
      using endpoint_for_in [OF Some] by (simp add: well_gated_def list_all_iff)
    then show ?thesis
      using gates_step [OF sees_refl, of "required_gates ep" x rl "headers_of lib req" "verb_of (hq_method req)" ps s]
        Some \<open>find_route _ _ = Some rps\<close>
      by (auto simp: route_request_def routed_def rps Let_def)
  qed
qed

section \<open>The dashboard's cache\<close>

text \<open>What a browser is told to keep for ever is a file under \<open>assets/\<close> under its own name.\<close>

lemma dashboard_revalidates:
  assumes "serve_dashboard assets p hs = response" and "hp_status response = 200"
  shows "\<exists>asset. find_asset assets (asset_path p) = Some asset \<and> hp_body response = [as_data asset]
      \<and> map_of (hp_headers response) ''etag'' = Some (etag_of asset)
      \<and> (map_of (hp_headers response) ''cache-control'' = Some ''public, max-age=31536000, immutable''
         \<longleftrightarrow> starts_with ''assets/'' (asset_path p) \<and> assets (asset_path p) = Some asset)
      \<and> hp_status (serve_dashboard assets p [(''if-none-match'', etag_of asset)]) = 304"
  using assms
  by (auto simp: serve_dashboard_def Let_def find_asset_def not_found_response_def split: option.splits if_splits)

section \<open>Properties\<close>

text \<open>C3 The whole site: a handler of the control plane runs only if the request came to the
  control plane's own host, was routed to that handler, and passed every layer the handler is
  meant to be behind - a session cookie for accounts and hosts, a cookie or a token for apps, a
  token for the tools, the same origin for whatever changes state, and for the routes of an app
  a permission on the very app in the path. Otherwise the answer and what is left behind are the
  same whatever the handlers do.\<close>

theorem handlers_run_only_behind_their_gates:
  "(\<exists>host ep ps. resolve_host lib req = Some host \<and> classify_host host (lim_base_domain (limits s)) = ControlPlane
      \<and> routed (lim_enable_mcp (limits s)) req = Some (ep, ps)
      \<and> (\<forall>g\<in>set (required_gates ep). entitled x rl (headers_of lib req) (verb_of (hq_method req)) ps s g))
   \<or> (\<forall>run'. site x lib rl serve_dir assets run' req s = site x lib rl serve_dir assets run req s)"
proof (cases "\<exists>host. resolve_host lib req = Some host \<and> classify_host host (lim_base_domain (limits s)) = ControlPlane")
  case True
  then obtain host where host: "resolve_host lib req = Some host"
    "classify_host host (lim_base_domain (limits s)) = ControlPlane" by blast
  have site: "site x lib rl serve_dir assets run' req s = control_plane x lib rl assets run' req s" for run'
    by (simp add: site_def dispatch_by_host_def host)
  have plane: "control_plane x lib rl assets run' req s
      = control_plane x lib rl assets run req s" if "route_request x lib rl assets run' (build_router (lim_enable_mcp (limits s))) req s
      = route_request x lib rl assets run (build_router (lim_enable_mcp (limits s))) req s" for run'
    by (simp add: control_plane_def security_headers_def answered_errors_def bindc_def [of _ _ s] attempt_def gets_def that)
  show ?thesis
    using route_request_gated [of "lim_enable_mcp (limits s)" req x rl lib s assets run] host plane unfolding site by blast
next
  case False
  then show ?thesis
    by (auto simp: site_def dispatch_by_host_def split: option.split host_match.split)
qed

definition plain_lib :: http_lib where
  "plain_lib = \<lparr>hl_to_str = Some, hl_header_check = (\<lambda>n v. Inr ()), hl_status_ok = (\<lambda>n. True), hl_parse_uri = Inr, hl_parse_method = Inr\<rparr>"

definition plain_route_lib :: route_lib where
  "plain_route_lib = \<lparr>rl_decode = Some, rl_error_body = (\<lambda>m. ([], m))\<rparr>"

definition anonymous_request :: http_request where
  "anonymous_request = \<lparr>hq_method = ''DELETE'', hq_path_and_query = Some ''/api/apps/1?x'', hq_authority = None,
     hq_headers = [(''host'', ''example.com'')], hq_body = []\<rparr>"

lemma anonymous_routed: "routed b anonymous_request = Some (EpDeleteApp, [(''app_id'', ''1'')])"
proof -
  have "routed True anonymous_request = Some (EpDeleteApp, [(''app_id'', ''1'')])"
    "routed False anonymous_request = Some (EpDeleteApp, [(''app_id'', ''1'')])"
    by code_simp+
  then show ?thesis by (cases b) simp_all
qed

lemma anonymous_caller: "\<not> caller (api_user x (headers_of plain_lib anonymous_request)) s user"
proof -
  have "headers_of plain_lib anonymous_request ''authorization'' = None" "headers_of plain_lib anonymous_request ''cookie'' = None"
    by (simp_all add: headers_of_def anonymous_request_def)
  then show ?thesis
    by (simp add: caller_def api_user_def load_user_from_bearer_def bearer_token_def resolve_cookie_username_def
        cookie_value_def ok_or_def throw_def)
qed

lemma handlers_run_only_behind_their_gates_witness:
  "\<forall>run run'. site sample_externals plain_lib plain_route_lib (\<lambda>dir t req. Inl []) Map.empty run' anonymous_request sample_world
   = site sample_externals plain_lib plain_route_lib (\<lambda>dir t req. Inl []) Map.empty run anonymous_request sample_world"
proof (intro allI)
  fix run run' :: handlers
  have "\<not> (\<exists>host ep ps. resolve_host plain_lib anonymous_request = Some host
      \<and> classify_host host (lim_base_domain (limits sample_world)) = ControlPlane
      \<and> routed (lim_enable_mcp (limits sample_world)) anonymous_request = Some (ep, ps)
      \<and> (\<forall>g\<in>set (required_gates ep). entitled sample_externals plain_route_lib (headers_of plain_lib anonymous_request)
           (verb_of (hq_method anonymous_request)) ps sample_world g))"
    by (auto simp: anonymous_routed required_gates_def entitled_def anonymous_caller)
  then show "site sample_externals plain_lib plain_route_lib (\<lambda>dir t req. Inl []) Map.empty run' anonymous_request sample_world
   = site sample_externals plain_lib plain_route_lib (\<lambda>dir t req. Inl []) Map.empty run anonymous_request sample_world"
    using handlers_run_only_behind_their_gates [of plain_lib anonymous_request sample_world sample_externals plain_route_lib
        "\<lambda>dir t req. Inl []" Map.empty run] by blast
qed

end
