(* ===== verification/Upkeep.thy ===== *)
theory Upkeep
  imports AgentHandlers Startup
begin

text \<open>
  What runs beside the request path: reloading the HTTPS certificate (\<open>tls.rs\<close>), the agent's
  figures (\<open>berth-agent/src/host_stats.rs\<close>) and its start (\<open>main\<close> of \<open>berth-agent/src/main.rs\<close>). What a poll finds on disk is a value of \<open>tls_disk\<close>:
  the modification times of the two files and what rustls makes of their contents.
\<close>

section \<open>The HTTPS certificate\<close>

record 'c tls_disk =
  td_mtime :: "path \<Rightarrow> nat option"
  td_load :: "path \<Rightarrow> path \<Rightarrow> string + 'c"

definition build_rustls_config :: "'c tls_disk \<Rightarrow> path \<Rightarrow> path \<Rightarrow> string + 'c" where
  "build_rustls_config disk cert_path key_path =
     (case td_load disk cert_path key_path of
        Inr config \<Rightarrow> Inr config
      | Inl err \<Rightarrow> Inl (''failed to load TLS cert/key from '' @ path_display cert_path @ '' / '' @ path_display key_path))"

definition combined_mtime :: "'c tls_disk \<Rightarrow> path \<Rightarrow> path \<Rightarrow> (nat \<times> nat) option" where
  "combined_mtime disk cert_path key_path =
     (case td_mtime disk cert_path of
        None \<Rightarrow> None
      | Some cert_mtime \<Rightarrow> (case td_mtime disk key_path of None \<Rightarrow> None | Some key_mtime \<Rightarrow> Some (cert_mtime, key_mtime)))"

text \<open>One poll: the configuration in use and the time to compare with next.\<close>

definition check_and_reload ::
  "'c tls_disk \<Rightarrow> path \<Rightarrow> path \<Rightarrow> 'c \<times> (nat \<times> nat) option \<Rightarrow> 'c \<times> (nat \<times> nat) option" where
  "check_and_reload disk cert_path key_path st =
     (case st of (config, last_seen) \<Rightarrow>
      (let current = combined_mtime disk cert_path key_path in
       if current = last_seen then (config, last_seen)
       else (case td_load disk cert_path key_path of Inr config' \<Rightarrow> config' | Inl err \<Rightarrow> config, current)))"

text \<open>The watcher, over what each poll finds; the first element is what is there when it is spawned.\<close>

fun reload_watcher :: "path \<Rightarrow> path \<Rightarrow> 'c \<Rightarrow> 'c tls_disk list \<Rightarrow> 'c \<times> (nat \<times> nat) option" where
  "reload_watcher cert_path key_path config [] = (config, None)"
| "reload_watcher cert_path key_path config (disk # disks) =
     fold (\<lambda>d. check_and_reload d cert_path key_path) disks (config, combined_mtime disk cert_path key_path)"

section \<open>Disk figures\<close>

record disk =
  dk_mount_point :: path
  dk_total_space :: u64
  dk_available_space :: u64

text \<open>\<open>Iterator::max_by_key\<close>: of the largest, the last.\<close>

fun max_by_key :: "('a \<Rightarrow> nat) \<Rightarrow> 'a list \<Rightarrow> 'a option" where
  "max_by_key f [] = None"
| "max_by_key f (a # as) =
     (case max_by_key f as of None \<Rightarrow> Some a | Some b \<Rightarrow> if f b < f a then Some a else Some b)"

definition mount_length :: "disk \<Rightarrow> nat" where
  "mount_length d = (if dk_mount_point d = [] then 1 else length (path_display (dk_mount_point d)))"

definition disk_usage :: "disk list \<Rightarrow> path \<Rightarrow> u64 \<times> u64" where
  "disk_usage disks dir =
     (case max_by_key mount_length (filter (\<lambda>d. prefix (dk_mount_point d) dir) disks) of
        None \<Rightarrow> (0, 0)
      | Some d \<Rightarrow> (sat_sub_u64 (dk_total_space d) (dk_available_space d), dk_total_space d))"

text \<open>What \<open>sysinfo\<close> reports of the host at the second sample.\<close>

record system =
  sy_cpu :: "32 word"
  sy_cores :: "32 word list"
  sy_used_memory :: u64
  sy_total_memory :: u64
  sy_disks :: "disk list"

definition collect_blocking :: "system \<Rightarrow> path \<Rightarrow> host_stats" where
  "collect_blocking sys dir =
     (case disk_usage (sy_disks sys) dir of (disk_usage_bytes, disk_total_bytes) \<Rightarrow>
      \<lparr>hs_cpu_percent = sy_cpu sys, hs_cpu_per_core_percent = sy_cores sys,
       hs_memory_usage_bytes = sy_used_memory sys, hs_memory_total_bytes = sy_total_memory sys,
       hs_disk_usage_bytes = disk_usage_bytes, hs_disk_total_bytes = disk_total_bytes\<rparr>)"

section \<open>The agent's start\<close>

text \<open>Up to the loop that dials the hub; building the client of the engine is a call that may fail.\<close>

definition start_agent :: "'d engine \<Rightarrow> agent_config \<Rightarrow> ('d, string, path) agent_comp" where
  "start_agent e config =
     bindc (sio (create_dir_all (ac_data_dir config))) (\<lambda>_.
     bindc (sio (canonicalize (ac_data_dir config))) (\<lambda>dir.
     bindc (sio (create_dir_all (tmp_dir_in dir))) (\<lambda>_.
     bindc (ext_call (\<lambda>_. ''failed to build Podman client'') (ret ())) (\<lambda>_.
     bindc (context_of ''failed to ensure the run-mode container network exists'' (ensure_network e)) (\<lambda>_.
     ret dir)))))"

section \<open>Facts\<close>

text \<open>An agent that has started has the tree its file operations rely on.\<close>

lemma keeps_dirs_engine: "keeps (\<lambda>s. dirs_in D (fs s)) (engine_call f)"
  unfolding engine_call_def
  by (intro keeps_ext_call keepsI) (auto split: prod.splits sum.splits)

lemma keeps_dirs_network: "keeps (\<lambda>s. dirs_in D (fs s)) (ensure_network e)"
  unfolding ensure_network_def by (intro keeps_intros keeps_dirs_engine)

lemma start_agent_prepares_tree:
  assumes "dirs_in {} (fs s)" and "start_agent e config s = (Done dir, s')"
  shows "dir = ac_data_dir config \<and> agent_tree dir s'"
proof -
  obtain s1 s2 s3 s4 s5 where
    run: "create_dir_all (ac_data_dir config) s = (Done (), s1)" "canonicalize (ac_data_dir config) s1 = (Done dir, s2)"
      "create_dir_all (tmp_dir_in dir) s2 = (Done (), s3)"
      "ext_call (\<lambda>_. ''failed to build Podman client'') (ret ()) s3 = (Done (), s4)"
      "context_of ''failed to ensure the run-mode container network exists'' (ensure_network e) s4 = (Done (), s')"
    using assms(2) unfolding start_agent_def by (elim bindc_DoneE) (auto simp: sio_Done ret_def)
  have dir: "dir = ac_data_dir config" using canonicalize_Done [OF run(2)] by simp
  have "dirs_in {dir} (fs s1)"
    using keeps_run [OF keeps_create_all run(1) assms(1)] create_dir_all_effect [OF run(1)]
    by (auto simp: dirs_in_insert is_dir_def dir)
  then have "dirs_in {dir} (fs s2)" by (rule keeps_run [OF keeps_dirs_read(2) run(2)])
  then have "dirs_in {dir} (fs s3)" by (rule keeps_run [OF keeps_create_all run(3)])
  moreover have "is_dir (fs s3) (tmp_dir_in dir)"
    using create_dir_all_effect [OF run(3)] by (auto simp: is_dir_def)
  ultimately have "dirs_in {tmp_dir_in dir, dir} (fs s3)" by (simp add: dirs_in_insert)
  then have "dirs_in {tmp_dir_in dir, dir} (fs s4)"
    using run(4) by (elim ext_call_cases) (auto simp: ret_def)
  moreover have "keeps (\<lambda>s. dirs_in {tmp_dir_in dir, dir} (fs s)) (context_of t (ensure_network e))" for t
    unfolding context_of_def by (intro keeps_intros keeps_dirs_network)
  note keeps_run [OF this run(5)]
  ultimately have "dirs_in {tmp_dir_in dir, dir} (fs s')" by blast
  then show ?thesis by (simp add: dir agent_tree_def insert_commute)
qed


text \<open>A renewed certificate that can be loaded when it is first seen is in use from then on.\<close>

lemma renewed_certificate_is_used:
  assumes "combined_mtime d c k \<noteq> seen" and "td_load d c k = Inr config'"
  shows "fold (\<lambda>d. check_and_reload d c k) (d # replicate n d) (config, seen) = (config', combined_mtime d c k)"
proof -
  have "fold (\<lambda>d. check_and_reload d c k) (replicate n d) (config', combined_mtime d c k) = (config', combined_mtime d c k)"
    by (induction n) (simp_all add: check_and_reload_def)
  then show ?thesis using assms by (simp add: check_and_reload_def)
qed

text \<open>
  A certificate whose first load fails, though the failure passes, is not tried again before the
  files change once more.
\<close>

lemma failed_reload_is_not_retried:
  assumes "combined_mtime d c k \<noteq> seen" and "td_load d c k = Inl err"
    and "list_all (\<lambda>d'. combined_mtime d' c k = combined_mtime d c k) disks"
  shows "fold (\<lambda>d. check_and_reload d c k) (d # disks) (config, seen) = (config, combined_mtime d c k)"
proof -
  have "fold (\<lambda>d. check_and_reload d c k) disks (config, combined_mtime d c k) = (config, combined_mtime d c k)"
    using assms(3) by (induction disks) (simp_all add: check_and_reload_def)
  then show ?thesis using assms(1,2) by (simp add: check_and_reload_def)
qed

lemma max_by_key_None: "max_by_key f as = None \<longleftrightarrow> as = []"
  by (cases as) (auto split: option.split)

lemma max_by_key_Some: "max_by_key f as = Some m \<Longrightarrow> m \<in> set as \<and> (\<forall>a\<in>set as. f a \<le> f m)"
proof (induction as arbitrary: m)
  case (Cons a as)
  show ?case
  proof (cases "max_by_key f as")
    case None
    then show ?thesis using Cons.prems by (simp add: max_by_key_None)
  next
    case (Some b)
    have b: "b \<in> set as" "\<And>c. c \<in> set as \<Longrightarrow> f c \<le> f b" using Cons.IH [OF Some] by simp_all
    show ?thesis
    proof (cases "f b < f a")
      case True
      then have "m = a" using Cons.prems Some by simp
      moreover have "f c \<le> f a" if "c \<in> set as" for c using b(2) [OF that] True by simp
      ultimately show ?thesis by simp
    next
      case False
      then have "m = b" using Cons.prems Some by simp
      then show ?thesis using b False by simp
    qed
  qed
qed simp

text \<open>The figures are those of a disk the directory is on, of the deepest such mount, and consistent.\<close>

lemma disk_usage_of_deepest_mount:
  "disk_usage disks dir = (used, tot) \<Longrightarrow> used \<le> tot
    \<and> ((\<exists>d\<in>set disks. prefix (dk_mount_point d) dir) \<longrightarrow>
       (\<exists>d\<in>set disks. prefix (dk_mount_point d) dir \<and> tot = dk_total_space d
          \<and> (\<forall>d'\<in>set disks. prefix (dk_mount_point d') dir \<longrightarrow> mount_length d' \<le> mount_length d)))"
proof -
  assume run: "disk_usage disks dir = (used, tot)"
  let ?on = "filter (\<lambda>d. prefix (dk_mount_point d) dir) disks"
  show ?thesis
  proof (cases "max_by_key mount_length ?on")
    case None
    then have "?on = []" by (simp add: max_by_key_None)
    then show ?thesis using run None by (auto simp: disk_usage_def filter_empty_conv)
  next
    case (Some d)
    have "d \<in> set ?on" "\<forall>a\<in>set ?on. mount_length a \<le> mount_length d"
      using max_by_key_Some [OF Some] by simp_all
    moreover have "sat_sub_u64 a b \<le> a" for a b :: u64
      by (simp add: sat_sub_u64_def word_le_nat_alt unat_sub)
    ultimately show ?thesis using run Some by (auto simp: disk_usage_def)
  qed
qed

end
