(* ===== verification/Spec2Isabelle.thy ===== *)
theory Spec2Isabelle
  imports Lifecycle AccessFacts FlowFacts AgentLink AgentSession Zip GitFetch LogFacts
    AgentFiles AgentContainers AgentHandlers StartFacts ServeFacts Mcp Shipping RemoteCalls Routes Upkeep
begin

text \<open>
  A verification development for Berth, a self-hosted platform that deploys web apps. A hub
  (\<open>src/berth-hub\<close>) has an HTTP API with a dashboard, a database, a file tree with the deployments,
  and serves the apps by host name. One agent per host (\<open>src/berth-agent\<close>) dials the hub over gRPC,
  keeps a tree of deployments of its own, runs their containers and relays HTTP requests to them.

  How the program is modelled. An operation is a computation (\<open>Prelude\<close>): a function from the state
  before to an outcome - a value, an error of the code's own error type, or a crash - and the state
  after. Every call to the outside (a system call, a database statement, a request to an agent or
  to the container engine) is an \<open>ext_call\<close>: a script of faults in the state decides whether it is
  made, fails, or is the last thing the process does. A statement about all scripts is thus one
  about every error path and about a crash at every point, and a state left by a crash is what the
  next start finds. The file system (\<open>Filesystem\<close>) is a list of paths with directories and files and
  the POSIX rules for them, without symbolic links; a call that fails has changed nothing, except
  that appending writes byte by byte and may stop in the midst (\<open>Logs\<close>). A database (\<open>Tables\<close>, \<open>World\<close>) is six tables with their unique indexes
  and transactions. Crates are the fields of \<open>externals\<close>, \<open>agent_externals\<close>, \<open>http_lib\<close>, \<open>engine\<close> and
  the like, arguments of what uses them; a theorem states what it needs of them. Machine integers
  are words of their width; ids of database rows are \<open>int\<close>, as the database has them.

  Which theory models which part (paths under \<open>src/\<close>):
  - \<open>Rust_Std\<close>: the string, number and UTF-8 operations of Rust's library that the code uses.
  - \<open>Models\<close>: \<open>berth-models\<close>, the shared types and validators. \<open>Errors\<close>: \<open>error.rs\<close>. \<open>Proto\<close>: the
    messages of the agent protocol. \<open>Tables\<close>: \<open>berth-db/src/models.rs\<close>. \<open>World\<close>: \<open>state.rs\<close>.
  - \<open>Accounts\<close>, \<open>TokenStore\<close>, \<open>Auth\<close>: \<open>accounts.rs\<close>, \<open>api_tokens.rs\<close>, \<open>secrets.rs\<close>, \<open>authz.rs\<close>, \<open>auth.rs\<close>
    and the token and host part of \<open>storage.rs\<close>. \<open>UserRoutes\<close>: \<open>routes/users.rs\<close>, \<open>hosts.rs\<close>,
    \<open>auth_routes.rs\<close>, \<open>host_stats.rs\<close>.
  - \<open>Rows\<close>, \<open>AppStore\<close>, \<open>DeploymentStore\<close>: the apps and deployments of \<open>storage.rs\<close>. \<open>Zip\<close>,
    \<open>GitFetch\<close>, \<open>Net\<close>: \<open>zip_extract.rs\<close>, \<open>git_fetch.rs\<close>. \<open>Logs\<close>, \<open>LogFacts\<close>: \<open>deployment_logs.rs\<close>.
  - \<open>AgentCalls\<close>: \<open>containers.rs\<close> and \<open>agent_fs.rs\<close>. \<open>Deploy\<close>: \<open>routes/api.rs\<close>. \<open>Reconcile\<close>:
    \<open>reconcile.rs\<close>. \<open>Runs\<close>: the detached git deployment. \<open>Mcp\<close>: \<open>routes/mcp.rs\<close>.
  - \<open>Http\<close>, \<open>Serve\<close>: \<open>routes/apps.rs\<close>, \<open>host_routing.rs\<close> and the layers of \<open>routes/mod.rs\<close>. \<open>Routes\<close>:
    the route tables and \<open>dashboard_assets.rs\<close>. \<open>Upkeep\<close>: \<open>tls.rs\<close>, the agent's \<open>host_stats.rs\<close>, its start.
  - \<open>AgentLink\<close>, \<open>AgentSession\<close>: \<open>agent_link.rs\<close>, \<open>grpc.rs\<close>, as a step relation whose steps are the
    critical sections, so that calls, the time-out and a disconnection interleave in every order.
  - \<open>Startup\<close>: \<open>main.rs\<close> of the hub, \<open>agent_tls.rs\<close>, \<open>berth-config\<close>, the migrations of \<open>berth-db\<close>.
  - \<open>AgentFiles\<close>: \<open>fs_ops.rs\<close>, \<open>layout.rs\<close>, \<open>zip_extract.rs\<close> of the agent. \<open>AgentContainers\<close>: its
    \<open>containers.rs\<close>. \<open>AgentHandlers\<close>, \<open>Relay\<close>: \<open>handlers.rs\<close>, \<open>relay.rs\<close>. \<open>AgentMain\<close>: \<open>main.rs\<close>, \<open>hub_tls.rs\<close>.
  \<open>Sample\<close> has the concrete states of the witnesses; \<open>Subtree\<close> the trees below a path and what an
  archive puts into one, for the hub and the agent alike.

  What the lemmas show. \<open>Consistency\<close> and \<open>Lifecycle\<close>: the database and the file tree agree in every
  state that requests, background tasks, crashes and restarts can reach, in any order, with one
  exception that the theorem names: a deletion of the active deployment whose id is spelled in
  another way than the hub prints it (\<open>respelled\<close>) removes the row the app still points to. The
  sweep at start-up is characterised exactly there. \<open>DeployFacts\<close>, \<open>FlowFacts\<close>: what uploads,
  activations and deletions do on each of their branches. \<open>LogFacts\<close>: the run log over the life of
  its pump, its bound on disk and the backlog it leaves. \<open>Zip\<close>, \<open>Subtree\<close>: unpacking puts exactly
  the archive's tree over what was there. \<open>UserSafety\<close>, \<open>AccessFacts\<close>, \<open>Auth\<close>, \<open>TokenStore\<close>: who is let
  in, and for how long; sequences of account requests are requests one after another (see below). \<open>Routes\<close>: no handler runs before
  the layers its endpoint needs, for the whole site. \<open>AgentLink\<close>: the concurrent link refines the
  call that \<open>World\<close> has in one step, and one-shot calls return as long as the transport goes on
  taking messages from the bounded channel to the agent (sending into a full channel waits, and
  has no time-out). \<open>AgentFiles\<close>: the agent's directories
  refine a map, whatever fails in them. \<open>Shipping\<close>, \<open>RemoteCalls\<close>, \<open>ServeFacts\<close>: the two ends composed -
  a deployment arrives as it was sent, a call is the agent's own operation, a relayed request and
  its answer pass unchanged. \<open>StartFacts\<close>, \<open>ReconnectFacts\<close>: the hub's start and the agent's
  reconnection; both the hub's identity and the agent's pin are lost when their files cannot be
  read, which the theorems state and lemmas of theirs show. \<open>Mcp\<close>: all ten tools do what the
  routes do, down to the text of a failed log request.

  Interfaces are locales, each interpreted on the code's model where it is provided: a table with a
  unique key (\<open>Tables\<close>), a store of directories (\<open>AgentFiles\<close>), a call with one reply between its two
  ends (\<open>RemoteCalls\<close>), an extractor of the caller of a request (\<open>Routes\<close>).

  Bounds and fuel. The walks \<open>add_dir_to_zip\<close> and \<open>dir_size_bytes\<close> take one more than the depth of the
  tree as fuel, which is never used up (\<open>Shipping.walks_have_fuel\<close>); \<open>reconnect_loop\<close> takes the number
  of attempts to look at, and the theorem about it holds for all numbers. All other loops of the
  code recurse on the data they consume.

  Not modelled, and why. The driver behind \<open>toasty\<close> and the opening of the database file: a
  statement either takes effect or fails. The hub's write lock and the semaphore on git fetches:
  operations of the hub run one after another, at the granularity of a handler or a spawned task
  (the handlers of \<open>users.rs\<close> take no lock: two administrators who remove each other at the same
  moment are not covered);
  within the link, where the code has its own locking, the steps are the critical sections.
  Symbolic links: a checkout of a repository may hold them, and a publish directory that is one
  leads out of the checkout. Streams of payloads and bodies are lists of what arrives.
  Sockets, the gRPC and HTTPS servers, TLS signatures, tracing and the spawning of tasks; the
  sampling of \<open>sysinfo\<close>; the wire encodings. Floating-point figures are uninterpreted words.
  \<open>xtask\<close> and the generated protocol code are build tooling.
\<close>

end
